(* ===== verification/Prelude.thy ===== *)
theory Prelude
  imports Main "HOL-Library.Sublist" "HOL-Library.AList" "HOL-Library.List_Lexorder"
    "HOL-Library.Char_ord" "HOL-Library.Code_Target_Nat"
begin

text \<open>
  The vocabulary every component shares: the JSON values that travel between the gateway, the
  node and Home Assistant; Python dictionaries as association lists in insertion order; the
  string methods of Python the node uses; the reply dictionaries of the command handlers; and
  the lemma collections the component theories add to.

  A model string is a \<open>char list\<close>, a Python string with code points below 256. The two
  places where larger code points matter (canonical JSON and the rendering of an argument
  vector) work on lists of code points instead; the type of JSON values is polymorphic in the
  string type for that reason.
\<close>

named_theorems tables \<open>the constant tables of the policy modules, unfolded for evaluation\<close>
named_theorems handler_defs \<open>definitions of guards and handlers that proofs unfold together\<close>

subsection \<open>JSON values\<close>

text \<open>
  A finite float carries the two views Python gives of it: its \<open>repr\<close> text and its exact
  value as \<open>as_integer_ratio\<close> gives it (denominator positive). Which digits \<open>repr\<close> picks
  is the interpreter's business; no definition below depends on it.
\<close>

datatype pyfloat = FFin (frepr: string) (fratio: "int \<times> int") | FInf bool | FNaN

datatype 's json =
    JNull
  | JBool bool
  | JInt int
  | JFloat pyfloat
  | JStr 's
  | JList "'s json list"
  | JObj "('s \<times> 's json) list"

type_synonym jval = "string json"
type_synonym dict = "(string \<times> jval) list"

fun finite_float :: "pyfloat \<Rightarrow> bool" where
  "finite_float (FFin _ _) = True"
| "finite_float _ = False"

text \<open>\<open>isinstance(value, str)\<close> and its kin; a Python bool is also an int.\<close>

fun is_str :: "'s json \<Rightarrow> bool" where
  "is_str (JStr _) = True"
| "is_str _ = False"

fun is_dict :: "'s json \<Rightarrow> bool" where
  "is_dict (JObj _) = True"
| "is_dict _ = False"

fun is_list :: "'s json \<Rightarrow> bool" where
  "is_list (JList _) = True"
| "is_list _ = False"

fun is_bool :: "'s json \<Rightarrow> bool" where
  "is_bool (JBool _) = True"
| "is_bool _ = False"

fun is_nonempty_str :: "'a list json \<Rightarrow> bool" where
  "is_nonempty_str (JStr s) = (s \<noteq> [])"
| "is_nonempty_str _ = False"

text \<open>\<open>bool(value)\<close>.\<close>

fun truthy :: "'a list json \<Rightarrow> bool" where
  "truthy JNull = False"
| "truthy (JBool b) = b"
| "truthy (JInt i) = (i \<noteq> 0)"
| "truthy (JFloat (FFin _ r)) = (fst r \<noteq> 0)"
| "truthy (JFloat _) = True"
| "truthy (JStr s) = (s \<noteq> [])"
| "truthy (JList xs) = (xs \<noteq> [])"
| "truthy (JObj d) = (d \<noteq> [])"

lemma is_str_iff: "is_str v \<longleftrightarrow> (\<exists>s. v = JStr s)"
  by (cases v) auto

lemma is_dict_iff: "is_dict v \<longleftrightarrow> (\<exists>d. v = JObj d)"
  by (cases v) auto

lemma is_list_iff: "is_list v \<longleftrightarrow> (\<exists>xs. v = JList xs)"
  by (cases v) auto

lemma is_bool_iff: "is_bool v \<longleftrightarrow> (\<exists>b. v = JBool b)"
  by (cases v) auto

lemma is_nonempty_str_iff: "is_nonempty_str v \<longleftrightarrow> (\<exists>s. v = JStr s \<and> s \<noteq> [])"
  by (cases v) auto

lemmas json_kind_iffs = is_str_iff is_dict_iff is_list_iff is_bool_iff is_nonempty_str_iff

subsection \<open>Dictionaries\<close>

text \<open>
  A dictionary is an association list with distinct keys, in insertion order. \<open>d.get(k)\<close> is
  \<open>dget\<close>, \<open>d.get(k, v)\<close> is \<open>dget_or\<close>, \<open>k in d\<close> is \<open>has_key\<close>; assignment and
  \<open>pop\<close> are \<^const>\<open>AList.update\<close> and \<^const>\<open>AList.delete\<close> of the library.
\<close>

definition dget :: "('s \<times> 's json) list \<Rightarrow> 's \<Rightarrow> 's json" where
  "dget d k = (case map_of d k of None \<Rightarrow> JNull | Some v \<Rightarrow> v)"

definition dget_or :: "('s \<times> 's json) list \<Rightarrow> 's \<Rightarrow> 's json \<Rightarrow> 's json" where
  "dget_or d k v = (case map_of d k of None \<Rightarrow> v | Some w \<Rightarrow> w)"

definition has_key :: "('s \<times> 'v) list \<Rightarrow> 's \<Rightarrow> bool" where
  "has_key d k = (k \<in> set (map fst d))"

lemma dict_induct [case_names Nil Cons]:
  "P [] \<Longrightarrow> (\<And>k v d. P d \<Longrightarrow> P ((k, v) # d)) \<Longrightarrow> P d"
  by (induction d) auto

lemma has_key_map_of: "has_key d k \<longleftrightarrow> map_of d k \<noteq> None"
  by (simp add: has_key_def map_of_eq_None_iff)

lemma dget_Cons [simp]: "dget ((k, v) # d) k' = (if k' = k then v else dget d k')"
  by (simp add: dget_def)

lemma dget_Nil [simp]: "dget [] k = JNull"
  by (simp add: dget_def)

lemma dget_or_Cons [simp]: "dget_or ((k, v) # d) k' w = (if k' = k then v else dget_or d k' w)"
  by (simp add: dget_or_def)

lemma dget_or_Nil [simp]: "dget_or [] k w = w"
  by (simp add: dget_or_def)

lemma has_key_Cons [simp]: "has_key ((k, v) # d) k' \<longleftrightarrow> k' = k \<or> has_key d k'"
  by (auto simp: has_key_def)

lemma has_key_Nil [simp]: "\<not> has_key [] k"
  by (simp add: has_key_def)

lemma dget_missing: "\<not> has_key d k \<Longrightarrow> dget d k = JNull"
  by (simp add: has_key_map_of dget_def)

lemma dget_delete: "dget (AList.delete k d) k' = (if k' = k then JNull else dget d k')"
  by (simp add: dget_def delete_conv')

lemma dget_update: "dget (AList.update k v d) k' = (if k' = k then v else dget d k')"
  by (simp add: dget_def update_conv')

lemma has_key_delete: "has_key (AList.delete k d) k' \<longleftrightarrow> k' \<noteq> k \<and> has_key d k'"
  by (auto simp: has_key_map_of delete_conv')

lemmas dict_ops = dget_delete dget_update has_key_delete

subsection \<open>Python strings\<close>

text \<open>\<open>str.isspace\<close> on code points below 256, and \<open>str.strip\<close>.\<close>

definition py_space :: "char \<Rightarrow> bool" where
  "py_space c = (of_char c \<in> set [9, 10, 11, 12, 13, 28, 29, 30, 31, 32, 133, 160 :: nat])"

definition strip :: "string \<Rightarrow> string" where
  "strip s = rev (dropWhile py_space (rev (dropWhile py_space s)))"

text \<open>\<open>s.partition(c)\<close> without its middle component.\<close>

definition partition_at :: "char \<Rightarrow> string \<Rightarrow> string \<times> string" where
  "partition_at c s = (takeWhile (\<lambda>x. x \<noteq> c) s, drop 1 (dropWhile (\<lambda>x. x \<noteq> c) s))"

text \<open>\<open>sep.join(parts)\<close>.\<close>

fun join :: "'a list \<Rightarrow> 'a list list \<Rightarrow> 'a list" where
  "join sep [] = []"
| "join sep [x] = x"
| "join sep (x # y # xs) = x @ sep @ join sep (y # xs)"

text \<open>Decimal text of an integer.\<close>

definition digit_char :: "nat \<Rightarrow> char" where
  "digit_char n = char_of (48 + n)"

fun nat_digits :: "nat \<Rightarrow> nat list" where
  "nat_digits n = (if n < 10 then [n] else nat_digits (n div 10) @ [n mod 10])"

declare nat_digits.simps [simp del]

definition nat_str :: "nat \<Rightarrow> string" where
  "nat_str n = map digit_char (nat_digits n)"

definition int_str :: "int \<Rightarrow> string" where
  "int_str i = (if i < 0 then ''-'' @ nat_str (nat (- i)) else nat_str (nat i))"

lemma partition_at_append:
  "c \<notin> set a \<Longrightarrow> partition_at c (a @ c # b) = (a, b)"
  by (induction a) (auto simp: partition_at_def)

lemma strip_set: "set (strip s) \<subseteq> set s"
  unfolding strip_def
  by (metis (no_types, lifting) dual_order.trans set_dropWhileD set_rev subsetI)

subsection \<open>Sorted tuples of strings\<close>

text \<open>\<open>tuple(sorted(s))\<close> of a set given by its elements.\<close>

definition sorted_set :: "string list \<Rightarrow> string list" where
  "sorted_set xs = sort (remdups xs)"

lemma set_sorted_set [simp]: "set (sorted_set xs) = set xs"
  by (simp add: sorted_set_def)

lemma distinct_sorted_set [simp]: "distinct (sorted_set xs)"
  by (simp add: sorted_set_def)

lemma sorted_sorted_set [simp]: "sorted (sorted_set xs)"
  by (simp add: sorted_set_def)

subsection \<open>A digest without collisions\<close>

text \<open>
  SHA-256 and HMAC are arguments of the model. Where a theorem assumes that they do not collide
  on two texts, this function shows that the assumption can be met.
\<close>

definition unary_digest :: "nat list \<Rightarrow> string" where
  "unary_digest bs = concat (map (\<lambda>n. replicate n (CHR ''0'') @ ''1'') bs)"

lemma unary_digest_inj: "unary_digest bs = unary_digest cs \<Longrightarrow> bs = cs"
  unfolding unary_digest_def
proof (induction bs arbitrary: cs)
  case Nil
  then show ?case by (cases cs) auto
next
  case (Cons b bs)
  let ?z = "\<lambda>n. replicate n (CHR ''0'')"
  let ?r = "\<lambda>ns. concat (map (\<lambda>n. ?z n @ ''1'') ns)"
  from Cons.prems obtain c ds where cs: "cs = c # ds" by (cases cs) auto
  have zeros: "takeWhile (\<lambda>x. x = CHR ''0'') (?z n @ CHR ''1'' # r) = ?z n" for n r
    by (induction n) simp_all
  have e: "?z b @ CHR ''1'' # ?r bs = ?z c @ CHR ''1'' # ?r ds"
    using Cons.prems cs by simp
  then have "?z b = ?z c" using zeros by metis
  then have "b = c" by (metis length_replicate)
  with e cs Cons.IH show ?case by simp
qed

subsection \<open>Results\<close>

text \<open>An error on the left, a value on the right; the first error ends the sequence.\<close>

fun sum_bind :: "'e + 'a \<Rightarrow> ('a \<Rightarrow> 'e + 'b) \<Rightarrow> 'e + 'b" where
  "sum_bind (Inl e) f = Inl e"
| "sum_bind (Inr a) f = f a"

lemma sum_bind_Inr: "sum_bind m f = Inr b \<longleftrightarrow> (\<exists>a. m = Inr a \<and> f a = Inr b)"
  by (cases m) auto

lemma sum_bind_cong [fundef_cong]:
  "m = m' \<Longrightarrow> (\<And>a. m' = Inr a \<Longrightarrow> f a = g a) \<Longrightarrow> sum_bind m f = sum_bind m' g"
  by (cases m') auto

subsection \<open>Replies of the command handlers\<close>

text \<open>
  Handlers return dictionaries. A refusal or an error is \<open>{"ok": False, "error": code,
  "message": message}\<close>.
\<close>

definition err_reply :: "string \<Rightarrow> string \<Rightarrow> jval" where
  "err_reply code message =
     JObj [(''ok'', JBool False), (''error'', JStr code), (''message'', JStr message)]"

fun reply_field :: "jval \<Rightarrow> string \<Rightarrow> jval" where
  "reply_field (JObj d) k = dget d k"
| "reply_field _ k = JNull"

definition reply_ok :: "jval \<Rightarrow> bool" where
  "reply_ok r \<longleftrightarrow> reply_field r ''ok'' = JBool True"

definition reply_code :: "jval \<Rightarrow> string" where
  "reply_code r = (case reply_field r ''error'' of JStr s \<Rightarrow> s | _ \<Rightarrow> [])"

lemma reply_code_err [simp]: "reply_code (err_reply c m) = c"
  by (simp add: reply_code_def err_reply_def)

lemma reply_ok_err [simp]: "\<not> reply_ok (err_reply c m)"
  by (simp add: reply_ok_def err_reply_def)

lemma err_reply_eq [simp]: "err_reply c m = err_reply c' m' \<longleftrightarrow> c = c' \<and> m = m'"
  by (auto simp: err_reply_def)

end
