(* ===== verification/Fnmatch.thy ===== *)
theory Fnmatch
  imports Prelude
begin

text \<open>
  \<open>fnmatch.fnmatchcase\<close> of the Python standard library, as the policy modules, the entity
  filters and \<open>fs.glob\<close> use it: a pattern is cut into tokens the way
  \<open>fnmatch.translate\<close> does, and the tokens are matched against the whole string.
\<close>

datatype set_item = Lit char | Rng char char

datatype fn_token = Star | Any | Chr char | Never | InSet bool "set_item list"

text \<open>The body of a bracket: \<open>a-b\<close> is a range, every other character stands for itself.\<close>

fun set_items :: "string \<Rightarrow> set_item list" where
  "set_items (a # d # b # r) =
     (if d = CHR ''-'' then Rng a b # set_items r else Lit a # set_items (d # b # r))"
| "set_items (a # r) = Lit a # set_items r"
| "set_items [] = []"

definition bracket_items :: "string \<Rightarrow> set_item list" where
  "bracket_items s = (case s of
     [] \<Rightarrow> []
   | c # r \<Rightarrow> if c = CHR ''!'' then Lit c # set_items r else set_items s)"

fun nonempty_item :: "set_item \<Rightarrow> bool" where
  "nonempty_item (Lit c) = True"
| "nonempty_item (Rng a b) = (a \<le> b)"

text \<open>
  Empty ranges are removed first; what is left is negated when it starts with an exclamation
  mark, also when only the removal exposed it.
\<close>

definition bracket_token :: "string \<Rightarrow> fn_token" where
  "bracket_token s = (case filter nonempty_item (bracket_items s) of
     [] \<Rightarrow> Never
   | Lit c # r \<Rightarrow> if c = CHR ''!'' then (if r = [] then Any else InSet True r)
                 else InSet False (Lit c # r)
   | Rng a b # r \<Rightarrow> if a = CHR ''!'' then InSet True (Lit (CHR ''-'') # Lit b # r)
                   else InSet False (Rng a b # r))"

text \<open>Where the bracket that opens before \<open>r\<close> closes, if it does.\<close>

definition split_bracket :: "string \<Rightarrow> (string \<times> string) option" where
  "split_bracket r =
     (let h = (if take 1 r = ''!'' then 1 else 0);
          h = (if take 1 (drop h r) = '']'' then Suc h else h);
          body = drop h r
      in if CHR '']'' \<in> set body
         then Some (take h r @ takeWhile (\<lambda>c. c \<noteq> CHR '']'') body,
                    drop 1 (dropWhile (\<lambda>c. c \<noteq> CHR '']'') body))
         else None)"

lemma length_dropWhile_drop: "length (dropWhile P (drop n r)) - k \<le> length r"
  using length_dropWhile_le [of P "drop n r"] by simp

lemma split_bracket_shorter: "split_bracket r = Some (s, t) \<Longrightarrow> length t \<le> length r"
  unfolding split_bracket_def Let_def
  using length_dropWhile_drop [where n = 0 and r = r]
  by (auto split: if_splits simp del: drop_drop simp: length_dropWhile_drop)

function fn_tokens :: "string \<Rightarrow> fn_token list" where
  "fn_tokens [] = []"
| "fn_tokens (c # r) =
     (if c = CHR ''*'' then Star # fn_tokens r
      else if c = CHR ''?'' then Any # fn_tokens r
      else if c = CHR ''['' then
        (case split_bracket r of
           None \<Rightarrow> Chr c # fn_tokens r
         | Some (s, t) \<Rightarrow> bracket_token s # fn_tokens t)
      else Chr c # fn_tokens r)"
  by pat_completeness auto
termination
  by (relation "measure length") (auto dest!: split_bracket_shorter)

fun item_has :: "char \<Rightarrow> set_item \<Rightarrow> bool" where
  "item_has c (Lit a) = (c = a)"
| "item_has c (Rng a b) = (a \<le> c \<and> c \<le> b)"

fun tok_char :: "fn_token \<Rightarrow> char \<Rightarrow> bool" where
  "tok_char Any c = True"
| "tok_char (Chr a) c = (c = a)"
| "tok_char (InSet neg items) c = (list_ex (item_has c) items \<noteq> neg)"
| "tok_char _ c = False"

fun fn_match :: "fn_token list \<Rightarrow> string \<Rightarrow> bool" where
  "fn_match [] s = (s = [])"
| "fn_match (Star # ts) [] = fn_match ts []"
| "fn_match (Star # ts) (c # s) = (fn_match ts (c # s) \<or> fn_match (Star # ts) s)"
| "fn_match (t # ts) [] = False"
| "fn_match (t # ts) (c # s) = (tok_char t c \<and> fn_match ts s)"

definition fnmatchcase :: "string \<Rightarrow> string \<Rightarrow> bool" where
  "fnmatchcase name pat = fn_match (fn_tokens pat) name"

subsection \<open>What patterns mean\<close>

definition plain_char :: "char \<Rightarrow> bool" where
  "plain_char c = (c \<noteq> CHR ''*'' \<and> c \<noteq> CHR ''?'' \<and> c \<noteq> CHR ''['')"

lemma fn_match_Star: "fn_match (Star # ts) s \<longleftrightarrow> (\<exists>a b. s = a @ b \<and> fn_match ts b)"
proof (induction s)
  case (Cons c s)
  have "(\<exists>a b. c # s = a @ b \<and> fn_match ts b) \<longleftrightarrow>
      fn_match ts (c # s) \<or> (\<exists>a b. s = a @ b \<and> fn_match ts b)"
    by (metis append_Cons append_Nil list.exhaust list.sel(3))
  with Cons show ?case by simp
qed simp

lemma fn_tokens_plain: "list_all plain_char p \<Longrightarrow> fn_tokens (p @ q) = map Chr p @ fn_tokens q"
  by (induction p) (simp_all add: plain_char_def)

lemma fn_match_plain: "fn_match (map Chr p @ ts) s \<longleftrightarrow> (\<exists>r. s = p @ r \<and> fn_match ts r)"
proof (induction p arbitrary: s)
  case (Cons c p)
  then show ?case by (cases s) auto
qed simp

lemma fn_match_only_Star [simp]: "fn_match [Star] s"
  by (simp add: fn_match_Star)

lemma fnmatch_literal: "list_all plain_char p \<Longrightarrow> fnmatchcase s p \<longleftrightarrow> s = p"
  using fn_match_plain [of p "[]" s] fn_tokens_plain [of p "[]"]
  by (simp add: fnmatchcase_def)

lemma fnmatch_prefix:
  "list_all plain_char p \<Longrightarrow> fnmatchcase s (p @ ''*'') \<longleftrightarrow> prefix p s"
  using fn_match_plain [of p "[Star]" s] fn_tokens_plain [of p "''*''"]
  by (simp add: fnmatchcase_def prefix_def)

lemma fnmatch_star [simp]: "fnmatchcase s ''*''"
  by (simp add: fnmatchcase_def)

end
