(* ===== verification/Authz.thy ===== *)
theory Authz
  imports Prelude Fnmatch
begin

text \<open>
  The role policy of \<open>authz.py\<close>: the table of everyday services, the command sets of the
  household role, the forbidden set of each role with its configuration patches, the service a
  command would call, the test whether a forbidden set blocks a call, and the agent a turn is
  routed to. The identity options are those of \<open>config.py\<close>.
\<close>

subsection \<open>Identity options\<close>

datatype role = User | Admin | Super_admin

text \<open>Roles ordered by privilege.\<close>

instantiation role :: linorder
begin

fun rank :: "role \<Rightarrow> nat" where
  "rank User = 0" | "rank Admin = 1" | "rank Super_admin = 2"

definition less_eq_role :: "role \<Rightarrow> role \<Rightarrow> bool" where
  "less_eq_role a b = (rank a \<le> rank b)"

definition less_role :: "role \<Rightarrow> role \<Rightarrow> bool" where
  "less_role a b = (rank a < rank b)"

instance
proof
  fix x y :: role
  assume "x \<le> y" and "y \<le> x"
  then show "x = y" by (cases x; cases y) (simp_all add: less_eq_role_def)
qed (auto simp: less_eq_role_def less_role_def)

end

record forbidden_patch =
  patch_add :: "string list"
  patch_remove :: "string list"

record identity_config =
  super_admins :: "string list"
  user_agent_map :: "(string \<times> string) list"
  default_agent_id :: string
  user_role_agent_id :: string
  admin_role_agent_id :: string
  forbidden_commands :: "(role \<times> forbidden_patch) list"
  addon_lifecycle_denylist :: "string list"

definition default_identity :: identity_config where
  "default_identity = \<lparr>super_admins = [], user_agent_map = [], default_agent_id = [],
     user_role_agent_id = [], admin_role_agent_id = [], forbidden_commands = [],
     addon_lifecycle_denylist = [''homeassistant'', ''supervisor'']\<rparr>"

record actor =
  user_id :: string
  is_admin :: bool

subsection \<open>The services household and admin principals may call\<close>

definition on_off_toggle :: "string list" where
  "on_off_toggle = [''turn_on'', ''turn_off'', ''toggle'']"

definition household_allowed_services :: "(string \<times> string list) list" where
  "household_allowed_services = [
    (''light'', on_off_toggle),
    (''switch'', on_off_toggle),
    (''input_boolean'', on_off_toggle),
    (''media_player'', on_off_toggle @
      [''media_play'', ''media_pause'', ''media_play_pause'', ''media_stop'',
       ''media_next_track'', ''media_previous_track'', ''volume_up'', ''volume_down'',
       ''volume_mute'', ''volume_set'', ''select_source'', ''select_sound_mode'']),
    (''cover'',
      [''open_cover'', ''close_cover'', ''stop_cover'', ''toggle'', ''set_cover_position'',
       ''open_cover_tilt'', ''close_cover_tilt'', ''stop_cover_tilt'', ''toggle_cover_tilt'',
       ''set_cover_tilt_position'']),
    (''climate'',
      [''turn_on'', ''turn_off'', ''set_temperature'', ''set_hvac_mode'', ''set_fan_mode'',
       ''set_preset_mode'', ''set_humidity'']),
    (''fan'', on_off_toggle @ [''set_percentage'', ''set_preset_mode'', ''oscillate'', ''set_direction'']),
    (''input_select'',
      [''select_option'', ''select_next'', ''select_previous'', ''select_first'', ''select_last'']),
    (''input_number'', [''set_value'', ''increment'', ''decrement'']),
    (''vacuum'', [''start'', ''pause'', ''stop'', ''return_to_base'', ''locate'', ''clean_spot'']),
    (''humidifier'', on_off_toggle @ [''set_humidity'', ''set_mode'']),
    (''water_heater'', [''turn_on'', ''turn_off'', ''set_temperature'', ''set_operation_mode'']),
    (''remote'', on_off_toggle @ [''send_command'']),
    (''scene'', [''turn_on'']),
    (''script'', [''turn_on'']),
    (''button'', [''press'']),
    (''lock'', [''lock'', ''unlock'', ''open'']),
    (''alarm_control_panel'',
      [''alarm_arm_away'', ''alarm_arm_home'', ''alarm_arm_night'', ''alarm_arm_vacation'',
       ''alarm_arm_custom_bypass'', ''alarm_disarm''])]"

definition service_allowed :: "string \<Rightarrow> bool" where
  "service_allowed service =
     (let (domain, name) = partition_at (CHR ''.'') service
      in case map_of household_allowed_services domain of
           None \<Rightarrow> False
         | Some names \<Rightarrow> name \<in> set names)"

subsection \<open>The service a command calls\<close>

definition wrapper_services :: "(string \<times> string) list" where
  "wrapper_services = [(''ha.light_turn_on'', ''light.turn_on''),
                       (''ha.light_turn_off'', ''light.turn_off'')]"

definition call_service_prefix :: string where
  "call_service_prefix = ''ha.call_service:''"

text \<open>\<open>[a-z0-9_]\<close>, and the whole name \<open>^[a-z0-9_]{1,64}$\<close> under \<open>fullmatch\<close>.\<close>

definition service_char :: "char \<Rightarrow> bool" where
  "service_char c = (c \<in> set ''abcdefghijklmnopqrstuvwxyz0123456789_'')"

definition service_name :: "string \<Rightarrow> bool" where
  "service_name s = (0 < length s \<and> length s \<le> 64 \<and> list_all service_char s)"

definition service_part :: "dict \<Rightarrow> string \<Rightarrow> string option" where
  "service_part params key =
     (let v = (case dget params key of JStr s \<Rightarrow> strip s | _ \<Rightarrow> [])
      in if service_name v then Some v else None)"

definition service_for_command :: "string \<Rightarrow> dict \<Rightarrow> string option" where
  "service_for_command command params =
     (case map_of wrapper_services command of
        Some s \<Rightarrow> Some s
      | None \<Rightarrow>
          if command \<noteq> ''ha.call_service'' then None
          else (case service_part params ''domain'' of
                  None \<Rightarrow> None
                | Some d \<Rightarrow>
                    (case service_part params ''service'' of
                       None \<Rightarrow> None
                     | Some s \<Rightarrow> Some (d @ ''.'' @ s))))"

subsection \<open>Command sets of the household role\<close>

definition user_allowed_commands :: "string list" where
  "user_allowed_commands = [
    ''ping'', ''fs.read'', ''fs.list'', ''fs.stat'', ''fs.glob'', ''fs.history'', ''fs.diff'',
    ''system.which'', ''ha.list_states'', ''ha.get_state'', ''ha.call_service'',
    ''ha.light_turn_on'', ''ha.light_turn_off'', ''ha.list_areas'', ''ha.list_devices'',
    ''ha.list_services'', ''ha.get_config'', ''ha.list_events'', ''ha.list_config_entries'',
    ''ha.core_logs'', ''ha.calendar_get_events'', ''ha.list_entity_registry'', ''ha.logbook'',
    ''ha.history'', ''ha.list_automations'', ''ha.check_config'', ''ha.addon_logs'',
    ''ha.list_addons'', ''ha.addon_info'', ''ha.addon_stats'', ''ha.addon_changelog'',
    ''ha.addon_documentation'', ''ha.supervisor_info'']"

definition user_forbidden_commands :: "string list" where
  "user_forbidden_commands = [
    ''fs.write'', ''fs.delete'', ''fs.move'', ''fs.restore'', ''fs.patch'', ''system.run'',
    ''system.run.prepare'', ''system.execApprovals.get'', ''system.execApprovals.set'',
    ''ha.reload_config'', ''ha.addon_start'', ''ha.addon_stop'', ''ha.addon_restart'',
    ''ha.addon_update'', ''ha.update_install'', ''ha.config.lovelace'',
    ''ha.config.automation'', ''ha.config.script'', ''ha.config.scene'',
    ''ha.config.helpers'', ''ha.config.area_registry'', ''ha.config.device_registry'',
    ''ha.config.entity_registry'', ''ha.config.config_entries'']"

definition user_service_wildcard :: string where
  "user_service_wildcard = ''ha.call_service:*''"

definition user_non_removable :: "string list" where
  "user_non_removable = user_forbidden_commands @ [user_service_wildcard]"

fun default_forbidden :: "role \<Rightarrow> string list" where
  "default_forbidden User = user_non_removable"
| "default_forbidden Admin =
     [''fs.write'', ''fs.delete'', ''fs.move'', ''fs.restore'', ''fs.patch'', ''system.run'',
      ''ha.call_service:shell_command.*'', ''ha.call_service:python_script.*'',
      ''ha.call_service:command_line.*'', ''ha.call_service:homeassistant.stop'']"
| "default_forbidden Super_admin = []"

subsection \<open>Roles and their forbidden sets\<close>

definition resolve_role :: "identity_config \<Rightarrow> actor option \<Rightarrow> role" where
  "resolve_role identity act =
     (case act of
        None \<Rightarrow> User
      | Some a \<Rightarrow>
          if is_admin a \<and> user_id a \<in> set (super_admins identity) then Super_admin
          else if is_admin a then Admin
          else User)"

text \<open>
  What a more privileged role's patch passes down. The source also logs each inherited entry
  once per process, which no result depends on.
\<close>

definition patch_service_entries :: "identity_config \<Rightarrow> role \<Rightarrow> string list" where
  "patch_service_entries identity r =
     (case map_of (forbidden_commands identity) r of
        None \<Rightarrow> []
      | Some p \<Rightarrow> filter (prefix call_service_prefix) (patch_add p))"

definition inherited_service_prohibitions :: "identity_config \<Rightarrow> role \<Rightarrow> string list" where
  "inherited_service_prohibitions identity r =
     (if r = User
      then patch_service_entries identity Admin @ patch_service_entries identity Super_admin
      else patch_service_entries identity Super_admin)"

definition forbidden_for_role :: "identity_config \<Rightarrow> role \<Rightarrow> string list" where
  "forbidden_for_role identity r =
     (let base = default_forbidden r;
          patched = (case map_of (forbidden_commands identity) r of
            None \<Rightarrow> base
          | Some p \<Rightarrow>
              let removable = (if r = User
                               then filter (\<lambda>e. e \<notin> set user_non_removable) (patch_remove p)
                               else patch_remove p)
              in filter (\<lambda>e. e \<notin> set removable) (base @ patch_add p))
      in sorted_set (if r \<noteq> Super_admin
                     then patched @ inherited_service_prohibitions identity r
                     else patched))"

definition service_patterns :: "string list \<Rightarrow> string list" where
  "service_patterns entries =
     map (drop (length call_service_prefix)) (filter (prefix call_service_prefix) entries)"

definition pattern_blocks :: "string \<Rightarrow> string \<Rightarrow> bool" where
  "pattern_blocks service pattern =
     (if pattern = ''*'' then \<not> service_allowed service else fnmatchcase service pattern)"

definition is_forbidden :: "string list \<Rightarrow> string \<Rightarrow> dict \<Rightarrow> bool" where
  "is_forbidden entries command params =
     (if command \<in> set entries then True
      else if command \<noteq> ''ha.call_service'' \<and> command \<notin> set (map fst wrapper_services) then False
      else if service_patterns entries = [] then False
      else (case service_for_command command params of
              None \<Rightarrow> True
            | Some service \<Rightarrow> list_ex (pattern_blocks service) (service_patterns entries)))"

definition resolve_agent_id :: "identity_config \<Rightarrow> actor option \<Rightarrow> string" where
  "resolve_agent_id identity act =
     (let mapped = (case act of
            None \<Rightarrow> []
          | Some a \<Rightarrow> (case map_of (user_agent_map identity) (user_id a) of
                         None \<Rightarrow> [] | Some m \<Rightarrow> strip m));
          role_default = (case resolve_role identity act of
            User \<Rightarrow> user_role_agent_id identity
          | Admin \<Rightarrow> admin_role_agent_id identity
          | Super_admin \<Rightarrow> [])
      in if mapped \<noteq> [] then mapped
         else if strip role_default \<noteq> [] then strip role_default
         else strip (default_agent_id identity))"

end
