(* ===== verification/Effect_Policy.thy ===== *)
theory Effect_Policy
  imports Authz
begin

text \<open>
  Who is calling (\<open>caller.py\<close>) and whether the call may proceed (\<open>effect_policy.py\<close>, with
  the deny list of \<open>commands/ha.py\<close>). \<open>check\<close> runs before any handler; its result is a
  refusal or nothing.
\<close>

subsection \<open>Callers\<close>

datatype caller_role = Turn role | Operator

record caller =
  caller_role :: caller_role
  actor_id :: string
  forbidden :: "string list"

definition operator_caller :: "string \<Rightarrow> caller" where
  "operator_caller aid = \<lparr>caller_role = Operator, actor_id = aid, forbidden = []\<rparr>"

text \<open>\<open>Caller.from_turn\<close> over the role, actor and forbidden set that \<open>resolve_turn_authz\<close> resolves.\<close>

definition caller_from_turn :: "identity_config \<Rightarrow> actor option \<Rightarrow> caller" where
  "caller_from_turn identity act =
     \<lparr>caller_role = Turn (resolve_role identity act),
      actor_id = (case act of None \<Rightarrow> ''<anonymous>'' | Some a \<Rightarrow> user_id a),
      forbidden = forbidden_for_role identity (resolve_role identity act)\<rparr>"

definition untrusted :: caller where
  "untrusted = \<lparr>caller_role = Turn User, actor_id = ''<untrusted>'',
                forbidden = forbidden_for_role default_identity User\<rparr>"

subsection \<open>Services denied to everybody\<close>

definition interim_denied_service_patterns :: "(string \<times> string) list" where
  "interim_denied_service_patterns = [
    (''hassio.addon_start'', ''use ha.addon_start with node slug policy''),
    (''hassio.addon_stop'', ''use ha.addon_stop with node slug policy''),
    (''hassio.addon_restart'', ''use ha.addon_restart with node slug policy''),
    (''hassio.addon_update'', ''use ha.addon_update with node slug policy''),
    (''hassio.app_start'', ''use ha.addon_start with node slug policy''),
    (''hassio.app_stop'', ''use ha.addon_stop with node slug policy''),
    (''hassio.app_restart'', ''use ha.addon_restart with node slug policy''),
    (''hassio.app_update'', ''use ha.addon_update with node slug policy''),
    (''hassio.addon_stdin'', ''use the future service effect-policy path''),
    (''hassio.app_stdin'', ''use the future service effect-policy path''),
    (''hassio.host_reboot'', ''use the future host lifecycle approval path''),
    (''hassio.host_shutdown'', ''use the future host lifecycle approval path''),
    (''hassio.host_update'', ''use the future host update approval path''),
    (''hassio.supervisor_update'', ''use the future Supervisor update approval path''),
    (''hassio.mount_reload'', ''use the dedicated reload/configuration policy path''),
    (''update.*'', ''use ha.update_install with operator approval''),
    (''shell_command.*'', ''use system.run with native exec approval''),
    (''python_script.*'', ''use the future service effect-policy path''),
    (''command_line.*'', ''use the future service effect-policy path''),
    (''homeassistant.restart'', ''use the future lifecycle approval path''),
    (''homeassistant.stop'', ''use the future shutdown approval path''),
    (''*.reload'', ''use the dedicated reload/configuration policy path''),
    (''*.reload_*'', ''use the dedicated reload/configuration policy path'')]"

text \<open>The first candidate with a reason wins; no reason in the table is empty.\<close>

definition denial_candidates :: "string \<Rightarrow> string \<Rightarrow> string list" where
  "denial_candidates domain service =
     [domain @ ''.'' @ service, domain @ ''.*''] @
     (if service = ''reload'' then [''*.reload'']
      else if prefix ''reload_'' service then [''*.reload_*'']
      else [])"

fun first_reason :: "string list \<Rightarrow> string option" where
  "first_reason [] = None"
| "first_reason (c # cs) =
     (case map_of interim_denied_service_patterns c of
        Some r \<Rightarrow> Some r
      | None \<Rightarrow> first_reason cs)"

definition interim_service_denial :: "string \<Rightarrow> string \<Rightarrow> string option" where
  "interim_service_denial domain service = first_reason (denial_candidates domain service)"

subsection \<open>The decision\<close>

datatype effect = Deny | Auto_allow | Unclassified

definition classify :: "string option \<Rightarrow> effect" where
  "classify service =
     (case service of
        None \<Rightarrow> Deny
      | Some s \<Rightarrow>
          (let (domain, name) = partition_at (CHR ''.'') s
           in if interim_service_denial domain name \<noteq> None then Deny
              else if service_allowed s then Auto_allow
              else Unclassified))"

definition not_permitted :: "string \<Rightarrow> jval" where
  "not_permitted command =
     err_reply ''PERMISSION_DENIED'' (command @ '' is not permitted for this caller'')"

definition check :: "caller \<Rightarrow> string \<Rightarrow> dict \<Rightarrow> jval option" where
  "check c command params =
     (let service = service_for_command command params;
          eff = classify service;
          operator = (caller_role c = Operator);
          user = (caller_role c = Turn User)
      in if service \<noteq> None \<and> eff = Deny then
           Some (err_reply ''SERVICE_DENIED'' (command @ '' denies '' @ the service))
         else if user \<and> command \<notin> set user_allowed_commands then Some (not_permitted command)
         else if \<not> operator \<and> is_forbidden (forbidden c) command params
           then Some (not_permitted command)
         else if command \<noteq> ''ha.call_service'' \<and> service = None then None
         else (case service of
                 None \<Rightarrow>
                   if operator then None
                   else Some (err_reply ''PERMISSION_DENIED'' ''service is malformed'')
               | Some s \<Rightarrow>
                   if eff = Auto_allow then None
                   else if operator then None
                   else if user then
                     Some (err_reply ''PERMISSION_DENIED''
                       (''service '' @ s @ '' is not permitted for this caller''))
                   else
                     Some (err_reply ''APPROVAL_REQUIRED''
                       (''service '' @ s @
                        '' needs approval; native approval is not available in this build''))))"

subsection \<open>The tables agree with each other\<close>

lemma household_pairs_not_denied:
  "list_all (\<lambda>(d, ns). list_all (\<lambda>n. interim_service_denial d n = None) ns)
     household_allowed_services"
  by code_simp

lemma service_allowed_not_denied:
  assumes "service_allowed s"
  shows "(case partition_at (CHR ''.'') s of (d, n) \<Rightarrow> interim_service_denial d n) = None"
proof -
  obtain d n where p: "partition_at (CHR ''.'') s = (d, n)" by force
  with assms obtain ns where "(d, ns) \<in> set household_allowed_services" "n \<in> set ns"
    by (auto simp: service_allowed_def dest: map_of_SomeD split: option.splits)
  with household_pairs_not_denied have "interim_service_denial d n = None"
    by (fastforce simp: list_all_iff)
  with p show ?thesis by simp
qed

lemma classify_Some [simp]:
  "classify (Some s) = Auto_allow \<longleftrightarrow> service_allowed s"
  using service_allowed_not_denied [of s]
  by (auto simp: classify_def split: prod.splits)

lemma classify_None [simp]: "classify None = Deny"
  by (simp add: classify_def)

definition service_bearing :: "string \<Rightarrow> bool" where
  "service_bearing command \<longleftrightarrow>
     command = ''ha.call_service'' \<or> command \<in> set (map fst wrapper_services)"

lemma service_for_command_bearing:
  "service_for_command command params = Some s \<Longrightarrow> service_bearing command"
  by (auto simp: service_for_command_def service_bearing_def rev_image_eqI
      dest: map_of_SomeD split: if_splits option.splits)

lemma wrapper_service_ok:
  "service_bearing command \<Longrightarrow> command \<noteq> ''ha.call_service'' \<Longrightarrow>
     \<exists>s. service_for_command command params = Some s \<and> service_allowed s"
proof -
  have l: "service_allowed ''light.turn_on''" "service_allowed ''light.turn_off''"
    by code_simp+
  show "service_bearing command \<Longrightarrow> command \<noteq> ''ha.call_service'' \<Longrightarrow> ?thesis"
    using l by (auto simp: service_bearing_def wrapper_services_def service_for_command_def)
qed

end
