(* ===== verification/Role_Policy.thy ===== *)
theory Role_Policy
  imports Effect_Policy
begin

text \<open>
  What the role policy and the effect policy guarantee together: the reach of a household
  caller, the services denied to everybody, the order of the roles, and the agent a turn is
  routed to.
\<close>

subsection \<open>Forbidden sets\<close>

lemma prefix_call_service [simp]: "prefix call_service_prefix (call_service_prefix @ p)"
  by simp

lemma service_patterns_mem:
  "p \<in> set (service_patterns es) \<longleftrightarrow> call_service_prefix @ p \<in> set es"
proof
  assume "p \<in> set (service_patterns es)"
  then obtain e where "e \<in> set es" "prefix call_service_prefix e"
    "p = drop (length call_service_prefix) e"
    by (auto simp: service_patterns_def)
  then show "call_service_prefix @ p \<in> set es"
    by (auto simp: prefix_def)
next
  assume "call_service_prefix @ p \<in> set es"
  then show "p \<in> set (service_patterns es)"
    by (force simp: service_patterns_def)
qed

lemma user_forbidden_keeps_non_removable:
  "set user_non_removable \<subseteq> set (forbidden_for_role identity User)"
  by (auto simp: forbidden_for_role_def Let_def split: option.splits)

lemma wildcard_is_prefixed: "user_service_wildcard = call_service_prefix @ ''*''"
  by (simp add: user_service_wildcard_def call_service_prefix_def)

lemma user_patterns_have_star: "''*'' \<in> set (service_patterns (forbidden_for_role identity User))"
  using user_forbidden_keeps_non_removable [of identity]
  by (auto simp: service_patterns_mem user_non_removable_def wildcard_is_prefixed)

lemma inherited_in_forbidden:
  "r \<noteq> Super_admin \<Longrightarrow>
     set (inherited_service_prohibitions identity r) \<subseteq> set (forbidden_for_role identity r)"
  by (auto simp: forbidden_for_role_def Let_def split: option.splits)

lemma not_forbidden_user_service:
  assumes "service_bearing command"
    and "\<not> is_forbidden (forbidden_for_role identity User) command params"
  shows "\<exists>s. service_for_command command params = Some s \<and> service_allowed s"
proof -
  let ?ps = "service_patterns (forbidden_for_role identity User)"
  have "?ps \<noteq> []" using user_patterns_have_star [of identity] by auto
  with assms obtain s where s: "service_for_command command params = Some s"
    and "\<not> list_ex (pattern_blocks s) ?ps"
    by (auto simp: is_forbidden_def service_bearing_def split: if_splits option.splits)
  with user_patterns_have_star [of identity] have "\<not> pattern_blocks s ''*''"
    by (auto simp: list_ex_iff)
  with s show ?thesis by (simp add: pattern_blocks_def)
qed

text \<open>The service patterns that bind the administrator by default match no household service.\<close>

definition admin_default_patterns :: "string list" where
  "admin_default_patterns =
     [''shell_command.*'', ''python_script.*'', ''command_line.*'', ''homeassistant.stop'']"

lemma admin_default_patterns_miss_household:
  "list_all (\<lambda>(d, ns). list_all (\<lambda>n. \<not> list_ex (\<lambda>p. fnmatchcase (d @ ''.'' @ n) p)
     admin_default_patterns) ns) household_allowed_services"
  by code_simp

lemma partition_at_join: "partition_at c s = (a, b) \<Longrightarrow> b \<noteq> [] \<Longrightarrow> s = a @ c # b"
proof -
  assume p: "partition_at c s = (a, b)" and b: "b \<noteq> []"
  then have d: "drop 1 (dropWhile (\<lambda>x. x \<noteq> c) s) = b" and a: "a = takeWhile (\<lambda>x. x \<noteq> c) s"
    by (auto simp: partition_at_def)
  have ne: "dropWhile (\<lambda>x. x \<noteq> c) s \<noteq> []" using b d by (intro notI) simp
  then have "hd (dropWhile (\<lambda>x. x \<noteq> c) s) = c" using hd_dropWhile [OF ne] by simp
  with d ne have "dropWhile (\<lambda>x. x \<noteq> c) s = c # b"
    by (cases "dropWhile (\<lambda>x. x \<noteq> c) s") auto
  with a show "s = a @ c # b" using takeWhile_dropWhile_id by metis
qed

lemma household_names_nonempty:
  "list_all (\<lambda>(d, ns). list_all (\<lambda>n. n \<noteq> []) ns) household_allowed_services"
  by code_simp

lemma service_allowed_split:
  assumes "service_allowed s"
  obtains d ns n where "s = d @ ''.'' @ n" "(d, ns) \<in> set household_allowed_services" "n \<in> set ns"
proof -
  obtain d n where p: "partition_at (CHR ''.'') s = (d, n)" by force
  with assms obtain ns where m: "(d, ns) \<in> set household_allowed_services" "n \<in> set ns"
    by (auto simp: service_allowed_def dest: map_of_SomeD split: option.splits)
  with household_names_nonempty have "n \<noteq> []" by (fastforce simp: list_all_iff)
  with p have "s = d @ ''.'' @ n" by (auto dest: partition_at_join)
  with m show ?thesis using that by blast
qed

lemma admin_default_pattern_not_household:
  assumes "p \<in> set admin_default_patterns" and "fnmatchcase s p"
  shows "\<not> service_allowed s"
proof
  assume "service_allowed s"
  then obtain d ns n where "s = d @ ''.'' @ n" "(d, ns) \<in> set household_allowed_services"
    "n \<in> set ns"
    by (rule service_allowed_split)
  with admin_default_patterns_miss_household assms show False
    by (fastforce simp: list_all_iff list_ex_iff)
qed

text \<open>Where a service prohibition of a role comes from.\<close>

lemma default_admin_patterns:
  "call_service_prefix @ p \<in> set (default_forbidden Admin) \<longleftrightarrow> p \<in> set admin_default_patterns"
  by (auto simp: call_service_prefix_def admin_default_patterns_def)

lemma forbidden_service_origin:
  assumes "call_service_prefix @ p \<in> set (forbidden_for_role identity r)"
  shows "call_service_prefix @ p \<in> set (default_forbidden r) \<or>
         call_service_prefix @ p \<in> set (patch_service_entries identity r) \<or>
         (r \<noteq> Super_admin \<and>
          call_service_prefix @ p \<in> set (inherited_service_prohibitions identity r))"
  using assms
  by (auto simp: forbidden_for_role_def patch_service_entries_def Let_def
      split: option.splits if_splits)

lemma service_pattern_inherited:
  assumes le: "r \<le> r'" and p: "p \<in> set (service_patterns (forbidden_for_role identity r'))"
    and s: "pattern_blocks s p"
  shows "list_ex (pattern_blocks s) (service_patterns (forbidden_for_role identity r))"
proof -
  have mem: "call_service_prefix @ p \<in> set (forbidden_for_role identity r')"
    using p by (simp add: service_patterns_mem)
  have via_star: "\<not> service_allowed s \<Longrightarrow> r = User \<Longrightarrow> ?thesis"
    using user_patterns_have_star [of identity] by (auto simp: list_ex_iff pattern_blocks_def)
  have via_inherit: "r \<noteq> Super_admin \<Longrightarrow>
      call_service_prefix @ p \<in> set (inherited_service_prohibitions identity r) \<Longrightarrow> ?thesis"
    using inherited_in_forbidden [of r identity] s
    by (auto simp: list_ex_iff service_patterns_mem intro!: bexI [of _ p])
  show ?thesis
  proof (cases "r = r'")
    case True
    with p s show ?thesis by (auto simp: list_ex_iff)
  next
    case False
    with le have r: "(r = User \<and> r' = Admin) \<or> (r = User \<and> r' = Super_admin) \<or>
        (r = Admin \<and> r' = Super_admin)"
      by (cases r; cases r') (auto simp: less_eq_role_def)
    from forbidden_service_origin [OF mem] show ?thesis
    proof (elim disjE conjE)
      assume d: "call_service_prefix @ p \<in> set (default_forbidden r')"
      from r have "r' = Admin \<and> r = User" using d by auto
      moreover from this d have pa: "p \<in> set admin_default_patterns"
        by (simp del: default_forbidden.simps add: default_admin_patterns)
      then have "p \<noteq> ''*''" by (auto simp: admin_default_patterns_def)
      with pa s have "\<not> service_allowed s"
        using admin_default_pattern_not_household by (auto simp: pattern_blocks_def)
      ultimately show ?thesis using via_star by blast
    next
      assume "call_service_prefix @ p \<in> set (patch_service_entries identity r')"
      with r show ?thesis by (intro via_inherit) (auto simp: inherited_service_prohibitions_def)
    next
      assume "r' \<noteq> Super_admin"
        and "call_service_prefix @ p \<in> set (inherited_service_prohibitions identity r')"
      with r show ?thesis by (intro via_inherit) (auto simp: inherited_service_prohibitions_def)
    qed
  qed
qed

lemma service_patterns_descend:
  assumes "service_patterns (forbidden_for_role identity r') \<noteq> []" and "r \<le> r'"
  shows "service_patterns (forbidden_for_role identity r) \<noteq> []"
proof (cases "r = User \<or> r = r'")
  case True
  then show ?thesis using assms(1) user_patterns_have_star [of identity] by fastforce
next
  case False
  with assms(2) have r: "r = Admin" "r' = Super_admin"
    by (cases r; cases r'; simp add: less_eq_role_def)+
  from assms(1) obtain p where "call_service_prefix @ p \<in> set (forbidden_for_role identity r')"
    using service_patterns_mem by (metis list.set_intros(1) neq_Nil_conv)
  from forbidden_service_origin [OF this] r
  have "call_service_prefix @ p \<in> set (inherited_service_prohibitions identity Admin)"
    by (auto simp: inherited_service_prohibitions_def)
  with inherited_in_forbidden [of Admin identity] r
  have "p \<in> set (service_patterns (forbidden_for_role identity r))"
    by (auto simp: service_patterns_mem)
  then show ?thesis by auto
qed

subsection \<open>The properties\<close>

lemma household_reach:
  assumes "caller_role c = Turn User"
  shows "check c command params = None \<longleftrightarrow>
    command \<in> set user_allowed_commands \<and>
    \<not> is_forbidden (forbidden c) command params \<and>
    (service_bearing command \<longrightarrow>
      (\<exists>s. service_for_command command params = Some s \<and> service_allowed s))"
proof (cases "service_for_command command params")
  case None
  then have "\<not> service_bearing command \<or> command = ''ha.call_service''"
    using wrapper_service_ok [of command params] by auto
  with None assms show ?thesis
    by (auto simp: check_def Let_def service_bearing_def)
next
  case (Some s)
  then have "service_bearing command" by (rule service_for_command_bearing)
  with Some assms show ?thesis
    using classify_Some [of s]
    by (cases "classify (Some s)") (auto simp: check_def Let_def simp del: classify_Some)
qed

text \<open>
  A household caller reaches only the read-only commands and the everyday services: a call
  of a \<open>user\<close> passes \<open>check\<close> exactly when its command is in the household set, its
  forbidden set does not block it, and, if the command calls a service, that service is a well
  formed one of the household table. What the configuration patches put into or take out of
  the forbidden set can only narrow this.
\<close>

theorem user_reach:
  assumes "caller_role c = Turn User"
  shows "check c command params = None \<longleftrightarrow>
    command \<in> set user_allowed_commands \<and>
    \<not> is_forbidden (forbidden c) command params \<and>
    (service_bearing command \<longrightarrow>
      (\<exists>s. service_for_command command params = Some s \<and> service_allowed s))"
  by (rule household_reach [OF assms])

theorem user_reach_witness:
  "check untrusted ''ha.get_state'' [] = None \<and> check untrusted ''fs.write'' [] \<noteq> None"
proof -
  have u: "caller_role untrusted = Turn User" by (simp add: untrusted_def)
  have a: "''ha.get_state'' \<in> set user_allowed_commands \<and>
      \<not> is_forbidden (forbidden untrusted) ''ha.get_state'' [] \<and> \<not> service_bearing ''ha.get_state''"
    by code_simp
  have b: "''fs.write'' \<notin> set user_allowed_commands" by code_simp
  show ?thesis
    using user_reach [OF u, of "''ha.get_state''" "[]"] user_reach [OF u, of "''fs.write''" "[]"] a b
    by simp
qed

text \<open>
  A service on the deny list is refused \<open>SERVICE_DENIED\<close> for every caller, the operator
  included, and for an operator nothing else is refused.
\<close>

theorem denied_for_everyone:
  "(service_for_command command params \<noteq> None \<and>
      classify (service_for_command command params) = Deny
    \<longrightarrow> (\<exists>r. check c command params = Some r \<and> reply_code r = ''SERVICE_DENIED'')) \<and>
   (caller_role c = Operator \<longrightarrow>
      check c command params \<noteq> None \<longrightarrow>
      (service_for_command command params \<noteq> None \<and>
       classify (service_for_command command params) = Deny))"
  by (auto simp: check_def Let_def split: option.splits)

theorem denied_for_everyone_witness:
  "\<exists>r. check (operator_caller ''op'') ''ha.call_service''
          [(''domain'', JStr ''homeassistant''), (''service'', JStr ''restart'')] = Some r \<and>
        reply_code r = ''SERVICE_DENIED''"
proof -
  let ?p = "[(''domain'', JStr ''homeassistant''), (''service'', JStr ''restart'')]"
  have "service_for_command ''ha.call_service'' ?p = Some ''homeassistant.restart''"
    and "classify (Some ''homeassistant.restart'') = Deny"
    by code_simp+
  then show ?thesis
    using denied_for_everyone [of "''ha.call_service''" ?p "operator_caller ''op''"] by simp
qed

text \<open>
  Privilege never inverts for services: whatever the patches of the three roles say, a
  service call that the service entries of a more privileged role's forbidden set block is
  blocked for every less privileged role too.
\<close>

theorem service_prohibitions_descend:
  assumes "r \<le> r'" and "service_bearing command"
    and "command \<notin> set (forbidden_for_role identity r')"
    and "is_forbidden (forbidden_for_role identity r') command params"
  shows "is_forbidden (forbidden_for_role identity r) command params"
proof -
  let ?ps' = "service_patterns (forbidden_for_role identity r')"
  have ne: "?ps' \<noteq> []" using assms by (auto simp: is_forbidden_def split: if_splits)
  have mono: "service_patterns (forbidden_for_role identity r) \<noteq> []"
    if "list_ex (pattern_blocks s) (service_patterns (forbidden_for_role identity r))" for s
    using that by auto
  have sb: "command = ''ha.call_service'' \<or> command \<in> set (map fst wrapper_services)"
    using assms(2) by (simp add: service_bearing_def)
  show ?thesis
  proof (cases "service_for_command command params")
    case (Some s)
    with assms ne have "list_ex (pattern_blocks s) ?ps'"
      by (auto simp: is_forbidden_def split: if_splits)
    then obtain p where "p \<in> set ?ps'" "pattern_blocks s p" by (auto simp: list_ex_iff)
    with assms(1) have "list_ex (pattern_blocks s) (service_patterns (forbidden_for_role identity r))"
      by (rule service_pattern_inherited)
    with mono sb Some show ?thesis by (auto simp: is_forbidden_def)
  next
    case None
    have "service_patterns (forbidden_for_role identity r) \<noteq> []"
      using ne assms(1) by (rule service_patterns_descend)
    with sb None show ?thesis by (auto simp: is_forbidden_def)
  qed
qed

theorem service_prohibitions_descend_witness:
  "is_forbidden (forbidden_for_role
      (default_identity\<lparr>forbidden_commands :=
         [(Super_admin, \<lparr>patch_add = [''ha.call_service:li*''], patch_remove = []\<rparr>)]\<rparr>) User)
     ''ha.light_turn_on'' []"
proof (rule service_prohibitions_descend [where r' = Super_admin])
  show "User \<le> Super_admin" by (simp add: less_eq_role_def)
qed code_simp+

text \<open>
  The order of the roles holds for service entries only: a bare command name that a patch
  adds for an administrator binds the administrator and not the household user, so an
  administrator can be stricter than a user for the same call.
\<close>

theorem bare_prohibition_inverts:
  "\<exists>identity command params.
     is_forbidden (forbidden_for_role identity Admin) command params \<and>
     \<not> is_forbidden (forbidden_for_role identity User) command params \<and>
     (\<forall>c. caller_role c = Turn User \<longrightarrow> forbidden c = forbidden_for_role identity User \<longrightarrow>
        check c command params = None)"
proof -
  define identity where "identity = default_identity\<lparr>forbidden_commands :=
     [(Admin, \<lparr>patch_add = [''ha.get_state''], patch_remove = []\<rparr>)]\<rparr>"
  have "is_forbidden (forbidden_for_role identity Admin) ''ha.get_state'' []"
    and "\<not> is_forbidden (forbidden_for_role identity User) ''ha.get_state'' []"
    and "''ha.get_state'' \<in> set user_allowed_commands \<and> \<not> service_bearing ''ha.get_state''"
    unfolding identity_def by code_simp+
  then show ?thesis
    by (intro exI [of _ identity] exI [of _ "''ha.get_state''"] exI [of _ "[]"])
       (simp add: check_def Let_def service_bearing_def service_for_command_def
          wrapper_services_def)
qed

theorem bare_prohibition_inverts_witness:
  "is_forbidden (forbidden_for_role (default_identity\<lparr>forbidden_commands :=
     [(Admin, \<lparr>patch_add = [''ha.get_state''], patch_remove = []\<rparr>)]\<rparr>) Admin) ''ha.get_state'' [] \<and>
   (\<exists>identity command params.
     is_forbidden (forbidden_for_role identity Admin) command params \<and>
     \<not> is_forbidden (forbidden_for_role identity User) command params)"
proof
  show "is_forbidden (forbidden_for_role (default_identity\<lparr>forbidden_commands :=
     [(Admin, \<lparr>patch_add = [''ha.get_state''], patch_remove = []\<rparr>)]\<rparr>) Admin) ''ha.get_state'' []"
    by code_simp
qed (use bare_prohibition_inverts in blast)

end
