(* ===== verification/Py_Text.thy ===== *)
theory Py_Text
  imports Prelude
begin

text \<open>
  The text Python gives of a value: \<open>repr\<close> and \<open>str\<close>, and \<open>json.dumps\<close> of a string
  with its default \<open>ensure_ascii\<close>, with the reader that takes such a string back.
\<close>

subsection \<open>Hexadecimal digits\<close>

definition hex_char :: "nat \<Rightarrow> char" where
  "hex_char n = (if n < 10 then char_of (48 + n) else char_of (87 + n))"

definition unhex :: "char \<Rightarrow> nat" where
  "unhex c = (if of_char c < (58::nat) then of_char c - 48 else of_char c - 87)"

definition hex2 :: "nat \<Rightarrow> string" where
  "hex2 n = [hex_char (n div 16 mod 16), hex_char (n mod 16)]"

lemma unhex_hex_char [simp]: "n < 16 \<Longrightarrow> unhex (hex_char n) = n"
  by (simp add: unhex_def hex_char_def)

lemma hex2_unhex:
  "n < 256 \<Longrightarrow> 16 * unhex (hex_char (n div 16 mod 16)) + unhex (hex_char (n mod 16)) = n"
  by simp

subsection \<open>JSON strings\<close>

definition json_plain :: "char \<Rightarrow> bool" where
  "json_plain c \<longleftrightarrow> (32::nat) \<le> of_char c \<and> of_char c \<le> (126::nat) \<and> c \<noteq> CHR 0x22 \<and> c \<noteq> CHR 0x5C"

definition json_esc :: "char \<Rightarrow> string" where
  "json_esc c =
     (if json_plain c then [c]
      else if c = CHR 0x22 then [CHR 0x5C, CHR 0x22]
      else if c = CHR 0x5C then [CHR 0x5C, CHR 0x5C]
      else if c = CHR 0x0A then [CHR 0x5C, CHR ''n'']
      else if c = CHR 0x0D then [CHR 0x5C, CHR ''r'']
      else if c = CHR 0x09 then [CHR 0x5C, CHR ''t'']
      else if c = CHR 0x0C then [CHR 0x5C, CHR ''f'']
      else if c = CHR 0x08 then [CHR 0x5C, CHR ''b'']
      else [CHR 0x5C, CHR ''u'', CHR ''0'', CHR ''0''] @ hex2 (of_char c))"

definition json_dumps_inner :: "string \<Rightarrow> string" where
  "json_dumps_inner s = concat (map json_esc s)"

definition json_dumps_str :: "string \<Rightarrow> string" where
  "json_dumps_str s = CHR 0x22 # json_dumps_inner s @ [CHR 0x22]"

text \<open>Reading one escape after its backslash, and a string up to its closing quote.\<close>

definition read_escape :: "string \<Rightarrow> (char \<times> string) option" where
  "read_escape r = (case r of
     [] \<Rightarrow> None
   | c # t \<Rightarrow>
       if c = CHR 0x22 \<or> c = CHR 0x5C then Some (c, t)
       else if c = CHR ''n'' then Some (CHR 0x0A, t)
       else if c = CHR ''r'' then Some (CHR 0x0D, t)
       else if c = CHR ''t'' then Some (CHR 0x09, t)
       else if c = CHR ''f'' then Some (CHR 0x0C, t)
       else if c = CHR ''b'' then Some (CHR 0x08, t)
       else if c = CHR ''u'' then
         (case t of
            _ # _ # a # b # u \<Rightarrow> Some (char_of (16 * unhex a + unhex b), u)
          | _ \<Rightarrow> None)
       else None)"

lemma read_escape_shorter: "read_escape r = Some (c, t) \<Longrightarrow> length t < length r"
  by (auto simp: read_escape_def split: list.splits if_splits)

function read_string :: "string \<Rightarrow> (string \<times> string) option" where
  "read_string [] = None"
| "read_string (c # r) =
     (if c = CHR 0x22 then Some ([], r)
      else if c = CHR 0x5C then
        (case read_escape r of
           None \<Rightarrow> None
         | Some (d, t) \<Rightarrow> map_option (apfst (Cons d)) (read_string t))
      else map_option (apfst (Cons c)) (read_string r))"
  by pat_completeness auto
termination
  by (relation "measure length") (auto dest: read_escape_shorter)

lemma json_esc_cases:
  obtains (plain) "json_esc c = [c]" "c \<noteq> CHR 0x22" "c \<noteq> CHR 0x5C"
  | (escaped) e where "json_esc c = CHR 0x5C # e" "\<And>r. read_escape (e @ r) = Some (c, r)"
proof (cases "json_plain c")
  case True
  then show ?thesis using plain by (auto simp: json_esc_def json_plain_def)
next
  case False
  have b: "of_char c < (256::nat)" by (rule nat_of_char_less_256)
  from False show ?thesis
    using escaped [of "tl (json_esc c)"] hex2_unhex [OF b]
    by (auto simp: json_esc_def read_escape_def hex2_def)
qed

theorem read_string_dumps: "read_string (json_dumps_inner s @ CHR 0x22 # r) = Some (s, r)"
proof (induction s)
  case Nil
  show ?case by (simp add: json_dumps_inner_def)
next
  case (Cons c s)
  show ?case
  proof (cases c rule: json_esc_cases)
    case plain
    with Cons show ?thesis by (simp add: json_dumps_inner_def)
  next
    case (escaped e)
    with Cons show ?thesis by (simp add: json_dumps_inner_def)
  qed
qed

lemma json_dumps_str_inj:
  assumes "json_dumps_str s @ r = json_dumps_str t @ r'"
  shows "s = t \<and> r = r'"
proof -
  from assms have "json_dumps_inner s @ CHR 0x22 # r = json_dumps_inner t @ CHR 0x22 # r'"
    by (simp add: json_dumps_str_def)
  then have "read_string (json_dumps_inner s @ CHR 0x22 # r) =
      read_string (json_dumps_inner t @ CHR 0x22 # r')" by simp
  then show ?thesis by (simp add: read_string_dumps)
qed

lemma json_esc_no_control: "x \<in> set (json_esc c) \<Longrightarrow> (32::nat) \<le> of_char x \<and> of_char x \<le> (126::nat)"
proof -
  have h: "n < 16 \<Longrightarrow> (48::nat) \<le> of_char (hex_char n) \<and> of_char (hex_char n) \<le> (102::nat)" for n
    by (auto simp: hex_char_def)
  have "of_char c mod 16 < (16::nat)" "of_char c div 16 mod 16 < (16::nat)" by simp_all
  note m = h [OF this(1)] h [OF this(2)]
  show "x \<in> set (json_esc c) \<Longrightarrow> ?thesis"
    using m by (auto simp: json_esc_def json_plain_def hex2_def split: if_splits)
qed

subsection \<open>Decimal text\<close>

lemma nat_digits_lt10: "d \<in> set (nat_digits n) \<Longrightarrow> d < 10"
proof (induction n rule: nat_digits.induct)
  case (1 n)
  then show ?case by (cases "n < 10") (auto simp: nat_digits.simps [of n])
qed

definition digits_val :: "nat list \<Rightarrow> nat" where
  "digits_val ds = foldl (\<lambda>a d. 10 * a + d) 0 ds"

lemma digits_val_snoc [simp]: "digits_val (ds @ [d]) = 10 * digits_val ds + d"
  by (simp add: digits_val_def)

lemma digits_val_nat_digits [simp]: "digits_val (nat_digits n) = n"
proof (induction n rule: nat_digits.induct)
  case (1 n)
  then show ?case
    by (cases "n < 10") (simp_all add: nat_digits.simps [of n] digits_val_def [of "[n]"])
qed

lemma nat_digits_inj: "nat_digits m = nat_digits n \<Longrightarrow> m = n"
  by (metis digits_val_nat_digits)

lemma digit_char_inj: "a < 10 \<Longrightarrow> b < 10 \<Longrightarrow> digit_char a = digit_char b \<Longrightarrow> a = b"
  by (simp add: digit_char_def char_of_eq_iff take_bit_eq_mod)

lemma nat_str_inj: "nat_str m = nat_str n \<Longrightarrow> m = n"
proof -
  assume e: "nat_str m = nat_str n"
  have "inj_on digit_char (set (nat_digits m) \<union> set (nat_digits n))"
    by (rule inj_onI) (auto dest: nat_digits_lt10 intro: digit_char_inj)
  with e have "nat_digits m = nat_digits n" by (simp add: nat_str_def inj_on_map_eq_map)
  then show ?thesis by (rule nat_digits_inj)
qed

lemma nat_str_digits: "x \<in> set (nat_str n) \<Longrightarrow> (48::nat) \<le> of_char x \<and> of_char x \<le> (57::nat)"
  using nat_digits_lt10 by (fastforce simp: nat_str_def digit_char_def)

lemma nat_digits_nonempty: "nat_digits n \<noteq> []"
  by (subst nat_digits.simps) simp

lemma int_str_inj: "int_str i = int_str j \<Longrightarrow> i = j"
proof -
  assume e: "int_str i = int_str j"
  have "hd (nat_str n) \<noteq> CHR ''-''" for n
  proof -
    have "hd (nat_str n) \<in> set (nat_str n)"
      by (intro hd_in_set) (simp add: nat_str_def nat_digits_nonempty)
    then show ?thesis using nat_str_digits by fastforce
  qed
  then have "nat_str n \<noteq> CHR ''-'' # s" for n s by (metis list.sel(1))
  then have "CHR ''-'' # s \<noteq> nat_str n" for n s by metis
  with e \<open>\<And>s n. nat_str n \<noteq> CHR ''-'' # s\<close> show "i = j"
    by (auto simp: int_str_def split: if_splits dest!: nat_str_inj)
qed

lemma int_str_chars: "x \<in> set (int_str i) \<Longrightarrow> x = CHR ''-'' \<or> ((48::nat) \<le> of_char x \<and> of_char x \<le> (57::nat))"
  using nat_str_digits by (auto simp: int_str_def split: if_splits)

subsection \<open>repr and str\<close>

definition repr_quote :: "string \<Rightarrow> char" where
  "repr_quote s = (if CHR 0x27 \<in> set s \<and> CHR 0x22 \<notin> set s then CHR 0x22 else CHR 0x27)"

definition repr_esc :: "char \<Rightarrow> char \<Rightarrow> string" where
  "repr_esc q c =
     (let n = of_char c :: nat in
      if c = q \<or> c = CHR 0x5C then [CHR 0x5C, c]
      else if c = CHR 0x09 then [CHR 0x5C, CHR ''t'']
      else if c = CHR 0x0A then [CHR 0x5C, CHR ''n'']
      else if c = CHR 0x0D then [CHR 0x5C, CHR ''r'']
      else if n < 32 \<or> (127 \<le> n \<and> n \<le> 160) \<or> n = 173 then [CHR 0x5C, CHR ''x''] @ hex2 n
      else [c])"

definition py_repr_str :: "string \<Rightarrow> string" where
  "py_repr_str s =
     (let q = repr_quote s in q # concat (map (repr_esc q) s) @ [q])"

fun float_text :: "pyfloat \<Rightarrow> string" where
  "float_text (FFin r _) = r"
| "float_text (FInf neg) = (if neg then ''-inf'' else ''inf'')"
| "float_text FNaN = ''nan''"

fun py_repr :: "jval \<Rightarrow> string"
  and py_repr_items :: "jval list \<Rightarrow> string list"
  and py_repr_entries :: "dict \<Rightarrow> string list"
where
  "py_repr JNull = ''None''"
| "py_repr (JBool b) = (if b then ''True'' else ''False'')"
| "py_repr (JInt i) = int_str i"
| "py_repr (JFloat f) = float_text f"
| "py_repr (JStr s) = py_repr_str s"
| "py_repr (JList xs) = ''['' @ join '', '' (py_repr_items xs) @ '']''"
| "py_repr (JObj d) = ''{'' @ join '', '' (py_repr_entries d) @ ''}''"
| "py_repr_items [] = []"
| "py_repr_items (x # xs) = py_repr x # py_repr_items xs"
| "py_repr_entries [] = []"
| "py_repr_entries ((k, v) # d) = (py_repr_str k @ '': '' @ py_repr v) # py_repr_entries d"

text \<open>\<open>str(value)\<close>: a string is itself, everything else its \<open>repr\<close>.\<close>

fun py_str :: "jval \<Rightarrow> string" where
  "py_str (JStr s) = s"
| "py_str v = py_repr v"

end
