(* ===== verification/Code_Masking.thy ===== *)
theory Code_Masking
  imports Py_Text
begin

text \<open>
  Lock and alarm codes (\<open>authz.py\<close>): which values a call supplies as codes, the text a code
  may appear as, and the masking of every log line, error and result that leaves the
  dispatcher.
\<close>

subsection \<open>Supplied codes\<close>

fun is_code_value :: "jval \<Rightarrow> bool" where
  "is_code_value (JStr s) = (s \<noteq> [])"
| "is_code_value (JInt i) = True"
| "is_code_value (JFloat f) = finite_float f"
| "is_code_value _ = False"

fun collect_codes :: "jval \<Rightarrow> jval list"
  and collect_codes_list :: "jval list \<Rightarrow> jval list"
  and collect_codes_dict :: "dict \<Rightarrow> jval list"
where
  "collect_codes (JObj d) = collect_codes_dict d"
| "collect_codes (JList xs) = collect_codes_list xs"
| "collect_codes _ = []"
| "collect_codes_list [] = []"
| "collect_codes_list (x # xs) = collect_codes x @ collect_codes_list xs"
| "collect_codes_dict [] = []"
| "collect_codes_dict ((k, v) # d) =
     (if k = ''code'' \<and> is_code_value v then [v] else collect_codes v) @ collect_codes_dict d"

subsection \<open>Service bodies\<close>

definition code_domains :: "string list" where
  "code_domains = [''lock'', ''alarm_control_panel'']"

text \<open>\<open>ValueError\<close> is \<open>None\<close>.\<close>

definition normalise_service_code :: "string \<Rightarrow> dict \<Rightarrow> dict option" where
  "normalise_service_code domain body =
     (if domain \<notin> set code_domains \<or> \<not> has_key body ''code'' then Some body
      else (case dget body ''code'' of
              JBool b \<Rightarrow> None
            | JList xs \<Rightarrow> None
            | JObj d \<Rightarrow> None
            | JFloat f \<Rightarrow>
                if finite_float f then Some (AList.update ''code'' (JStr (float_text f)) body)
                else None
            | JInt i \<Rightarrow> Some (AList.update ''code'' (JStr (int_str i)) body)
            | v \<Rightarrow> Some body))"

subsection \<open>The forms of a code and the mask\<close>

definition mask_candidates :: "string list" where
  "mask_candidates = [''[redacted]'', ''***'', ''<masked>'']"

fun code_needles :: "jval \<Rightarrow> string list" where
  "code_needles (JStr s) = [s, json_dumps_str s, py_repr_str s, json_dumps_inner s]"
| "code_needles v = [py_str v]"

definition needles :: "jval list \<Rightarrow> string list" where
  "needles codes = filter (\<lambda>n. n \<noteq> []) (concat (map code_needles codes))"

text \<open>Longest first: \<open>sorted(needles, key=len, reverse=True)\<close>.\<close>

definition ordered_needles :: "jval list \<Rightarrow> string list" where
  "ordered_needles codes = sort_key (\<lambda>n. - int (length n)) (remdups (needles codes))"

definition choose_mask :: "string list \<Rightarrow> string" where
  "choose_mask ns =
     (case find (\<lambda>m. \<not> list_ex (\<lambda>n. sublist n m) ns) mask_candidates of
        Some m \<Rightarrow> m
      | None \<Rightarrow> [])"

text \<open>
  \<open>pattern.sub\<close> for an alternation of literals: at each position the first alternative that
  matches is replaced, and the scan goes on behind it.
\<close>

function sub_forms :: "string list \<Rightarrow> string \<Rightarrow> string \<Rightarrow> string" where
  "sub_forms forms mark text =
     (case find (\<lambda>f. f \<noteq> [] \<and> prefix f text) forms of
        Some f \<Rightarrow> mark @ sub_forms forms mark (drop (length f) text)
      | None \<Rightarrow> (case text of [] \<Rightarrow> [] | c # t \<Rightarrow> c # sub_forms forms mark t))"
  by pat_completeness auto
termination
  by (relation "measure (\<lambda>(forms, mark, text). length text)")
     (auto simp: find_Some_iff prefix_def)

declare sub_forms.simps [simp del]

definition mask_passes :: nat where
  "mask_passes = 8"

fun mask_loop :: "nat \<Rightarrow> string list \<Rightarrow> string \<Rightarrow> string \<Rightarrow> string" where
  "mask_loop 0 forms mark text = []"
| "mask_loop (Suc n) forms mark text =
     (let t = sub_forms forms mark text
      in if list_ex (\<lambda>f. sublist f t) forms then mask_loop n forms mark t else t)"

definition mask_text :: "string \<Rightarrow> string list \<Rightarrow> string \<Rightarrow> string" where
  "mask_text text forms mark =
     (if forms = [] then text else mask_loop mask_passes forms mark text)"

text \<open>\<open>item == n\<close> between numbers: exact, whatever their types.\<close>

fun num_eq :: "'s json \<Rightarrow> 's json \<Rightarrow> bool" where
  "num_eq (JInt i) (JInt j) = (i = j)"
| "num_eq (JInt i) (JFloat (FFin _ (n, d))) = (n = i * d)"
| "num_eq (JFloat (FFin _ (n, d))) (JInt i) = (n = i * d)"
| "num_eq (JFloat (FFin _ (n, d))) (JFloat (FFin _ (m, e))) = (n * e = m * d)"
| "num_eq _ _ = False"

fun is_number :: "'s json \<Rightarrow> bool" where
  "is_number (JInt _) = True"
| "is_number (JFloat _) = True"
| "is_number _ = False"

text \<open>
  \<open>walk\<close>. A dictionary comprehension assigns in order, so keys that become equal keep the
  position of the first and the value of the last.
\<close>

fun walk :: "string list \<Rightarrow> string \<Rightarrow> jval list \<Rightarrow> jval \<Rightarrow> jval"
  and walk_list :: "string list \<Rightarrow> string \<Rightarrow> jval list \<Rightarrow> jval list \<Rightarrow> jval list"
  and walk_dict :: "string list \<Rightarrow> string \<Rightarrow> jval list \<Rightarrow> dict \<Rightarrow> dict \<Rightarrow> dict"
where
  "walk forms mark nums (JStr s) = JStr (mask_text s forms mark)"
| "walk forms mark nums (JInt i) =
     (if list_ex (num_eq (JInt i)) nums then JStr mark else JInt i)"
| "walk forms mark nums (JFloat f) =
     (if list_ex (num_eq (JFloat f)) nums then JStr mark else JFloat f)"
| "walk forms mark nums (JObj d) = JObj (walk_dict forms mark nums [] d)"
| "walk forms mark nums (JList xs) = JList (walk_list forms mark nums xs)"
| "walk forms mark nums v = v"
| "walk_list forms mark nums [] = []"
| "walk_list forms mark nums (x # xs) = walk forms mark nums x # walk_list forms mark nums xs"
| "walk_dict forms mark nums acc [] = acc"
| "walk_dict forms mark nums acc ((k, v) # d) =
     walk_dict forms mark nums
       (AList.update (mask_text k forms mark) (walk forms mark nums v) acc) d"

definition scrub_codes :: "jval \<Rightarrow> jval list \<Rightarrow> jval" where
  "scrub_codes v codes =
     (let ordered = ordered_needles codes
      in walk ordered (choose_mask ordered) (filter is_number codes) v)"

fun mask_code_keys :: "jval \<Rightarrow> jval"
  and mask_code_keys_list :: "jval list \<Rightarrow> jval list"
  and mask_code_keys_dict :: "dict \<Rightarrow> dict"
where
  "mask_code_keys (JObj d) = JObj (mask_code_keys_dict d)"
| "mask_code_keys (JList xs) = JList (mask_code_keys_list xs)"
| "mask_code_keys v = v"
| "mask_code_keys_list [] = []"
| "mask_code_keys_list (x # xs) = mask_code_keys x # mask_code_keys_list xs"
| "mask_code_keys_dict [] = []"
| "mask_code_keys_dict ((k, v) # d) =
     (k, if k = ''code'' then JStr ''[redacted]'' else mask_code_keys v) # mask_code_keys_dict d"

definition redact_code :: "dict \<Rightarrow> jval" where
  "redact_code params = scrub_codes (mask_code_keys (JObj params)) (collect_codes (JObj params))"

subsection \<open>Values seen as text and numbers\<close>

text \<open>
  \<open>all_text P v\<close>: every string of \<open>v\<close>, keys included, satisfies \<open>P\<close>; \<open>all_numbers\<close>
  likewise for its numbers; \<open>distinct_keys\<close>: every dictionary inside has distinct keys.
\<close>

fun all_text :: "(string \<Rightarrow> bool) \<Rightarrow> jval \<Rightarrow> bool"
  and all_text_list :: "(string \<Rightarrow> bool) \<Rightarrow> jval list \<Rightarrow> bool"
  and all_text_dict :: "(string \<Rightarrow> bool) \<Rightarrow> dict \<Rightarrow> bool"
where
  "all_text P (JStr s) = P s"
| "all_text P (JList xs) = all_text_list P xs"
| "all_text P (JObj d) = all_text_dict P d"
| "all_text P _ = True"
| "all_text_list P [] = True"
| "all_text_list P (x # xs) = (all_text P x \<and> all_text_list P xs)"
| "all_text_dict P [] = True"
| "all_text_dict P ((k, v) # d) = (P k \<and> all_text P v \<and> all_text_dict P d)"

fun all_numbers :: "(jval \<Rightarrow> bool) \<Rightarrow> jval \<Rightarrow> bool"
  and all_numbers_list :: "(jval \<Rightarrow> bool) \<Rightarrow> jval list \<Rightarrow> bool"
  and all_numbers_dict :: "(jval \<Rightarrow> bool) \<Rightarrow> dict \<Rightarrow> bool"
where
  "all_numbers Q (JInt i) = Q (JInt i)"
| "all_numbers Q (JFloat f) = Q (JFloat f)"
| "all_numbers Q (JList xs) = all_numbers_list Q xs"
| "all_numbers Q (JObj d) = all_numbers_dict Q d"
| "all_numbers Q _ = True"
| "all_numbers_list Q [] = True"
| "all_numbers_list Q (x # xs) = (all_numbers Q x \<and> all_numbers_list Q xs)"
| "all_numbers_dict Q [] = True"
| "all_numbers_dict Q ((k, v) # d) = (all_numbers Q v \<and> all_numbers_dict Q d)"

fun distinct_keys :: "jval \<Rightarrow> bool"
  and distinct_keys_list :: "jval list \<Rightarrow> bool"
  and distinct_keys_dict :: "dict \<Rightarrow> bool"
where
  "distinct_keys (JList xs) = distinct_keys_list xs"
| "distinct_keys (JObj d) = (distinct (map fst d) \<and> distinct_keys_dict d)"
| "distinct_keys _ = True"
| "distinct_keys_list [] = True"
| "distinct_keys_list (x # xs) = (distinct_keys x \<and> distinct_keys_list xs)"
| "distinct_keys_dict [] = True"
| "distinct_keys_dict ((k, v) # d) = (distinct_keys v \<and> distinct_keys_dict d)"

lemma all_text_update:
  "P k \<Longrightarrow> all_text P v \<Longrightarrow> all_text_dict P d \<Longrightarrow> all_text_dict P (AList.update k v d)"
  by (induction d rule: dict_induct) auto

lemma all_numbers_update:
  "all_numbers Q v \<Longrightarrow> all_numbers_dict Q d \<Longrightarrow> all_numbers_dict Q (AList.update k v d)"
  by (induction d rule: dict_induct) auto

lemma distinct_keys_update:
  "distinct_keys v \<Longrightarrow> distinct_keys_dict d \<Longrightarrow> distinct_keys_dict (AList.update k v d)"
  by (induction d rule: dict_induct) auto

subsection \<open>Masking\<close>

definition free_of :: "string list \<Rightarrow> string \<Rightarrow> bool" where
  "free_of forms s \<longleftrightarrow> \<not> list_ex (\<lambda>f. sublist f s) forms"

lemma free_of_Nil: "[] \<notin> set forms \<Longrightarrow> free_of forms []"
  by (auto simp: free_of_def list_ex_iff)

lemma mask_loop_free: "[] \<notin> set forms \<Longrightarrow> free_of forms (mask_loop n forms mk s)"
  by (induction n arbitrary: s) (auto simp: free_of_Nil Let_def free_of_def [symmetric])

lemma mask_text_free: "[] \<notin> set forms \<Longrightarrow> free_of forms (mask_text s forms mk)"
  by (auto simp: mask_text_def mask_loop_free) (simp add: free_of_def)

lemma choose_mask_free: "[] \<notin> set forms \<Longrightarrow> free_of forms (choose_mask forms)"
  by (auto simp: choose_mask_def find_Some_iff free_of_def list_ex_iff split: option.splits)

lemma free_of_Cons: "free_of forms (c # s) \<Longrightarrow> free_of forms s"
  by (auto simp: free_of_def list_ex_iff dest: sublist_order.order_trans [OF _ sublist_Cons_right [THEN iffD2, OF disjI2]])

lemma sub_forms_free: "free_of forms s \<Longrightarrow> sub_forms forms mk s = s"
proof (induction s)
  case Nil
  then have "find (\<lambda>f. f \<noteq> [] \<and> prefix f []) forms = None"
    by (auto simp: find_None_iff)
  then show ?case by (simp add: sub_forms.simps)
next
  case (Cons c s)
  then have "find (\<lambda>f. f \<noteq> [] \<and> prefix f (c # s)) forms = None"
    by (auto simp: find_None_iff free_of_def list_ex_iff)
  with Cons free_of_Cons show ?case by (subst sub_forms.simps) auto
qed

lemma mask_text_id: "free_of forms s \<Longrightarrow> mask_text s forms mk = s"
  by (auto simp: mask_text_def mask_passes_def eval_nat_numeral sub_forms_free free_of_def)

lemma walk_text:
  assumes "[] \<notin> set forms" and "free_of forms mk"
  shows "all_text (free_of forms) (walk forms mk nums v)"
    and "all_text_list (free_of forms) (walk_list forms mk nums xs)"
    and "all_text_dict (free_of forms) acc \<Longrightarrow>
           all_text_dict (free_of forms) (walk_dict forms mk nums acc d)"
  using assms
  by (induction forms mk nums v and forms mk nums xs and forms mk nums acc d
      rule: walk_walk_list_walk_dict.induct)
     (auto simp: mask_text_free all_text_update)

lemma walk_numbers:
  shows "all_numbers (\<lambda>x. \<not> list_ex (num_eq x) nums) (walk forms mk nums v)"
    and "all_numbers_list (\<lambda>x. \<not> list_ex (num_eq x) nums) (walk_list forms mk nums xs)"
    and "all_numbers_dict (\<lambda>x. \<not> list_ex (num_eq x) nums) acc \<Longrightarrow>
           all_numbers_dict (\<lambda>x. \<not> list_ex (num_eq x) nums) (walk_dict forms mk nums acc d)"
  by (induction forms mk nums v and forms mk nums xs and forms mk nums acc d
      rule: walk_walk_list_walk_dict.induct)
     (auto simp: all_numbers_update)

lemma walk_distinct:
  shows "distinct_keys (walk forms mk nums v)"
    and "distinct_keys_list (walk_list forms mk nums xs)"
    and "distinct (map fst acc) \<Longrightarrow> distinct_keys_dict acc \<Longrightarrow>
           distinct (map fst (walk_dict forms mk nums acc d)) \<and>
           distinct_keys_dict (walk_dict forms mk nums acc d)"
  by (induction forms mk nums v and forms mk nums xs and forms mk nums acc d
      rule: walk_walk_list_walk_dict.induct)
     (auto simp: distinct_keys_update distinct_update)

lemma update_fresh: "k \<notin> set (map fst d) \<Longrightarrow> AList.update k v d = d @ [(k, v)]"
  by (induction d) auto

lemma walk_id:
  shows "all_text (free_of forms) v \<Longrightarrow> all_numbers (\<lambda>x. \<not> list_ex (num_eq x) nums) v \<Longrightarrow>
           distinct_keys v \<Longrightarrow> walk forms mk nums v = v"
    and "all_text_list (free_of forms) xs \<Longrightarrow>
           all_numbers_list (\<lambda>x. \<not> list_ex (num_eq x) nums) xs \<Longrightarrow>
           distinct_keys_list xs \<Longrightarrow> walk_list forms mk nums xs = xs"
    and "all_text_dict (free_of forms) d \<Longrightarrow>
           all_numbers_dict (\<lambda>x. \<not> list_ex (num_eq x) nums) d \<Longrightarrow>
           distinct (map fst (acc @ d)) \<Longrightarrow> distinct_keys_dict d \<Longrightarrow>
           walk_dict forms mk nums acc d = acc @ d"
  by (induction forms mk nums v and forms mk nums xs and forms mk nums acc d
      rule: walk_walk_list_walk_dict.induct)
     (auto simp: mask_text_id update_fresh)

lemma set_ordered_needles [simp]: "set (ordered_needles codes) = set (needles codes)"
  by (simp add: ordered_needles_def)

lemma free_of_ordered: "free_of (ordered_needles codes) = free_of (needles codes)"
  by (auto simp: free_of_def list_ex_iff fun_eq_iff)

lemma needles_nonempty: "[] \<notin> set (needles codes)"
  by (simp add: needles_def)

text \<open>Nothing in \<open>v\<close> shows one of the codes.\<close>

definition hides_codes :: "jval list \<Rightarrow> jval \<Rightarrow> bool" where
  "hides_codes codes v \<longleftrightarrow>
     all_text (free_of (needles codes)) v \<and>
     all_numbers (\<lambda>x. \<not> list_ex (num_eq x) (filter is_number codes)) v"

lemma scrub_codes_hides: "hides_codes codes (scrub_codes v codes)"
proof -
  have "[] \<notin> set (ordered_needles codes)" by (simp add: needles_nonempty)
  then show ?thesis
    using walk_text(1) [OF _ choose_mask_free] walk_numbers(1)
    by (simp add: hides_codes_def scrub_codes_def Let_def free_of_ordered [symmetric])
qed

lemma scrub_codes_distinct: "distinct_keys (scrub_codes v codes)"
  by (simp add: scrub_codes_def Let_def walk_distinct(1))

lemma scrub_codes_id:
  "hides_codes codes v \<Longrightarrow> distinct_keys v \<Longrightarrow> scrub_codes v codes = v"
  by (simp add: hides_codes_def scrub_codes_def Let_def free_of_ordered [symmetric] walk_id(1))

subsection \<open>Which codes a call supplies\<close>

text \<open>\<open>part_of x v\<close>: \<open>x\<close> is \<open>v\<close> or sits anywhere inside it.\<close>

inductive part_of :: "jval \<Rightarrow> jval \<Rightarrow> bool" where
  here: "part_of v v"
| in_list: "x \<in> set xs \<Longrightarrow> part_of w x \<Longrightarrow> part_of w (JList xs)"
| in_dict: "(k, x) \<in> set d \<Longrightarrow> part_of w x \<Longrightarrow> part_of w (JObj d)"

inductive_simps part_of_list: "part_of w (JList xs)"
inductive_simps part_of_dict: "part_of w (JObj d)"

lemma part_of_code_value: "is_code_value v \<Longrightarrow> part_of (JObj d) v \<Longrightarrow> False"
  by (erule part_of.cases) auto

lemma collect_codes_sound:
  shows "c \<in> set (collect_codes v) \<Longrightarrow>
      is_code_value c \<and> (\<exists>d. part_of (JObj d) v \<and> (''code'', c) \<in> set d)"
    and "c \<in> set (collect_codes_list xs) \<Longrightarrow>
      is_code_value c \<and> (\<exists>x \<in> set xs. \<exists>d. part_of (JObj d) x \<and> (''code'', c) \<in> set d)"
    and "c \<in> set (collect_codes_dict e) \<Longrightarrow>
      is_code_value c \<and> ((''code'', c) \<in> set e \<or>
        (\<exists>(k, x) \<in> set e. \<exists>d. part_of (JObj d) x \<and> (''code'', c) \<in> set d))"
  by (induction v and xs and e rule: collect_codes_collect_codes_list_collect_codes_dict.induct)
     (auto simp: part_of_list part_of_dict split: if_splits intro: part_of.intros)

lemma collect_codes_dict_iff:
  "c \<in> set (collect_codes_dict e) \<longleftrightarrow>
     (\<exists>(k, x) \<in> set e. if k = ''code'' \<and> is_code_value x then c = x else c \<in> set (collect_codes x))"
  by (induction e rule: dict_induct) auto

lemma collect_codes_list_iff:
  "c \<in> set (collect_codes_list xs) \<longleftrightarrow> (\<exists>x \<in> set xs. c \<in> set (collect_codes x))"
  by (induction xs) auto

lemma collect_codes_complete:
  assumes "part_of w v" and "w = JObj d" and "(''code'', c) \<in> set d" and "is_code_value c"
  shows "c \<in> set (collect_codes v)"
  using assms
proof (induction rule: part_of.induct)
  case (here v)
  then show ?case by (force simp: collect_codes_dict_iff)
next
  case (in_list x xs w)
  then show ?case by (auto simp: collect_codes_list_iff)
next
  case (in_dict k x e w)
  then have "c \<in> set (collect_codes x)" and "\<not> is_code_value x"
    using part_of_code_value by auto
  with in_dict.hyps show ?case by (force simp: collect_codes_dict_iff)
qed

text \<open>
  The codes of a call are exactly the non-empty strings and finite numbers that stand under
  a \<open>code\<close> key, at any depth of its parameters.
\<close>

theorem collect_codes_exact:
  "c \<in> set (collect_codes v) \<longleftrightarrow>
     is_code_value c \<and> (\<exists>d. part_of (JObj d) v \<and> (''code'', c) \<in> set d)"
  using collect_codes_sound(1) [of c v] collect_codes_complete by blast

text \<open>
  C6. Masking hides every code: in the scrubbed value no string, dictionary keys included,
  contains any textual form of a supplied code, and no number equals a numeric one. Masking
  again changes nothing, and a value with distinct keys that shows no code is left as it is.
\<close>

theorem scrub_codes_no_leak:
  "hides_codes codes (scrub_codes v codes) \<and>
   scrub_codes (scrub_codes v codes) codes = scrub_codes v codes \<and>
   (hides_codes codes v \<longrightarrow> distinct_keys v \<longrightarrow> scrub_codes v codes = v)"
  using scrub_codes_hides scrub_codes_distinct scrub_codes_id by blast

theorem scrub_codes_no_leak_witness:
  "scrub_codes (JObj [(''state'', JStr ''armed'')]) [JStr ''1234'', JInt 77] =
     JObj [(''state'', JStr ''armed'')] \<and>
   scrub_codes (JList [JStr ''pin 1234 no'', JInt 77, JInt 78]) [JStr ''1234'', JInt 77] =
     JList [JStr ''pin [redacted] no'', JStr ''[redacted]'', JInt 78]"
proof
  have "hides_codes [JStr ''1234'', JInt 77] (JObj [(''state'', JStr ''armed'')]) \<and>
      distinct_keys (JObj [(''state'', JStr ''armed'')])"
    by code_simp
  then show "scrub_codes (JObj [(''state'', JStr ''armed'')]) [JStr ''1234'', JInt 77] =
     JObj [(''state'', JStr ''armed'')]"
    using scrub_codes_no_leak by blast
  show "scrub_codes (JList [JStr ''pin 1234 no'', JInt 77, JInt 78]) [JStr ''1234'', JInt 77] =
     JList [JStr ''pin [redacted] no'', JStr ''[redacted]'', JInt 78]"
    by code_simp
qed

end
