(* ===== verification/Canonical_JSON.thy ===== *)
theory Canonical_JSON
  imports Py_Text
begin

text \<open>
  The canonical JSON text of \<open>commands/config_mutation.py\<close>, which the gateway plugin computes
  as well: keys sorted by UTF-16 code unit, no white space, strings escaped and numbers printed
  as ECMAScript does, encoded as UTF-8. Strings are lists of code points here, lone surrogates
  included. The text is shown to be unambiguous: it determines the value up to the order of the
  keys and the spelling of numbers.
\<close>

type_synonym ustr = "nat list"

definition of_ascii :: "string \<Rightarrow> ustr" where
  "of_ascii s = map of_char s"

lemma inj_of_ascii: "of_ascii s = of_ascii t \<Longrightarrow> s = t"
  by (simp add: of_ascii_def inj_map_eq_map inj_def)

subsection \<open>Sort key\<close>

definition utf16_units :: "nat \<Rightarrow> nat list" where
  "utf16_units c =
     (if c < 0x10000 then [c]
      else [0xD800 + (c - 0x10000) div 0x400, 0xDC00 + (c - 0x10000) mod 0x400])"

definition utf16_key :: "ustr \<Rightarrow> nat list" where
  "utf16_key s = concat (map (\<lambda>u. [u div 256, u mod 256]) (concat (map utf16_units s)))"

subsection \<open>Strings\<close>

definition es_hex4 :: "nat \<Rightarrow> ustr" where
  "es_hex4 n = map (\<lambda>d. of_char (hex_char d))
     [n div 4096 mod 16, n div 256 mod 16, n div 16 mod 16, n mod 16]"

definition es_escape :: "nat \<Rightarrow> ustr" where
  "es_escape c =
     (if c = 0x22 then [0x5C, 0x22]
      else if c = 0x5C then [0x5C, 0x5C]
      else if c = 0x08 then of_ascii [CHR 0x5C, CHR ''b'']
      else if c = 0x0C then of_ascii [CHR 0x5C, CHR ''f'']
      else if c = 0x0A then of_ascii [CHR 0x5C, CHR ''n'']
      else if c = 0x0D then of_ascii [CHR 0x5C, CHR ''r'']
      else if c = 0x09 then of_ascii [CHR 0x5C, CHR ''t'']
      else if c < 0x20 \<or> (0xD800 \<le> c \<and> c \<le> 0xDFFF) then
        of_ascii [CHR 0x5C, CHR ''u''] @ es_hex4 c
      else [c])"

definition es_string :: "ustr \<Rightarrow> ustr" where
  "es_string s = 0x22 # concat (map es_escape s) @ [0x22]"

subsection \<open>Numbers\<close>

text \<open>
  \<open>Decimal(repr(x)).as_tuple()\<close>: sign, coefficient digits without leading zeros, exponent.
\<close>

definition read_nat :: "string \<Rightarrow> nat" where
  "read_nat s = digits_val (map (\<lambda>c. of_char c - 48) s)"

definition read_int :: "string \<Rightarrow> int" where
  "read_int s = (case s of
     [] \<Rightarrow> 0
   | c # r \<Rightarrow> if c = CHR ''-'' then - int (read_nat r)
             else if c = CHR ''+'' then int (read_nat r)
             else int (read_nat s))"

definition decimal_tuple :: "string \<Rightarrow> bool \<times> nat list \<times> int" where
  "decimal_tuple t =
     (let neg = (take 1 t = ''-'');
          body = (if neg then drop 1 t else t);
          (m, e) = partition_at (CHR ''e'') body;
          (i, f) = partition_at (CHR ''.'') m
      in (neg, nat_digits (read_nat (i @ f)), read_int e - int (length f)))"

definition rstrip_zeros :: "nat list \<Rightarrow> nat list" where
  "rstrip_zeros ds = rev (dropWhile (\<lambda>d. d = 0) (rev ds))"

definition es_decimal :: "bool \<Rightarrow> nat list \<Rightarrow> int \<Rightarrow> string" where
  "es_decimal neg raw exponent =
     (let digits = map digit_char (rstrip_zeros raw);
          k = int (length digits);
          n = int (length raw) + exponent;
          body =
            (if k \<le> n \<and> n \<le> 21 then digits @ replicate (nat (n - k)) (CHR ''0'')
             else if 0 < n \<and> n \<le> 21 then take (nat n) digits @ ''.'' @ drop (nat n) digits
             else if -6 < n \<and> n \<le> 0 then ''0.'' @ replicate (nat (- n)) (CHR ''0'') @ digits
             else take 1 digits @ (if 1 < k then ''.'' @ drop 1 digits else []) @ ''e'' @
                  (if 0 < n then ''+'' else ''-'') @ int_str \<bar>n - 1\<bar>)
      in (if neg then ''-'' else []) @ body)"

fun es_number :: "pyfloat \<Rightarrow> string" where
  "es_number (FFin r q) =
     (if fst q = 0 then ''0''
      else (case decimal_tuple r of (neg, raw, e) \<Rightarrow> es_decimal neg raw e))"
| "es_number _ = ''null''"

subsection \<open>Values\<close>

fun canonical :: "ustr json \<Rightarrow> ustr"
  and canonical_items :: "ustr json list \<Rightarrow> ustr list"
  and canonical_entries :: "(ustr \<times> ustr json) list \<Rightarrow> (ustr \<times> ustr) list"
where
  "canonical (JObj d) =
     of_ascii ''{'' @
     join (of_ascii '','')
       (map (\<lambda>(k, t). es_string k @ of_ascii '':'' @ t)
         (sort_key (\<lambda>p. utf16_key (fst p)) (canonical_entries d))) @
     of_ascii ''}''"
| "canonical (JList xs) = of_ascii ''['' @ join (of_ascii '','') (canonical_items xs) @ of_ascii '']''"
| "canonical (JStr s) = es_string s"
| "canonical (JBool b) = of_ascii (if b then ''true'' else ''false'')"
| "canonical JNull = of_ascii ''null''"
| "canonical (JInt i) = of_ascii (int_str i)"
| "canonical (JFloat f) = of_ascii (es_number f)"
| "canonical_items [] = []"
| "canonical_items (x # xs) = canonical x # canonical_items xs"
| "canonical_entries [] = []"
| "canonical_entries ((k, v) # d) = (k, canonical v) # canonical_entries d"

subsection \<open>UTF-8\<close>

text \<open>Strict encoding: a surrogate raises, which is \<open>None\<close>.\<close>

definition utf8_char :: "nat \<Rightarrow> nat list" where
  "utf8_char c =
     (if c < 0x80 then [c]
      else if c < 0x800 then [0xC0 + c div 0x40, 0x80 + c mod 0x40]
      else if c < 0x10000 then [0xE0 + c div 0x1000, 0x80 + c div 0x40 mod 0x40, 0x80 + c mod 0x40]
      else [0xF0 + c div 0x40000, 0x80 + c div 0x1000 mod 0x40, 0x80 + c div 0x40 mod 0x40,
            0x80 + c mod 0x40])"

definition scalar_value :: "nat \<Rightarrow> bool" where
  "scalar_value c \<longleftrightarrow> c < 0x110000 \<and> \<not> (0xD800 \<le> c \<and> c \<le> 0xDFFF)"

definition utf8_encode :: "ustr \<Rightarrow> nat list option" where
  "utf8_encode s =
     (if list_all scalar_value s then Some (concat (map utf8_char s)) else None)"

subsection \<open>What the text determines\<close>

text \<open>
  The shape of a value: its structure with the keys of every dictionary sorted, and null,
  booleans and numbers as the words they are printed as.
\<close>

datatype shape = SAtom ustr | SStr ustr | SList "shape list" | SObj "(ustr \<times> shape) list"

fun shape_of :: "ustr json \<Rightarrow> shape"
  and shape_items :: "ustr json list \<Rightarrow> shape list"
  and shape_entries :: "(ustr \<times> ustr json) list \<Rightarrow> (ustr \<times> shape) list"
where
  "shape_of (JObj d) = SObj (sort_key (\<lambda>p. utf16_key (fst p)) (shape_entries d))"
| "shape_of (JList xs) = SList (shape_items xs)"
| "shape_of (JStr s) = SStr s"
| "shape_of (JBool b) = SAtom (of_ascii (if b then ''true'' else ''false''))"
| "shape_of JNull = SAtom (of_ascii ''null'')"
| "shape_of (JInt i) = SAtom (of_ascii (int_str i))"
| "shape_of (JFloat f) = SAtom (of_ascii (es_number f))"
| "shape_items [] = []"
| "shape_items (x # xs) = shape_of x # shape_items xs"
| "shape_entries [] = []"
| "shape_entries ((k, v) # d) = (k, shape_of v) # shape_entries d"

fun render :: "shape \<Rightarrow> ustr" where
  "render (SAtom t) = t"
| "render (SStr s) = es_string s"
| "render (SList xs) = 0x5B # join [0x2C] (map render xs) @ [0x5D]"
| "render (SObj es) =
     0x7B # join [0x2C] (map (\<lambda>(k, s). es_string k @ 0x3A # render s) es) @ [0x7D]"

lemma insort_key_map:
  "insort_key h (g x) (map g xs) = map g (insort_key (\<lambda>y. h (g y)) x xs)"
  by (induction xs) auto

lemma sort_key_map: "sort_key h (map g xs) = map g (sort_key (\<lambda>y. h (g y)) xs)"
  by (induction xs) (auto simp: insort_key_map)

lemma canonical_render:
  shows "canonical v = render (shape_of v)"
    and "canonical_items xs = map render (shape_items xs)"
    and "canonical_entries d = map (\<lambda>(k, s). (k, render s)) (shape_entries d)"
proof (induction v and xs and d rule: canonical_canonical_items_canonical_entries.induct)
  case (1 d)
  show ?case
    by (simp add: sort_key_map 1 of_ascii_def case_prod_unfold comp_def)
qed (simp_all add: of_ascii_def)

subsection \<open>Reading strings back\<close>

definition un_hex :: "nat \<Rightarrow> nat" where
  "un_hex n = (if n < 58 then n - 48 else n - 87)"

lemma un_hex_hex_char [simp]: "d < 16 \<Longrightarrow> un_hex (of_char (hex_char d)) = d"
  by (simp add: un_hex_def hex_char_def)

definition read_es_escape :: "ustr \<Rightarrow> (nat \<times> ustr) option" where
  "read_es_escape r = (case r of
     [] \<Rightarrow> None
   | c # t \<Rightarrow>
       if c = 0x22 \<or> c = 0x5C then Some (c, t)
       else if c = 0x6E then Some (0x0A, t)
       else if c = 0x72 then Some (0x0D, t)
       else if c = 0x74 then Some (0x09, t)
       else if c = 0x66 then Some (0x0C, t)
       else if c = 0x62 then Some (0x08, t)
       else (case t of
               w # x # y # z # u \<Rightarrow>
                 Some (4096 * un_hex w + 256 * un_hex x + 16 * un_hex y + un_hex z, u)
             | _ \<Rightarrow> None))"

lemma read_es_escape_shorter: "read_es_escape r = Some (c, t) \<Longrightarrow> length t < length r"
  by (auto simp: read_es_escape_def split: list.splits if_splits)

function read_es_string :: "ustr \<Rightarrow> (ustr \<times> ustr) option" where
  "read_es_string [] = None"
| "read_es_string (c # r) =
     (if c = 0x22 then Some ([], r)
      else if c = 0x5C then
        (case read_es_escape r of
           None \<Rightarrow> None
         | Some (d, t) \<Rightarrow> map_option (apfst (Cons d)) (read_es_string t))
      else map_option (apfst (Cons c)) (read_es_string r))"
  by pat_completeness auto
termination
  by (relation "measure length") (auto dest: read_es_escape_shorter)

lemma hex4_value:
  assumes "n < (65536::nat)"
  shows "4096 * (n div 4096 mod 16) + 256 * (n div 256 mod 16) + 16 * (n div 16 mod 16) + n mod 16 = n"
proof -
  have a: "n div 256 = n div 16 div 16" "n div 4096 = n div 16 div 16 div 16"
    by (simp_all add: div_mult2_eq [symmetric])
  have b: "n div 16 div 16 div 16 mod 16 = n div 16 div 16 div 16"
    using assms by (simp add: div_mult2_eq [symmetric] less_mult_imp_div_less)
  show ?thesis
    using div_mult_mod_eq [of n 16] div_mult_mod_eq [of "n div 16" 16]
      div_mult_mod_eq [of "n div 16 div 16" 16] b
    unfolding a by linarith
qed

lemma read_es_escape_hex4:
  assumes "c < 65536"
  shows "read_es_escape (0x75 # es_hex4 c @ r) = Some (c, r)"
proof -
  have "un_hex (of_char (hex_char (n mod 16))) = n mod 16" for n by simp
  then show ?thesis
    using hex4_value [OF assms]
    by (simp only: read_es_escape_def es_hex4_def list.map append.simps list.case) simp
qed

lemma es_escape_cases:
  obtains (plain) "es_escape c = [c]" "c \<noteq> 0x22" "c \<noteq> 0x5C"
  | (escaped) e where "es_escape c = 0x5C # e" "\<And>r. read_es_escape (e @ r) = Some (c, r)"
proof (cases "c \<in> {0x22, 0x5C, 0x08, 0x0C, 0x0A, 0x0D, 0x09}")
  case True
  then show ?thesis
    using escaped [of "tl (es_escape c)"]
    by (elim insertE) (simp_all add: es_escape_def read_es_escape_def of_ascii_def)
next
  case short: False
  show ?thesis
  proof (cases "c < 0x20 \<or> (0xD800 \<le> c \<and> c \<le> 0xDFFF)")
    case True
    then have "c < 65536" by auto
    with True short show ?thesis
      using escaped [of "0x75 # es_hex4 c"] read_es_escape_hex4 [of c]
      by (simp add: es_escape_def of_ascii_def)
  next
    case False
    with short plain show ?thesis by (simp add: es_escape_def)
  qed
qed

lemma read_es_string_escaped:
  "read_es_string (concat (map es_escape s) @ 0x22 # r) = Some (s, r)"
proof (induction s)
  case (Cons c s)
  then show ?case by (cases c rule: es_escape_cases) simp_all
qed simp

lemma es_string_cancel:
  assumes "es_string s @ r = es_string t @ r'"
  shows "s = t \<and> r = r'"
proof -
  from assms have "read_es_string (concat (map es_escape s) @ 0x22 # r) =
      read_es_string (concat (map es_escape t) @ 0x22 # r')"
    by (simp add: es_string_def)
  then show ?thesis by (simp add: read_es_string_escaped)
qed

subsection \<open>The text is unambiguous\<close>

text \<open>
  \<open>delimited r\<close>: what follows a value inside a text is nothing, a comma or a closing bracket.
\<close>

definition delimiters :: "nat set" where
  "delimiters = {0x2C, 0x5D, 0x7D}"

definition delimited :: "ustr \<Rightarrow> bool" where
  "delimited r \<longleftrightarrow> r = [] \<or> hd r \<in> delimiters"

lemma delimited_simps [simp]: "delimited []" "delimited (c # r) \<longleftrightarrow> c \<in> delimiters"
  by (simp_all add: delimited_def)

definition atom_ok :: "ustr \<Rightarrow> bool" where
  "atom_ok t \<longleftrightarrow> t \<noteq> [] \<and> list_all (\<lambda>c. c \<notin> {0x22, 0x2C, 0x5B, 0x5D, 0x7B, 0x7D}) t"

fun shape_ok :: "shape \<Rightarrow> bool" where
  "shape_ok (SAtom t) = atom_ok t"
| "shape_ok (SStr s) = True"
| "shape_ok (SList xs) = list_all shape_ok xs"
| "shape_ok (SObj es) = list_all (\<lambda>e. shape_ok (snd e)) es"

lemma atom_cancel:
  assumes "atom_ok t" "atom_ok u" "delimited r" "delimited r'" "t @ r = u @ r'"
  shows "t = u \<and> r = r'"
proof -
  have take: "takeWhile (\<lambda>c. c \<notin> delimiters) (v @ w) = v" if "atom_ok v" "delimited w" for v w
  proof -
    have "takeWhile (\<lambda>c. c \<notin> delimiters) (v @ w) = v @ takeWhile (\<lambda>c. c \<notin> delimiters) w"
      using that(1) by (intro takeWhile_append2) (auto simp: atom_ok_def delimiters_def list_all_iff)
    also have "takeWhile (\<lambda>c. c \<notin> delimiters) w = []"
      using that(2) by (cases w) simp_all
    finally show ?thesis by simp
  qed
  have "t = u" using take [of t r] take [of u r'] assms by simp
  with assms(5) show ?thesis by simp
qed

lemma render_head:
  assumes "shape_ok s"
  shows "render s \<noteq> [] \<and> hd (render s) \<notin> {0x2C, 0x5D, 0x7D} \<and>
         (hd (render s) = 0x22 \<longleftrightarrow> (\<exists>t. s = SStr t)) \<and>
         (hd (render s) = 0x5B \<longleftrightarrow> (\<exists>xs. s = SList xs)) \<and>
         (hd (render s) = 0x7B \<longleftrightarrow> (\<exists>es. s = SObj es))"
proof (cases s)
  case (SAtom t)
  then show ?thesis using assms by (cases t) (auto simp: atom_ok_def)
qed (simp_all add: es_string_def)

text \<open>A comma separated list in brackets is determined when its items are.\<close>

lemma join_comma_cancel:
  assumes "\<And>x y r r'. x \<in> set xs \<Longrightarrow> y \<in> set ys \<Longrightarrow> delimited r \<Longrightarrow> delimited r' \<Longrightarrow>
             f x @ r = f y @ r' \<Longrightarrow> x = y \<and> r = r'"
      and "\<And>x. x \<in> set xs \<union> set ys \<Longrightarrow> f x \<noteq> [] \<and> hd (f x) \<noteq> c"
      and "c \<in> {0x5D, 0x7D}"
      and "join [0x2C] (map f xs) @ c # r = join [0x2C] (map f ys) @ c # r'"
  shows "xs = ys \<and> r = r'"
  using assms
proof (induction xs arbitrary: ys)
  case Nil
  then show ?case
  proof (cases ys)
    case (Cons y zs)
    have "hd (join [0x2C] (map f ys) @ c # r') = hd (f y)"
      using Nil(2) [of y] Cons by (cases zs) auto
    with Nil(2) [of y] Nil(4) Cons show ?thesis by (metis Un_iff append_Nil join.simps(1)
      list.map(1) list.sel(1) list.set_intros(1))
  qed simp
next
  case (Cons x xs)
  have d: "c \<in> delimiters" "0x2C \<in> delimiters" "c \<noteq> 0x2C"
    using Cons.prems(3) by (auto simp: delimiters_def)
  show ?case
  proof (cases ys)
    case Nil
    have "hd (join [0x2C] (map f (x # xs)) @ c # r) = hd (f x)"
      using Cons.prems(2) [of x] by (cases xs) auto
    with Cons.prems(2) [of x] Cons.prems(4) Nil show ?thesis
      by (metis Un_iff append_Nil join.simps(1) list.map(1) list.sel(1) list.set_intros(1))
  next
    case (Cons y zs)
    define tl_of :: "'a list \<Rightarrow> ustr \<Rightarrow> ustr" where
      "tl_of as q = (case as of [] \<Rightarrow> c # q | _ \<Rightarrow> 0x2C # join [0x2C] (map f as) @ c # q)" for as q
    have split: "join [0x2C] (map f (a # as)) @ c # q = f a @ tl_of as q" for a as q
      by (cases as) (simp_all add: tl_of_def)
    have del: "delimited (tl_of as q)" for as q
      using d by (cases as) (simp_all add: tl_of_def)
    from Cons.prems(4) Cons have "f x @ tl_of xs r = f y @ tl_of zs r'"
      by (simp only: split)
    with Cons.prems(1) [of x y "tl_of xs r" "tl_of zs r'"] Cons del
    have "x = y \<and> tl_of xs r = tl_of zs r'" by simp
    then have xy: "x = y" and rest: "tl_of xs r = tl_of zs r'" by simp_all
    show ?thesis
    proof (cases "xs = [] \<or> zs = []")
      case True
      with rest d(3) have "xs = [] \<and> zs = [] \<and> r = r'"
        by (auto simp: tl_of_def split: list.splits)
      with xy Cons show ?thesis by simp
    next
      case False
      then have "join [0x2C] (map f xs) @ c # r = join [0x2C] (map f zs) @ c # r'"
        using rest by (auto simp: tl_of_def split: list.splits)
      then have "xs = zs \<and> r = r'"
        using Cons.prems(1,2,3) Cons by (intro Cons.IH) auto
      with xy Cons show ?thesis by simp
    qed
  qed
qed

lemma render_cancel:
  assumes "shape_ok s" "shape_ok t" "delimited r" "delimited r'" "render s @ r = render t @ r'"
  shows "s = t \<and> r = r'"
  using assms
proof (induction s arbitrary: t r r' rule: shape_ok.induct)
  case (1 a)
  note h = render_head [OF 1(1)] render_head [OF 1(2)]
  from h 1(5) have "hd (render t) = hd (render (SAtom a))" by (metis hd_append2)
  with h obtain u where "t = SAtom u" by (cases t) auto
  with 1 show ?case by (auto dest: atom_cancel)
next
  case (2 a)
  note h = render_head [OF 2(1)] render_head [OF 2(2)]
  from h 2(5) have "hd (render t) = hd (render (SStr a))" by (metis hd_append2)
  with h obtain u where "t = SStr u" by (cases t) auto
  with 2 show ?case by (auto dest: es_string_cancel)
next
  case (3 xs)
  note h = render_head [OF 3(2)] render_head [OF 3(3)]
  from h 3(6) have "hd (render t) = hd (render (SList xs))" by (metis hd_append2)
  with h obtain ys where t: "t = SList ys" by (cases t) auto
  have "xs = ys \<and> r = r'"
  proof (rule join_comma_cancel [where f = render and c = 93])
    show "x = y \<and> q = q'"
      if "x \<in> set xs" "y \<in> set ys" "delimited q" "delimited q'" "render x @ q = render y @ q'"
      for x y q q'
      using 3(1) [of x y q q'] 3(2,3) that t by (simp add: list_all_iff)
    show "render x \<noteq> [] \<and> hd (render x) \<noteq> 93" if "x \<in> set xs \<union> set ys" for x
      using render_head [of x] that 3(2,3) t by (auto simp: list_all_iff)
  qed (use 3(6) t in simp_all)
  with t show ?case by simp
next
  case (4 xs)
  note h = render_head [OF 4(2)] render_head [OF 4(3)]
  from h 4(6) have "hd (render t) = hd (render (SObj xs))" by (metis hd_append2)
  with h obtain ys where t: "t = SObj ys" by (cases t) auto
  let ?f = "\<lambda>(k, s). es_string k @ 58 # render s"
  have "xs = ys \<and> r = r'"
  proof (rule join_comma_cancel [where f = ?f and c = 125])
    show "x = y \<and> q = q'"
      if "x \<in> set xs" "y \<in> set ys" "delimited q" "delimited q'" "?f x @ q = ?f y @ q'"
      for x y q q'
    proof -
      obtain k v k' v' where xy: "x = (k, v)" "y = (k', v')" by (cases x, cases y)
      with that(5) have "k = k' \<and> 58 # render v @ q = 58 # render v' @ q'"
        by (intro es_string_cancel) simp
      moreover have "shape_ok v" "shape_ok v'"
        using 4(2,3) that(1,2) t xy by (auto simp: list_all_iff)
      ultimately show ?thesis
        using 4(1) [of x v' q q'] that(1,3,4) xy by simp
    qed
    show "?f x \<noteq> [] \<and> hd (?f x) \<noteq> 125" if "x \<in> set xs \<union> set ys" for x
      by (auto simp: es_string_def split: prod.split)
  qed (use 4(6) t in simp_all)
  with t show ?case by simp
qed

subsection \<open>Which values have a well-formed shape\<close>

text \<open>
  Python prints a nonzero float with a nonzero coefficient; \<open>repr_faithful\<close> says so of the
  two views a model float carries. Code points are below \<open>0x110000\<close>.
\<close>

fun repr_faithful :: "pyfloat \<Rightarrow> bool" where
  "repr_faithful (FFin r q) \<longleftrightarrow>
     (fst q = 0 \<longleftrightarrow> (case decimal_tuple r of (_, raw, _) \<Rightarrow> digits_val raw = 0))"
| "repr_faithful _ = True"

definition code_points :: "ustr \<Rightarrow> bool" where
  "code_points s = list_all (\<lambda>c. c < 0x110000) s"

fun floats_ok :: "'s json \<Rightarrow> bool" where
  "floats_ok (JFloat f) = repr_faithful f"
| "floats_ok (JList xs) = list_all floats_ok xs"
| "floats_ok (JObj d) = list_all (\<lambda>p. floats_ok (snd p)) d"
| "floats_ok _ = True"

fun texts_ok :: "ustr json \<Rightarrow> bool" where
  "texts_ok (JStr s) = code_points s"
| "texts_ok (JList xs) = list_all texts_ok xs"
| "texts_ok (JObj d) = list_all (\<lambda>p. code_points (fst p) \<and> texts_ok (snd p)) d"
| "texts_ok _ = True"

definition value_ok :: "ustr json \<Rightarrow> bool" where
  "value_ok v \<longleftrightarrow> floats_ok v \<and> texts_ok v"

definition number_char :: "char \<Rightarrow> bool" where
  "number_char c \<longleftrightarrow>
     ((48::nat) \<le> of_char c \<and> of_char c \<le> (57::nat)) \<or> of_char c \<in> {43, 45, 46, 101 :: nat}"

lemma digit_number_char: "d < 10 \<Longrightarrow> number_char (digit_char d)"
  by (simp add: number_char_def digit_char_def)

lemma int_str_number_chars: "list_all number_char (int_str i)"
  using int_str_chars by (fastforce simp: list_all_iff number_char_def)

lemma rstrip_zeros_set: "set (rstrip_zeros ds) \<subseteq> set ds"
  unfolding rstrip_zeros_def by (auto dest: set_dropWhileD)

lemma rstrip_zeros_eq_Nil: "rstrip_zeros ds = [] \<longleftrightarrow> (\<forall>d \<in> set ds. d = 0)"
  by (simp add: rstrip_zeros_def)

lemma digits_val_zeros: "\<forall>d \<in> set ds. d = 0 \<Longrightarrow> digits_val ds = 0"
  by (induction ds rule: rev_induct) (simp_all add: digits_val_def)

lemma es_decimal_number_chars:
  assumes "\<forall>d \<in> set raw. d < 10"
  shows "list_all number_char (es_decimal neg raw e)"
proof -
  have "list_all number_char (map digit_char (rstrip_zeros raw))"
    using assms rstrip_zeros_set [of raw] digit_number_char by (auto simp: list_all_iff)
  then have d: "\<forall>c \<in> set (map digit_char (rstrip_zeros raw)). number_char c"
    by (simp add: list_all_iff)
  have lits: "number_char (CHR ''0'')" "number_char (CHR ''.'')" "number_char (CHR ''e'')"
    "number_char (CHR ''+'')" "number_char (CHR ''-'')"
    by (simp_all add: number_char_def)
  have i: "\<forall>c \<in> set (int_str n). number_char c" for n
    using int_str_number_chars [of n] by (simp add: list_all_iff)
  show ?thesis
    using d lits i unfolding es_decimal_def Let_def list_all_iff
    by (auto dest: in_set_takeD in_set_dropD simp del: set_map)
qed

lemma es_decimal_nonempty: "rstrip_zeros raw \<noteq> [] \<Longrightarrow> es_decimal neg raw e \<noteq> []"
  by (auto simp: es_decimal_def Let_def)

lemma number_atom_ok: "list_all number_char t \<Longrightarrow> t \<noteq> [] \<Longrightarrow> atom_ok (of_ascii t)"
  by (auto simp: atom_ok_def of_ascii_def list_all_iff number_char_def)

lemma es_number_atom_ok:
  assumes "repr_faithful f"
  shows "atom_ok (of_ascii (es_number f))"
proof (cases f)
  case (FFin r q)
  show ?thesis
  proof (cases "fst q = 0")
    case True
    with FFin show ?thesis by (simp add: atom_ok_def of_ascii_def)
  next
    case False
    obtain neg raw e where t: "decimal_tuple r = (neg, raw, e)" by (cases "decimal_tuple r")
    then have "\<forall>d \<in> set raw. d < 10"
      by (auto simp: decimal_tuple_def Let_def split: prod.splits dest: nat_digits_lt10)
    moreover have "rstrip_zeros raw \<noteq> []"
    proof -
      have "digits_val raw \<noteq> 0" using assms False FFin t by simp
      then show ?thesis using digits_val_zeros [of raw] rstrip_zeros_eq_Nil [of raw] by metis
    qed
    ultimately show ?thesis
      using FFin False t
      by (simp add: number_atom_ok es_decimal_number_chars es_decimal_nonempty)
  qed
qed (simp_all add: atom_ok_def of_ascii_def)

lemma int_str_nonempty: "int_str i \<noteq> []"
  by (simp add: int_str_def nat_str_def nat_digits_nonempty)

lemma shape_of_ok:
  shows "floats_ok v \<Longrightarrow> shape_ok (shape_of v)"
    and "list_all floats_ok xs \<Longrightarrow> list_all shape_ok (shape_items xs)"
    and "list_all (\<lambda>p. floats_ok (snd p)) d \<Longrightarrow>
           list_all (\<lambda>e. shape_ok (snd e)) (shape_entries d)"
proof (induction v and xs and d rule: shape_of_shape_items_shape_entries.induct)
  case (6 i)
  show ?case by (simp add: number_atom_ok int_str_number_chars int_str_nonempty)
next
  case (7 f)
  then show ?case by (simp add: es_number_atom_ok)
qed (simp_all add: list_all_iff, simp_all add: atom_ok_def of_ascii_def)

lemma canonical_eq_iff:
  assumes "value_ok v" "value_ok w"
  shows "canonical v = canonical w \<longleftrightarrow> shape_of v = shape_of w"
proof
  assume "canonical v = canonical w"
  then have "render (shape_of v) @ [] = render (shape_of w) @ []" by (simp add: canonical_render)
  then show "shape_of v = shape_of w"
    using render_cancel [of "shape_of v" "shape_of w" "[]" "[]"] shape_of_ok(1) assms
    by (simp add: value_ok_def)
qed (simp add: canonical_render)

subsection \<open>The bytes are unambiguous\<close>

lemma of_ascii_scalar: "list_all scalar_value (of_ascii s)"
proof -
  have "scalar_value (of_char c)" for c :: char
  proof -
    have "of_char c < (256::nat)" by (rule nat_of_char_less_256)
    then show ?thesis unfolding scalar_value_def by linarith
  qed
  then show ?thesis by (simp add: of_ascii_def list_all_iff)
qed

lemma es_hex4_ascii: "es_hex4 n = of_ascii (map hex_char
    [n div 4096 mod 16, n div 256 mod 16, n div 16 mod 16, n mod 16])"
  by (simp add: es_hex4_def of_ascii_def)

lemma es_escape_scalar:
  assumes "c < 0x110000"
  shows "list_all scalar_value (es_escape c)"
proof -
  have "scalar_value 0x22" "scalar_value 0x5C" by (simp_all add: scalar_value_def)
  moreover have "scalar_value c" if "\<not> (0xD800 \<le> c \<and> c \<le> 0xDFFF)"
    using that assms by (simp add: scalar_value_def)
  ultimately show ?thesis
    unfolding es_escape_def es_hex4_ascii
    by (simp add: of_ascii_scalar)
qed

lemma es_string_scalar: "code_points s \<Longrightarrow> list_all scalar_value (es_string s)"
proof -
  assume "code_points s"
  then have "list_all scalar_value (concat (map es_escape s))"
    using es_escape_scalar by (auto simp: code_points_def list_all_iff)
  then show ?thesis by (simp add: es_string_def scalar_value_def)
qed

lemma join_list_all:
  "list_all P sep \<Longrightarrow> list_all (list_all P) xs \<Longrightarrow> list_all P (join sep xs)"
  by (induction sep xs rule: join.induct) simp_all

lemma canonical_scalar:
  shows "texts_ok v \<Longrightarrow> list_all scalar_value (canonical v)"
    and "list_all texts_ok xs \<Longrightarrow> list_all (list_all scalar_value) (canonical_items xs)"
    and "list_all (\<lambda>p. code_points (fst p) \<and> texts_ok (snd p)) d \<Longrightarrow>
           list_all (\<lambda>p. code_points (fst p) \<and> list_all scalar_value (snd p)) (canonical_entries d)"
proof (induction v and xs and d rule: canonical_canonical_items_canonical_entries.induct)
  case (1 d)
  let ?f = "\<lambda>(k, t). es_string k @ of_ascii '':'' @ t"
  let ?es = "sort_key (\<lambda>p. utf16_key (fst p)) (canonical_entries d)"
  have "list_all scalar_value (?f p)" if "p \<in> set ?es" for p
    using 1 that es_string_scalar of_ascii_scalar [of "'':''"] by (cases p) (auto simp: list_all_iff)
  then have "list_all scalar_value (join (of_ascii '','') (map ?f ?es))"
    by (intro join_list_all of_ascii_scalar) (simp add: list_all_iff)
  then show ?case by (simp add: of_ascii_scalar)
next
  case (2 xs)
  then have "list_all scalar_value (join (of_ascii '','') (canonical_items xs))"
    by (intro join_list_all of_ascii_scalar) simp
  then show ?case by (simp add: of_ascii_scalar)
qed (simp_all add: of_ascii_scalar es_string_scalar)

definition read_utf8 :: "nat list \<Rightarrow> (nat \<times> nat list) option" where
  "read_utf8 bs = (case bs of
     [] \<Rightarrow> None
   | a # r \<Rightarrow>
       if a < 0x80 then Some (a, r)
       else if a < 0xE0 then
         (case r of b # t \<Rightarrow> Some ((a - 0xC0) * 0x40 + (b - 0x80), t) | _ \<Rightarrow> None)
       else if a < 0xF0 then
         (case r of b # c # t \<Rightarrow> Some ((a - 0xE0) * 0x1000 + (b - 0x80) * 0x40 + (c - 0x80), t)
          | _ \<Rightarrow> None)
       else
         (case r of
            b # c # d # t \<Rightarrow>
              Some ((a - 0xF0) * 0x40000 + (b - 0x80) * 0x1000 + (c - 0x80) * 0x40 + (d - 0x80), t)
          | _ \<Rightarrow> None))"

lemma read_utf8_char: "read_utf8 (utf8_char c @ r) = Some (c, r)"
proof -
  define q where "q = c div 64"
  define p where "p = q div 64"
  have d: "c div 4096 = p" "c div 262144 = p div 64"
    by (simp_all add: p_def q_def div_mult2_eq [symmetric])
  have e: "q * 64 + c mod 64 = c" "p * 64 + q mod 64 = q" "p div 64 * 64 + p mod 64 = p"
    by (simp_all add: p_def q_def)
  have b: "c < 0x800 \<Longrightarrow> q < 32" "c < 0x10000 \<Longrightarrow> p < 16"
    by (simp_all add: p_def q_def div_mult2_eq [symmetric] less_mult_imp_div_less)
  have v: "p * 4096 + q mod 64 * 64 + c mod 64 = c"
    "p div 64 * 262144 + p mod 64 * 4096 + q mod 64 * 64 + c mod 64 = c"
    using e by linarith+
  show ?thesis
    using b e v unfolding utf8_char_def d q_def [symmetric] by (simp add: read_utf8_def)
qed

lemma utf8_chars_inj: "concat (map utf8_char s) = concat (map utf8_char t) \<Longrightarrow> s = t"
proof (induction s arbitrary: t)
  case Nil
  then show ?case by (cases t) (auto simp: utf8_char_def split: if_splits)
next
  case (Cons c s)
  have "utf8_char c \<noteq> []" by (simp add: utf8_char_def)
  with Cons.prems obtain d u where t: "t = d # u" by (cases t) auto
  have "read_utf8 (utf8_char c @ concat (map utf8_char s)) =
      read_utf8 (utf8_char d @ concat (map utf8_char u))"
    using Cons.prems t by simp
  then show ?case using Cons.IH t by (simp add: read_utf8_char)
qed

lemma utf8_encode_inj: "utf8_encode s = Some b \<Longrightarrow> utf8_encode t = Some b \<Longrightarrow> s = t"
  by (auto simp: utf8_encode_def split: if_splits dest: utf8_chars_inj)

lemma canonical_encodes: "texts_ok v \<Longrightarrow> utf8_encode (canonical v) \<noteq> None"
  by (simp add: utf8_encode_def canonical_scalar(1))

text \<open>\<open>s.encode("utf-8")\<close> of a string of the other components.\<close>

definition utf8_text :: "string \<Rightarrow> nat list" where
  "utf8_text s = concat (map utf8_char (of_ascii s))"

lemma utf8_text_inj: "utf8_text s = utf8_text t \<Longrightarrow> s = t"
  unfolding utf8_text_def by (rule inj_of_ascii) (rule utf8_chars_inj)



end
