(* ===== verification/Spending.thy ===== *)
theory Spending
  imports Complex_Main
begin

text \<open>
  Serving a sequence of timed requests, and the contract of a server whose grants spend a named
  token that carries an expiry: what the approval gate promises its clients.
\<close>

fun serve_all :: "('t \<Rightarrow> 'c \<Rightarrow> 's \<Rightarrow> 'r \<times> 's) \<Rightarrow> ('t \<times> 'c) list \<Rightarrow> 's \<Rightarrow> 'r list \<times> 's" where
  "serve_all serve [] s = ([], s)"
| "serve_all serve ((t, c) # cs) s =
     (case serve t c s of (r, s') \<Rightarrow>
      (case serve_all serve cs s' of (rs, s'') \<Rightarrow> (r # rs, s'')))"

lemma serve_all_step:
  assumes "serve_all serve cs s = (rs, s')" "j < length cs"
  shows "\<exists>u v. serve (fst (cs ! j)) (snd (cs ! j)) u = (rs ! j, v)"
  using assms
proof (induction cs arbitrary: s rs j)
  case (Cons tc cs)
  obtain t c where tc: "tc = (t, c)" by (cases tc)
  obtain r s1 where one: "serve t c s = (r, s1)" by (cases "serve t c s")
  obtain rs' where rest: "serve_all serve cs s1 = (rs', s')" "rs = r # rs'"
    using Cons.prems(1) tc one by (auto split: prod.splits)
  show ?case
  proof (cases j)
    case 0
    then show ?thesis using tc one rest(2) by auto
  next
    case (Suc k)
    then show ?thesis using Cons.IH [OF rest(1), of k] Cons.prems(2) rest(2) by simp
  qed
qed simp

text \<open>
  \<open>granted c r\<close> is the token (and its expiry) that a call answered with \<open>r\<close> spends, if any;
  \<open>held s i e\<close>: state \<open>s\<close> remembers that token \<open>i\<close> with expiry \<open>e\<close> is spent. A state may
  forget a token once it has expired, not before.
\<close>

locale token_ledger =
  fixes serve :: "'t::linorder \<Rightarrow> 'c \<Rightarrow> 's \<Rightarrow> 'r \<times> 's"
    and granted :: "'c \<Rightarrow> 'r \<Rightarrow> ('i \<times> 't) option"
    and held :: "'s \<Rightarrow> 'i \<Rightarrow> 't \<Rightarrow> bool"
  assumes grant_held: "serve t c s = (r, s') \<Longrightarrow> granted c r = Some (i, e) \<Longrightarrow> t \<le> e \<and> held s' i e"
    and grant_fresh: "serve t c s = (r, s') \<Longrightarrow> granted c r = Some (i, e) \<Longrightarrow> held s i e' \<Longrightarrow> e' < t"
    and held_kept: "serve t c s = (r, s') \<Longrightarrow> held s i e \<Longrightarrow> t \<le> e \<Longrightarrow> held s' i e"
begin

lemma held_not_granted:
  assumes "held s i e" "sorted (map fst cs)" "serve_all serve cs s = (rs, s')"
    "j < length cs" "granted (snd (cs ! j)) (rs ! j) = Some (i, e')"
  shows "e < fst (cs ! j) \<and> fst (cs ! j) \<le> e'"
  using assms
proof (induction cs arbitrary: s rs j)
  case (Cons tc cs)
  obtain t c where tc: "tc = (t, c)" by (cases tc)
  obtain r s1 where one: "serve t c s = (r, s1)" by (cases "serve t c s")
  obtain rs' where rest: "serve_all serve cs s1 = (rs', s')" "rs = r # rs'"
    using Cons.prems(3) tc one by (auto split: prod.splits)
  show ?case
  proof (cases j)
    case 0
    then show ?thesis
      using Cons.prems tc rest one grant_fresh [OF one] grant_held [OF one] by auto
  next
    case (Suc k)
    show ?thesis
    proof (cases "t \<le> e")
      case True
      then have "held s1 i e" using held_kept [OF one Cons.prems(1)] by simp
      from Cons.IH [OF this _ rest(1), of k] show ?thesis
        using Cons.prems rest(2) Suc by simp
    next
      case False
      have "t \<le> fst (cs ! k)"
        using Cons.prems(2,4) tc Suc by simp
      moreover have "fst (cs ! k) \<le> e'"
      proof -
        obtain u v where "serve (fst (cs ! k)) (snd (cs ! k)) u = (rs' ! k, v)"
          using serve_all_step [OF rest(1), of k] Cons.prems(4) Suc by auto
        then show ?thesis
          using Cons.prems(5) rest(2) Suc grant_held [of "fst (cs ! k)" "snd (cs ! k)" u] by simp
      qed
      ultimately show ?thesis using False Suc by simp
    qed
  qed
qed simp

text \<open>Under a clock that never goes back, a second grant of a token needs a later expiry.\<close>

lemma spent_once:
  assumes "sorted (map fst cs)" "serve_all serve cs s = (rs, s')" "j < k" "k < length cs"
    "granted (snd (cs ! j)) (rs ! j) = Some (i, e)"
    "granted (snd (cs ! k)) (rs ! k) = Some (i, e')"
  shows "e < fst (cs ! k) \<and> fst (cs ! k) \<le> e'"
  using assms
proof (induction cs arbitrary: s rs j k)
  case (Cons tc cs)
  obtain t c where tc: "tc = (t, c)" by (cases tc)
  obtain r s1 where one: "serve t c s = (r, s1)" by (cases "serve t c s")
  obtain rs' where rest: "serve_all serve cs s1 = (rs', s')" "rs = r # rs'"
    using Cons.prems(2) tc one by (auto split: prod.splits)
  obtain k' where k: "k = Suc k'" using Cons.prems(3) by (cases k) auto
  show ?case
  proof (cases j)
    case 0
    then have "held s1 i e" using grant_held [OF one] Cons.prems(5) tc rest(2) by simp
    then show ?thesis
      using held_not_granted [of s1 i e cs rs' s' k' e'] Cons.prems rest k tc by simp
  next
    case (Suc j')
    then show ?thesis
      using Cons.IH [OF _ rest(1), of j' k'] Cons.prems rest(2) k tc by simp
  qed
qed simp

end

end
