(* ===== verification/Approval_Gate.thy ===== *)
theory Approval_Gate
  imports Effect_Policy Canonical_JSON Spending
begin

text \<open>
  The native approval of gated mutations: the rule table of \<open>approval_policy.py\<close> and the
  marker check of \<open>commands/config_mutation.py\<close>, with its table of used marker ids. SHA-256
  is the parameter \<open>digest\<close>; the clock reading \<open>time.time()\<close> is an argument, a rational
  (a Python float compared with an int is compared exactly).
\<close>

subsection \<open>Who needs approval\<close>

type_synonym action_table = "(string \<times> string list) list"

definition destructive :: action_table where
  "destructive = [
    (''ha.config.automation'', [''delete'']),
    (''ha.config.script'', [''delete'']),
    (''ha.config.scene'', [''delete'']),
    (''ha.config.helpers'', [''delete'']),
    (''ha.config.area_registry'', [''delete'']),
    (''ha.config.entity_registry'', [''remove'']),
    (''ha.config.config_entries'', [''disable'']),
    (''fs.delete'', [[]]),
    (''fs.move'', [[]]),
    (''fs.restore'', [[]]),
    (''ha.update_install'', [[]])]"

definition user_directed :: action_table where
  "user_directed = [
    (''ha.config.automation'', [''save'']),
    (''ha.config.script'', [''save'']),
    (''ha.config.scene'', [''save'']),
    (''ha.config.helpers'', [''create'', ''update'']),
    (''ha.config.area_registry'', [''create'', ''update'']),
    (''ha.config.device_registry'', [''update'']),
    (''ha.config.entity_registry'', [''update'']),
    (''ha.config.config_entries'', [''enable'']),
    (''ha.config.lovelace'', [''save'', ''resources_create''])]"

definition lifecycle_no_approval :: "caller_role \<Rightarrow> action_table option" where
  "lifecycle_no_approval r = (case r of
     Turn Admin \<Rightarrow> Some [(''ha.addon_start'', [[]]), (''ha.addon_restart'', [[]])]
   | Turn Super_admin \<Rightarrow>
       Some [(''ha.addon_start'', [[]]), (''ha.addon_stop'', [[]]), (''ha.addon_restart'', [[]])]
   | _ \<Rightarrow> None)"

definition listed :: "action_table \<Rightarrow> string \<Rightarrow> string \<Rightarrow> bool" where
  "listed table command action =
     (action \<in> set (case map_of table command of None \<Rightarrow> [] | Some acts \<Rightarrow> acts))"

definition approval_exempt :: "caller option \<Rightarrow> string \<Rightarrow> string \<Rightarrow> bool" where
  "approval_exempt who command action =
     (case who of
        None \<Rightarrow> False
      | Some c \<Rightarrow>
          (case lifecycle_no_approval (caller_role c) of
             None \<Rightarrow> False
           | Some table \<Rightarrow>
               actor_id c \<noteq> ''<anonymous>'' \<and>
               (listed user_directed command action \<or> listed table command action)))"

subsection \<open>The digest of a call\<close>

definition approval_param :: string where
  "approval_param = ''_openclaw_approval''"

definition reserved_params :: "string list" where
  "reserved_params = [approval_param, ''_openclaw_caller'']"

definition approval_body :: "dict \<Rightarrow> dict" where
  "approval_body params = filter (\<lambda>(k, v). k \<notin> set reserved_params) params"

text \<open>A value of the other components as one over code points.\<close>

definition wide :: "jval \<Rightarrow> ustr json" where
  "wide = map_json of_ascii"

definition approval_value :: "string \<Rightarrow> string \<Rightarrow> dict \<Rightarrow> jval" where
  "approval_value command action params =
     JObj [(''command'', JStr command), (''action'', JStr action),
           (''params'', JObj (approval_body params))]"

definition approval_bind ::
  "(nat list \<Rightarrow> string) \<Rightarrow> string \<Rightarrow> string \<Rightarrow> dict \<Rightarrow> string option" where
  "approval_bind digest command action params =
     map_option digest (utf8_encode (canonical (wide (approval_value command action params))))"

subsection \<open>The marker check\<close>

definition require_config_mutation_approval :: "string \<Rightarrow> string \<Rightarrow> jval" where
  "require_config_mutation_approval command action =
     err_reply ''PROPOSAL_REQUIRED''
       ((if action \<noteq> [] then command @ '' action='' @ action else command) @
        '': mutation requires native approval; proposal_id alone is not authorization'')"

definition refusal :: "string \<Rightarrow> jval" where
  "refusal message = err_reply ''APPROVAL_INVALID'' message"

text \<open>The fields of a well-formed marker: exactly \<open>id\<close>, \<open>exp\<close> and \<open>bind\<close>.\<close>

definition marker_fields :: "jval \<Rightarrow> (string \<times> int \<times> string) option" where
  "marker_fields v = (case v of
     JObj m \<Rightarrow>
       if set (map fst m) = {''id'', ''exp'', ''bind''} then
         (case (dget m ''id'', dget m ''exp'', dget m ''bind'') of
            (JStr i, JInt e, JStr b) \<Rightarrow> if i \<noteq> [] then Some (i, e, b) else None
          | _ \<Rightarrow> None)
       else None
   | _ \<Rightarrow> None)"

type_synonym used_ids = "(string \<times> int) list"

definition drop_expired :: "rat \<Rightarrow> used_ids \<Rightarrow> used_ids" where
  "drop_expired now used = filter (\<lambda>(i, e). \<not> of_int e < now) used"

record gated_call =
  gc_caller :: "caller option"
  gc_command :: string
  gc_action :: string
  gc_params :: dict

text \<open>
  Result: the refusal or \<open>None\<close> (authorised), the parameters left to the handler, and the
  used ids. The digest always exists (\<open>approval_bind_defined\<close>), so the comparison is total.
\<close>

definition consume_approval_marker ::
  "(nat list \<Rightarrow> string) \<Rightarrow> rat \<Rightarrow> gated_call \<Rightarrow> used_ids \<Rightarrow> (jval option \<times> dict) \<times> used_ids" where
  "consume_approval_marker digest now call used =
     (let command = gc_command call; action = gc_action call; params = gc_params call in
      case map_of params approval_param of
        None \<Rightarrow>
          ((if approval_exempt (gc_caller call) command action then None
            else Some (require_config_mutation_approval command action), params), used)
      | Some marker \<Rightarrow>
          (let rest = AList.delete approval_param params in
           case marker_fields marker of
             None \<Rightarrow> ((Some (refusal ''approval marker is malformed''), rest), used)
           | Some (i, e, b) \<Rightarrow>
               (let used' = drop_expired now used in
                if of_int e < now then
                  ((Some (refusal ''approval marker has expired''), rest), used')
                else if Some b \<noteq> approval_bind digest command action rest then
                  ((Some (refusal ''approval marker does not match this call''), rest), used')
                else if has_key used' i then
                  ((Some (refusal ''approval marker was already used''), rest), used')
                else ((None, rest), AList.update i e used'))))"

text \<open>
  \<open>approval_checker\<close>: the closure's memo is the first component of the state. A handler that
  checks several protected paths runs it once per path.
\<close>

record checker =
  ck_memo :: "jval option option"
  ck_params :: dict
  ck_used :: used_ids

definition approval_checker :: "dict \<Rightarrow> used_ids \<Rightarrow> checker" where
  "approval_checker params used = \<lparr>ck_memo = None, ck_params = params, ck_used = used\<rparr>"

definition checker_check ::
  "(nat list \<Rightarrow> string) \<Rightarrow> caller option \<Rightarrow> string \<Rightarrow> rat \<Rightarrow> checker \<Rightarrow> jval option \<times> checker" where
  "checker_check digest who command now ck =
     (case ck_memo ck of
        Some r \<Rightarrow> (r, ck)
      | None \<Rightarrow>
          (case consume_approval_marker digest now
                  \<lparr>gc_caller = who, gc_command = command, gc_action = [], gc_params = ck_params ck\<rparr>
                  (ck_used ck) of
             ((r, params), used) \<Rightarrow>
               (r, \<lparr>ck_memo = Some r, ck_params = params, ck_used = used\<rparr>)))"

subsection \<open>Tables\<close>

lemmas approval_tables = destructive_def user_directed_def lifecycle_no_approval_def listed_def

lemma listed_pairs:
  assumes "listed table c a"
  shows "(c, a) \<in> set (concat (map (\<lambda>(d, acts). map (Pair d) acts) table))"
proof -
  from assms obtain acts where "map_of table c = Some acts" "a \<in> set acts"
    by (cases "map_of table c") (auto simp: listed_def)
  then show ?thesis using map_of_SomeD [of table c acts] by fastforce
qed

lemma destructive_pairs_not_exempt:
  "list_all (\<lambda>(c, a). \<not> listed user_directed c a \<and>
     list_all (\<lambda>r. case lifecycle_no_approval r of None \<Rightarrow> True | Some t \<Rightarrow> \<not> listed t c a)
       [Turn User, Turn Admin, Turn Super_admin, Operator])
   (concat (map (\<lambda>(d, acts). map (Pair d) acts) destructive))"
  by code_simp

lemma destructive_disjoint:
  assumes "listed destructive c a"
  shows "\<not> listed user_directed c a"
    and "lifecycle_no_approval r = Some table \<Longrightarrow> \<not> listed table c a"
proof -
  have "r \<in> set [Turn User, Turn Admin, Turn Super_admin, Operator]"
    by (cases r) (simp, metis role.exhaust, simp)
  with listed_pairs [OF assms] destructive_pairs_not_exempt
  show "\<not> listed user_directed c a"
    and "lifecycle_no_approval r = Some table \<Longrightarrow> \<not> listed table c a"
    unfolding list_all_iff by fastforce+
qed

text \<open>
  C8. A destructive command or action is exempt for nobody: whoever calls and whenever, without
  a marker it is refused \<open>PROPOSAL_REQUIRED\<close>, and nothing about the used ids changes.
\<close>

theorem destructive_never_exempt:
  assumes "listed destructive (gc_command call) (gc_action call)"
    and "\<not> has_key (gc_params call) approval_param"
  shows "consume_approval_marker digest now call used =
    ((Some (require_config_mutation_approval (gc_command call) (gc_action call)), gc_params call), used)"
proof -
  have "\<not> approval_exempt (gc_caller call) (gc_command call) (gc_action call)"
    using destructive_disjoint [OF assms(1)]
    by (auto simp: approval_exempt_def split: option.splits)
  moreover have "map_of (gc_params call) approval_param = None"
    using assms(2) by (simp add: has_key_map_of)
  ultimately show ?thesis by (simp add: consume_approval_marker_def)
qed

theorem destructive_never_exempt_witness:
  "reply_code (the (fst (fst (consume_approval_marker (\<lambda>_. []) 0
     \<lparr>gc_caller = Some \<lparr>caller_role = Turn Super_admin, actor_id = ''u1'', forbidden = []\<rparr>,
      gc_command = ''fs.delete'', gc_action = [], gc_params = [(''path'', JStr ''/config/a'')]\<rparr> []))))
   = ''PROPOSAL_REQUIRED''"
  by (subst destructive_never_exempt)
     (simp_all add: approval_tables approval_param_def require_config_mutation_approval_def)

subsection \<open>The digest exists\<close>

lemma of_ascii_code_points: "code_points (of_ascii s)"
  using of_ascii_scalar [of s] by (simp add: code_points_def scalar_value_def list_all_iff)

lemma wide_texts_ok: "texts_ok (wide v)"
  unfolding wide_def
proof (induction v)
  case (JObj d)
  then have "texts_ok (map_json of_ascii w)" if "(k, w) \<in> set d" for k w
    using that by (metis snds.intros snd_conv)
  then show ?case by (auto simp: list_all_iff of_ascii_code_points)
qed (simp_all add: of_ascii_code_points list_all_iff)

lemma approval_bind_defined: "approval_bind digest c a p \<noteq> None"
  using canonical_encodes [OF wide_texts_ok] by (simp add: approval_bind_def)

subsection \<open>What the check decides\<close>

lemma has_key_drop_expired:
  "has_key (drop_expired now used) i \<longleftrightarrow> (\<exists>e. (i, e) \<in> set used \<and> now \<le> of_int e)"
  by (force simp: has_key_def drop_expired_def)

definition authorised :: "(jval option \<times> dict) \<times> used_ids \<Rightarrow> bool" where
  "authorised r \<longleftrightarrow> fst (fst r) = None"

lemma consume_unmarked:
  "map_of (gc_params call) approval_param = None \<Longrightarrow>
   consume_approval_marker digest now call used =
     ((if approval_exempt (gc_caller call) (gc_command call) (gc_action call) then None
       else Some (require_config_mutation_approval (gc_command call) (gc_action call)),
       gc_params call), used)"
  by (simp add: consume_approval_marker_def)

lemma consume_malformed:
  "map_of (gc_params call) approval_param = Some m \<Longrightarrow> marker_fields m = None \<Longrightarrow>
   consume_approval_marker digest now call used =
     ((Some (refusal ''approval marker is malformed''), AList.delete approval_param (gc_params call)),
      used)"
  by (simp add: consume_approval_marker_def)

lemma consume_marked:
  "map_of (gc_params call) approval_param = Some m \<Longrightarrow> marker_fields m = Some (i, e, b) \<Longrightarrow>
   consume_approval_marker digest now call used =
     (let rest = AList.delete approval_param (gc_params call); used' = drop_expired now used in
      if of_int e < now then ((Some (refusal ''approval marker has expired''), rest), used')
      else if Some b \<noteq> approval_bind digest (gc_command call) (gc_action call) rest then
        ((Some (refusal ''approval marker does not match this call''), rest), used')
      else if has_key used' i then
        ((Some (refusal ''approval marker was already used''), rest), used')
      else ((None, rest), AList.update i e used'))"
  by (simp add: consume_approval_marker_def Let_def)

lemmas consume_branches = consume_unmarked consume_malformed consume_marked

lemma gate_cases [case_names unmarked malformed marked]:
  obtains "map_of (gc_params call) approval_param = None"
  | m where "map_of (gc_params call) approval_param = Some m" "marker_fields m = None"
  | m i e b where "map_of (gc_params call) approval_param = Some m" "marker_fields m = Some (i, e, b)"
  by (metis option.exhaust prod_cases3)

text \<open>
  C9. The gate authorises a call exactly when it carries no marker and its caller is exempt, or
  when its marker is well formed, has not expired, was minted for this command, action and
  parameters, and its id is not among the unexpired used ids. Whatever it decides, no marker is
  left in the parameters.
\<close>

theorem gate_decision:
  "(authorised (consume_approval_marker digest now call used) \<longleftrightarrow>
     (case map_of (gc_params call) approval_param of
        None \<Rightarrow> approval_exempt (gc_caller call) (gc_command call) (gc_action call)
      | Some marker \<Rightarrow>
          (case marker_fields marker of
             None \<Rightarrow> False
           | Some (i, e, b) \<Rightarrow>
               now \<le> of_int e \<and>
               approval_bind digest (gc_command call) (gc_action call)
                 (AList.delete approval_param (gc_params call)) = Some b \<and>
               \<not> (\<exists>e'. (i, e') \<in> set used \<and> now \<le> of_int e')))) \<and>
   \<not> has_key (snd (fst (consume_approval_marker digest now call used))) approval_param"
proof (cases call rule: gate_cases)
  case unmarked
  then show ?thesis
    by (simp add: consume_unmarked authorised_def has_key_map_of)
next
  case (malformed m)
  then show ?thesis
    by (simp add: consume_malformed authorised_def has_key_delete)
next
  case (marked m i e b)
  then show ?thesis
    by (auto simp: consume_marked [OF marked] Let_def authorised_def has_key_delete
        has_key_drop_expired not_less)
qed

text \<open>The token a granted call spends.\<close>

definition spent_marker :: "gated_call \<Rightarrow> jval option \<times> dict \<Rightarrow> (string \<times> rat) option" where
  "spent_marker call r =
     (case (fst r, map_of (gc_params call) approval_param) of
        (None, Some marker) \<Rightarrow> map_option (\<lambda>(i, e, b). (i, of_int e)) (marker_fields marker)
      | _ \<Rightarrow> None)"

definition holds_id :: "used_ids \<Rightarrow> string \<Rightarrow> rat \<Rightarrow> bool" where
  "holds_id used i e \<longleftrightarrow> (\<exists>n. e = of_int n \<and> (i, n) \<in> set used)"

lemma grant_steps:
  assumes "consume_approval_marker digest now call used = (r, used')"
    and "spent_marker call r = Some (i, e)"
  obtains n where "e = of_int n" "now \<le> e" "\<not> has_key (drop_expired now used) i"
    "used' = AList.update i n (drop_expired now used)"
proof (cases call rule: gate_cases)
  case unmarked
  with assms show ?thesis by (simp add: spent_marker_def split: option.splits)
next
  case (malformed m)
  with assms show ?thesis by (simp add: spent_marker_def split: option.splits)
next
  case (marked m j n b)
  note step = assms(1) [unfolded consume_marked [OF marked] Let_def]
  have r: "fst r = None" and t: "i = j" "e = of_int n"
    using assms(2) marked by (auto simp: spent_marker_def split: option.splits)
  from step r have "\<not> of_int n < now" by (auto split: if_splits)
  moreover from step r have "\<not> has_key (drop_expired now used) j" by (auto split: if_splits)
  moreover from step r have "used' = AList.update j n (drop_expired now used)"
    by (auto split: if_splits)
  ultimately show ?thesis using that [of n] t by simp
qed

lemma update_keeps: "(i, n) \<in> set u \<Longrightarrow> \<not> has_key u j \<Longrightarrow> (i, n) \<in> set (AList.update j m u)"
  by (induction u) auto

lemma ids_kept:
  assumes "consume_approval_marker digest now call used = (r, used')"
    and "(i, n) \<in> set used" "now \<le> of_int n"
  shows "(i, n) \<in> set used'"
proof (cases call rule: gate_cases)
  case unmarked
  with assms show ?thesis by (simp add: consume_unmarked)
next
  case (malformed m)
  with assms show ?thesis by (simp add: consume_malformed)
next
  case (marked m j k b)
  have "(i, n) \<in> set (drop_expired now used)"
    using assms(2,3) by (simp add: drop_expired_def)
  with assms(1) show ?thesis
    by (auto simp: consume_marked [OF marked] Let_def update_keeps split: if_splits)
qed

interpretation gate: token_ledger "consume_approval_marker digest" spent_marker holds_id
  for digest
proof
  fix t c s r s' i e
  assume step: "consume_approval_marker digest t c s = (r, s')" and g: "spent_marker c r = Some (i, e)"
  from grant_steps [OF step g] show "t \<le> e \<and> holds_id s' i e"
    by (metis holds_id_def map_of_SomeD update_conv' fun_upd_same)
  show "e' < t" if "holds_id s i e'" for e'
    using grant_steps [OF step g] that
    by (metis has_key_drop_expired holds_id_def not_le)
next
  fix t c s r s' i e
  assume "consume_approval_marker digest t c s = (r, s')" "holds_id s i e" "t \<le> e"
  then show "holds_id s' i e" unfolding holds_id_def by (metis ids_kept)
qed

text \<open>
  C10. A marker authorises one call. In any sequence of gated calls answered under a clock that
  does not go back, if two calls are authorised by markers with the same id, the first marker had
  expired when the second was accepted, so the second carries a later expiry: it is not the same
  marker.
\<close>

theorem marker_single_use:
  assumes "sorted (map fst calls)"
    and "serve_all (consume_approval_marker digest) calls used = (rs, used')"
    and "j < k" "k < length calls"
    and "spent_marker (snd (calls ! j)) (rs ! j) = Some (i, e)"
    and "spent_marker (snd (calls ! k)) (rs ! k) = Some (i, e')"
  shows "e < fst (calls ! k) \<and> e < e'"
  using gate.spent_once [OF assms] by simp

lemma approval_bind_const: "approval_bind (\<lambda>_. h) c a p = Some h"
  using approval_bind_defined [of "\<lambda>_. h" c a p] by (auto simp: approval_bind_def)

definition sample_marked :: "string \<Rightarrow> int \<Rightarrow> gated_call" where
  "sample_marked i e =
     \<lparr>gc_caller = None, gc_command = ''fs.write'', gc_action = [],
      gc_params = [(''path'', JStr ''/config/a''),
        (approval_param,
         JObj [(''id'', JStr i), (''exp'', JInt e), (''bind'', JStr ''d'')])]\<rparr>"

lemma sample_marked_token:
  "map_of (gc_params (sample_marked i e)) approval_param =
     Some (JObj [(''id'', JStr i), (''exp'', JInt e), (''bind'', JStr ''d'')])"
  "i \<noteq> [] \<Longrightarrow> marker_fields (JObj [(''id'', JStr i), (''exp'', JInt e), (''bind'', JStr ''d'')]) =
     Some (i, e, ''d'')"
  by (auto simp: sample_marked_def approval_param_def marker_fields_def)

theorem marker_single_use_witness:
  "let calls = [(5, sample_marked ''x'' 10), (20, sample_marked ''x'' 30)];
       rs = fst (serve_all (consume_approval_marker (\<lambda>_. ''d'')) calls [])
   in spent_marker (snd (calls ! 0)) (rs ! 0) = Some (''x'', 10) \<and>
      spent_marker (snd (calls ! 1)) (rs ! 1) = Some (''x'', 30) \<and> (10::rat) < 20"
proof -
  let ?calls = "[(5::rat, sample_marked ''x'' 10), (20, sample_marked ''x'' 30)]"
  note eval = consume_marked [OF sample_marked_token(1) sample_marked_token(2)]
    approval_bind_const drop_expired_def spent_marker_def sample_marked_token Let_def
  obtain rs u where run: "serve_all (consume_approval_marker (\<lambda>_. ''d'')) ?calls [] = (rs, u)"
    by (cases "serve_all (consume_approval_marker (\<lambda>_. ''d'')) ?calls []")
  have first: "spent_marker (snd (?calls ! 0)) (rs ! 0) = Some (''x'', 10)"
    and second: "spent_marker (snd (?calls ! 1)) (rs ! 1) = Some (''x'', 30)"
    using run by (auto simp: eval)
  have "(10::rat) < fst (?calls ! 1)"
    using marker_single_use [OF _ run _ _ first second] by simp
  then show ?thesis using run first second by simp
qed

subsection \<open>A marker fits one call\<close>

definition approval_bytes :: "string \<Rightarrow> string \<Rightarrow> dict \<Rightarrow> nat list" where
  "approval_bytes c a p = the (utf8_encode (canonical (wide (approval_value c a p))))"

lemma approval_bind_bytes: "approval_bind digest c a p = Some (digest (approval_bytes c a p))"
  using approval_bind_defined [of digest c a p]
  by (auto simp: approval_bind_def approval_bytes_def)

lemma wide_floats_ok: "floats_ok (wide v) = floats_ok v"
  unfolding wide_def
proof (induction v)
  case (JObj d)
  then have "floats_ok (map_json of_ascii w) = floats_ok w" if "(k, w) \<in> set d" for k w
    using that by (metis snds.intros snd_conv)
  then show ?case by (fastforce simp: list_all_iff)
qed (simp_all add: list_all_iff)

lemma approval_value_floats_ok: "floats_ok (JObj p) \<Longrightarrow> floats_ok (approval_value c a p)"
  by (auto simp: approval_value_def approval_body_def list_all_iff)

lemma shape_of_approval_value:
  "shape_of (wide (approval_value c a p)) =
     SObj [(of_ascii ''action'', SStr (of_ascii a)), (of_ascii ''command'', SStr (of_ascii c)),
           (of_ascii ''params'', shape_of (wide (JObj (approval_body p))))]"
  by (simp add: wide_def approval_value_def utf16_key_def utf16_units_def of_ascii_def del: shape_of.simps(1))
     (simp add: utf16_key_def utf16_units_def)



subsection \<open>One-shot checks\<close>

text \<open>A handler that checks at the times \<open>ts\<close>.\<close>

fun checker_run ::
  "(nat list \<Rightarrow> string) \<Rightarrow> caller option \<Rightarrow> string \<Rightarrow> rat list \<Rightarrow> checker \<Rightarrow> jval option list \<times> checker" where
  "checker_run digest who command [] ck = ([], ck)"
| "checker_run digest who command (t # ts) ck =
     (case checker_check digest who command t ck of (r, ck1) \<Rightarrow>
      (case checker_run digest who command ts ck1 of (rs, ck2) \<Rightarrow> (r # rs, ck2)))"

lemma checker_run_memo:
  "ck_memo ck = Some r \<Longrightarrow>
     checker_run digest who command ts ck = (replicate (length ts) r, ck)"
  by (induction ts) (simp_all add: checker_check_def)

text \<open>
  However many protected paths a handler checks, and whenever, all checks give the answer of
  the first, and the used ids change as by one consumption of the marker: a call that is
  authorised for one path is authorised for all, and a marker is never consumed twice by one call.
\<close>

theorem checker_one_shot:
  "checker_run digest who command (t # ts) (approval_checker params used) =
     (let res = consume_approval_marker digest t
            \<lparr>gc_caller = who, gc_command = command, gc_action = [], gc_params = params\<rparr> used
      in (replicate (Suc (length ts)) (fst (fst res)),
          \<lparr>ck_memo = Some (fst (fst res)), ck_params = snd (fst res), ck_used = snd res\<rparr>))"
proof -
  obtain r p u where "consume_approval_marker digest t
      \<lparr>gc_caller = who, gc_command = command, gc_action = [], gc_params = params\<rparr> used = ((r, p), u)"
    by (metis surj_pair)
  then show ?thesis
    by (simp add: approval_checker_def checker_check_def checker_run_memo Let_def)
qed

end
