(* ===== verification/Simple_Commands.thy ===== *)
theory Simple_Commands
  imports Py_Text
begin

text \<open>
  The shared key validation (\<open>commands/params.py\<close>) and the two smallest handlers, \<open>ping\<close> and
  \<open>system.which\<close>. The clock reading in milliseconds and the search of \<open>PATH\<close> are arguments.
\<close>

definition strict_keys_error :: "dict \<Rightarrow> string list \<Rightarrow> string list \<Rightarrow> jval option" where
  "strict_keys_error params allowed nullable =
     (let unknown = sorted_set (filter (\<lambda>k. k \<notin> set allowed) (map fst params)) in
      if unknown \<noteq> [] then
        Some (err_reply ''INVALID_PARAM''
          (''unknown parameter(s): '' @ join '', '' unknown @ ''; allowed: '' @
           join '', '' (sorted_set allowed)))
      else (case filter (\<lambda>k. map_of params k = Some JNull)
                   (sorted_set (filter (\<lambda>k. k \<notin> set nullable) allowed)) of
              [] \<Rightarrow> None
            | k # _ \<Rightarrow> Some (err_reply ''INVALID_PARAM'' (k @ '' must not be null; omit it instead''))))"

lemma sorted_set_eq_Nil [simp]: "sorted_set xs = [] \<longleftrightarrow> xs = []"
  by (metis list.set(1) set_empty set_sorted_set)

lemma strict_keys_ok_iff:
  "strict_keys_error params allowed nullable = None \<longleftrightarrow>
     (\<forall>(k, v) \<in> set params. k \<in> set allowed) \<and>
     (\<forall>k \<in> set allowed - set nullable. map_of params k \<noteq> Some JNull)"
proof -
  have "filter (\<lambda>k. map_of params k = Some JNull)
      (sorted_set (filter (\<lambda>k. k \<notin> set nullable) allowed)) = [] \<longleftrightarrow>
    (\<forall>k \<in> set allowed - set nullable. map_of params k \<noteq> Some JNull)"
    by (auto simp: filter_empty_conv)
  then show ?thesis
    by (auto simp: strict_keys_error_def Let_def filter_empty_conv split: list.splits)
qed

lemma strict_keys_code:
  "strict_keys_error params allowed nullable = Some r \<Longrightarrow>
     reply_code r = ''INVALID_PARAM'' \<and> \<not> reply_ok r"
  by (auto simp: strict_keys_error_def Let_def split: list.splits if_splits)

definition handle_ping :: "int \<Rightarrow> dict \<Rightarrow> jval" where
  "handle_ping now_ms params =
     (case strict_keys_error params [''message''] [] of
        Some e \<Rightarrow> e
      | None \<Rightarrow> JObj [(''pong'', JBool True),
                      (''message'', JStr (py_str (dget_or params ''message'' (JStr [])))),
                      (''ts'', JInt now_ms)])"

definition handle_system_which :: "(string \<Rightarrow> string option) \<Rightarrow> dict \<Rightarrow> jval" where
  "handle_system_which which params =
     (case strict_keys_error params [''name''] [] of
        Some e \<Rightarrow> e
      | None \<Rightarrow>
          (case dget params ''name'' of
             JStr name \<Rightarrow>
               if name = [] then err_reply ''NAME_REQUIRED'' ''Missing required 'name' parameter''
               else if CHR ''/'' \<in> set name then
                 err_reply ''NAME_REQUIRED'' ''Executable name must be a basename''
               else (case which name of
                       None \<Rightarrow> JObj [(''ok'', JBool True), (''name'', JStr name), (''found'', JBool False)]
                     | Some p \<Rightarrow> JObj [(''ok'', JBool True), (''name'', JStr name),
                                       (''found'', JBool True), (''path'', JStr p)])
           | _ \<Rightarrow> err_reply ''NAME_REQUIRED'' ''Missing required 'name' parameter''))"

end
