(* ===== verification/Dispatcher.thy ===== *)
theory Dispatcher
  imports Role_Policy Code_Masking Simple_Commands
begin

text \<open>
  \<open>commands/dispatcher.py\<close>: the registry, the gate in front of every handler, and the single
  exit that masks the codes of the call. A handler is a function of the parameters and of the
  node's state, the context variable \<open>CURRENT_CALLER\<close> included; it may return, raise, or return
  a coroutine, which ends in one of the first two ways.
\<close>

definition registry :: "string list" where
  "registry = [
    ''ping'', ''fs.read'', ''fs.list'', ''fs.stat'', ''fs.glob'', ''fs.write'', ''fs.restore'',
    ''fs.history'', ''fs.diff'', ''fs.move'', ''fs.delete'', ''fs.patch'',
    ''system.run'', ''system.run.prepare'', ''system.which'', ''system.execApprovals.get'',
    ''system.execApprovals.set'',
    ''ha.list_states'', ''ha.get_state'', ''ha.call_service'', ''ha.list_areas'',
    ''ha.list_devices'', ''ha.list_services'', ''ha.get_config'', ''ha.list_events'',
    ''ha.list_config_entries'', ''ha.core_logs'', ''ha.calendar_get_events'',
    ''ha.list_entity_registry'', ''ha.logbook'', ''ha.history'', ''ha.reload_config'',
    ''ha.light_turn_on'', ''ha.light_turn_off'', ''ha.list_automations'', ''ha.check_config'',
    ''ha.addon_logs'', ''ha.list_addons'', ''ha.addon_info'', ''ha.addon_stats'',
    ''ha.addon_changelog'', ''ha.addon_documentation'', ''ha.supervisor_info'',
    ''ha.addon_start'', ''ha.addon_stop'', ''ha.addon_restart'', ''ha.addon_update'',
    ''ha.update_install'', ''ha.config.lovelace'', ''ha.config.automation'', ''ha.config.script'',
    ''ha.config.scene'', ''ha.config.helpers'', ''ha.config.area_registry'',
    ''ha.config.device_registry'', ''ha.config.entity_registry'', ''ha.config.config_entries'']"

datatype 'e handler_end = Returned jval | Raised 'e

datatype 'e dispatch_result =
    Result jval
  | Unknown_command jval
  | Async_handler string
  | Handler_failed string
  | Reraised 'e

record 's node_state =
  current_caller :: "caller option"
  world :: 's

text \<open>A coroutine is the rest of an asynchronous handler, run from the state it is awaited in.\<close>

datatype ('e, 's) handler_reply =
    Ended "'e handler_end"
  | Coroutine "'s node_state \<Rightarrow> 'e handler_end \<times> 's node_state"

type_synonym ('e, 's) handlers =
  "string \<Rightarrow> dict \<Rightarrow> 's node_state \<Rightarrow> ('e, 's) handler_reply \<times> 's node_state"

definition masked_failure :: "string \<Rightarrow> jval list \<Rightarrow> string" where
  "masked_failure command codes =
     ''Handler failed for command: '' @
     (case scrub_codes (JStr command) codes of JStr name \<Rightarrow> py_repr_str name | v \<Rightarrow> py_repr v)"

definition scrubbed :: "jval \<Rightarrow> jval list \<Rightarrow> jval" where
  "scrubbed result codes = scrub_codes result codes"

text \<open>\<open>finally: CURRENT_CALLER.reset(token)\<close>.\<close>

definition with_caller ::
  "caller \<Rightarrow> ('s node_state \<Rightarrow> 'r \<times> 's node_state) \<Rightarrow> 's node_state \<Rightarrow> 'r \<times> 's node_state" where
  "with_caller c body st =
     (case body (st\<lparr>current_caller := Some c\<rparr>) of
        (r, st') \<Rightarrow> (r, st'\<lparr>current_caller := current_caller st\<rparr>))"

definition raised_result :: "string \<Rightarrow> jval list \<Rightarrow> 'e \<Rightarrow> 'e dispatch_result" where
  "raised_result command codes e =
     (if codes = [] then Reraised e else Handler_failed (masked_failure command codes))"

definition dispatch ::
  "('e, 's) handlers \<Rightarrow> string \<Rightarrow> dict \<Rightarrow> caller \<Rightarrow> 's node_state \<Rightarrow> 'e dispatch_result \<times> 's node_state"
where
  "dispatch handlers command params c st =
     (let codes = collect_codes (JObj params) in
      if command \<notin> set registry then (Unknown_command (scrub_codes (JStr command) codes), st)
      else case check c command params of
        Some refusal \<Rightarrow> (Result (scrubbed refusal codes), st)
      | None \<Rightarrow>
          (case with_caller c (handlers command params) st of
             (reply, st') \<Rightarrow>
               ((case reply of
                   Ended (Raised e) \<Rightarrow> raised_result command codes e
                 | Coroutine _ \<Rightarrow> Async_handler command
                 | Ended (Returned v) \<Rightarrow> Result (scrubbed v codes)), st')))"

text \<open>The coroutine of an asynchronous handler is awaited inside the same \<open>try\<close>.\<close>

definition awaited ::
  "('s node_state \<Rightarrow> ('e, 's) handler_reply \<times> 's node_state) \<Rightarrow>
   's node_state \<Rightarrow> 'e handler_end \<times> 's node_state" where
  "awaited handler st =
     (case handler st of
        (Ended r, st') \<Rightarrow> (r, st')
      | (Coroutine rest, st') \<Rightarrow> rest st')"

definition dispatch_async ::
  "('e, 's) handlers \<Rightarrow> string \<Rightarrow> dict \<Rightarrow> caller \<Rightarrow> 's node_state \<Rightarrow> 'e dispatch_result \<times> 's node_state"
where
  "dispatch_async handlers command params c st =
     (let codes = collect_codes (JObj params) in
      if command \<notin> set registry then (Unknown_command (scrub_codes (JStr command) codes), st)
      else case check c command params of
        Some refusal \<Rightarrow> (Result (scrubbed refusal codes), st)
      | None \<Rightarrow>
          (case with_caller c (awaited (handlers command params)) st of
             (ended, st') \<Rightarrow>
               ((case ended of
                   Raised e \<Rightarrow> raised_result command codes e
                 | Returned v \<Rightarrow> Result (scrubbed v codes)), st')))"

subsection \<open>Classification\<close>

text \<open>
  Every registered command is classified for the household role exactly once: allowed or
  forbidden, never both, never neither, and nothing unregistered is classified.
\<close>

theorem registry_classified:
  "distinct registry \<and> set registry = set user_allowed_commands \<union> set user_forbidden_commands \<and>
   set user_allowed_commands \<inter> set user_forbidden_commands = {}"
proof (intro conjI)
  show "distinct registry" by code_simp
  have "list_all (\<lambda>c. (c \<in> set user_allowed_commands) \<noteq> (c \<in> set user_forbidden_commands)) registry"
    "list_all (\<lambda>c. c \<in> set registry) (user_allowed_commands @ user_forbidden_commands)"
    by code_simp+
  then show "set registry = set user_allowed_commands \<union> set user_forbidden_commands"
    and "set user_allowed_commands \<inter> set user_forbidden_commands = {}"
    by (auto simp: list_all_iff)
qed

subsection \<open>The gate stands before every handler\<close>

lemma household_dispatch_reach:
  assumes "caller_role c = Turn User"
    and "snd (dispatch_async handlers command params c st) \<noteq> st"
  shows "command \<in> set registry \<and> command \<in> set user_allowed_commands \<and>
    \<not> is_forbidden (forbidden c) command params \<and>
    (case service_for_command command params of
       None \<Rightarrow> \<not> service_bearing command | Some s \<Rightarrow> service_allowed s)"
proof -
  have reg: "command \<in> set registry"
    using assms(2) by (cases "command \<in> set registry") (simp_all add: dispatch_async_def)
  have "check c command params = None"
    using assms(2) reg
    by (cases "check c command params") (auto simp: dispatch_async_def Let_def)
  with household_reach [OF assms(1)] reg service_for_command_bearing [of command params]
  show ?thesis by (auto split: option.splits)
qed

text \<open>
  What a household turn can do to the node: whatever the handlers are, a dispatch for it
  that changes the node's state at all is for a registered household command that its forbidden
  set does not block, and if the command calls a service, the service is in the household table.
\<close>

theorem household_dispatch_confined:
  assumes "caller_role c = Turn User"
    and "snd (dispatch_async handlers command params c st) \<noteq> st"
  shows "command \<in> set registry \<and> command \<in> set user_allowed_commands \<and>
    \<not> is_forbidden (forbidden c) command params \<and>
    (case service_for_command command params of
       None \<Rightarrow> \<not> service_bearing command | Some s \<Rightarrow> service_allowed s)"
  using household_dispatch_reach [OF assms] .


definition sample_handlers :: "(unit, nat) handlers" where
  "sample_handlers command params st =
     (Ended (Returned (JObj [(''echo'', JObj params)])), st\<lparr>world := Suc (world st)\<rparr>)"

definition sample_caller :: caller where
  "sample_caller = \<lparr>caller_role = Turn User, actor_id = ''u1'', forbidden = []\<rparr>"

lemma sample_handlers_count:
  "snd (dispatch_async sample_handlers ''ping'' [] sample_caller st) \<noteq> st"
proof -
  have "check sample_caller ''ping'' [] = None" "''ping'' \<in> set registry" by code_simp+
  then show ?thesis
    by (cases st) (simp add: dispatch_async_def with_caller_def awaited_def sample_handlers_def)
qed

theorem household_dispatch_confined_witness:
  "''ping'' \<in> set registry \<and> ''ping'' \<in> set user_allowed_commands"
proof -
  have "caller_role sample_caller = Turn User" by (simp add: sample_caller_def)
  from household_dispatch_confined [OF this sample_handlers_count] show ?thesis by blast
qed


end
