(* ===== verification/File_System.thy ===== *)
theory File_System
  imports Py_Text
begin

text \<open>
  The file tree the node works on and the two ways it turns a caller's path into a place in it:
  \<open>safe_path.py\<close>, which resolves symlinks and then checks the roots, and \<open>safe_fd.py\<close>, which
  walks down from a root and refuses every symlink. A place is the list of its names from \<open>/\<close>;
  the tree maps places to directories, files and symlinks. System calls are modelled on the tree:
  \<open>lstat\<close>, \<open>readlink\<close>, \<open>openat2\<close> with the node's resolve flags, \<open>renameat\<close>.
\<close>

subsection \<open>Paths\<close>

fun split_on :: "char \<Rightarrow> string \<Rightarrow> string list" where
  "split_on c [] = [[]]"
| "split_on c (x # xs) =
     (if x = c then [] # split_on c xs
      else (case split_on c xs of w # ws \<Rightarrow> (x # w) # ws | [] \<Rightarrow> [[x]]))"

type_synonym place = "string list"

text \<open>A path as \<open>pathlib\<close> reads it: two leading slashes, and no more, are a root of their own.\<close>

datatype anchor = Relative | Slash | Slash_slash

definition path_anchor :: "string \<Rightarrow> anchor" where
  "path_anchor s =
     (let n = length (takeWhile (\<lambda>c. c = CHR ''/'') s)
      in if n = 0 then Relative else if n = 2 then Slash_slash else Slash)"

definition path_parts :: "string \<Rightarrow> string list" where
  "path_parts s = filter (\<lambda>c. c \<noteq> [] \<and> c \<noteq> ''.'') (split_on (CHR ''/'') s)"

definition path_str :: "place \<Rightarrow> string" where
  "path_str p = CHR ''/'' # join ''/'' p"

subsection \<open>The tree\<close>

datatype node = Dir | File "nat list" | Link string

type_synonym tree = "(place \<times> node) list"

definition fs_ok :: "tree \<Rightarrow> bool" where
  "fs_ok fs \<longleftrightarrow> map_of fs [] = Some Dir \<and>
     (\<forall>p. p \<noteq> [] \<longrightarrow> map_of fs p \<noteq> None \<longrightarrow> map_of fs (butlast p) = Some Dir)"

fun is_link :: "node \<Rightarrow> bool" where
  "is_link (Link _) = True"
| "is_link _ = False"

subsection \<open>Resolving symlinks\<close>

text \<open>
  \<open>os.path.realpath\<close>, not strict: a stack of names still to look up, with a mark where the
  target of a link ends; \<open>seen\<close> maps a link to its result, or to nothing while it is being
  resolved. A link met again before it is resolved stays in the result as it is.
\<close>

datatype walk_item = Name string | Resolved place

function real_walk ::
  "tree \<Rightarrow> (place \<times> place option) list \<Rightarrow> place \<Rightarrow> walk_item list \<Rightarrow> place" where
  "real_walk fs seen here [] = here"
| "real_walk fs seen here (Resolved p # todo) = real_walk fs (AList.update p (Some here) seen) here todo"
| "real_walk fs seen here (Name n # todo) =
     (if n = [] \<or> n = ''.'' then real_walk fs seen here todo
      else if n = ''..'' then real_walk fs seen (butlast here) todo
      else case map_of fs (here @ [n]) of
        Some (Link target) \<Rightarrow>
          (case map_of seen (here @ [n]) of
             Some (Some p) \<Rightarrow> real_walk fs seen p todo
           | Some None \<Rightarrow> real_walk fs seen (here @ [n]) todo
           | None \<Rightarrow>
               real_walk fs (AList.update (here @ [n]) None seen)
                 (if prefix ''/'' target then [] else here)
                 (map Name (split_on (CHR ''/'') target) @ Resolved (here @ [n]) # todo))
      | _ \<Rightarrow> real_walk fs seen (here @ [n]) todo)"
  by pat_completeness auto

definition links_left :: "tree \<Rightarrow> (place \<times> place option) list \<Rightarrow> nat" where
  "links_left fs seen = length (filter (\<lambda>(p, n). is_link n \<and> \<not> has_key seen p) fs)"

lemma has_key_update: "has_key (AList.update k v d) k' \<longleftrightarrow> k' = k \<or> has_key d k'"
  by (auto simp: has_key_map_of update_conv')

lemma links_left_update_le: "links_left fs (AList.update p v seen) \<le> links_left fs seen"
proof -
  have mono: "length (filter P xs) \<le> length (filter Q xs)" if "\<And>x. P x \<Longrightarrow> Q x" for P Q and xs :: tree
    using that by (induction xs) auto
  show ?thesis unfolding links_left_def by (rule mono) (auto simp: has_key_update)
qed

lemma links_left_update_less:
  assumes "map_of fs p = Some (Link t)" "map_of seen p = None"
  shows "links_left fs (AList.update p v seen) < links_left fs seen"
proof -
  have strict: "length (filter P xs) < length (filter Q xs)"
    if "\<And>x. P x \<Longrightarrow> Q x" "x \<in> set xs" "Q x" "\<not> P x" for P Q x and xs :: tree
    using that(2)
  proof (induction xs)
    case (Cons y ys)
    have "length (filter P zs) \<le> length (filter Q zs)" for zs
      using that(1) by (induction zs) auto
    then show ?case using Cons that by (auto simp: less_Suc_eq_le)
  qed simp
  show ?thesis
    unfolding links_left_def
    by (rule strict [where x = "(p, Link t)"])
       (use assms in \<open>auto simp: has_key_map_of update_conv' dest: map_of_SomeD split: if_splits\<close>)
qed

termination real_walk
  by (relation "measures [\<lambda>(fs, seen, here, todo). links_left fs seen,
        \<lambda>(fs, seen, here, todo). length todo]")
     (use le_imp_less_or_eq [OF links_left_update_le] in \<open>auto simp: links_left_update_less\<close>)

definition realpath :: "tree \<Rightarrow> place \<Rightarrow> place" where
  "realpath fs parts = real_walk fs [] [] (map Name parts)"

subsection \<open>Outcomes of file operations\<close>

datatype errno = ENOENT | ENOTDIR | EISDIR | EEXIST | ELOOP | EXDEV | ENAMETOOLONG

datatype 'a io = Done 'a | No_allowed_roots | Out_of_bounds | Os_error errno

subsection \<open>safe_path\<close>

definition addon_allowed_roots :: "place list" where
  "addon_allowed_roots = [[''config''], [''share''], [''media'']]"

text \<open>The roots of this run: fixed in add-on mode, else from \<open>OPENCLAW_ALLOWED_ROOTS\<close>.\<close>

definition allowed_roots :: "tree \<Rightarrow> place \<Rightarrow> bool \<Rightarrow> string \<Rightarrow> place list" where
  "allowed_roots fs cwd addon_mode raw =
     (if addon_mode then addon_allowed_roots
      else map (\<lambda>part. if path_anchor part = Relative then real_walk fs [] cwd (map Name (path_parts part))
                       else realpath fs (path_parts part))
             (filter (\<lambda>part. part \<noteq> []) (split_on (CHR '':'') raw)))"

text \<open>A name with a NUL makes \<open>lstat\<close> raise \<open>ValueError\<close>, which is not caught.\<close>

datatype 'a resolved = Place 'a | Refused_no_roots | Refused_outside | Value_error

definition resolve_safe :: "tree \<Rightarrow> string \<Rightarrow> place list \<Rightarrow> place resolved" where
  "resolve_safe fs path roots =
     (if roots = [] then Refused_no_roots
      else if \<not> prefix ''/'' path then Refused_outside
      else if CHR 0x00 \<in> set path then Value_error
      else (let p = realpath fs (path_parts path)
            in if list_ex (\<lambda>root. prefix root p) roots then Place p else Refused_outside))"

subsection \<open>safe_fd\<close>

text \<open>Among the roots above the path, the longest, the first of equal ones.\<close>

fun longest :: "(place \<times> 'a) list \<Rightarrow> (place \<times> 'a) option" where
  "longest [] = None"
| "longest (m # ms) =
     (case longest ms of
        None \<Rightarrow> Some m
      | Some m' \<Rightarrow> if length (fst m) < length (fst m') then Some m' else Some m)"

definition relative_to_root :: "anchor \<Rightarrow> string list \<Rightarrow> place list \<Rightarrow> (place \<times> string list) io" where
  "relative_to_root anc parts roots =
     (if roots = [] then No_allowed_roots
      else if anc \<noteq> Slash then Out_of_bounds
      else (let matches = map (\<lambda>root. (root, drop (length root) parts))
                            (filter (\<lambda>root. prefix root parts) roots)
            in if list_ex (\<lambda>(_, rel). ''..'' \<in> set rel) matches then Out_of_bounds
               else case longest matches of None \<Rightarrow> Out_of_bounds | Some m \<Rightarrow> Done m))"

definition open_root :: "tree \<Rightarrow> place \<Rightarrow> place io" where
  "open_root fs root =
     (let p = realpath fs root
      in case map_of fs p of
           Some Dir \<Rightarrow> Done p
         | Some (File _) \<Rightarrow> Os_error ENOTDIR
         | Some (Link _) \<Rightarrow> Os_error ELOOP
         | None \<Rightarrow> Os_error ENOENT)"

text \<open>\<open>openat2\<close> below a directory, no symlink anywhere on the way.\<close>

fun walk_beneath :: "tree \<Rightarrow> place \<Rightarrow> string list \<Rightarrow> place io" where
  "walk_beneath fs here [] = Done here"
| "walk_beneath fs here (n # ns) =
     (case map_of fs here of
        Some Dir \<Rightarrow>
          (case map_of fs (here @ [n]) of
             None \<Rightarrow> Os_error ENOENT
           | Some (Link _) \<Rightarrow> Out_of_bounds
           | Some _ \<Rightarrow> walk_beneath fs (here @ [n]) ns)
      | None \<Rightarrow> Os_error ENOENT
      | Some _ \<Rightarrow> Os_error ENOTDIR)"

definition open_safe :: "tree \<Rightarrow> string \<Rightarrow> anchor \<Rightarrow> string list \<Rightarrow> place list \<Rightarrow> bool \<Rightarrow> place io" where
  "open_safe fs path anc parts roots dir_only =
     (if CHR 0x00 \<in> set path then Out_of_bounds
      else case relative_to_root anc parts roots of
        Done (root, rel) \<Rightarrow>
          (case open_root fs root of
             Done base \<Rightarrow>
               (case walk_beneath fs base rel of
                  Done p \<Rightarrow> if dir_only \<and> map_of fs p \<noteq> Some Dir then Os_error ENOTDIR else Done p
                | r \<Rightarrow> r)
           | r \<Rightarrow> r)
      | No_allowed_roots \<Rightarrow> No_allowed_roots
      | Out_of_bounds \<Rightarrow> Out_of_bounds
      | Os_error e \<Rightarrow> Os_error e)"

definition open_safe_fd :: "tree \<Rightarrow> string \<Rightarrow> place list \<Rightarrow> bool \<Rightarrow> place io" where
  "open_safe_fd fs path roots dir_only =
     open_safe fs path (path_anchor path) (path_parts path) roots dir_only"

definition open_safe_parent_dir :: "tree \<Rightarrow> string \<Rightarrow> place list \<Rightarrow> (place \<times> string) io" where
  "open_safe_parent_dir fs path roots =
     (let parts = path_parts path in
      if parts = [] \<or> last parts = ''..'' then Out_of_bounds
      else case open_safe fs path (path_anchor path) (butlast parts) roots True of
             Done p \<Rightarrow> Done (p, last parts)
           | No_allowed_roots \<Rightarrow> No_allowed_roots
           | Out_of_bounds \<Rightarrow> Out_of_bounds
           | Os_error e \<Rightarrow> Os_error e)"

definition read_bytes_safe :: "tree \<Rightarrow> string \<Rightarrow> place list \<Rightarrow> bool \<Rightarrow> nat list io" where
  "read_bytes_safe fs path roots missing_ok =
     (case open_safe_fd fs path roots False of
        Done p \<Rightarrow>
          (case map_of fs p of
             Some (File b) \<Rightarrow> Done b
           | Some Dir \<Rightarrow> Os_error EISDIR
           | _ \<Rightarrow> Os_error ENOENT)
      | Os_error e \<Rightarrow> if e = ENOENT \<and> missing_ok then Done [] else Os_error e
      | No_allowed_roots \<Rightarrow> No_allowed_roots
      | Out_of_bounds \<Rightarrow> Out_of_bounds)"

text \<open>The temporary sibling is renamed over the target, replacing a file or a symlink.\<close>

definition atomic_write_safe :: "tree \<Rightarrow> string \<Rightarrow> place list \<Rightarrow> nat list \<Rightarrow> tree io" where
  "atomic_write_safe fs path roots data =
     (case open_safe_parent_dir fs path roots of
        Done (dir, name) \<Rightarrow>
          if map_of fs (dir @ [name]) = Some Dir then Os_error EISDIR
          else Done (AList.update (dir @ [name]) (File data) fs)
      | No_allowed_roots \<Rightarrow> No_allowed_roots
      | Out_of_bounds \<Rightarrow> Out_of_bounds
      | Os_error e \<Rightarrow> Os_error e)"

definition unlink_safe :: "tree \<Rightarrow> string \<Rightarrow> place list \<Rightarrow> (bool \<times> tree) io" where
  "unlink_safe fs path roots =
     (case open_safe_parent_dir fs path roots of
        Done (dir, name) \<Rightarrow>
          (case map_of fs (dir @ [name]) of
             None \<Rightarrow> Done (False, fs)
           | Some Dir \<Rightarrow> Os_error EISDIR
           | Some _ \<Rightarrow> Done (True, AList.delete (dir @ [name]) fs))
      | No_allowed_roots \<Rightarrow> No_allowed_roots
      | Out_of_bounds \<Rightarrow> Out_of_bounds
      | Os_error e \<Rightarrow> Os_error e)"

text \<open>
  \<open>renameat\<close> of a file or a symlink; \<open>device\<close> tells the mounts apart, since a rename across
  them fails.
\<close>

definition replace_safe :: "(place \<Rightarrow> nat) \<Rightarrow> tree \<Rightarrow> string \<Rightarrow> string \<Rightarrow> place list \<Rightarrow> tree io" where
  "replace_safe device fs src dst roots =
     (case open_safe_parent_dir fs src roots of
        Done (sdir, sname) \<Rightarrow>
          (case open_safe_parent_dir fs dst roots of
             Done (ddir, dname) \<Rightarrow>
               (case map_of fs (sdir @ [sname]) of
                  None \<Rightarrow> Os_error ENOENT
                | Some n \<Rightarrow>
                    if device sdir \<noteq> device ddir then Os_error EXDEV
                    else if map_of fs (ddir @ [dname]) = Some Dir then Os_error EISDIR
                    else Done (AList.update (ddir @ [dname]) n (AList.delete (sdir @ [sname]) fs)))
           | No_allowed_roots \<Rightarrow> No_allowed_roots
           | Out_of_bounds \<Rightarrow> Out_of_bounds
           | Os_error e \<Rightarrow> Os_error e)
      | No_allowed_roots \<Rightarrow> No_allowed_roots
      | Out_of_bounds \<Rightarrow> Out_of_bounds
      | Os_error e \<Rightarrow> Os_error e)"

subsection \<open>Where the safe walk ends\<close>

definition plain_names :: "string list \<Rightarrow> bool" where
  "plain_names ns \<longleftrightarrow> list_all (\<lambda>n. n \<notin> {[], ''.'', ''..''}) ns"

lemma plain_names_simps [simp]:
  "plain_names []"
  "plain_names (n # ns) \<longleftrightarrow> n \<notin> {[], ''.'', ''..''} \<and> plain_names ns"
  "plain_names (ms @ ns) \<longleftrightarrow> plain_names ms \<and> plain_names ns"
  by (simp_all add: plain_names_def)

lemma path_parts_plain: "''..'' \<notin> set (path_parts s) \<Longrightarrow> plain_names (path_parts s)"
  by (auto simp: path_parts_def plain_names_def list_all_iff)

lemma walk_end: "walk_beneath fs here ns = Done p \<Longrightarrow> p = here @ ns"
  by (induction fs here ns rule: walk_beneath.induct) (auto split: option.splits node.splits)

lemma walk_append:
  "walk_beneath fs here ms = Done p \<Longrightarrow>
     walk_beneath fs here (ms @ ns) = walk_beneath fs p ns"
  by (induction fs here ms rule: walk_beneath.induct) (auto split: option.splits node.splits)

lemma real_walk_plain:
  assumes "walk_beneath fs here ns = Done p" "plain_names ns"
  shows "real_walk fs seen here (map Name ns @ todo) = real_walk fs seen p todo"
  using assms
  by (induction fs here ns rule: walk_beneath.induct) (auto split: option.splits node.splits)

text \<open>A place reached without symlinks; allowed roots are such directories.\<close>

definition real_place :: "tree \<Rightarrow> place \<Rightarrow> bool" where
  "real_place fs p \<longleftrightarrow> plain_names p \<and> walk_beneath fs [] p = Done p"

lemma realpath_real_place: "real_place fs p \<Longrightarrow> realpath fs p = p"
  using real_walk_plain [of fs "[]" p p "[]" "[]"] by (simp add: realpath_def real_place_def)

lemma realpath_extend:
  assumes "real_place fs p" "n \<notin> {[], ''.'', ''..''}" "\<And>t. map_of fs (p @ [n]) \<noteq> Some (Link t)"
  shows "realpath fs (p @ [n]) = p @ [n]"
proof -
  have "real_walk fs [] [] (map Name p @ [Name n]) = real_walk fs [] p [Name n]"
    using assms(1) by (intro real_walk_plain) (simp_all add: real_place_def)
  also have "\<dots> = p @ [n]"
    using assms(2,3) by (auto split: option.split node.split)
  finally show ?thesis by (simp add: realpath_def)
qed

lemma longest_mem: "longest ms = Some m \<Longrightarrow> m \<in> set ms"
  by (induction ms arbitrary: m) (auto split: option.splits if_splits)

lemma relative_to_root_ok:
  assumes "relative_to_root anc parts roots = Done (root, rel)"
  shows "anc = Slash" "root \<in> set roots" "parts = root @ rel" "''..'' \<notin> set rel"
proof -
  let ?ms = "map (\<lambda>root. (root, drop (length root) parts)) (filter (\<lambda>root. prefix root parts) roots)"
  from assms show "anc = Slash"
    by (auto simp: relative_to_root_def Let_def split: if_splits)
  have m: "longest ?ms = Some (root, rel)" "\<not> list_ex (\<lambda>(_, rel). ''..'' \<in> set rel) ?ms"
    using assms by (auto simp: relative_to_root_def Let_def split: if_splits option.splits)
  from longest_mem [OF m(1)] m(2)
  show "root \<in> set roots" "parts = root @ rel" "''..'' \<notin> set rel"
    by (auto simp: list_ex_iff prefix_def)
qed

lemma open_safe_ok:
  assumes "open_safe fs path anc parts roots d = Done p"
    and "\<And>r. r \<in> set roots \<Longrightarrow> real_place fs r"
  shows "p = parts \<and> walk_beneath fs [] parts = Done parts \<and> (\<exists>r \<in> set roots. prefix r parts) \<and>
    ''..'' \<notin> set parts \<and> (d \<longrightarrow> map_of fs p = Some Dir)"
proof -
  obtain root rel where rr: "relative_to_root anc parts roots = Done (root, rel)"
    using assms(1)
    by (cases "relative_to_root anc parts roots") (auto simp: open_safe_def split: if_splits)
  note r = relative_to_root_ok [OF rr]
  have real: "real_place fs root" using assms(2) r(2) .
  then have "open_root fs root = Done root \<or> (\<exists>e. open_root fs root = Os_error e)"
    by (auto simp: open_root_def realpath_real_place split: option.split node.split)
  with assms(1) rr have w: "walk_beneath fs root rel = Done p"
    and dir: "d \<longrightarrow> map_of fs p = Some Dir"
    by (auto simp: open_safe_def split: if_splits io.splits)
  have "p = parts" using walk_end [OF w] r(3) by simp
  moreover have "walk_beneath fs [] parts = Done parts"
    using walk_append [of fs "[]" root root rel] real w r(3) \<open>p = parts\<close>
    by (simp add: real_place_def)
  moreover have "''..'' \<notin> set root"
    using real by (auto simp: real_place_def plain_names_def list_all_iff)
  moreover have "\<exists>r \<in> set roots. prefix r parts" using r(2,3) by (metis prefixI)
  ultimately show ?thesis using r(3,4) dir by auto
qed

lemma open_safe_parent_ok:
  assumes "open_safe_parent_dir fs path roots = Done (dir, name)"
    and "\<And>r. r \<in> set roots \<Longrightarrow> real_place fs r"
  shows "path_parts path = dir @ [name] \<and> plain_names (path_parts path) \<and> real_place fs dir \<and>
    map_of fs dir = Some Dir \<and> (\<exists>r \<in> set roots. prefix r dir)"
proof -
  let ?ps = "path_parts path"
  have ps: "?ps \<noteq> []" "last ?ps \<noteq> ''..''"
    using assms(1) by (auto simp: open_safe_parent_dir_def Let_def split: if_splits)
  have p: "open_safe fs path (path_anchor path) (butlast ?ps) roots True = Done dir" "name = last ?ps"
    using assms(1) ps by (auto simp: open_safe_parent_dir_def Let_def split: io.splits)
  from open_safe_ok [OF p(1) assms(2)] have o: "dir = butlast ?ps"
    "walk_beneath fs [] (butlast ?ps) = Done (butlast ?ps)"
    "\<exists>r \<in> set roots. prefix r (butlast ?ps)" "''..'' \<notin> set (butlast ?ps)" "map_of fs dir = Some Dir"
    by auto
  have at: "?ps = dir @ [name]" using o(1) p(2) ps(1) by simp
  have "name \<noteq> ''..''" "''..'' \<notin> set dir" using o(1,4) ps(2) p(2) by simp_all
  then have "''..'' \<notin> set ?ps" unfolding at by simp
  then have plain: "plain_names ?ps" by (rule path_parts_plain)
  then have "plain_names dir" unfolding at by simp
  with o(1,2) have "real_place fs dir" by (simp add: real_place_def)
  moreover have "\<exists>r \<in> set roots. prefix r dir" using o(1,3) by simp
  ultimately show ?thesis using at plain o(5) by blast
qed

lemma atomic_write_ok:
  assumes "atomic_write_safe fs path roots data = Done fs'"
    and "\<And>r. r \<in> set roots \<Longrightarrow> real_place fs r"
  shows "fs' = AList.update (path_parts path) (File data) fs \<and> path_parts path \<noteq> [] \<and>
    plain_names (path_parts path) \<and> real_place fs (butlast (path_parts path)) \<and>
    map_of fs (butlast (path_parts path)) = Some Dir \<and>
    (\<exists>r \<in> set roots. prefix r (butlast (path_parts path)))"
proof -
  obtain dir name where d: "open_safe_parent_dir fs path roots = Done (dir, name)"
    using assms(1) by (auto simp: atomic_write_safe_def split: io.splits)
  with assms(1) have "fs' = AList.update (dir @ [name]) (File data) fs"
    by (auto simp: atomic_write_safe_def split: if_splits)
  with open_safe_parent_ok [OF d assms(2)] show ?thesis by auto
qed

lemma replace_ok:
  assumes "replace_safe device fs src dst roots = Done fs'"
    and "\<And>r. r \<in> set roots \<Longrightarrow> real_place fs r"
  obtains sdir sname ddir dname n where
    "path_parts src = sdir @ [sname]" "path_parts dst = ddir @ [dname]"
    "open_safe_parent_dir fs src roots = Done (sdir, sname)"
    "open_safe_parent_dir fs dst roots = Done (ddir, dname)"
    "map_of fs (path_parts src) = Some n" "map_of fs (path_parts dst) \<noteq> Some Dir"
    "fs' = AList.update (path_parts dst) n (AList.delete (path_parts src) fs)"
proof -
  obtain sdir sname where s: "open_safe_parent_dir fs src roots = Done (sdir, sname)"
    using assms(1) by (auto simp: replace_safe_def split: io.splits)
  with assms(1) obtain ddir dname where d: "open_safe_parent_dir fs dst roots = Done (ddir, dname)"
    by (auto simp: replace_safe_def split: io.splits)
  have p: "path_parts src = sdir @ [sname]" "path_parts dst = ddir @ [dname]"
    using open_safe_parent_ok [OF s assms(2)] open_safe_parent_ok [OF d assms(2)] by simp_all
  obtain n where n: "map_of fs (path_parts src) = Some n"
    using assms(1) s d p by (auto simp: replace_safe_def split: option.splits)
  have "map_of fs (path_parts dst) \<noteq> Some Dir \<and>
    fs' = AList.update (path_parts dst) n (AList.delete (path_parts src) fs)"
    using assms(1) s d p n by (auto simp: replace_safe_def split: if_splits)
  with that p s d n show ?thesis by simp
qed

lemma read_bytes_ok:
  assumes "read_bytes_safe fs path roots m = Done b" "map_of fs (path_parts path) \<noteq> None"
    and "\<And>r. r \<in> set roots \<Longrightarrow> real_place fs r"
  shows "map_of fs (path_parts path) = Some (File b) \<or> (m \<and> b = [])"
proof (cases "open_safe_fd fs path roots False")
  case (Done p)
  from open_safe_ok [OF Done [unfolded open_safe_fd_def] assms(3)] have "p = path_parts path"
    by simp
  with assms(1) Done show ?thesis
    by (auto simp: read_bytes_safe_def split: option.splits node.splits)
qed (use assms(1) in \<open>auto simp: read_bytes_safe_def split: if_splits\<close>)

lemma walk_file:
  assumes "real_place fs dir" "map_of fs dir = Some Dir" "map_of fs (dir @ [n]) = Some (File b)"
  shows "walk_beneath fs [] (dir @ [n]) = Done (dir @ [n])"
  using assms walk_append [of fs "[]" dir dir "[n]"] by (simp add: real_place_def)

text \<open>A file below real directories is found: opening it does not fail for want of a name.\<close>

lemma open_safe_finds:
  assumes "\<And>r. r \<in> set roots \<Longrightarrow> real_place fs r"
    and "walk_beneath fs [] parts = Done parts" "map_of fs parts = Some (File b)"
  shows "open_safe fs path anc parts roots False \<noteq> Os_error ENOENT"
proof
  assume e: "open_safe fs path anc parts roots False = Os_error ENOENT"
  then obtain root rel where rr: "relative_to_root anc parts roots = Done (root, rel)"
    by (cases "relative_to_root anc parts roots")
       (auto simp: open_safe_def relative_to_root_def Let_def split: if_splits option.splits)
  note r = relative_to_root_ok [OF rr]
  have real: "real_place fs root" using assms(1) r(2) .
  then have w: "walk_beneath fs root rel = Done parts"
    using walk_append [of fs "[]" root root rel] assms(2) r(3) by (simp add: real_place_def)
  show False
  proof (cases rel)
    case Nil
    with r(3) assms(3) real have "open_root fs root = Os_error ENOTDIR"
      by (simp add: open_root_def realpath_real_place)
    with e rr show False by (auto simp: open_safe_def split: if_splits)
  next
    case (Cons n ns)
    with w have "map_of fs root = Some Dir" by (auto split: option.splits node.splits)
    with real have "open_root fs root = Done root" by (simp add: open_root_def realpath_real_place)
    with e rr w show False by (auto simp: open_safe_def split: if_splits)
  qed
qed

lemma read_finds:
  assumes "\<And>r. r \<in> set roots \<Longrightarrow> real_place fs r"
    and "path_parts path \<noteq> []" "real_place fs (butlast (path_parts path))"
    and "map_of fs (butlast (path_parts path)) = Some Dir"
    and "map_of fs (path_parts path) = Some (File b)"
  shows "read_bytes_safe fs path roots m \<noteq> Os_error ENOENT"
    and "read_bytes_safe fs path roots m = Done c \<Longrightarrow> c = b"
proof -
  let ?ps = "path_parts path"
  have "walk_beneath fs [] ?ps = Done ?ps"
    using walk_file [OF assms(3,4), of "last ?ps" b] assms(2,5) by simp
  from open_safe_finds [OF assms(1) this assms(5)]
  have o: "open_safe_fd fs path roots False \<noteq> Os_error ENOENT"
    by (simp add: open_safe_fd_def)
  have at: "p = ?ps" if "open_safe_fd fs path roots False = Done p" for p
    using open_safe_ok [OF that [unfolded open_safe_fd_def] assms(1)] by simp
  show "read_bytes_safe fs path roots m \<noteq> Os_error ENOENT"
    using o at assms(5) by (auto simp: read_bytes_safe_def split: io.split option.split node.split)
  show "read_bytes_safe fs path roots m = Done c \<Longrightarrow> c = b"
    using o at assms(5)
    by (auto simp: read_bytes_safe_def split: io.splits option.splits node.splits if_splits)
qed

text \<open>A symlink is never opened: the answer for it is the out-of-bounds refusal.\<close>

lemma walk_not_link: "walk_beneath fs here ns = Done p \<Longrightarrow> ns \<noteq> [] \<Longrightarrow> map_of fs p \<noteq> Some (Link l)"
proof (induction fs here ns rule: walk_beneath.induct)
  case (2 fs here n ns)
  then show ?case by (cases ns) (auto split: option.splits node.splits)
qed simp

lemma open_safe_link:
  assumes "\<And>r. r \<in> set roots \<Longrightarrow> real_place fs r"
    and "real_place fs dir" "map_of fs dir = Some Dir" "map_of fs (dir @ [n]) = Some (Link l)"
    and "open_safe fs path anc (dir @ [n]) roots False = res"
  shows "res = Out_of_bounds \<or> res = No_allowed_roots"
proof (cases "relative_to_root anc (dir @ [n]) roots")
  case (Done rr)
  obtain root rel where rr: "rr = (root, rel)" by (cases rr)
  note r = relative_to_root_ok [OF Done [unfolded rr]]
  have real: "real_place fs root" using assms(1) r(2) .
  show ?thesis
  proof (cases rel rule: rev_cases)
    case Nil
    then have "walk_beneath fs [] (dir @ [n]) = Done (dir @ [n])"
      using real r(3) by (simp add: real_place_def)
    then show ?thesis using walk_not_link [of fs "[]" "dir @ [n]" "dir @ [n]" l] assms(4) by simp
  next
    case (snoc ms m)
    with r(3) have d: "dir = root @ ms" "n = m" by simp_all
    have w: "walk_beneath fs root ms = Done dir"
      using walk_append [of fs "[]" root root ms] real assms(2) d by (simp add: real_place_def)
    have "map_of fs root = Some Dir"
      using w d assms(3) by (cases ms) (auto split: option.splits node.splits)
    then have "open_root fs root = Done root" using real by (simp add: open_root_def realpath_real_place)
    moreover have "walk_beneath fs root rel = Out_of_bounds"
      using walk_append [OF w, of "[m]"] snoc d assms(3,4) by simp
    ultimately show ?thesis using assms(5) Done rr by (auto simp: open_safe_def split: if_splits)
  qed
qed (use assms(5) in \<open>auto simp: open_safe_def relative_to_root_def Let_def split: if_splits option.splits\<close>)

lemma read_not_link:
  assumes "read_bytes_safe fs path roots False = Done b \<or> read_bytes_safe fs path roots False = Os_error ENOENT"
    and "\<And>r. r \<in> set roots \<Longrightarrow> real_place fs r"
    and "path_parts path \<noteq> []" "real_place fs (butlast (path_parts path))"
    and "map_of fs (butlast (path_parts path)) = Some Dir"
  shows "map_of fs (path_parts path) \<noteq> Some (Link l)"
proof
  let ?ps = "path_parts path"
  assume l: "map_of fs ?ps = Some (Link l)"
  have "open_safe fs path (path_anchor path) (butlast ?ps @ [last ?ps]) roots False = Out_of_bounds \<or>
      open_safe fs path (path_anchor path) (butlast ?ps @ [last ?ps]) roots False = No_allowed_roots"
    by (rule open_safe_link [OF assms(2) assms(4,5) _ refl, where l = l]) (use assms(3) l in simp_all)
  then show False using assms(1,3) by (auto simp: read_bytes_safe_def open_safe_fd_def)
qed

lemma resolve_is_target:
  assumes "resolve_safe fs path roots = Place p"
    and "plain_names (path_parts path)" "path_parts path \<noteq> []"
    and "real_place fs (butlast (path_parts path))"
    and "\<And>l. map_of fs (path_parts path) \<noteq> Some (Link l)"
  shows "p = path_parts path"
proof -
  let ?ps = "path_parts path"
  have "p = realpath fs ?ps"
    using assms(1) by (auto simp: resolve_safe_def Let_def split: if_splits)
  moreover have "plain_names (butlast ?ps @ [last ?ps])" using assms(2,3) by simp
  then have "last ?ps \<notin> {[], ''.'', ''..''}" by simp
  then have "realpath fs (butlast ?ps @ [last ?ps]) = butlast ?ps @ [last ?ps]"
    using assms(3-5) by (intro realpath_extend) simp_all
  ultimately show ?thesis using assms(3) by simp
qed

end
