(* ===== verification/Backup_Store.thy ===== *)
theory Backup_Store
  imports Canonical_JSON File_System
begin

text \<open>
  \<open>backup_store.py\<close>: the content-addressed store of prior bytes. Its directory is modelled by
  what it holds: the object files by name and the index files by name, each a list of lines. A
  line is the version it parses to, or a line that does not parse. SHA-256 and the clock are
  arguments. Disk faults are not modelled; a name longer than the file system allows is.
\<close>

subsection \<open>Versions\<close>

datatype op = Write_op | Delete_op | Move_src | Move_dst | Restore_op | Patch_op

record version =
  v_ts :: string
  v_proposal_id :: string
  v_sha256 :: string
  v_size :: nat
  v_op :: op
  v_actor :: string
  v_prev_sha256 :: "string option"
  v_evicted :: bool

fun op_name :: "op \<Rightarrow> string" where
  "op_name Write_op = ''write''"
| "op_name Delete_op = ''delete''"
| "op_name Move_src = ''move-src''"
| "op_name Move_dst = ''move-dst''"
| "op_name Restore_op = ''restore''"
| "op_name Patch_op = ''patch''"

definition validate_op :: "string \<Rightarrow> op option" where
  "validate_op value =
     map_of (map (\<lambda>k. (op_name k, k))
       [Write_op, Delete_op, Move_src, Move_dst, Restore_op, Patch_op]) value"

text \<open>A line of an index file: a version, or the detail of why it does not parse.\<close>

datatype index_line = Good version | Corrupt string

record backup_store =
  st_objects :: "(string \<times> nat list) list"
  st_index :: "(string \<times> index_line list) list"

definition empty_store :: backup_store where
  "empty_store = \<lparr>st_objects = [], st_index = []\<rparr>"

datatype store_error =
    Corrupt_index_line string
  | Encoded_path_too_long string
  | Object_not_present string
  | Object_evicted string string
  | No_versions_for_path string
  | Version_out_of_range int string
  | No_such_proposal string
  | No_version_at_time string string
  | No_version_with_sha string string
  | Live_read_error string string

definition index_name_max :: nat where
  "index_name_max = 250"

fun store_error_text :: "store_error \<Rightarrow> string" where
  "store_error_text (Corrupt_index_line d) = ''Corrupt index line: '' @ d"
| "store_error_text (Encoded_path_too_long p) =
     ''Encoded path too long for index filename (>'' @ nat_str index_name_max @ '' chars): '' @
     py_repr_str p"
| "store_error_text (Object_not_present h) = ''Object '' @ h @ '' is not present''"
| "store_error_text (Object_evicted h p) =
     ''Version '' @ h @ '' for '' @ py_repr_str p @ '' was evicted; cannot diff''"
| "store_error_text (No_versions_for_path p) = ''No versions recorded for '' @ py_repr_str p"
| "store_error_text (Version_out_of_range i p) =
     ''Version '' @ int_str i @ '' out of range for '' @ py_repr_str p"
| "store_error_text (No_such_proposal q) = ''No version with proposal_id='' @ py_repr_str q"
| "store_error_text (No_version_at_time t p) =
     ''No version at or before '' @ py_repr_str t @ '' for '' @ py_repr_str p"
| "store_error_text (No_version_with_sha h p) =
     ''No version with sha256='' @ py_repr_str h @ '' for '' @ py_repr_str p"
| "store_error_text (Live_read_error p d) =
     ''Cannot read live bytes for '' @ py_repr_str p @ '': '' @ d"

text \<open>
  How a store operation ends: with a value, a \<open>BackupStoreError\<close>, or one of the exceptions its
  callers do not expect: \<open>OSError\<close>, \<open>ValueError\<close> (caught by some), \<open>TypeError\<close>.
\<close>

datatype 'a stored =
    Value 'a
  | Store_error store_error
  | Store_os_error errno
  | Store_value_error string
  | Store_type_error

fun stored_bind :: "'a stored \<Rightarrow> ('a \<Rightarrow> 'b stored) \<Rightarrow> 'b stored" where
  "stored_bind (Value a) f = f a"
| "stored_bind (Store_error e) f = Store_error e"
| "stored_bind (Store_os_error e) f = Store_os_error e"
| "stored_bind (Store_value_error t) f = Store_value_error t"
| "stored_bind Store_type_error f = Store_type_error"

lemma stored_bind_Value: "stored_bind r f = Value b \<longleftrightarrow> (\<exists>a. r = Value a \<and> f a = Value b)"
  by (cases r) auto

subsection \<open>Index file names\<close>

definition hex_upper :: "nat \<Rightarrow> char" where
  "hex_upper n = (if n < 10 then char_of (48 + n) else char_of (55 + n))"

text \<open>\<open>urllib.parse.quote(path, safe='')\<close>.\<close>

definition unreserved :: "nat \<Rightarrow> bool" where
  "unreserved b \<longleftrightarrow>
     (65 \<le> b \<and> b \<le> 90) \<or> (97 \<le> b \<and> b \<le> 122) \<or> (48 \<le> b \<and> b \<le> 57) \<or> b \<in> {95, 46, 45, 126}"

definition quote_byte :: "nat \<Rightarrow> string" where
  "quote_byte b =
     (if unreserved b then [char_of b] else [CHR ''%'', hex_upper (b div 16), hex_upper (b mod 16)])"

definition url_quote :: "string \<Rightarrow> string" where
  "url_quote s = concat (map quote_byte (utf8_text s))"

definition encode_path :: "string \<Rightarrow> store_error + string" where
  "encode_path path =
     (let encoded = url_quote path
      in if index_name_max < length encoded then Inl (Encoded_path_too_long path) else Inr encoded)"

definition name_max :: nat where
  "name_max = 255"

text \<open>The index file of a path. Looking at a name of more than 255 bytes is an \<open>OSError\<close>.\<close>

definition index_path :: "string \<Rightarrow> string stored" where
  "index_path path =
     (case encode_path path of
        Inl e \<Rightarrow> Store_error e
      | Inr encoded \<Rightarrow>
          (let name = encoded @ ''.jsonl''
           in if name_max < length name then Store_os_error ENAMETOOLONG else Value name))"

subsection \<open>Operations\<close>

fun read_lines :: "index_line list \<Rightarrow> version list stored" where
  "read_lines [] = Value []"
| "read_lines (Corrupt d # ls) = Store_error (Corrupt_index_line d)"
| "read_lines (Good v # ls) = stored_bind (read_lines ls) (\<lambda>vs. Value (v # vs))"

definition history :: "backup_store \<Rightarrow> string \<Rightarrow> version list stored" where
  "history st path =
     stored_bind (index_path path) (\<lambda>name.
       case map_of (st_index st) name of None \<Rightarrow> Value [] | Some ls \<Rightarrow> read_lines ls)"

text \<open>\<open>_last_sha\<close>: a \<open>BackupStoreError\<close> counts as no history; other exceptions pass.\<close>

definition last_sha :: "backup_store \<Rightarrow> string \<Rightarrow> string option stored" where
  "last_sha st path =
     (case history st path of
        Store_error _ \<Rightarrow> Value None
      | r \<Rightarrow> stored_bind r (\<lambda>vs. Value (if vs = [] then None else Some (v_sha256 (last vs)))))"

definition put_object :: "string \<Rightarrow> nat list \<Rightarrow> backup_store \<Rightarrow> backup_store" where
  "put_object h data st =
     (if has_key (st_objects st) h then st
      else st\<lparr>st_objects := AList.update h data (st_objects st)\<rparr>)"

definition append_line :: "string \<Rightarrow> index_line \<Rightarrow> backup_store \<Rightarrow> backup_store" where
  "append_line name l st =
     st\<lparr>st_index := AList.update name
          ((case map_of (st_index st) name of None \<Rightarrow> [] | Some ls \<Rightarrow> ls) @ [l]) (st_index st)\<rparr>"

definition capture ::
  "(nat list \<Rightarrow> string) \<Rightarrow> string \<Rightarrow> string \<Rightarrow> nat list \<Rightarrow> string \<Rightarrow> op \<Rightarrow> string \<Rightarrow> backup_store \<Rightarrow>
     version stored \<times> backup_store" where
  "capture sha now path prior proposal_id k actor st =
     (let h = sha prior;
          st1 = put_object h prior st;
          r = stored_bind (last_sha st1 path) (\<lambda>prev.
                stored_bind (index_path path) (\<lambda>name.
                  Value (name, \<lparr>v_ts = now, v_proposal_id = proposal_id, v_sha256 = h,
                    v_size = length prior, v_op = k, v_actor = actor, v_prev_sha256 = prev,
                    v_evicted = False\<rparr>)))
      in (stored_bind r (\<lambda>(name, v). Value v),
          case r of Value (name, v) \<Rightarrow> append_line name (Good v) st1 | _ \<Rightarrow> st1))"

definition fetch_object :: "backup_store \<Rightarrow> string \<Rightarrow> nat list stored" where
  "fetch_object st h =
     (case map_of (st_objects st) h of
        None \<Rightarrow> Store_error (Object_not_present h)
      | Some b \<Rightarrow> Value b)"

definition merge_index ::
  "string \<Rightarrow> string \<Rightarrow> index_line list \<Rightarrow> (string \<times> index_line list) list \<Rightarrow> (string \<times> index_line list) list"
where
  "merge_index s d src_lines idx =
     (case map_of idx d of
        Some dst_lines \<Rightarrow> AList.delete s (AList.update d (src_lines @ dst_lines) idx)
      | None \<Rightarrow> AList.update d src_lines (AList.delete s idx))"

definition rename_history :: "backup_store \<Rightarrow> string \<Rightarrow> string \<Rightarrow> bool stored \<times> backup_store" where
  "rename_history st src dst =
     (let r = stored_bind (index_path src) (\<lambda>s.
                case map_of (st_index st) s of
                  None \<Rightarrow> Value None
                | Some ls \<Rightarrow> stored_bind (index_path dst) (\<lambda>d. Value (Some (s, d, ls))))
      in (stored_bind r (\<lambda>m. Value (m \<noteq> None)),
          case r of
            Value (Some (s, d, ls)) \<Rightarrow> st\<lparr>st_index := merge_index s d ls (st_index st)\<rparr>
          | _ \<Rightarrow> st))"

subsection \<open>Selecting a version\<close>

text \<open>
  \<open>datetime.fromisoformat\<close> is an argument: a time with an offset, one without, or a
  \<open>ValueError\<close>. Comparing the two kinds raises \<open>TypeError\<close>. Recorded times have an offset.
\<close>

datatype iso_time = Aware int | Naive int | Not_iso string

record selector =
  sel_version :: "int option"
  sel_proposal_id :: "string option"
  sel_at :: "string option"
  sel_sha256 :: "string option"

definition chosen :: "selector \<Rightarrow> nat" where
  "chosen s = length (filter id
     [sel_version s \<noteq> None, sel_proposal_id s \<noteq> None, sel_at s \<noteq> None, sel_sha256 s \<noteq> None])"

text \<open>\<open>versions[i - 1]\<close> for a positive position, \<open>versions[i]\<close> for a negative one.\<close>

definition at_position :: "'a list \<Rightarrow> int \<Rightarrow> 'a option" where
  "at_position xs i =
     (let n = int (length xs) in
      if 0 < i then (if i \<le> n then Some (xs ! nat (i - 1)) else None)
      else if i < 0 then (if - n \<le> i then Some (xs ! nat (n + i)) else None)
      else None)"

fun iso_le :: "iso_time \<Rightarrow> iso_time \<Rightarrow> bool stored" where
  "iso_le (Not_iso m) t = Store_value_error m"
| "iso_le (Aware a) (Aware b) = Value (a \<le> b)"
| "iso_le (Naive a) (Naive b) = Value (a \<le> b)"
| "iso_le _ _ = Store_type_error"

fun at_or_before :: "(string \<Rightarrow> iso_time) \<Rightarrow> iso_time \<Rightarrow> version list \<Rightarrow> version list stored" where
  "at_or_before iso_of t [] = Value []"
| "at_or_before iso_of t (v # vs) =
     stored_bind (iso_le (iso_of (v_ts v)) t) (\<lambda>le.
       stored_bind (at_or_before iso_of t vs) (\<lambda>r. Value (if le then v # r else r)))"

definition last_or :: "store_error \<Rightarrow> version list \<Rightarrow> version stored" where
  "last_or e vs = (if vs = [] then Store_error e else Value (last vs))"

definition selector_required :: string where
  "selector_required = ''Exactly one of version/proposal_id/at/sha256 is required''"

definition select_version ::
  "(string \<Rightarrow> iso_time) \<Rightarrow> string \<Rightarrow> selector \<Rightarrow> version list \<Rightarrow> version stored" where
  "select_version iso_of path s vs =
     (if vs = [] then Store_error (No_versions_for_path path)
      else case (sel_version s, sel_proposal_id s, sel_sha256 s, sel_at s) of
        (Some i, _) \<Rightarrow>
          (case at_position vs i of
             Some v \<Rightarrow> Value v | None \<Rightarrow> Store_error (Version_out_of_range i path))
      | (None, Some q, _) \<Rightarrow>
          (case find (\<lambda>v. v_proposal_id v = q) vs of
             Some v \<Rightarrow> Value v | None \<Rightarrow> Store_error (No_such_proposal q))
      | (None, None, Some h, _) \<Rightarrow>
          last_or (No_version_with_sha h path) (filter (\<lambda>v. v_sha256 v = h) vs)
      | (None, None, None, None) \<Rightarrow> Store_value_error selector_required
      | (None, None, None, Some a) \<Rightarrow>
          (case iso_of a of
             Not_iso m \<Rightarrow> Store_value_error m
           | t \<Rightarrow> stored_bind (at_or_before iso_of t vs) (last_or (No_version_at_time a path))))"

definition resolve_version ::
  "(string \<Rightarrow> iso_time) \<Rightarrow> backup_store \<Rightarrow> string \<Rightarrow> selector \<Rightarrow> version stored" where
  "resolve_version iso_of st path s =
     (if chosen s \<noteq> 1 then Store_value_error selector_required
      else stored_bind (history st path) (select_version iso_of path s))"

subsection \<open>One index file per path\<close>

lemma utf8_char_bytes: "c < 256 \<Longrightarrow> b \<in> set (utf8_char c) \<Longrightarrow> b < 256"
  by (auto simp: utf8_char_def split: if_splits)

lemma utf8_text_bytes: "b \<in> set (utf8_text s) \<Longrightarrow> b < 256"
proof -
  assume "b \<in> set (utf8_text s)"
  then obtain c :: char where "b \<in> set (utf8_char (of_char c))"
    by (auto simp: utf8_text_def of_ascii_def)
  then show ?thesis by (rule utf8_char_bytes [OF nat_of_char_less_256])
qed

definition unquote :: "string \<Rightarrow> (nat \<times> string) option" where
  "unquote s = (case s of
     [] \<Rightarrow> None
   | c # r \<Rightarrow>
       if c = CHR ''%'' then
         (case r of
            x # y # t \<Rightarrow>
              (let h = \<lambda>d. if d < (58::nat) then d - 48 else d - 55
               in Some (16 * h (of_char x) + h (of_char y), t))
          | _ \<Rightarrow> None)
       else Some (of_char c, r))"

lemma quote_byte_nonempty: "quote_byte b \<noteq> []"
  by (simp add: quote_byte_def)

lemma hex_upper_value:
  "n < 16 \<Longrightarrow> (if of_char (hex_upper n) < (58::nat) then of_char (hex_upper n) - 48
     else of_char (hex_upper n) - 55) = n"
  by (simp add: hex_upper_def)

lemma unquote_quote:
  assumes "b < 256"
  shows "unquote (quote_byte b @ r) = Some (b, r)"
proof (cases "unreserved b")
  case True
  then have "char_of b \<noteq> CHR ''%''"
    using assms by (auto simp: unreserved_def char_of_eq_iff take_bit_eq_mod)
  moreover have "of_char (char_of b :: char) = b"
    using assms by (simp add: take_bit_eq_mod)
  ultimately show ?thesis using True by (simp add: quote_byte_def unquote_def)
next
  case False
  have "b div 16 < 16" using assms by (simp add: less_mult_imp_div_less)
  with False show ?thesis
    using hex_upper_value [of "b div 16"] hex_upper_value [of "b mod 16"]
    by (simp add: quote_byte_def unquote_def Let_def)
qed

lemma quoted_inj:
  assumes "concat (map quote_byte bs) = concat (map quote_byte cs)"
    and "\<forall>b \<in> set bs. b < 256" "\<forall>c \<in> set cs. c < 256"
  shows "bs = cs"
  using assms
proof (induction bs arbitrary: cs)
  case Nil
  then show ?case using quote_byte_nonempty by (cases cs) auto
next
  case (Cons b bs)
  then obtain c ds where cs: "cs = c # ds" using quote_byte_nonempty by (cases cs) auto
  have "unquote (quote_byte b @ concat (map quote_byte bs)) =
      unquote (quote_byte c @ concat (map quote_byte ds))"
    using Cons.prems(1) cs by simp
  then show ?case using Cons cs by (simp add: unquote_quote)
qed

lemma url_quote_inj: "url_quote p = url_quote q \<Longrightarrow> p = q"
  unfolding url_quote_def
  by (rule utf8_text_inj) (rule quoted_inj, auto simp: utf8_text_bytes)

lemma index_path_inj: "index_path p = Value n \<Longrightarrow> index_path q = Value n \<Longrightarrow> p = q"
  by (auto simp: index_path_def encode_path_def Let_def dest!: url_quote_inj split: if_splits)

lemma index_path_distinct:
  "index_path p = Value n \<Longrightarrow> index_path q = Value m \<Longrightarrow> p \<noteq> q \<Longrightarrow> n \<noteq> m"
  using index_path_inj by blast

subsection \<open>Capturing\<close>

lemma capture_ok:
  assumes "capture sha now path prior pid k actor st = (Value v, st')"
  obtains name prev where
    "index_path path = Value name" "last_sha (put_object (sha prior) prior st) path = Value prev"
    "v = \<lparr>v_ts = now, v_proposal_id = pid, v_sha256 = sha prior, v_size = length prior,
          v_op = k, v_actor = actor, v_prev_sha256 = prev, v_evicted = False\<rparr>"
    "st' = append_line name (Good v) (put_object (sha prior) prior st)"
proof -
  let ?st1 = "put_object (sha prior) prior st"
  note run = assms [unfolded capture_def Let_def]
  obtain prev where prev: "last_sha ?st1 path = Value prev"
    using run by (cases "last_sha ?st1 path") simp_all
  obtain name where name: "index_path path = Value name"
    using run prev by (cases "index_path path") simp_all
  show ?thesis using run by (intro that [OF name prev]) (auto simp: prev name)
qed

lemma put_object_index [simp]: "st_index (put_object h b st) = st_index st"
  by (simp add: put_object_def)

lemma append_line_objects [simp]: "st_objects (append_line n l st) = st_objects st"
  by (simp add: append_line_def)

lemma capture_fail:
  assumes "capture sha now path prior pid k actor st = (r, st')" "\<And>v. r \<noteq> Value v"
  shows "st' = put_object (sha prior) prior st"
  using assms by (auto simp: capture_def Let_def split: stored.splits)

lemma capture_objects:
  assumes "capture sha now path prior pid k actor st = (r, st')"
  shows "st_objects st' = st_objects (put_object (sha prior) prior st)"
  using assms by (auto simp: capture_def Let_def split: stored.splits)

lemma put_object_body:
  "map_of (st_objects (put_object h b st)) h' =
     (if h' = h \<and> map_of (st_objects st) h = None then Some b else map_of (st_objects st) h')"
  by (auto simp: put_object_def has_key_map_of update_conv')

lemma read_lines_snoc:
  "read_lines (ls @ [Good v]) = stored_bind (read_lines ls) (\<lambda>vs. Value (vs @ [v]))"
proof (induction ls rule: read_lines.induct)
  case (3 u ls)
  then show ?case by (cases "read_lines ls") auto
qed auto

lemma history_append:
  assumes "index_path path = Value name"
  shows "history (append_line name (Good v) st) path =
    stored_bind (history st path) (\<lambda>vs. Value (vs @ [v]))"
  using assms by (auto simp: history_def append_line_def update_conv' read_lines_snoc split: option.split)

lemma history_append_other:
  assumes "index_path path = Value name" "q \<noteq> path"
  shows "history (append_line name l st) q = history st q"
  using assms index_path_inj
  by (cases "index_path q") (auto simp: history_def append_line_def update_conv')

lemma history_put [simp]: "history (put_object h b st) q = history st q"
  by (simp add: history_def)

lemma capture_history:
  assumes "capture sha now path prior pid k actor st = (Value v, st')"
  shows "history st' q =
    (if q = path then stored_bind (history st path) (\<lambda>vs. Value (vs @ [v])) else history st q)"
  using assms by (auto elim!: capture_ok simp: history_append history_append_other)

lemma capture_version:
  assumes "capture sha now path prior pid k actor st = (Value v, st')"
  shows "v_sha256 v = sha prior" "v_op v = k" "v_proposal_id v = pid" "v_size v = length prior"
  using assms by (auto elim!: capture_ok)

subsection \<open>The store stays content-addressed\<close>

definition content_addressed :: "(nat list \<Rightarrow> string) \<Rightarrow> backup_store \<Rightarrow> bool" where
  "content_addressed sha st \<longleftrightarrow> (\<forall>h b. map_of (st_objects st) h = Some b \<longrightarrow> sha b = h)"

lemma capture_content_addressed:
  assumes "content_addressed sha st" "capture sha now path prior pid k actor st = (r, st')"
  shows "content_addressed sha st'"
  using assms(1)
  by (auto simp: content_addressed_def capture_objects [OF assms(2)] put_object_body split: if_splits)

lemma capture_keeps_body:
  assumes "capture sha now path prior pid k actor st = (r, st')" "fetch_object st h = Value b"
  shows "fetch_object st' h = Value b"
  using assms(2)
  by (auto simp: fetch_object_def capture_objects [OF assms(1)] put_object_body split: option.splits)

lemma capture_body:
  assumes "content_addressed sha st" "capture sha now path prior pid k actor st = (r, st')"
  obtains b where "fetch_object st' (sha prior) = Value b" "sha b = sha prior"
proof (cases "map_of (st_objects st) (sha prior)")
  case None
  then show ?thesis
    using that by (simp add: fetch_object_def capture_objects [OF assms(2)] put_object_body)
next
  case (Some b)
  then have "sha b = sha prior" using assms(1) by (simp add: content_addressed_def)
  then show ?thesis
    using Some that by (simp add: fetch_object_def capture_objects [OF assms(2)] put_object_body)
qed

lemma rename_objects:
  assumes "rename_history st src dst = (r, st')"
  shows "st_objects st' = st_objects st"
  using assms by (auto simp: rename_history_def Let_def split: stored.splits option.splits)

lemma read_lines_append:
  "read_lines (ls @ ms) =
     stored_bind (read_lines ls) (\<lambda>vs. stored_bind (read_lines ms) (\<lambda>ws. Value (vs @ ws)))"
proof (induction ls rule: read_lines.induct)
  case 1
  then show ?case by (cases "read_lines ms") auto
next
  case (3 v ls)
  then show ?case by (cases "read_lines ls"; cases "read_lines ms") auto
qed auto

text \<open>A history that gains the one of another path keeps its own versions last.\<close>

lemma rename_keeps_suffix:
  assumes "rename_history st src dst = (r, st')" "src \<noteq> dst"
    and "history st src = Value vs" "history st dst = Value ws"
  shows "\<exists>us. history st' dst = Value (us @ ws)"
proof (cases "\<exists>s d ls. index_path src = Value s \<and> index_path dst = Value d \<and> map_of (st_index st) s = Some ls")
  case True
  then obtain s d ls where i: "index_path src = Value s" "index_path dst = Value d"
    "map_of (st_index st) s = Some ls" by blast
  have ne: "s \<noteq> d" using index_path_distinct [OF i(1,2) assms(2)] .
  have st': "st' = st\<lparr>st_index := merge_index s d ls (st_index st)\<rparr>"
    using assms(1) i by (simp add: rename_history_def)
  have src: "read_lines ls = Value vs" using assms(3) i by (simp add: history_def)
  show ?thesis
  proof (cases "map_of (st_index st) d")
    case None
    then have "ws = []" using assms(4) i by (simp add: history_def)
    with None show ?thesis
      using i ne src by (simp add: history_def st' merge_index_def update_conv')
  next
    case (Some ms)
    then have "read_lines ms = Value ws" using assms(4) i by (simp add: history_def)
    with Some show ?thesis
      using i ne src
      by (simp add: history_def st' merge_index_def update_conv' delete_conv' read_lines_append)
  qed
next
  case False
  then have "st' = st"
    using assms(1)
    by (cases "index_path src"; cases "index_path dst")
       (auto simp: rename_history_def Let_def split: stored.splits option.splits)
  with assms(4) show ?thesis by (intro exI [of _ "[]"]) simp
qed

subsection \<open>Nothing recorded is lost\<close>

text \<open>
  What the file commands rely on: the log of a path only grows, and a stored body never changes.
\<close>

locale append_journal =
  fixes put :: "'e \<Rightarrow> 's \<Rightarrow> 's"
    and log :: "'s \<Rightarrow> 'k \<Rightarrow> 'l list"
    and body :: "'s \<Rightarrow> 'h \<Rightarrow> 'b option"
    and inv :: "'s \<Rightarrow> bool"
  assumes inv_put: "inv s \<Longrightarrow> inv (put e s)"
    and log_put: "\<exists>ls. log (put e s) k = log s k @ ls"
    and body_put: "body s h = Some b \<Longrightarrow> body (put e s) h = Some b"
begin

lemma inv_all: "inv s \<Longrightarrow> inv (fold put es s)"
  by (induction es arbitrary: s) (simp_all add: inv_put)

lemma log_all: "prefix (log s k) (log (fold put es s) k)"
proof (induction es arbitrary: s)
  case (Cons e es)
  have "prefix (log s k) (log (put e s) k)" using log_put by (metis prefixI)
  with Cons [of "put e s"] show ?case by (simp add: prefix_order.trans)
qed simp

lemma body_all: "body s h = Some b \<Longrightarrow> body (fold put es s) h = Some b"
  by (induction es arbitrary: s) (simp_all add: body_put)

end

record entry =
  en_now :: string
  en_path :: string
  en_bytes :: "nat list"
  en_proposal_id :: string
  en_op :: op
  en_actor :: string

definition capture_entry :: "(nat list \<Rightarrow> string) \<Rightarrow> entry \<Rightarrow> backup_store \<Rightarrow> version stored \<times> backup_store" where
  "capture_entry sha e st =
     capture sha (en_now e) (en_path e) (en_bytes e) (en_proposal_id e) (en_op e) (en_actor e) st"

definition lines_of :: "backup_store \<Rightarrow> string \<Rightarrow> index_line list" where
  "lines_of st path =
     (case index_path path of
        Value name \<Rightarrow> (case map_of (st_index st) name of None \<Rightarrow> [] | Some ls \<Rightarrow> ls)
      | _ \<Rightarrow> [])"

definition body_of :: "backup_store \<Rightarrow> string \<Rightarrow> nat list option" where
  "body_of st h = map_of (st_objects st) h"

lemma lines_append:
  "\<exists>more. lines_of (append_line name l st) k = lines_of st k @ more"
  by (auto simp: lines_of_def append_line_def update_conv' split: stored.split option.split)

lemma capture_lines:
  assumes "capture sha now path prior pid k actor st = (r, st')"
  shows "\<exists>more. lines_of st' q = lines_of st q @ more"
proof -
  have "lines_of (put_object h b st) q = lines_of st q" for h b
    by (simp add: lines_of_def split: stored.split)
  moreover have "st' = put_object (sha prior) prior st \<or>
      (\<exists>name v. st' = append_line name (Good v) (put_object (sha prior) prior st))"
    using assms by (cases r) (auto elim!: capture_ok dest: capture_fail)
  ultimately show ?thesis
    using lines_append [of _ _ "put_object (sha prior) prior st" q] by auto
qed

interpretation captures: append_journal
  "\<lambda>e st. snd (capture_entry sha e st)" lines_of body_of "content_addressed sha" for sha
proof
  fix e st k h b
  obtain r st' where c: "capture_entry sha e st = (r, st')" by (cases "capture_entry sha e st")
  note c' = c [unfolded capture_entry_def]
  show "content_addressed sha st \<Longrightarrow> content_addressed sha (snd (capture_entry sha e st))"
    using capture_content_addressed [OF _ c'] c by simp
  show "\<exists>ls. lines_of (snd (capture_entry sha e st)) k = lines_of st k @ ls"
    using capture_lines [OF c'] c by simp
  show "body_of st h = Some b \<Longrightarrow> body_of (snd (capture_entry sha e st)) h = Some b"
    using c by (auto simp: body_of_def capture_objects [OF c'] put_object_body)
qed

text \<open>
  C20. What was captured can be fetched, whatever is captured afterwards: once a capture of a
  file's bytes succeeded, its version line stays in the log of that path, and its object holds
  bytes with the digest of the captured ones: those very bytes, unless SHA-256 collides on them.
\<close>

theorem captured_stays_recoverable:
  assumes "content_addressed sha st"
    and "capture_entry sha e st = (Value v, st')"
    and "\<And>b. sha b = sha (en_bytes e) \<Longrightarrow> b = en_bytes e"
  shows "Good v \<in> set (lines_of (fold (\<lambda>d s. snd (capture_entry sha d s)) later st') (en_path e)) \<and>
    fetch_object (fold (\<lambda>d s. snd (capture_entry sha d s)) later st') (v_sha256 v) =
      Value (en_bytes e)"
proof -
  note c = assms(2) [unfolded capture_entry_def]
  obtain name where n: "index_path (en_path e) = Value name"
    "st' = append_line name (Good v) (put_object (sha (en_bytes e)) (en_bytes e) st)"
    using c by (auto elim: capture_ok)
  have "Good v \<in> set (lines_of st' (en_path e))"
    using n by (simp add: lines_of_def append_line_def update_conv')
  moreover obtain b where "fetch_object st' (sha (en_bytes e)) = Value b" "sha b = sha (en_bytes e)"
    using capture_body [OF assms(1) c] .
  then have "body_of st' (v_sha256 v) = Some (en_bytes e)"
    using assms(3) [of b] capture_version(1) [OF c]
    by (auto simp: fetch_object_def body_of_def split: option.splits)
  then have "body_of (fold (\<lambda>d s. snd (capture_entry sha d s)) later st') (v_sha256 v) = Some (en_bytes e)"
    by (rule captures.body_all)
  ultimately show ?thesis
    using captures.log_all [of st' "en_path e" sha later]
    by (auto simp: fetch_object_def body_of_def dest: set_mono_prefix)
qed

definition sample_entry :: "string \<Rightarrow> nat list \<Rightarrow> entry" where
  "sample_entry p b = \<lparr>en_now = ''t'', en_path = p, en_bytes = b, en_proposal_id = ''direct'',
     en_op = Write_op, en_actor = ''agent''\<rparr>"

lemma sample_index_path: "index_path ''/a'' = Value ''%2Fa.jsonl''"
  by (simp add: index_path_def encode_path_def url_quote_def utf8_text_def of_ascii_def utf8_char_def
      quote_byte_def unreserved_def hex_upper_def index_name_max_def name_max_def char_of_eq_iff)

theorem captured_stays_recoverable_witness:
  "\<exists>v st'. capture_entry unary_digest (sample_entry ''/a'' [7]) empty_store = (Value v, st') \<and>
     fetch_object (snd (capture_entry unary_digest (sample_entry ''/a'' [9]) st')) (v_sha256 v) = Value [7]"
proof -
  have "content_addressed unary_digest empty_store"
    by (simp add: content_addressed_def empty_store_def)
  moreover obtain v st' where "capture_entry unary_digest (sample_entry ''/a'' [7]) empty_store = (Value v, st')"
    by (simp add: capture_entry_def sample_entry_def capture_def last_sha_def history_def
        sample_index_path empty_store_def put_object_def Let_def)
  ultimately show ?thesis
    using captured_stays_recoverable [of unary_digest empty_store "sample_entry ''/a'' [7]" v st'
        "[sample_entry ''/a'' [9]]"] unary_digest_inj
    by (auto simp: sample_entry_def)
qed

end
