(* ===== verification/Fs_Base.thy ===== *)
theory Fs_Base
  imports Backup_Store Approval_Gate Simple_Commands
begin

text \<open>
  What the mutating file commands share (\<open>commands/fs_write.py\<close>): the environment they read, the
  state they change, their early returns and exceptions, the path policy, and the decoding of
  content.
\<close>

subsection \<open>Environment and state\<close>

text \<open>
  \<open>ev_send2trash\<close> is the \<open>send2trash\<close> package when it is installed; \<open>ev_unified_diff\<close> is
  \<open>difflib.unified_diff\<close> joined; \<open>ev_errno_text\<close> the text of an \<open>OSError\<close>.
\<close>

record fs_env =
  ev_addon_mode :: bool
  ev_roots_var :: string
  ev_cwd :: place
  ev_sha256 :: "nat list \<Rightarrow> string"
  ev_sha1 :: "nat list \<Rightarrow> string"
  ev_now :: rat
  ev_utc_now :: string
  ev_iso_time :: "string \<Rightarrow> iso_time"
  ev_caller :: "caller option"
  ev_errno_text :: "errno \<Rightarrow> string"
  ev_device :: "place \<Rightarrow> nat"
  ev_unified_diff :: "nat list \<Rightarrow> nat list \<Rightarrow> string \<Rightarrow> string \<Rightarrow> string"
  ev_send2trash :: "(place \<Rightarrow> tree \<Rightarrow> errno + tree) option"
  ev_trash_dir :: string
  ev_trash_stamp :: string

record fs_world =
  w_tree :: tree
  w_store :: backup_store
  w_used :: used_ids

datatype exn =
  Value_error_exn | Os_error_exn errno | Type_error_exn | Overflow_exn | No_roots_exn

datatype outcome = Returned jval | Raised exn

text \<open>
  A handler in progress: the tree, the store, and its one-shot approval check. An action ends the
  handler (on the left) or goes on with a value.
\<close>

record fs_state =
  s_tree :: tree
  s_store :: backup_store
  s_check :: checker

type_synonym 'a act = "fs_state \<Rightarrow> (outcome + 'a) \<times> fs_state"

definition seq :: "'a act \<Rightarrow> ('a \<Rightarrow> 'b act) \<Rightarrow> 'b act" where
  "seq m f s = (case m s of (Inl r, s') \<Rightarrow> (Inl r, s') | (Inr a, s') \<Rightarrow> f a s')"

definition give :: "'a \<Rightarrow> 'a act" where
  "give a s = (Inr a, s)"

definition stop :: "jval \<Rightarrow> 'a act" where
  "stop r s = (Inl (Returned r), s)"

definition throw :: "exn \<Rightarrow> 'a act" where
  "throw e s = (Inl (Raised e), s)"

definition refuse_if :: "bool \<Rightarrow> jval \<Rightarrow> unit act" where
  "refuse_if c r = (if c then stop r else give ())"

definition refuse_some :: "jval option \<Rightarrow> unit act" where
  "refuse_some x = (case x of None \<Rightarrow> give () | Some r \<Rightarrow> stop r)"

definition the_tree :: "tree act" where
  "the_tree s = (Inr (s_tree s), s)"

definition the_store :: "backup_store act" where
  "the_store s = (Inr (s_store s), s)"

definition put_tree :: "tree \<Rightarrow> unit act" where
  "put_tree t s = (Inr (), s\<lparr>s_tree := t\<rparr>)"

definition approved :: "fs_env \<Rightarrow> string \<Rightarrow> unit act" where
  "approved env command s =
     (case checker_check (ev_sha256 env) (ev_caller env) command (ev_now env) (s_check s) of
        (r, ck) \<Rightarrow> refuse_some r (s\<lparr>s_check := ck\<rparr>))"

text \<open>Running a handler body on the node's state.\<close>

definition run_handler :: "dict \<Rightarrow> jval act \<Rightarrow> fs_world \<Rightarrow> outcome \<times> fs_world" where
  "run_handler params body w =
     (case body \<lparr>s_tree = w_tree w, s_store = w_store w,
                  s_check = approval_checker params (w_used w)\<rparr> of
        (r, s) \<Rightarrow> (case r of Inl out \<Rightarrow> out | Inr v \<Rightarrow> Returned v,
                   \<lparr>w_tree = s_tree s, w_store = s_store s, w_used = ck_used (s_check s)\<rparr>))"

lemma seq_simps [simp]:
  "seq (give a) f = f a"
  "seq (stop r) f = stop r"
  "seq (throw e) f = throw e"
  by (simp_all add: fun_eq_iff seq_def give_def stop_def throw_def)

lemma seq_cases:
  assumes "seq m f s = (r, s')"
  obtains (early) x where "m s = (Inl x, s')" "r = Inl x"
  | (on) a s1 where "m s = (Inr a, s1)" "f a s1 = (r, s')"
  using assms by (auto simp: seq_def split: prod.splits sum.splits)

lemma seq_ok:
  assumes "seq m f s = (Inr b, s')"
  obtains a s1 where "m s = (Inr a, s1)" "f a s1 = (Inr b, s')"
  using assms by (auto simp: seq_def split: prod.splits sum.splits)

subsection \<open>Path policy\<close>

definition protected_roots :: "string list" where
  "protected_roots = [''/config'', ''/addons'', ''/ssl'']"

definition max_write_bytes :: nat where
  "max_write_bytes = 8 * 1024 * 1024"

definition is_protected :: "string \<Rightarrow> bool" where
  "is_protected path =
     (let norm = (if suffix ''/'' path then path else path @ ''/'')
      in list_ex (\<lambda>root. prefix (root @ ''/'') norm \<or> path = root) protected_roots)"

definition is_storage :: "string \<Rightarrow> bool" where
  "is_storage path \<longleftrightarrow> sublist ''/config/.storage/'' path \<or> suffix ''/config/.storage'' path"

definition storage_refusal :: jval where
  "storage_refusal = err_reply ''STORAGE_READONLY''
     ''Writes to .storage/ are refused; use the HA REST config API instead''"

definition outside_refusal :: "string \<Rightarrow> jval" where
  "outside_refusal path =
     err_reply ''PATH_NOT_ALLOWED'' (''Path is outside the allowed roots: '' @ py_repr_str path)"

definition roots_now :: "fs_env \<Rightarrow> tree \<Rightarrow> place list" where
  "roots_now env t = allowed_roots t (ev_cwd env) (ev_addon_mode env) (ev_roots_var env)"

definition resolve_write_target :: "fs_env \<Rightarrow> string \<Rightarrow> place act" where
  "resolve_write_target env path =
     seq the_tree (\<lambda>t.
       case resolve_safe t path (roots_now env t) of
         Place p \<Rightarrow> give p
       | Refused_no_roots \<Rightarrow> stop (err_reply ''NO_ALLOWED_ROOTS'' ''No filesystem roots configured'')
       | Refused_outside \<Rightarrow> stop (outside_refusal path)
       | Value_error \<Rightarrow> throw Value_error_exn)"

text \<open>The gate of \<open>fs.write\<close>, \<open>fs.restore\<close> and \<open>fs.patch\<close>, up to the resolved place.\<close>

definition write_gate :: "fs_env \<Rightarrow> string \<Rightarrow> string \<Rightarrow> bool \<Rightarrow> place act" where
  "write_gate env command path agent_bridge =
     seq (refuse_if (is_storage path) storage_refusal) (\<lambda>_.
     seq (if is_protected path \<or> agent_bridge then approved env command else give ()) (\<lambda>_.
     seq (resolve_write_target env path) (\<lambda>p.
     seq (if is_protected (path_str p) then approved env command else give ()) (\<lambda>_.
     give p))))"

subsection \<open>Reading, writing and capturing\<close>

definition str_param :: "dict \<Rightarrow> string \<Rightarrow> string \<Rightarrow> string" where
  "str_param params k d = py_str (dget_or params k (JStr d))"

definition bool_param :: "dict \<Rightarrow> string \<Rightarrow> bool \<Rightarrow> bool" where
  "bool_param params k d = truthy (dget_or params k (JBool d))"

definition write_file :: "fs_env \<Rightarrow> string \<Rightarrow> nat list \<Rightarrow> string \<Rightarrow> unit act" where
  "write_file env path data what =
     seq the_tree (\<lambda>t.
       case atomic_write_safe t path (roots_now env t) data of
         Done t' \<Rightarrow> put_tree t'
       | Out_of_bounds \<Rightarrow> stop (outside_refusal path)
       | Os_error e \<Rightarrow> stop (err_reply ''WRITE_ERROR'' (what @ '': '' @ ev_errno_text env e))
       | No_allowed_roots \<Rightarrow> throw No_roots_exn)"

definition capture_bytes ::
  "fs_env \<Rightarrow> string \<Rightarrow> nat list \<Rightarrow> string \<Rightarrow> op \<Rightarrow> string \<Rightarrow> string \<Rightarrow> version act" where
  "capture_bytes env path prior proposal_id k actor message s =
     (case capture (ev_sha256 env) (ev_utc_now env) path prior proposal_id k actor (s_store s) of
        (r, st) \<Rightarrow>
          (case r of
             Value v \<Rightarrow> give v
           | Store_error _ \<Rightarrow> stop (err_reply ''BACKUP_ERROR'' message)
           | Store_os_error e \<Rightarrow> throw (Os_error_exn e)
           | Store_value_error _ \<Rightarrow> throw Value_error_exn
           | Store_type_error \<Rightarrow> throw Type_error_exn) (s\<lparr>s_store := st\<rparr>))"

subsection \<open>Content\<close>

text \<open>\<open>base64.b64decode(content)\<close>, not strict: foreign characters are skipped.\<close>

definition base64_value :: "char \<Rightarrow> nat option" where
  "base64_value c =
     (let n = of_char c :: nat in
      if 65 \<le> n \<and> n \<le> 90 then Some (n - 65)
      else if 97 \<le> n \<and> n \<le> 122 then Some (n - 71)
      else if 48 \<le> n \<and> n \<le> 57 then Some (n + 4)
      else if c = CHR ''+'' then Some 62
      else if c = CHR ''/'' then Some 63
      else None)"

text \<open>State: position in the group of four, bits left over, padding seen, output reversed.\<close>

fun base64_loop :: "string \<Rightarrow> nat \<Rightarrow> nat \<Rightarrow> nat \<Rightarrow> nat list \<Rightarrow> string + nat list" where
  "base64_loop [] quad left pads out =
     (if quad = 0 then Inr (rev out)
      else if quad = 1 then
        Inl (''Invalid base64-encoded string: number of data characters ('' @
             nat_str (length out div 3 * 4 + 1) @
             '') cannot be 1 more than a multiple of 4'')
      else Inl ''Incorrect padding'')"
| "base64_loop (c # cs) quad left pads out =
     (if c = CHR ''='' then
        (if 2 \<le> quad then
           (if 4 \<le> quad + pads + 1 then Inr (rev out) else base64_loop cs quad left (pads + 1) out)
         else base64_loop cs quad left pads out)
      else case base64_value c of
        None \<Rightarrow> base64_loop cs quad left pads out
      | Some v \<Rightarrow>
          (if quad = 0 then base64_loop cs 1 v 0 out
           else if quad = 1 then base64_loop cs 2 (v mod 16) 0 ((left * 4 + v div 16) # out)
           else if quad = 2 then base64_loop cs 3 (v mod 4) 0 ((left * 16 + v div 4) # out)
           else base64_loop cs 0 0 0 ((left * 64 + v) # out)))"

definition b64decode :: "string \<Rightarrow> string + nat list" where
  "b64decode s =
     (if list_all (\<lambda>c. of_char c < (128::nat)) s then base64_loop s 0 0 0 []
      else Inl ''string argument should contain only ASCII characters'')"

definition decode_content :: "string \<Rightarrow> string \<Rightarrow> jval + nat list" where
  "decode_content content encoding =
     (if encoding = ''base64'' then
        (case b64decode content of
           Inl e \<Rightarrow> Inl (err_reply ''INVALID_CONTENT'' (''base64 decode failed: '' @ e))
         | Inr b \<Rightarrow> Inr b)
      else if encoding = ''utf-8'' then Inr (utf8_text content)
      else Inl (err_reply ''INVALID_ENCODING''
        (''Unknown encoding: '' @ py_repr_str encoding @ ''; use utf-8 or base64'')))"

subsection \<open>Actions that leave the tree alone\<close>

definition keeps_tree :: "'a act \<Rightarrow> bool" where
  "keeps_tree m \<longleftrightarrow> (\<forall>s. s_tree (snd (m s)) = s_tree s)"

named_theorems keeps \<open>actions that leave the tree alone\<close>

lemma keeps_tree_basic [keeps]:
  "keeps_tree (give a)" "keeps_tree (stop r)" "keeps_tree (throw e)" "keeps_tree (refuse_if c r)"
  "keeps_tree (refuse_some x)" "keeps_tree the_tree" "keeps_tree the_store"
  by (auto simp: keeps_tree_def give_def stop_def throw_def refuse_if_def refuse_some_def
      the_tree_def the_store_def split: option.split)

lemma keeps_tree_seq [keeps]: "keeps_tree m \<Longrightarrow> (\<And>a. keeps_tree (f a)) \<Longrightarrow> keeps_tree (seq m f)"
  unfolding keeps_tree_def
proof
  fix s
  assume m: "\<forall>s. s_tree (snd (m s)) = s_tree s" and f: "\<And>a. \<forall>s. s_tree (snd (f a s)) = s_tree s"
  show "s_tree (snd (seq m f s)) = s_tree s"
  proof (cases "m s")
    case (Pair x s1)
    then have "s_tree s1 = s_tree s" using m by (metis snd_conv)
    with Pair f show ?thesis by (cases x) (simp_all add: seq_def)
  qed
qed

lemma keeps_tree_if [keeps]: "keeps_tree m \<Longrightarrow> keeps_tree n \<Longrightarrow> keeps_tree (if c then m else n)"
  by simp

lemma keeps_tree_approved [keeps]: "keeps_tree (approved env c)"
  unfolding keeps_tree_def approved_def
  by (auto simp: refuse_some_def give_def stop_def split: prod.split option.split)

lemma keeps_tree_resolve [keeps]: "keeps_tree (resolve_write_target env p)"
  unfolding resolve_write_target_def
  by (intro keeps_tree_seq keeps) (auto intro: keeps split: resolved.split)

lemma keeps_tree_gate [keeps]: "keeps_tree (write_gate env c p b)"
  unfolding write_gate_def by (intro keeps)

lemma keeps_tree_capture [keeps]: "keeps_tree (capture_bytes env p b i k a m)"
  unfolding keeps_tree_def capture_bytes_def
  by (auto simp: give_def stop_def throw_def split: prod.split stored.split)

text \<open>If a sequence changed the tree and its first part did not, its second part did.\<close>

lemma seq_changed:
  assumes "keeps_tree m" "seq m f s = (r, s')" "s_tree s' \<noteq> s_tree s"
  obtains a s1 where "m s = (Inr a, s1)" "s_tree s1 = s_tree s" "f a s1 = (r, s')"
proof (cases "m s")
  case (Pair x s1)
  then have "s_tree s1 = s_tree s" using assms(1) by (metis keeps_tree_def snd_conv)
  with Pair assms(2,3) that show ?thesis by (cases x) (auto simp: seq_def)
qed

text \<open>
  \<open>changing m s Q\<close>: if running \<open>m\<close> from \<open>s\<close> changes the tree, its result and end state satisfy
  \<open>Q\<close>. The steps before the change are collected as hypotheses.
\<close>

definition changing :: "'a act \<Rightarrow> fs_state \<Rightarrow> (outcome + 'a \<Rightarrow> fs_state \<Rightarrow> bool) \<Rightarrow> bool" where
  "changing m s Q \<longleftrightarrow> (\<forall>r s'. m s = (r, s') \<longrightarrow> s_tree s' \<noteq> s_tree s \<longrightarrow> Q r s')"

lemma changing_keeps: "keeps_tree m \<Longrightarrow> changing m s Q"
  unfolding changing_def keeps_tree_def by (metis snd_conv)

lemma changing_seq:
  assumes "keeps_tree m"
    and "\<And>a s1. m s = (Inr a, s1) \<Longrightarrow> s_tree s1 = s_tree s \<Longrightarrow> changing (f a) s1 Q"
  shows "changing (seq m f) s Q"
  unfolding changing_def
proof (intro allI impI)
  fix r s'
  assume "seq m f s = (r, s')" "s_tree s' \<noteq> s_tree s"
  then obtain a s1 where "m s = (Inr a, s1)" "s_tree s1 = s_tree s" "f a s1 = (r, s')"
    by (rule seq_changed [OF assms(1)])
  with assms(2) \<open>s_tree s' \<noteq> s_tree s\<close> show "Q r s'" by (simp add: changing_def)
qed

lemma changing_split:
  "(\<And>x y. a = (x, y) \<Longrightarrow> changing (f x y) s Q) \<Longrightarrow> changing (case a of (x, y) \<Rightarrow> f x y) s Q"
  by (cases a) simp

lemma changing_write_give:
  assumes "\<And>t. atomic_write_safe (s_tree s) path (roots_now env (s_tree s)) data = Done t \<Longrightarrow>
             Q (Inr x) (s\<lparr>s_tree := t\<rparr>)"
  shows "changing (seq (write_file env path data what) (\<lambda>_. give x)) s Q"
  using assms
  by (auto simp: changing_def seq_def write_file_def the_tree_def put_tree_def stop_def throw_def
      give_def split: io.splits)

text \<open>
  \<open>ends_ok m s Q\<close>: if \<open>m\<close> goes through from \<open>s\<close>, its value and end state satisfy \<open>Q\<close>; and
  \<open>only_errors m\<close>: when \<open>m\<close> ends the handler early with a reply, the reply does not say ok.
\<close>

definition ends_ok :: "'a act \<Rightarrow> fs_state \<Rightarrow> ('a \<Rightarrow> fs_state \<Rightarrow> bool) \<Rightarrow> bool" where
  "ends_ok m s Q \<longleftrightarrow> (\<forall>v s'. m s = (Inr v, s') \<longrightarrow> Q v s')"

lemma ends_ok_give: "Q x s \<Longrightarrow> ends_ok (give x) s Q"
  by (simp add: ends_ok_def give_def)

lemma ends_ok_seq:
  "(\<And>a s1. m s = (Inr a, s1) \<Longrightarrow> ends_ok (f a) s1 Q) \<Longrightarrow> ends_ok (seq m f) s Q"
  unfolding ends_ok_def by (metis seq_ok)

lemma ends_ok_split:
  "(\<And>x y. a = (x, y) \<Longrightarrow> ends_ok (f x y) s Q) \<Longrightarrow> ends_ok (case a of (x, y) \<Rightarrow> f x y) s Q"
  by (cases a) simp

lemma ends_okD: "ends_ok m s Q \<Longrightarrow> m s = (Inr v, s') \<Longrightarrow> Q v s'"
  by (simp add: ends_ok_def)

lemma consume_refusal_code:
  assumes "fst (fst (consume_approval_marker digest now call used)) = Some r"
  shows "reply_code r \<in> {''PROPOSAL_REQUIRED'', ''APPROVAL_INVALID''} \<and> \<not> reply_ok r"
proof (cases call rule: gate_cases)
  case unmarked
  then show ?thesis
    using assms by (auto simp: consume_unmarked require_config_mutation_approval_def split: if_splits)
next
  case (malformed m)
  then show ?thesis using assms by (auto simp: consume_malformed refusal_def)
next
  case (marked m i e b)
  then show ?thesis
    using assms by (auto simp: consume_marked [OF marked] Let_def refusal_def split: if_splits)
qed

definition calm :: "fs_state \<Rightarrow> bool" where
  "calm s \<longleftrightarrow> (\<forall>r. ck_memo (s_check s) = Some (Some r) \<longrightarrow> \<not> reply_ok r)"

definition only_errors :: "'a act \<Rightarrow> bool" where
  "only_errors m \<longleftrightarrow> (\<forall>s x s'. calm s \<longrightarrow> m s = (x, s') \<longrightarrow>
     calm s' \<and> (\<forall>r. x = Inl (Returned r) \<longrightarrow> \<not> reply_ok r))"

named_theorems errors \<open>actions that end early only with an error\<close>

lemma only_errors_basic [errors]:
  "only_errors (give a)" "only_errors (throw e)" "only_errors the_tree" "only_errors the_store"
  "only_errors (put_tree t)" "only_errors (stop (err_reply c m))"
  by (auto simp: only_errors_def calm_def give_def throw_def the_tree_def the_store_def put_tree_def
      stop_def)

lemma only_errors_refuse [errors]: "\<not> reply_ok r \<Longrightarrow> only_errors (refuse_if c r)"
  by (auto simp: only_errors_def refuse_if_def stop_def give_def)

lemma only_errors_strict [errors]: "only_errors (refuse_some (strict_keys_error p a n))"
  using strict_keys_code
  by (fastforce simp: only_errors_def refuse_some_def stop_def give_def split: option.splits)

lemma only_errors_seq [errors]:
  assumes "only_errors m" "\<And>a. only_errors (f a)"
  shows "only_errors (seq m f)"
  unfolding only_errors_def
proof (intro allI impI)
  fix s x s'
  assume c: "calm s" and run: "seq m f s = (x, s')"
  show "calm s' \<and> (\<forall>r. x = Inl (Returned r) \<longrightarrow> \<not> reply_ok r)"
  proof (cases "m s")
    case (Pair y s1)
    with c assms(1) have y: "calm s1" "\<forall>r. y = Inl (Returned r) \<longrightarrow> \<not> reply_ok r"
      unfolding only_errors_def by blast+
    show ?thesis
    proof (cases y)
      case (Inl o')
      then show ?thesis using run Pair y by (auto simp: seq_def)
    next
      case (Inr a)
      then have "f a s1 = (x, s')" using run Pair by (simp add: seq_def)
      then show ?thesis using assms(2) y(1) unfolding only_errors_def by blast
    qed
  qed
qed

lemma only_errors_if [errors]: "only_errors m \<Longrightarrow> only_errors n \<Longrightarrow> only_errors (if c then m else n)"
  by simp

lemma only_errors_approved [errors]: "only_errors (approved env c)"
  unfolding only_errors_def
proof (intro allI impI)
  fix s x s'
  assume c: "calm s" and run: "approved env c s = (x, s')"
  show "calm s' \<and> (\<forall>r. x = Inl (Returned r) \<longrightarrow> \<not> reply_ok r)"
  proof (cases "ck_memo (s_check s)")
    case (Some m)
    with c run show ?thesis
      by (cases m) (auto simp: approved_def checker_check_def refuse_some_def give_def stop_def calm_def)
  next
    case None
    let ?call = "\<lparr>gc_caller = ev_caller env, gc_command = c, gc_action = [], gc_params = ck_params (s_check s)\<rparr>"
    obtain m p u where m: "consume_approval_marker (ev_sha256 env) (ev_now env) ?call (ck_used (s_check s)) = ((m, p), u)"
      by (metis surj_pair)
    then have "\<And>r. m = Some r \<Longrightarrow> \<not> reply_ok r"
      using consume_refusal_code [of "ev_sha256 env" "ev_now env" ?call "ck_used (s_check s)"] by simp
    then show ?thesis using None run m
      by (cases m) (auto simp: approved_def checker_check_def refuse_some_def give_def stop_def calm_def)
  qed
qed

lemma only_errors_resolve [errors]: "only_errors (resolve_write_target env p)"
  unfolding resolve_write_target_def outside_refusal_def
  by (intro errors) (auto intro: errors split: resolved.split)

lemma only_errors_gate [errors]: "only_errors (write_gate env c p b)"
  unfolding write_gate_def by (intro errors) (simp add: storage_refusal_def)

lemma only_errors_write [errors]: "only_errors (write_file env p d w)"
  unfolding write_file_def outside_refusal_def
  by (intro errors) (auto intro: errors split: io.split)

lemma only_errors_capture [errors]: "only_errors (capture_bytes env p b i k a m)"
  unfolding only_errors_def capture_bytes_def
  by (auto simp: calm_def give_def stop_def throw_def split: prod.splits stored.splits)

text \<open>A handler whose reply says ok went through to its end.\<close>

lemma run_handler_ok:
  assumes "run_handler params body w = (Returned r, w')" "reply_ok r" "only_errors body"
  obtains s' where "body \<lparr>s_tree = w_tree w, s_store = w_store w,
      s_check = approval_checker params (w_used w)\<rparr> = (Inr r, s')"
    "w_tree w' = s_tree s'" "w_store w' = s_store s'" "w_used w' = ck_used (s_check s')"
proof -
  let ?s = "\<lparr>s_tree = w_tree w, s_store = w_store w, s_check = approval_checker params (w_used w)\<rparr>"
  have c: "calm ?s" by (simp add: calm_def approval_checker_def)
  obtain x s' where run: "body ?s = (x, s')" by (cases "body ?s")
  have "x = Inr r"
  proof (cases x)
    case (Inl out)
    then have "out = Returned r" using assms(1) run by (simp add: run_handler_def)
    with Inl run c assms(2,3) show ?thesis unfolding only_errors_def by blast
  next
    case (Inr v)
    then show ?thesis using assms(1) run by (simp add: run_handler_def)
  qed
  with run assms(1) show ?thesis by (intro that [of s']) (auto simp: run_handler_def)
qed

subsection \<open>What the gate lets through\<close>

text \<open>The approval check during a handler: not asked yet, or asked with this result.\<close>

definition asked :: "fs_env \<Rightarrow> string \<Rightarrow> dict \<Rightarrow> used_ids \<Rightarrow> (jval option \<times> dict) \<times> used_ids" where
  "asked env command params used =
     consume_approval_marker (ev_sha256 env) (ev_now env)
       \<lparr>gc_caller = ev_caller env, gc_command = command, gc_action = [], gc_params = params\<rparr> used"

definition check_state :: "fs_env \<Rightarrow> string \<Rightarrow> dict \<Rightarrow> used_ids \<Rightarrow> checker \<Rightarrow> bool" where
  "check_state env command params used ck \<longleftrightarrow>
     ck = approval_checker params used \<or>
     (let a = asked env command params used
      in ck = \<lparr>ck_memo = Some (fst (fst a)), ck_params = snd (fst a), ck_used = snd a\<rparr>)"

lemma approved_state:
  assumes "check_state env command params used (s_check s)" "approved env command s = (r, s')"
  shows "check_state env command params used (s_check s')" "s_store s' = s_store s"
    and "r = Inr () \<Longrightarrow> authorised (asked env command params used)"
  using assms
  by (auto simp: check_state_def approved_def checker_check_def approval_checker_def asked_def
      authorised_def refuse_some_def give_def stop_def Let_def
      split: prod.splits option.splits)

lemma resolve_write_target_ok:
  assumes "resolve_write_target env path s = (Inr p, s')"
  shows "s' = s" "resolve_safe (s_tree s) path (roots_now env (s_tree s)) = Place p"
  using assms
  by (auto simp: resolve_write_target_def seq_def the_tree_def give_def stop_def throw_def
      split: resolved.splits)

lemma resolve_write_target_state: "snd (resolve_write_target env path s) = s"
  by (auto simp: resolve_write_target_def seq_def the_tree_def give_def stop_def throw_def
      split: resolved.splits)

lemma gate_step:
  assumes "(if b then approved env command else give ()) s = (Inr (), s1)"
    and "check_state env command params used (s_check s)"
  shows "check_state env command params used (s_check s1)" "s_store s1 = s_store s"
    "s_tree s1 = s_tree s" "b \<Longrightarrow> authorised (asked env command params used)"
proof -
  have t: "s_tree s1 = s_tree s" if "approved env command s = (Inr (), s1)"
    using that keeps_tree_approved [of env command] unfolding keeps_tree_def by (metis snd_conv)
  have all: "check_state env command params used (s_check s1) \<and> s_store s1 = s_store s \<and>
      s_tree s1 = s_tree s \<and> (b \<longrightarrow> authorised (asked env command params used))"
  proof (cases b)
    case True
    then have r: "approved env command s = (Inr (), s1)" using assms(1) by simp
    from approved_state [OF assms(2) r] t [OF r] show ?thesis by simp
  next
    case False
    then show ?thesis using assms by (simp add: give_def)
  qed
  then show "check_state env command params used (s_check s1)" "s_store s1 = s_store s"
    "s_tree s1 = s_tree s" "b \<Longrightarrow> authorised (asked env command params used)" by simp_all
qed

lemma write_gate_ok:
  assumes "check_state env command params used (s_check s)"
    and "write_gate env command path bridge s = (Inr p, s')"
  shows "resolve_safe (s_tree s) path (roots_now env (s_tree s)) = Place p"
    and "\<not> is_storage path"
    and "is_protected path \<or> bridge \<or> is_protected (path_str p) \<Longrightarrow>
           authorised (asked env command params used)"
    and "s_store s' = s_store s" "s_tree s' = s_tree s"
    and "check_state env command params used (s_check s')"
proof -
  have st: "\<not> is_storage path"
    using assms(2) by (auto simp: write_gate_def refuse_if_def stop_def)
  have g: "seq (if is_protected path \<or> bridge then approved env command else give ()) (\<lambda>_.
      seq (resolve_write_target env path) (\<lambda>p.
      seq (if is_protected (path_str p) then approved env command else give ()) (\<lambda>_. give p))) s = (Inr p, s')"
    using assms(2) st by (simp add: write_gate_def refuse_if_def)
  obtain u s1 where "(if is_protected path \<or> bridge then approved env command else give ()) s = (Inr u, s1)"
    and rest: "seq (resolve_write_target env path) (\<lambda>p.
      seq (if is_protected (path_str p) then approved env command else give ()) (\<lambda>_. give p)) s1 = (Inr p, s')"
    by (rule seq_ok [OF g])
  then have 1: "(if is_protected path \<or> bridge then approved env command else give ()) s = (Inr (), s1)"
    by simp
  obtain q s1' where q': "resolve_write_target env path s1 = (Inr q, s1')"
    and rest1: "seq (if is_protected (path_str q) then approved env command else give ()) (\<lambda>_. give q) s1' = (Inr p, s')"
    by (rule seq_ok [OF rest])
  note q = q' [unfolded resolve_write_target_ok(1) [OF q']]
    and rest2 = rest1 [unfolded resolve_write_target_ok(1) [OF q']]
  obtain v s2 where "(if is_protected (path_str q) then approved env command else give ()) s1 = (Inr v, s2)"
    and "give q s2 = (Inr p, s')"
    by (rule seq_ok [OF rest2])
  then have 2: "(if is_protected (path_str q) then approved env command else give ()) s1 = (Inr (), s2)"
    and p: "p = q" "s' = s2"
    by (simp_all add: give_def)
  note c1 = gate_step [OF 1 assms(1)]
  note c2 = gate_step [OF 2 c1(1)]
  show "resolve_safe (s_tree s) path (roots_now env (s_tree s)) = Place p"
    using resolve_write_target_ok(2) [OF q] c1(3) p by simp
  show "\<not> is_storage path" by (rule st)
  show "authorised (asked env command params used)"
    if "is_protected path \<or> bridge \<or> is_protected (path_str p)"
    using that p c1(4) c2(4) by blast
  show "s_store s' = s_store s" "s_tree s' = s_tree s" "check_state env command params used (s_check s')"
    using c1 c2 p by simp_all
qed

lemma split_on_no_sep: "w \<in> set (split_on c s) \<Longrightarrow> c \<notin> set w"
proof (induction s arbitrary: w)
  case (Cons x xs)
  then show ?case by (cases "split_on c xs") (auto split: if_splits)
qed simp

definition protected_names :: "string list" where
  "protected_names = [''config'', ''addons'', ''ssl'']"

lemma protected_place:
  assumes "p \<noteq> []" "hd p \<in> set protected_names"
  shows "is_protected (path_str p)"
proof -
  let ?root = "CHR ''/'' # hd p"
  have r: "?root \<in> set protected_roots"
    using assms(2) by (auto simp: protected_names_def protected_roots_def)
  obtain h t where p: "p = h # t" using assms(1) by (cases p) auto
  show ?thesis
  proof (cases t)
    case Nil
    then have "path_str p = ?root" using p by (simp add: path_str_def)
    with r show ?thesis by (auto simp: is_protected_def Let_def list_ex_iff)
  next
    case (Cons n ns)
    then have "prefix (?root @ ''/'') (path_str p)" using p by (simp add: path_str_def)
    then have "prefix (?root @ ''/'') (if suffix ''/'' (path_str p) then path_str p else path_str p @ ''/'')"
      by (simp add: prefix_prefix)
    with r show ?thesis unfolding is_protected_def Let_def list_ex_iff by blast
  qed
qed

end
