(* ===== verification/Fs_Write.thy ===== *)
theory Fs_Write
  imports Fs_Base
begin

text \<open>
  The handlers of \<open>commands/fs_write.py\<close>: \<open>fs.write\<close>, \<open>fs.restore\<close>, \<open>fs.history\<close> and
  \<open>fs.diff\<close>, with the purge of trash entries a restore ends with.
\<close>

definition write_keys :: "string list" where
  "write_keys = [''path'', ''content'', ''encoding'', ''actor'', ''agent_bridge'', ''proposal_id'',
     ''_openclaw_approval'']"

definition missing_param :: "string \<Rightarrow> jval" where
  "missing_param name = err_reply ''MISSING_PARAM'' (name @ '' is required'')"

definition too_large :: "string \<Rightarrow> string \<Rightarrow> nat \<Rightarrow> nat \<Rightarrow> jval" where
  "too_large code what n limit =
     JObj [(''ok'', JBool False), (''error'', JStr code),
           (''message'', JStr (what @ '' '' @ nat_str n @ '' bytes; limit is '' @ nat_str limit)),
           (''limit'', JInt (int limit))]"

text \<open>The bytes there are now, and whether the file exists.\<close>

definition read_prior :: "fs_env \<Rightarrow> string \<Rightarrow> (nat list \<times> bool) act" where
  "read_prior env path =
     seq the_tree (\<lambda>t.
       case read_bytes_safe t path (roots_now env t) False of
         Done b \<Rightarrow> give (b, True)
       | Out_of_bounds \<Rightarrow> stop (outside_refusal path)
       | Os_error e \<Rightarrow>
           if e = ENOENT then give ([], False)
           else stop (err_reply ''READ_ERROR'' (''Cannot read prior bytes: '' @ ev_errno_text env e))
       | No_allowed_roots \<Rightarrow> throw No_roots_exn)"

definition fs_write_body :: "fs_env \<Rightarrow> dict \<Rightarrow> jval act" where
  "fs_write_body env params =
     (let path = str_param params ''path'' [];
          encoding = str_param params ''encoding'' ''utf-8'';
          proposal_id = str_param params ''proposal_id'' ''direct'';
          actor = str_param params ''actor'' ''agent'';
          agent_bridge = bool_param params ''agent_bridge'' False
      in
      seq (refuse_some (strict_keys_error params write_keys [])) (\<lambda>_.
      seq (refuse_if (path = []) (missing_param ''path'')) (\<lambda>_.
      seq (refuse_if (dget params ''content'' = JNull) (missing_param ''content'')) (\<lambda>_.
      seq (write_gate env ''fs.write'' path agent_bridge) (\<lambda>_.
      seq (case decode_content (py_str (dget params ''content'')) encoding of
             Inl r \<Rightarrow> stop r | Inr b \<Rightarrow> give b) (\<lambda>data.
      seq (refuse_if (max_write_bytes < length data)
             (too_large ''REQUEST_TOO_LARGE'' ''content is'' (length data) max_write_bytes)) (\<lambda>_.
      seq (read_prior env path) (\<lambda>(prior, existed).
      seq (if existed then
             seq (capture_bytes env path prior proposal_id Write_op actor
                    ''Backup capture failed; write aborted'') (\<lambda>_. give ())
           else give ()) (\<lambda>_.
      seq (write_file env path data ''Write failed'') (\<lambda>_.
      give (JObj [(''ok'', JBool True), (''path'', JStr path), (''size'', JInt (int (length data))),
                  (''sha256'', JStr (ev_sha256 env data)), (''proposal_id'', JStr proposal_id)])))))))))))"

definition handle_fs_write :: "fs_env \<Rightarrow> dict \<Rightarrow> fs_world \<Rightarrow> outcome \<times> fs_world" where
  "handle_fs_write env params = run_handler params (fs_write_body env params)"

subsection \<open>fs.restore\<close>

definition restore_keys :: "string list" where
  "restore_keys = [''path'', ''version_id'', ''version'', ''at'', ''actor'', ''agent_bridge'',
     ''proposal_id'', ''_openclaw_approval'']"

text \<open>\<open>int(value)\<close>: of text, with blanks around, a sign and single underscores between digits.\<close>

datatype int_result = Int_value int | Int_value_error | Int_type_error | Int_overflow

fun int_digits :: "string \<Rightarrow> nat \<Rightarrow> nat option" where
  "int_digits [] acc = Some acc"
| "int_digits (c # cs) acc =
     (let n = of_char c :: nat in
      if 48 \<le> n \<and> n \<le> 57 then int_digits cs (10 * acc + (n - 48))
      else if c = CHR ''_'' \<and> cs \<noteq> [] \<and> hd cs \<noteq> CHR ''_'' then int_digits cs acc
      else None)"

definition int_of_text :: "string \<Rightarrow> int_result" where
  "int_of_text s =
     (let t = strip s;
          neg = (take 1 t = ''-'');
          body = (if take 1 t \<in> {''-'', ''+''} then drop 1 t else t)
      in if body = [] \<or> hd body = CHR ''_'' \<or> 4300 < length (filter (\<lambda>c. c \<noteq> CHR ''_'') body)
         then Int_value_error
         else case int_digits body 0 of
           None \<Rightarrow> Int_value_error
         | Some n \<Rightarrow> Int_value (if neg then - int n else int n))"

definition truncate_ratio :: "int \<times> int \<Rightarrow> int" where
  "truncate_ratio q = (if 0 \<le> fst q then fst q div snd q else - ((- fst q) div snd q))"

fun py_int :: "jval \<Rightarrow> int_result" where
  "py_int (JInt i) = Int_value i"
| "py_int (JBool b) = Int_value (if b then 1 else 0)"
| "py_int (JFloat (FFin _ q)) = Int_value (truncate_ratio q)"
| "py_int (JFloat (FInf _)) = Int_overflow"
| "py_int (JFloat FNaN) = Int_value_error"
| "py_int (JStr s) = int_of_text s"
| "py_int _ = Int_type_error"

definition optional_text :: "jval \<Rightarrow> string option" where
  "optional_text v = (if v = JNull then None else Some (py_str v))"

text \<open>The selector, after the version number is converted.\<close>

definition restore_selector :: "dict \<Rightarrow> selector act" where
  "restore_selector params =
     (let with = (\<lambda>n. \<lparr>sel_version = n, sel_proposal_id = optional_text (dget params ''proposal_id''),
                       sel_at = optional_text (dget params ''at''),
                       sel_sha256 = optional_text (dget params ''version_id'')\<rparr>)
      in seq (if dget params ''version'' = JNull then give (with None)
              else case py_int (dget params ''version'') of
                Int_value i \<Rightarrow> give (with (Some i))
              | Int_overflow \<Rightarrow> throw Overflow_exn
              | _ \<Rightarrow> stop (err_reply ''INVALID_PARAM'' ''version must be an integer'')) (\<lambda>sel.
         seq (refuse_if (chosen sel \<noteq> 1) (err_reply ''INVALID_PARAM''
                ''Exactly one of version_id, version, proposal_id, or at is required'')) (\<lambda>_.
         give sel)))"

definition stored_version :: "fs_env \<Rightarrow> string \<Rightarrow> selector \<Rightarrow> version act" where
  "stored_version env path sel =
     seq the_store (\<lambda>st.
       case resolve_version (ev_iso_time env) st path sel of
         Value v \<Rightarrow> give v
       | Store_error e \<Rightarrow> stop (err_reply ''VERSION_NOT_FOUND'' (store_error_text e))
       | Store_value_error t \<Rightarrow> stop (err_reply ''VERSION_NOT_FOUND'' t)
       | Store_os_error e \<Rightarrow> throw (Os_error_exn e)
       | Store_type_error \<Rightarrow> throw Type_error_exn)"

definition stored_bytes :: "string \<Rightarrow> nat list act" where
  "stored_bytes h =
     seq the_store (\<lambda>st.
       case fetch_object st h of
         Value b \<Rightarrow> give b
       | Store_error e \<Rightarrow> stop (err_reply ''OBJECT_MISSING'' (store_error_text e))
       | Store_os_error e \<Rightarrow> throw (Os_error_exn e)
       | Store_value_error t \<Rightarrow> throw Value_error_exn
       | Store_type_error \<Rightarrow> throw Type_error_exn)"

text \<open>
  The trash (\<open>fs_move_delete.py\<close>): the name of an entry is the base name, a slug of the absolute
  path, and a time stamp. \<open>os.path.abspath\<close> is lexical.
\<close>

fun normal_parts :: "string list \<Rightarrow> string list \<Rightarrow> string list" where
  "normal_parts here [] = here"
| "normal_parts here (n # ns) =
     (if n = [] \<or> n = ''.'' then normal_parts here ns
      else if n = ''..'' then normal_parts (butlast here) ns
      else normal_parts (here @ [n]) ns)"

definition abspath :: "place \<Rightarrow> string \<Rightarrow> string" where
  "abspath cwd s =
     (case path_anchor s of
        Relative \<Rightarrow> path_str (normal_parts cwd (split_on (CHR ''/'') s))
      | Slash \<Rightarrow> path_str (normal_parts [] (split_on (CHR ''/'') s))
      | Slash_slash \<Rightarrow> CHR ''/'' # path_str (normal_parts [] (split_on (CHR ''/'') s)))"

definition path_slug :: "fs_env \<Rightarrow> string \<Rightarrow> string" where
  "path_slug env path = take 12 (ev_sha1 env (utf8_text (abspath (ev_cwd env) path)))"

definition basename :: "string \<Rightarrow> string" where
  "basename s = last (split_on (CHR ''/'') s)"

definition trash_place :: "fs_env \<Rightarrow> tree \<Rightarrow> place" where
  "trash_place env t =
     (if path_anchor (ev_trash_dir env) = Relative
      then real_walk t [] (ev_cwd env) (map Name (path_parts (ev_trash_dir env)))
      else realpath t (path_parts (ev_trash_dir env)))"

text \<open>
  Removing an entry removes what is below it. The entries of a directory, each once, in the order
  of the tree.
\<close>

definition entries_of :: "tree \<Rightarrow> place \<Rightarrow> string list" where
  "entries_of t d =
     remdups (map last (filter (\<lambda>p. p \<noteq> [] \<and> butlast p = d \<and> map_of t p \<noteq> None) (map fst t)))"

definition remove_below :: "place \<Rightarrow> tree \<Rightarrow> tree" where
  "remove_below p t = filter (\<lambda>(q, n). \<not> prefix p q) t"

definition purge_trash_entries_for :: "fs_env \<Rightarrow> string \<Rightarrow> nat act" where
  "purge_trash_entries_for env path =
     (let base = basename path in
      if base = [] then give 0
      else seq the_tree (\<lambda>t.
        let d = trash_place env t;
            mark = base @ ''.'' @ path_slug env path @ ''.'';
            hits = filter (prefix mark) (entries_of t d)
        in if map_of t d = None then give 0
           else if map_of t d \<noteq> Some Dir then throw (Os_error_exn ENOTDIR)
           else seq (put_tree (fold (\<lambda>n. remove_below (d @ [n])) hits t)) (\<lambda>_. give (length hits))))"

definition read_prior_or_empty :: "fs_env \<Rightarrow> string \<Rightarrow> nat list act" where
  "read_prior_or_empty env path =
     seq the_tree (\<lambda>t.
       case read_bytes_safe t path (roots_now env t) True of
         Done b \<Rightarrow> give b
       | Out_of_bounds \<Rightarrow> stop (outside_refusal path)
       | Os_error e \<Rightarrow> stop (err_reply ''READ_ERROR'' (''Cannot read prior bytes: '' @ ev_errno_text env e))
       | No_allowed_roots \<Rightarrow> throw No_roots_exn)"

definition fs_restore_body :: "fs_env \<Rightarrow> dict \<Rightarrow> jval act" where
  "fs_restore_body env params =
     (let path = str_param params ''path'' [];
          actor = str_param params ''actor'' ''agent'';
          agent_bridge = bool_param params ''agent_bridge'' False
      in
      seq (refuse_some (strict_keys_error params restore_keys [])) (\<lambda>_.
      seq (refuse_if (path = []) (missing_param ''path'')) (\<lambda>_.
      seq (write_gate env ''fs.restore'' path agent_bridge) (\<lambda>_.
      seq (restore_selector params) (\<lambda>sel.
      seq (stored_version env path sel) (\<lambda>v.
      seq (stored_bytes (v_sha256 v)) (\<lambda>data.
      seq (read_prior_or_empty env path) (\<lambda>prior.
      seq (capture_bytes env path prior (''restore-from-'' @ v_proposal_id v) Restore_op actor
             ''Pre-restore capture failed; restore aborted'') (\<lambda>_.
      seq (write_file env path data ''Restore write failed'') (\<lambda>_.
      seq (purge_trash_entries_for env path) (\<lambda>purged.
      give (JObj [(''ok'', JBool True), (''path'', JStr path), (''size'', JInt (int (length data))),
                  (''sha256'', JStr (v_sha256 v)),
                  (''restored_from_proposal'', JStr (v_proposal_id v)),
                  (''trash_purged'', JInt (int purged))]))))))))))))"

definition handle_fs_restore :: "fs_env \<Rightarrow> dict \<Rightarrow> fs_world \<Rightarrow> outcome \<times> fs_world" where
  "handle_fs_restore env params = run_handler params (fs_restore_body env params)"

subsection \<open>fs.history and fs.diff\<close>

definition version_json :: "version \<Rightarrow> jval" where
  "version_json v =
     JObj [(''version_id'', JStr (v_sha256 v)), (''ts'', JStr (v_ts v)),
           (''proposal_id'', JStr (v_proposal_id v)), (''sha256'', JStr (v_sha256 v)),
           (''size'', JInt (int (v_size v))), (''op'', JStr (op_name (v_op v))),
           (''actor'', JStr (v_actor v)),
           (''prev_sha256'', case v_prev_sha256 v of None \<Rightarrow> JNull | Some h \<Rightarrow> JStr h),
           (''evicted'', JBool (v_evicted v))]"

definition fs_history_body :: "fs_env \<Rightarrow> dict \<Rightarrow> jval act" where
  "fs_history_body env params =
     (let path = str_param params ''path'' [] in
      seq (refuse_some (strict_keys_error params [''path''] [])) (\<lambda>_.
      seq (refuse_if (path = []) (missing_param ''path'')) (\<lambda>_.
      seq the_store (\<lambda>st.
        case history st path of
          Value vs \<Rightarrow> give (JObj [(''ok'', JBool True), (''path'', JStr path),
                                  (''versions'', JList (map version_json vs))])
        | Store_error e \<Rightarrow> stop (err_reply ''STORE_ERROR'' (store_error_text e))
        | Store_os_error e \<Rightarrow> throw (Os_error_exn e)
        | Store_value_error _ \<Rightarrow> throw Value_error_exn
        | Store_type_error \<Rightarrow> throw Type_error_exn))))"

definition handle_fs_history :: "fs_env \<Rightarrow> dict \<Rightarrow> fs_world \<Rightarrow> outcome \<times> fs_world" where
  "handle_fs_history env params = run_handler params (fs_history_body env params)"

datatype side = Position int | Digest string

definition is_digest :: "string \<Rightarrow> bool" where
  "is_digest s \<longleftrightarrow> length s = 64 \<and> list_all (\<lambda>c. c \<in> set ''0123456789abcdefABCDEF'') s"

definition coerce_side :: "jval \<Rightarrow> side" where
  "coerce_side v = (case v of
     JInt i \<Rightarrow> Position i
   | JBool b \<Rightarrow> Position (if b then 1 else 0)
   | _ \<Rightarrow>
       (let s = py_str v in
        if is_digest s then Digest s
        else case int_of_text s of Int_value i \<Rightarrow> Position i | _ \<Rightarrow> Digest s))"

definition resolve_side ::
  "(string \<Rightarrow> iso_time) \<Rightarrow> backup_store \<Rightarrow> string \<Rightarrow> side \<Rightarrow> (nat list \<times> string) stored" where
  "resolve_side iso_of st path sd =
     stored_bind
       (case sd of
          Position i \<Rightarrow>
            resolve_version iso_of st path
              \<lparr>sel_version = Some i, sel_proposal_id = None, sel_at = None, sel_sha256 = None\<rparr>
        | Digest h \<Rightarrow>
            stored_bind (history st path) (\<lambda>vs.
              last_or (No_version_with_sha h path) (filter (\<lambda>v. v_sha256 v = h) vs)))
       (\<lambda>v. if v_evicted v then Store_error (Object_evicted (v_sha256 v) path)
            else stored_bind (fetch_object st (v_sha256 v)) (\<lambda>b.
              Value (b, path @ ''@'' @ v_ts v)))"

text \<open>The live bytes are read through the path as it is, symlinks followed.\<close>

definition read_live :: "fs_env \<Rightarrow> tree \<Rightarrow> string \<Rightarrow> (nat list \<times> string) stored" where
  "read_live env t path =
     (let p = (if path_anchor path = Relative then real_walk t [] (ev_cwd env) (map Name (path_parts path))
               else realpath t (path_parts path));
          fail = (\<lambda>e. Store_error (Live_read_error path (ev_errno_text env e)))
      in if CHR 0x00 \<in> set path then Store_value_error ''embedded null byte''
         else case map_of t p of
           Some (File b) \<Rightarrow> Value (b, path @ '':current'')
         | Some Dir \<Rightarrow> fail EISDIR
         | Some (Link _) \<Rightarrow> fail ELOOP
         | None \<Rightarrow> fail ENOENT)"

definition store_diff ::
  "fs_env \<Rightarrow> tree \<Rightarrow> backup_store \<Rightarrow> string \<Rightarrow> side \<Rightarrow> side option \<Rightarrow> string stored" where
  "store_diff env t st path from_side to_side =
     stored_bind (resolve_side (ev_iso_time env) st path from_side) (\<lambda>(a, la).
     stored_bind (case to_side of
                    None \<Rightarrow> read_live env t path
                  | Some sd \<Rightarrow> resolve_side (ev_iso_time env) st path sd) (\<lambda>(b, lb).
     Value (ev_unified_diff env a b la lb)))"

definition fs_diff_body :: "fs_env \<Rightarrow> dict \<Rightarrow> jval act" where
  "fs_diff_body env params =
     (let path = str_param params ''path'' []; to_raw = dget params ''to_version'' in
      seq (refuse_some (strict_keys_error params [''path'', ''from_version'', ''to_version'']
             [''to_version''])) (\<lambda>_.
      seq (refuse_if (path = []) (missing_param ''path'')) (\<lambda>_.
      seq (refuse_if (dget params ''from_version'' = JNull) (missing_param ''from_version'')) (\<lambda>_.
      seq the_tree (\<lambda>t.
      seq the_store (\<lambda>st.
        case store_diff env t st path (coerce_side (dget params ''from_version''))
               (if to_raw = JNull then None else Some (coerce_side to_raw)) of
          Value d \<Rightarrow> give (JObj [(''ok'', JBool True), (''path'', JStr path), (''diff'', JStr d)])
        | Store_error e \<Rightarrow> stop (err_reply ''DIFF_ERROR'' (store_error_text e))
        | Store_os_error e \<Rightarrow> throw (Os_error_exn e)
        | Store_value_error _ \<Rightarrow> throw Value_error_exn
        | Store_type_error \<Rightarrow> throw Type_error_exn))))))"

definition handle_fs_diff :: "fs_env \<Rightarrow> dict \<Rightarrow> fs_world \<Rightarrow> outcome \<times> fs_world" where
  "handle_fs_diff env params = run_handler params (fs_diff_body env params)"

subsection \<open>What fs.write does to the tree\<close>

definition real_roots :: "fs_env \<Rightarrow> tree \<Rightarrow> bool" where
  "real_roots env t \<longleftrightarrow> list_all (real_place t) (roots_now env t)"

lemma real_rootsD: "real_roots env t \<Longrightarrow> r \<in> set (roots_now env t) \<Longrightarrow> real_place t r"
  by (simp add: real_roots_def list_all_iff)

lemma keeps_tree_read_prior [keeps]: "keeps_tree (read_prior env p)"
  unfolding read_prior_def
  by (intro keeps_tree_seq keeps) (auto intro: keeps split: io.split)

lemma keeps_tree_decode [keeps]:
  "keeps_tree (case d of Inl r \<Rightarrow> stop r | Inr b \<Rightarrow> give b)"
  by (auto intro: keeps split: sum.split)

lemma refuse_ok: "refuse_if c r s = (Inr u, s') \<Longrightarrow> s' = s \<and> \<not> c"
  by (auto simp: refuse_if_def stop_def give_def split: if_splits)

lemma refuse_some_ok: "refuse_some x s = (Inr u, s') \<Longrightarrow> s' = s \<and> x = None"
  by (auto simp: refuse_some_def stop_def give_def split: option.splits)

lemma capture_bytes_ok:
  assumes "capture_bytes env path prior pid k actor m s = (Inr v, s')"
  shows "\<exists>st. capture (ev_sha256 env) (ev_utc_now env) path prior pid k actor (s_store s) = (Value v, st) \<and>
    s' = s\<lparr>s_store := st\<rparr>"
  using assms
  by (auto simp: capture_bytes_def give_def stop_def throw_def split: prod.splits stored.splits)

lemma read_prior_ok:
  assumes "read_prior env path s = (Inr (b, e), s')"
  shows "s' = s \<and> (e \<and> read_bytes_safe (s_tree s) path (roots_now env (s_tree s)) False = Done b \<or>
    \<not> e \<and> b = [] \<and> read_bytes_safe (s_tree s) path (roots_now env (s_tree s)) False = Os_error ENOENT)"
  using assms
  by (auto simp: read_prior_def seq_def the_tree_def give_def stop_def throw_def
      split: io.splits if_splits)

lemma write_file_changed:
  assumes "write_file env path data what s = (r, s')" "s_tree s' \<noteq> s_tree s"
  shows "atomic_write_safe (s_tree s) path (roots_now env (s_tree s)) data = Done (s_tree s') \<and>
    s_store s' = s_store s \<and> s_check s' = s_check s \<and> r = Inr ()"
  using assms
  by (auto simp: write_file_def seq_def the_tree_def put_tree_def stop_def throw_def
      split: io.splits)

lemma changingD: "changing m s Q \<Longrightarrow> m s = (r, s') \<Longrightarrow> s_tree s' \<noteq> s_tree s \<Longrightarrow> Q r s'"
  by (simp add: changing_def)

lemma below_butlast: "p \<noteq> [] \<Longrightarrow> prefix r (butlast p) \<Longrightarrow> strict_prefix r p"
  by (cases p rule: rev_cases) (auto simp: strict_prefix_def prefix_def)

lemma decode_ok:
  "(case d of Inl r \<Rightarrow> stop r | Inr b \<Rightarrow> give b) s = (Inr x, s') \<Longrightarrow> d = Inr x \<and> s' = s"
  by (auto simp: stop_def give_def split: sum.splits)

lemma ignore_ok: "seq m (\<lambda>_. give ()) s = (Inr u, s') \<Longrightarrow> \<exists>v. m s = (Inr v, s')"
  by (auto simp: seq_def give_def split: prod.splits sum.splits)

text \<open>The steps of a write that changed the tree.\<close>

lemma fs_write_steps:
  defines "path params \<equiv> str_param params ''path'' []"
  shows "changing (fs_write_body env params) s (\<lambda>r s'.
    \<exists>data p b e s1 s2. path params \<noteq> [] \<and>
    decode_content (py_str (dget params ''content'')) (str_param params ''encoding'' ''utf-8'') = Inr data \<and>
    length data \<le> max_write_bytes \<and>
    write_gate env ''fs.write'' (path params) (bool_param params ''agent_bridge'' False) s = (Inr p, s1) \<and>
    read_prior env (path params) s1 = (Inr (b, e), s1) \<and>
    (if e then \<exists>v. capture_bytes env (path params) b (str_param params ''proposal_id'' ''direct'') Write_op
        (str_param params ''actor'' ''agent'') ''Backup capture failed; write aborted'' s1 = (Inr v, s2)
     else s2 = s1) \<and>
    atomic_write_safe (s_tree s) (path params) (roots_now env (s_tree s)) data = Done (s_tree s') \<and>
    s_store s' = s_store s2 \<and> s_check s' = s_check s2)"
  unfolding fs_write_body_def Let_def path_def [symmetric]
proof ((rule changing_write_give changing_split changing_seq keeps)+, goal_cases)
  case (1 a s1 aa s1a ab s1b ac s1c ad s1d ae s1e af s1f prior existed ag s1g t)
  have at: "s1b = s" "path params \<noteq> []"
    using refuse_some_ok [OF 1(1)] refuse_ok [OF 1(3)] refuse_ok [OF 1(5)] by simp_all
  have data: "decode_content (py_str (dget params ''content'')) (str_param params ''encoding'' ''utf-8'') = Inr ad"
    "length ad \<le> max_write_bytes" "s1e = s1c"
    using decode_ok [OF 1(9)] refuse_ok [OF 1(11)] by simp_all
  have f: "s1f = s1c" using read_prior_ok 1(13,15) data(3) by blast
  moreover have "if existed then \<exists>v. capture_bytes env (path params) prior
        (str_param params ''proposal_id'' ''direct'') Write_op (str_param params ''actor'' ''agent'')
        ''Backup capture failed; write aborted'' s1c = (Inr v, s1g) else s1g = s1c"
    using 1(16) ignore_ok f by (cases existed) (auto simp: give_def)
  moreover have "s_tree s1g = s_tree s" using 1 by simp
  ultimately show ?case
    using at data 1(7,13,15,18)
    by - (rule exI [of _ ad], rule exI [of _ ac], rule exI [of _ prior], rule exI [of _ existed],
      rule exI [of _ s1c], rule exI [of _ s1g], simp)
qed

text \<open>
  C21. \<open>fs.write\<close> can change one file, below an allowed root, and nothing else: whatever the
  parameters, when the tree changed, the file at the path's own place (no symlink led there) now
  holds the decoded content, no longer than the limit; and if that place is under a protected root,
  or the path as written is, the approval check authorised this call.
\<close>

lemma run_handler_tree:
  assumes "run_handler params body w = (out, w')"
  obtains r s' where "body \<lparr>s_tree = w_tree w, s_store = w_store w,
      s_check = approval_checker params (w_used w)\<rparr> = (r, s')"
    "w_tree w' = s_tree s'" "w_store w' = s_store s'" "w_used w' = ck_used (s_check s')"
    "out = (case r of Inl x \<Rightarrow> x | Inr v \<Rightarrow> Returned v)"
  using assms by (auto simp: run_handler_def split: prod.splits)

theorem fs_write_confined:
  assumes "handle_fs_write env params w = (out, w')" "w_tree w' \<noteq> w_tree w"
    and "real_roots env (w_tree w)"
  shows "let path = str_param params ''path'' []; p = path_parts path in
    (\<exists>data. decode_content (py_str (dget params ''content'')) (str_param params ''encoding'' ''utf-8'') =
         Inr data \<and> length data \<le> max_write_bytes \<and>
       w_tree w' = AList.update p (File data) (w_tree w)) \<and>
    (\<exists>r \<in> set (roots_now env (w_tree w)). strict_prefix r p) \<and>
    (is_protected path \<or> hd p \<in> set protected_names \<longrightarrow>
       authorised (asked env ''fs.write'' params (w_used w)))"
proof -
  let ?path = "str_param params ''path'' []"
  let ?p = "path_parts ?path"
  let ?s = "\<lparr>s_tree = w_tree w, s_store = w_store w, s_check = approval_checker params (w_used w)\<rparr>"
  obtain r s' where run: "fs_write_body env params ?s = (r, s')" and w': "w_tree w' = s_tree s'"
    by (rule run_handler_tree [OF assms(1) [unfolded handle_fs_write_def]])
  then have ch: "s_tree s' \<noteq> s_tree ?s" using assms(2) by simp
  from changingD [OF fs_write_steps run ch] obtain data q b e s1 where
    d: "decode_content (py_str (dget params ''content'')) (str_param params ''encoding'' ''utf-8'') = Inr data"
      "length data \<le> max_write_bytes"
    and gate: "write_gate env ''fs.write'' ?path (bool_param params ''agent_bridge'' False) ?s = (Inr q, s1)"
    and prior: "read_prior env ?path s1 = (Inr (b, e), s1)"
    and wr': "atomic_write_safe (s_tree ?s) ?path (roots_now env (s_tree ?s)) data = Done (s_tree s')"
    by (elim exE conjE) rule
  have wr: "atomic_write_safe (w_tree w) ?path (roots_now env (w_tree w)) data = Done (s_tree s')"
    using wr' by simp
  note roots = real_rootsD [OF assms(3)]
  note o = atomic_write_ok [OF wr roots]
  have "check_state env ''fs.write'' params (w_used w) (s_check ?s)" by (simp add: check_state_def)
  note g = write_gate_ok [OF this gate]
  have t: "s_tree s1 = w_tree w" using g(5) by simp
  have "map_of (w_tree w) ?p \<noteq> Some (Link l)" for l
    using read_not_link [of "w_tree w" ?path "roots_now env (w_tree w)" b l] read_prior_ok [OF prior] t roots o
    by auto
  then have "q = ?p"
    using resolve_is_target [of "w_tree w" ?path "roots_now env (w_tree w)" q] g(1) o by simp
  then have appr: "is_protected ?path \<or> hd ?p \<in> set protected_names \<longrightarrow>
      authorised (asked env ''fs.write'' params (w_used w))"
    using g(3) protected_place [of ?p] o by blast
  have inside: "\<exists>r \<in> set (roots_now env (w_tree w)). strict_prefix r ?p"
    using o below_butlast by blast
  have content: "\<exists>data. decode_content (py_str (dget params ''content''))
      (str_param params ''encoding'' ''utf-8'') = Inr data \<and> length data \<le> max_write_bytes \<and>
      w_tree w' = AList.update ?p (File data) (w_tree w)"
    using d o w' by (intro exI [of _ data]) simp
  show ?thesis
    unfolding Let_def by (intro conjI content inside appr)
qed

subsection \<open>The .storage guard\<close>

lemma storage_gate: "is_storage path \<Longrightarrow> write_gate env c path b = stop storage_refusal"
  by (simp add: write_gate_def refuse_if_def)

named_theorems still \<open>actions that leave the state as it was\<close>

lemma still_refuse_some [still]:
  "(\<And>u. snd (f u s) = s) \<Longrightarrow> snd (seq (refuse_some x) f s) = s"
  by (simp add: refuse_some_def seq_def give_def stop_def split: option.split)

lemma still_refuse_if [still]:
  "(\<And>u. snd (f u s) = s) \<Longrightarrow> snd (seq (refuse_if c x) f s) = s"
  by (simp add: refuse_if_def seq_def give_def stop_def)

lemma still_stop: "snd (seq (stop x) f s) = s"
  by (simp add: seq_def stop_def)

lemma still_run:
  assumes "\<And>s. snd (body s) = s"
  shows "snd (run_handler params body w) = w"
proof -
  let ?s = "\<lparr>s_tree = w_tree w, s_store = w_store w, s_check = approval_checker params (w_used w)\<rparr>"
  obtain r where "body ?s = (r, ?s)" using assms [of ?s] by (cases "body ?s") simp
  then show ?thesis by (simp add: run_handler_def) (simp add: approval_checker_def)
qed

lemma still_write:
  "is_storage (str_param params ''path'' []) \<Longrightarrow> snd (handle_fs_write env params w) = w"
  unfolding handle_fs_write_def fs_write_body_def Let_def
  by (intro still_run still) (simp only: storage_gate still_stop)

lemma still_restore:
  "is_storage (str_param params ''path'' []) \<Longrightarrow> snd (handle_fs_restore env params w) = w"
  unfolding handle_fs_restore_def fs_restore_body_def Let_def
  by (intro still_run still) (simp only: storage_gate still_stop)

text \<open>
  What the \<open>.storage\<close> guard does and does not stop. A path that contains
  \<open>/config/.storage/\<close> as text changes nothing and is refused, approval or not; but the guard reads
  the text of the path only: with a doubled slash the same file is not a storage path, it is just
  a protected one.
\<close>

theorem storage_guard_is_textual:
  "(is_storage (str_param params ''path'' []) \<longrightarrow>
     snd (handle_fs_write env params w) = w \<and> snd (handle_fs_restore env params w) = w) \<and>
   is_storage ''/config/.storage/auth'' \<and>
   path_parts ''/config//.storage/auth'' = path_parts ''/config/.storage/auth'' \<and>
   \<not> is_storage ''/config//.storage/auth'' \<and> is_protected ''/config//.storage/auth''"
proof -
  have "is_storage ''/config/.storage/auth''" "\<not> is_storage ''/config//.storage/auth''"
    "is_protected ''/config//.storage/auth''"
    "path_parts ''/config//.storage/auth'' = path_parts ''/config/.storage/auth''"
    by code_simp+
  then show ?thesis using still_write still_restore by blast
qed

subsection \<open>A restore undoes a write\<close>

lemma only_errors_read_prior [errors]: "only_errors (read_prior env p)"
  unfolding read_prior_def outside_refusal_def
  by (intro errors) (auto intro: errors split: io.split)

lemma only_errors_read_prior_or_empty [errors]: "only_errors (read_prior_or_empty env p)"
  unfolding read_prior_or_empty_def outside_refusal_def
  by (intro errors) (auto intro: errors split: io.split)

lemma only_errors_decode [errors]:
  "only_errors (case decode_content c e of Inl r \<Rightarrow> stop r | Inr b \<Rightarrow> give b)"
  by (auto simp: decode_content_def intro: errors split: sum.split)

lemma too_large_not_ok [simp]: "\<not> reply_ok (too_large c w n l)"
  by (simp add: too_large_def reply_ok_def)

lemma missing_param_not_ok [simp]: "\<not> reply_ok (missing_param n)"
  by (simp add: missing_param_def)

lemma only_errors_fs_write: "only_errors (fs_write_body env params)"
  unfolding fs_write_body_def Let_def
  by (intro errors) (auto intro: errors)

lemma only_errors_selector [errors]: "only_errors (restore_selector params)"
  unfolding restore_selector_def Let_def
  by (intro errors) (auto intro: errors split: int_result.split)

lemma only_errors_stored [errors]:
  "only_errors (stored_version env path sel)" "only_errors (stored_bytes h)"
  unfolding stored_version_def stored_bytes_def
  by (intro errors; auto intro: errors split: stored.split)+

lemma only_errors_purge [errors]: "only_errors (purge_trash_entries_for env path)"
  unfolding purge_trash_entries_for_def Let_def
  by (intro errors)

lemma only_errors_fs_restore: "only_errors (fs_restore_body env params)"
  unfolding fs_restore_body_def Let_def
  by (intro errors) simp_all

lemma fs_write_ok:
  defines "path params \<equiv> str_param params ''path'' []"
  shows "ends_ok (fs_write_body env params) s (\<lambda>r s'.
    \<exists>p s1 s2 b e data. write_gate env ''fs.write'' (path params) (bool_param params ''agent_bridge'' False) s = (Inr p, s1) \<and>
      read_prior env (path params) s1 = (Inr (b, e), s1) \<and>
      (if e then \<exists>v. capture_bytes env (path params) b (str_param params ''proposal_id'' ''direct'') Write_op
          (str_param params ''actor'' ''agent'') ''Backup capture failed; write aborted'' s1 = (Inr v, s2)
       else s2 = s1) \<and>
      write_file env (path params) data ''Write failed'' s2 = (Inr (), s'))"
  unfolding fs_write_body_def Let_def path_def [symmetric]
proof ((rule ends_ok_give ends_ok_split ends_ok_seq)+, goal_cases)
  case (1 a s1 aa s1a ab s1b ac s1c ad s1d ae s1e af s1f prior existed ag s1g ah s1h)
  have at: "s1b = s" "s1e = s1c"
    using refuse_some_ok [OF 1(1)] refuse_ok [OF 1(2)] refuse_ok [OF 1(3)] decode_ok [OF 1(5)]
      refuse_ok [OF 1(6)] by simp_all
  have f: "s1f = s1c" using read_prior_ok 1(7,8) at(2) by blast
  have "if existed then \<exists>v. capture_bytes env (path params) prior
        (str_param params ''proposal_id'' ''direct'') Write_op (str_param params ''actor'' ''agent'')
        ''Backup capture failed; write aborted'' s1c = (Inr v, s1g) else s1g = s1c"
    using 1(9) ignore_ok f by (cases existed) (auto simp: give_def)
  then show ?case
    using at f 1(4,7,8,10)
    by - (rule exI [of _ ac], rule exI [of _ s1c], rule exI [of _ s1g], rule exI [of _ prior],
      rule exI [of _ existed], rule exI [of _ ad], simp)
qed

lemma restore_selector_state: "restore_selector params s = (Inr sel, s') \<Longrightarrow> s' = s"
  by (auto simp: restore_selector_def Let_def seq_def give_def stop_def throw_def refuse_if_def
      split: if_splits int_result.splits prod.splits sum.splits)

lemma restore_selector_version:
  assumes "restore_selector params s = (Inr sel, s')" "dget params ''version'' = JInt i"
  shows "sel_version sel = Some i" "chosen sel = 1"
  using assms
  by (auto simp: restore_selector_def Let_def seq_def give_def stop_def refuse_if_def split: if_splits)

lemma stored_version_ok:
  "stored_version env path sel s = (Inr v, s') \<Longrightarrow>
     s' = s \<and> resolve_version (ev_iso_time env) (s_store s) path sel = Value v"
  by (auto simp: stored_version_def seq_def the_store_def give_def stop_def throw_def
      split: stored.splits)

lemma stored_bytes_ok:
  "stored_bytes h s = (Inr b, s') \<Longrightarrow> s' = s \<and> fetch_object (s_store s) h = Value b"
  by (auto simp: stored_bytes_def seq_def the_store_def give_def stop_def throw_def
      split: stored.splits)

lemma read_prior_or_empty_state: "read_prior_or_empty env path s = (Inr b, s') \<Longrightarrow> s' = s"
  by (auto simp: read_prior_or_empty_def seq_def the_tree_def give_def stop_def throw_def
      split: io.splits)

lemma fs_restore_ok:
  defines "path params \<equiv> str_param params ''path'' []"
  shows "ends_ok (fs_restore_body env params) s (\<lambda>r s'.
    \<exists>p s1 sel v data prior s2 s3 n. write_gate env ''fs.restore'' (path params) (bool_param params ''agent_bridge'' False) s = (Inr p, s1) \<and>
      restore_selector params s1 = (Inr sel, s1) \<and>
      stored_version env (path params) sel s1 = (Inr v, s1) \<and>
      stored_bytes (v_sha256 v) s1 = (Inr data, s1) \<and>
      capture_bytes env (path params) prior (''restore-from-'' @ v_proposal_id v) Restore_op
        (str_param params ''actor'' ''agent'') ''Pre-restore capture failed; restore aborted'' s1 = (Inr n, s2) \<and>
      write_file env (path params) data ''Restore write failed'' s2 = (Inr (), s3) \<and>
      (\<exists>k. purge_trash_entries_for env (path params) s3 = (Inr k, s')))"
  unfolding fs_restore_body_def Let_def path_def [symmetric]
proof ((rule ends_ok_give ends_ok_split ends_ok_seq)+, goal_cases)
  case (1 a s1 aa s1a ab s1b ac s1c ad s1d ae s1e af s1f ag s1g ah s1h ai s1i)
  have at: "s1a = s"
    using refuse_some_ok [OF 1(1)] refuse_ok [OF 1(2)] by simp
  have s: "s1c = s1b" "s1d = s1b" "s1e = s1b" "s1f = s1b"
    using restore_selector_state [OF 1(4)] stored_version_ok [OF 1(5)] stored_bytes_ok [OF 1(6)]
      read_prior_or_empty_state [OF 1(7)] by simp_all
  show ?case
    using 1(3-10) at s
    by - (rule exI [of _ ab], rule exI [of _ s1b], rule exI [of _ ac], rule exI [of _ ad],
      rule exI [of _ ae], rule exI [of _ af], rule exI [of _ s1g], rule exI [of _ s1h],
      rule exI [of _ ag], auto)
qed


lemma at_position_last: "at_position (vs @ [v]) (-1) = Some v"
  by (simp add: at_position_def Let_def nth_append nat_diff_distrib)

lemma resolve_latest:
  assumes "history st path = Value (vs @ [v])" "sel_version sel = Some (-1)" "chosen sel = 1"
  shows "resolve_version iso_of st path sel = Value v"
  using assms by (simp add: resolve_version_def select_version_def at_position_last)

lemma write_file_ok:
  assumes "write_file env path data m s = (Inr u, s')" "real_roots env (s_tree s)"
  shows "s' = s\<lparr>s_tree := AList.update (path_parts path) (File data) (s_tree s)\<rparr>"
    and "path_parts path \<noteq> []" "real_place (s_tree s) (butlast (path_parts path))"
    and "map_of (s_tree s) (butlast (path_parts path)) = Some Dir"
proof -
  obtain t where t: "atomic_write_safe (s_tree s) path (roots_now env (s_tree s)) data = Done t"
    and s': "s' = s\<lparr>s_tree := t\<rparr>"
    using assms(1)
    by (cases "atomic_write_safe (s_tree s) path (roots_now env (s_tree s)) data")
       (auto simp: write_file_def seq_def the_tree_def put_tree_def stop_def throw_def)
  from atomic_write_ok [OF t real_rootsD [OF assms(2)]] s'
  show "s' = s\<lparr>s_tree := AList.update (path_parts path) (File data) (s_tree s)\<rparr>"
    "path_parts path \<noteq> []" "real_place (s_tree s) (butlast (path_parts path))"
    "map_of (s_tree s) (butlast (path_parts path)) = Some Dir" by auto
qed

lemma remove_below_other: "\<not> prefix d q \<Longrightarrow> map_of (remove_below d t) q = map_of t q"
  by (induction t) (auto simp: remove_below_def)

lemma purge_other:
  assumes "purge_trash_entries_for env path s = (Inr k, s')"
    and "\<not> prefix (trash_place env (s_tree s)) q"
  shows "map_of (s_tree s') q = map_of (s_tree s) q" "s_store s' = s_store s"
proof -
  have f: "map_of (fold (\<lambda>n. remove_below (d @ [n])) ns t) q = map_of t q" if "\<not> prefix d q" for d ns t
  proof (induction ns arbitrary: t)
    case (Cons n ns)
    have "\<not> prefix (d @ [n]) q" using that append_prefixD by blast
    with Cons show ?case by (simp add: remove_below_other)
  qed simp
  show "map_of (s_tree s') q = map_of (s_tree s) q" "s_store s' = s_store s"
    using assms f
    by (auto simp: purge_trash_entries_for_def Let_def seq_def give_def the_tree_def put_tree_def
        throw_def split: if_splits)
qed

text \<open>What a successful write leaves in the store when it replaced a file.\<close>

lemma write_records_prior:
  assumes "handle_fs_write env params w = (Returned r, w1)" "reply_ok r"
    and "real_roots env (w_tree w)"
  defines "path \<equiv> str_param params ''path'' []"
  assumes "map_of (w_tree w) (path_parts path) = Some (File b)"
    and "content_addressed (ev_sha256 env) (w_store w)"
    and "\<And>c. ev_sha256 env c = ev_sha256 env b \<Longrightarrow> c = b"
    and "history (w_store w) path = Value vs"
  shows "\<exists>v. history (w_store w1) path = Value (vs @ [v]) \<and> fetch_object (w_store w1) (v_sha256 v) = Value b"
proof -
  let ?s = "\<lparr>s_tree = w_tree w, s_store = w_store w, s_check = approval_checker params (w_used w)\<rparr>"
  obtain s' where run: "fs_write_body env params ?s = (Inr r, s')" and w1: "w_store w1 = s_store s'"
    by (rule run_handler_ok [OF assms(1) [unfolded handle_fs_write_def] assms(2) only_errors_fs_write])
  from ends_okD [OF fs_write_ok run, folded path_def] obtain p s1 s2 c e data where
    gate: "write_gate env ''fs.write'' path (bool_param params ''agent_bridge'' False) ?s = (Inr p, s1)"
    and rd: "read_prior env path s1 = (Inr (c, e), s1)"
    and cap: "if e then \<exists>v. capture_bytes env path c (str_param params ''proposal_id'' ''direct'') Write_op
          (str_param params ''actor'' ''agent'') ''Backup capture failed; write aborted'' s1 = (Inr v, s2)
       else s2 = s1"
    and wr: "write_file env path data ''Write failed'' s2 = (Inr (), s')"
    by (elim exE conjE) rule
  have "check_state env ''fs.write'' params (w_used w) (s_check ?s)" by (simp add: check_state_def)
  note g = write_gate_ok(4,5) [OF this gate]
  have t2: "s_tree s2 = w_tree w"
    using cap g(2) capture_bytes_ok [of env path c] by (cases e) fastforce+
  note wo = write_file_ok [OF wr, unfolded t2, OF assms(3)]
  note found = read_finds [OF real_rootsD [OF assms(3)] wo(2-4) assms(5)]
  have "e \<and> c = b"
    using read_prior_ok [OF rd] found [where m = False] g(2) by auto
  then obtain v where "capture_bytes env path b (str_param params ''proposal_id'' ''direct'') Write_op
          (str_param params ''actor'' ''agent'') ''Backup capture failed; write aborted'' s1 = (Inr v, s2)"
    using cap by auto
  from capture_bytes_ok [OF this] obtain st where
    c: "capture (ev_sha256 env) (ev_utc_now env) path b (str_param params ''proposal_id'' ''direct'') Write_op
          (str_param params ''actor'' ''agent'') (w_store w) = (Value v, st)" and st: "s_store s2 = st"
    using g(1) by auto
  have "history st path = Value (vs @ [v])"
    using capture_history [OF c, of path] assms(8) by simp
  moreover obtain d where "fetch_object st (ev_sha256 env b) = Value d" "ev_sha256 env d = ev_sha256 env b"
    by (rule capture_body [OF assms(6) c])
  then have "fetch_object st (v_sha256 v) = Value b"
    using assms(7) capture_version(1) [OF c] by auto
  moreover have "w_store w1 = st" using w1 wo(1) st by simp
  ultimately show ?thesis by auto
qed

text \<open>A restore of version -1 writes back what the last version of the history holds.\<close>

lemma restore_latest:
  assumes "history (w_store w1) path = Value (vs @ [v])"
    and "fetch_object (w_store w1) (v_sha256 v) = Value b"
    and "handle_fs_restore env params w1 = (Returned r, w2)" "reply_ok r"
    and "str_param params ''path'' [] = path" "dget params ''version'' = JInt (-1)"
    and "real_roots env (w_tree w1)"
    and "\<not> prefix (trash_place env (AList.update (path_parts path) (File b) (w_tree w1))) (path_parts path)"
  shows "map_of (w_tree w2) (path_parts path) = Some (File b)"
proof -
  let ?s = "\<lparr>s_tree = w_tree w1, s_store = w_store w1, s_check = approval_checker params (w_used w1)\<rparr>"
  obtain s' where run: "fs_restore_body env params ?s = (Inr r, s')" and w2: "w_tree w2 = s_tree s'"
    by (rule run_handler_ok [OF assms(3) [unfolded handle_fs_restore_def] assms(4) only_errors_fs_restore])
  from ends_okD [OF fs_restore_ok run] obtain p s1 sel u data prior s2 s3 n k where
    gate: "write_gate env ''fs.restore'' path (bool_param params ''agent_bridge'' False) ?s = (Inr p, s1)"
    and sel: "restore_selector params s1 = (Inr sel, s1)"
    and sv: "stored_version env path sel s1 = (Inr u, s1)"
    and sb: "stored_bytes (v_sha256 u) s1 = (Inr data, s1)"
    and cap: "capture_bytes env path prior (''restore-from-'' @ v_proposal_id u) Restore_op
        (str_param params ''actor'' ''agent'') ''Pre-restore capture failed; restore aborted'' s1 = (Inr n, s2)"
    and wr: "write_file env path data ''Restore write failed'' s2 = (Inr (), s3)"
    and pu: "purge_trash_entries_for env path s3 = (Inr k, s')"
    unfolding assms(5) by (elim exE conjE) rule
  have "check_state env ''fs.restore'' params (w_used w1) (s_check ?s)" by (simp add: check_state_def)
  note g = write_gate_ok(4,5) [OF this gate]
  note ver = restore_selector_version [OF sel assms(6)]
  have "u = v"
    using stored_version_ok [OF sv] resolve_latest [OF assms(1) ver] g(1) by simp
  then have data: "data = b" using stored_bytes_ok [OF sb] assms(2) g(1) by simp
  have t2: "s_tree s2 = w_tree w1" using capture_bytes_ok [OF cap] g(2) by auto
  have "s_tree s3 = AList.update (path_parts path) (File b) (w_tree w1)"
    using write_file_ok(1) [OF wr, unfolded t2, OF assms(7)] data t2 by simp
  with purge_other(1) [OF pu, of "path_parts path"] assms(8) w2 show ?thesis
    by (simp add: update_conv')
qed

text \<open>
  C22. A restore undoes a write. After an \<open>fs.write\<close> that said ok over a file with bytes \<open>b\<close>,
  an \<open>fs.restore\<close> of version -1 of the same path that says ok leaves the file with bytes \<open>b\<close>
  again (as long as SHA-256 does not collide on \<open>b\<close>, and the file is not in the trash directory).
\<close>

theorem restore_undoes_write:
  assumes "handle_fs_write env params w = (Returned r, w1)" "reply_ok r"
    and "real_roots env (w_tree w)"
    and "map_of (w_tree w) (path_parts (str_param params ''path'' [])) = Some (File b)"
    and "content_addressed (ev_sha256 env) (w_store w)"
    and "\<And>c. ev_sha256 env c = ev_sha256 env b \<Longrightarrow> c = b"
    and "history (w_store w) (str_param params ''path'' []) = Value vs"
    and "handle_fs_restore env' params' w1 = (Returned r', w2)" "reply_ok r'"
    and "str_param params' ''path'' [] = str_param params ''path'' []"
    and "dget params' ''version'' = JInt (-1)"
    and "real_roots env' (w_tree w1)"
    and "\<not> prefix (trash_place env' (AList.update (path_parts (str_param params ''path'' [])) (File b) (w_tree w1)))
           (path_parts (str_param params ''path'' []))"
  shows "map_of (w_tree w2) (path_parts (str_param params ''path'' [])) = Some (File b)"
proof -
  obtain v where "history (w_store w1) (str_param params ''path'' []) = Value (vs @ [v])"
    "fetch_object (w_store w1) (v_sha256 v) = Value b"
    using write_records_prior [OF assms(1-7)] by blast
  from restore_latest [OF this assms(8-13)] show ?thesis .
qed

subsection \<open>A sample node\<close>

definition sample_env :: fs_env where
  "sample_env = \<lparr>ev_addon_mode = True, ev_roots_var = [], ev_cwd = [], ev_sha256 = unary_digest,
     ev_sha1 = unary_digest, ev_now = 0, ev_utc_now = ''t'', ev_iso_time = (\<lambda>_. Aware 0),
     ev_caller = None, ev_errno_text = (\<lambda>_. []), ev_device = (\<lambda>_. 0),
     ev_unified_diff = (\<lambda>_ _ _ _. []), ev_send2trash = None, ev_trash_dir = ''/share/trash'',
     ev_trash_stamp = ''s''\<rparr>"

definition sample_tree :: tree where
  "sample_tree = [([], Dir), ([''config''], Dir), ([''share''], Dir), ([''media''], Dir),
     ([''share'', ''a''], File [7])]"

definition sample_world :: fs_world where
  "sample_world = \<lparr>w_tree = sample_tree, w_store = empty_store, w_used = []\<rparr>"

definition sample_write :: dict where
  "sample_write = [(''path'', JStr ''/share/a''), (''content'', JStr ''B'')]"

lemma sample_roots: "roots_now sample_env t = [[''config''], [''share''], [''media'']]"
  by (simp add: roots_now_def allowed_roots_def addon_allowed_roots_def sample_env_def)

lemma sample_index: "index_path ''/share/a'' = Value ''%2Fshare%2Fa.jsonl''"
  by (simp add: index_path_def encode_path_def url_quote_def utf8_text_def of_ascii_def utf8_char_def
      quote_byte_def unreserved_def hex_upper_def index_name_max_def name_max_def char_of_eq_iff)

lemma sample_real_roots: "real_roots sample_env sample_tree"
  by (simp add: real_roots_def sample_roots real_place_def sample_tree_def)

lemma sample_parts: "path_parts ''/share/a'' = [''share'', ''a'']" "path_anchor ''/share/a'' = Slash"
  by (simp_all add: path_parts_def path_anchor_def)

lemma sample_open: "read_prior sample_env ''/share/a''
    \<lparr>s_tree = sample_tree, s_store = st, s_check = ck\<rparr> =
   (Inr ([7], True), \<lparr>s_tree = sample_tree, s_store = st, s_check = ck\<rparr>)"
  by (simp add: read_prior_def seq_def the_tree_def give_def sample_roots read_bytes_safe_def
      open_safe_fd_def open_safe_def sample_parts relative_to_root_def open_root_def realpath_def
      sample_tree_def)

lemma sample_policy:
  "\<not> is_storage ''/share/a''" "\<not> is_protected ''/share/a''" "path_str [''share'', ''a''] = ''/share/a''"
  by code_simp+

lemma sample_resolve:
  "resolve_safe sample_tree ''/share/a'' (roots_now sample_env sample_tree) = Place [''share'', ''a'']"
  by (simp add: resolve_safe_def sample_roots sample_parts realpath_def sample_tree_def)

lemma sample_gate: "write_gate sample_env ''fs.write'' ''/share/a'' False
    \<lparr>s_tree = sample_tree, s_store = st, s_check = ck\<rparr> =
   (Inr [''share'', ''a''], \<lparr>s_tree = sample_tree, s_store = st, s_check = ck\<rparr>)"
  by (simp add: write_gate_def refuse_if_def sample_policy resolve_write_target_def seq_def
      the_tree_def give_def sample_resolve)

lemma sample_capture: "\<exists>v st'. capture_bytes sample_env ''/share/a'' [7] pid Write_op who m
    \<lparr>s_tree = t, s_store = empty_store, s_check = ck\<rparr> =
   (Inr v, \<lparr>s_tree = t, s_store = st', s_check = ck\<rparr>)"
  by (simp add: capture_bytes_def capture_def last_sha_def history_def sample_index empty_store_def
      put_object_def Let_def give_def sample_env_def)

lemma sample_write_file: "write_file sample_env ''/share/a'' [66] m
    \<lparr>s_tree = sample_tree, s_store = st, s_check = ck\<rparr> =
   (Inr (), \<lparr>s_tree = AList.update [''share'', ''a''] (File [66]) sample_tree, s_store = st, s_check = ck\<rparr>)"
  by (simp add: write_file_def seq_def the_tree_def put_tree_def sample_roots atomic_write_safe_def
      open_safe_parent_dir_def open_safe_def sample_parts relative_to_root_def open_root_def
      realpath_def sample_tree_def)

definition written_tree :: tree where
  "written_tree = AList.update [''share'', ''a''] (File [66]) sample_tree"

lemma sample_write_runs:
  "\<exists>r st. handle_fs_write sample_env sample_write sample_world =
     (Returned r, \<lparr>w_tree = written_tree, w_store = st, w_used = []\<rparr>) \<and> reply_ok r"
proof -
  obtain v st' where c: "capture_bytes sample_env ''/share/a'' [7] ''direct'' Write_op ''agent''
      ''Backup capture failed; write aborted''
      \<lparr>s_tree = sample_tree, s_store = empty_store, s_check = approval_checker sample_write []\<rparr> =
     (Inr v, \<lparr>s_tree = sample_tree, s_store = st', s_check = approval_checker sample_write []\<rparr>)"
    using sample_capture by blast
  have p: "str_param sample_write ''path'' [] = ''/share/a''"
    "str_param sample_write ''encoding'' ''utf-8'' = ''utf-8''"
    "str_param sample_write ''proposal_id'' ''direct'' = ''direct''"
    "str_param sample_write ''actor'' ''agent'' = ''agent''"
    "bool_param sample_write ''agent_bridge'' False = False"
    "dget sample_write ''content'' = JStr ''B''"
    by (simp_all add: sample_write_def str_param_def bool_param_def)
  have k: "strict_keys_error sample_write write_keys [] = None"
    by (auto simp: strict_keys_ok_iff sample_write_def write_keys_def)
  have d: "decode_content ''B'' ''utf-8'' = Inr [66]"
    by (simp add: decode_content_def utf8_text_def of_ascii_def utf8_char_def)
  have u: "ck_used (approval_checker sample_write []) = []" by (simp add: approval_checker_def)
  show ?thesis
    by (simp add: handle_fs_write_def run_handler_def fs_write_body_def p k d sample_world_def
        refuse_some_def refuse_if_def max_write_bytes_def seq_def [of "write_gate _ _ _ _"] sample_gate
        seq_def [of "read_prior _ _"] sample_open seq_def [of "capture_bytes _ _ _ _ _ _ _"] c
        seq_def [of "write_file _ _ _ _"] sample_write_file give_def seq_def Let_def reply_ok_def
        written_tree_def u)
qed

definition sample_restore :: dict where
  "sample_restore = [(''path'', JStr ''/share/a''), (''version'', JInt (-1))]"

lemma written_real_roots: "real_roots sample_env written_tree"
  by (simp add: real_roots_def sample_roots real_place_def written_tree_def sample_tree_def)

lemma written_gate: "write_gate sample_env ''fs.restore'' ''/share/a'' False
    \<lparr>s_tree = written_tree, s_store = st, s_check = ck\<rparr> =
   (Inr [''share'', ''a''], \<lparr>s_tree = written_tree, s_store = st, s_check = ck\<rparr>)"
proof -
  have "resolve_safe written_tree ''/share/a'' (roots_now sample_env written_tree) = Place [''share'', ''a'']"
    by (simp add: resolve_safe_def sample_roots sample_parts realpath_def written_tree_def sample_tree_def)
  then show ?thesis
    by (simp add: write_gate_def refuse_if_def sample_policy resolve_write_target_def seq_def
        the_tree_def give_def)
qed

lemma written_prior: "read_prior_or_empty sample_env ''/share/a''
    \<lparr>s_tree = written_tree, s_store = st, s_check = ck\<rparr> =
   (Inr [66], \<lparr>s_tree = written_tree, s_store = st, s_check = ck\<rparr>)"
  by (simp add: read_prior_or_empty_def seq_def the_tree_def give_def sample_roots read_bytes_safe_def
      open_safe_fd_def open_safe_def sample_parts relative_to_root_def open_root_def realpath_def
      written_tree_def sample_tree_def)

lemma written_write_file: "write_file sample_env ''/share/a'' [7] m
    \<lparr>s_tree = written_tree, s_store = st, s_check = ck\<rparr> =
   (Inr (), \<lparr>s_tree = AList.update [''share'', ''a''] (File [7]) written_tree, s_store = st, s_check = ck\<rparr>)"
  by (simp add: write_file_def seq_def the_tree_def put_tree_def sample_roots atomic_write_safe_def
      open_safe_parent_dir_def open_safe_def sample_parts relative_to_root_def open_root_def
      realpath_def written_tree_def sample_tree_def)

lemma sample_trash: "trash_place sample_env (AList.update [''share'', ''a''] (File [7]) written_tree) =
    [''share'', ''trash'']"
  by (simp add: trash_place_def sample_env_def path_parts_def realpath_def written_tree_def sample_tree_def)

lemma sample_purge: "purge_trash_entries_for sample_env ''/share/a''
    \<lparr>s_tree = AList.update [''share'', ''a''] (File [7]) written_tree, s_store = st, s_check = ck\<rparr> =
   (Inr 0, \<lparr>s_tree = AList.update [''share'', ''a''] (File [7]) written_tree, s_store = st, s_check = ck\<rparr>)"
proof -
  have "map_of (AList.update [''share'', ''a''] (File [7]) written_tree) [''share'', ''trash''] = None"
    by (simp add: written_tree_def sample_tree_def)
  then show ?thesis
    by (simp add: purge_trash_entries_for_def seq_def the_tree_def give_def sample_trash Let_def
        basename_def)
qed

lemma capture_succeeds:
  assumes "index_path path = Value name" "history st path = Value vs"
  shows "\<exists>v st'. capture sha now path b pid k who st = (Value v, st')"
  using assms by (simp add: capture_def last_sha_def Let_def)

lemma sample_restore_runs:
  assumes "history st ''/share/a'' = Value (vs @ [v])" "fetch_object st (v_sha256 v) = Value [7]"
  shows "\<exists>r w2. handle_fs_restore sample_env sample_restore
      \<lparr>w_tree = written_tree, w_store = st, w_used = []\<rparr> = (Returned r, w2) \<and> reply_ok r"
proof -
  let ?s = "\<lparr>s_tree = written_tree, s_store = st, s_check = approval_checker sample_restore []\<rparr>"
  let ?sel = "\<lparr>sel_version = Some (-1), sel_proposal_id = None, sel_at = None, sel_sha256 = None\<rparr>"
  have p: "str_param sample_restore ''path'' [] = ''/share/a''"
    "str_param sample_restore ''actor'' ''agent'' = ''agent''"
    "bool_param sample_restore ''agent_bridge'' False = False"
    by (simp_all add: sample_restore_def str_param_def bool_param_def)
  have k: "strict_keys_error sample_restore restore_keys [] = None"
    by (auto simp: strict_keys_ok_iff sample_restore_def restore_keys_def)
  have sel: "restore_selector sample_restore ?s = (Inr ?sel, ?s)"
    by (simp add: restore_selector_def sample_restore_def optional_text_def chosen_def refuse_if_def
        give_def)
  have "resolve_version (ev_iso_time sample_env) st ''/share/a'' ?sel = Value v"
    by (rule resolve_latest [OF assms(1)]) (simp_all add: chosen_def)
  then have sv: "stored_version sample_env ''/share/a'' ?sel ?s = (Inr v, ?s)"
    by (simp add: stored_version_def seq_def the_store_def give_def)
  have sb: "stored_bytes (v_sha256 v) ?s = (Inr [7], ?s)"
    using assms(2) by (simp add: stored_bytes_def seq_def the_store_def give_def)
  obtain n st' where "capture (ev_sha256 sample_env) (ev_utc_now sample_env) ''/share/a'' [66]
      (''restore-from-'' @ v_proposal_id v) Restore_op ''agent'' st = (Value n, st')"
    using capture_succeeds [OF sample_index assms(1)] by blast
  then have cap: "capture_bytes sample_env ''/share/a'' [66] (''restore-from-'' @ v_proposal_id v)
      Restore_op ''agent'' ''Pre-restore capture failed; restore aborted'' ?s =
      (Inr n, ?s\<lparr>s_store := st'\<rparr>)"
    by (simp add: capture_bytes_def give_def)
  show ?thesis
    unfolding handle_fs_restore_def run_handler_def fs_restore_body_def Let_def p k
    using sel sv sb cap
    by (simp add: refuse_some_def refuse_if_def seq_def written_gate written_prior written_write_file
        sample_purge give_def reply_ok_def)
qed

theorem restore_undoes_write_witness:
  "\<exists>r w1 r' w2. handle_fs_write sample_env sample_write sample_world = (Returned r, w1) \<and>
     map_of (w_tree w1) [''share'', ''a''] = Some (File [66]) \<and>
     handle_fs_restore sample_env sample_restore w1 = (Returned r', w2) \<and>
     map_of (w_tree w2) [''share'', ''a''] = Some (File [7])"
proof -
  have path: "str_param sample_write ''path'' [] = ''/share/a''"
    "str_param sample_restore ''path'' [] = ''/share/a''"
    by (simp_all add: sample_write_def sample_restore_def str_param_def)
  obtain r st where w: "handle_fs_write sample_env sample_write sample_world =
     (Returned r, \<lparr>w_tree = written_tree, w_store = st, w_used = []\<rparr>)" "reply_ok r"
    using sample_write_runs by blast
  have h: "real_roots sample_env (w_tree sample_world)"
    "map_of (w_tree sample_world) (path_parts (str_param sample_write ''path'' [])) = Some (File [7])"
    "content_addressed (ev_sha256 sample_env) (w_store sample_world)"
    "\<And>c. ev_sha256 sample_env c = ev_sha256 sample_env [7] \<Longrightarrow> c = [7]"
    "history (w_store sample_world) (str_param sample_write ''path'' []) = Value []"
    using sample_real_roots
    by (simp_all add: sample_world_def path sample_parts sample_tree_def content_addressed_def
        empty_store_def sample_env_def unary_digest_inj history_def sample_index)
  obtain v where v: "history st ''/share/a'' = Value ([] @ [v])" "fetch_object st (v_sha256 v) = Value [7]"
    using write_records_prior [OF w h] path by auto
  obtain r' w2 where re: "handle_fs_restore sample_env sample_restore
      \<lparr>w_tree = written_tree, w_store = st, w_used = []\<rparr> = (Returned r', w2)" "reply_ok r'"
    using sample_restore_runs [OF v] by blast
  have version: "dget sample_restore ''version'' = JInt (-1)" by (simp add: sample_restore_def)
  have h2: "str_param sample_restore ''path'' [] = str_param sample_write ''path'' []"
    "dget sample_restore ''version'' = JInt (-1)"
    "real_roots sample_env (w_tree \<lparr>w_tree = written_tree, w_store = st, w_used = []\<rparr>)"
    "\<not> prefix (trash_place sample_env (AList.update (path_parts (str_param sample_write ''path'' []))
       (File [7]) (w_tree \<lparr>w_tree = written_tree, w_store = st, w_used = []\<rparr>)))
       (path_parts (str_param sample_write ''path'' []))"
    using written_real_roots version by (simp_all add: path sample_parts sample_trash)
  have "map_of (w_tree w2) [''share'', ''a''] = Some (File [7])"
    using restore_undoes_write [OF w h re h2] by (simp add: path sample_parts)
  moreover have "map_of written_tree [''share'', ''a''] = Some (File [66])"
    by (simp add: written_tree_def sample_tree_def)
  ultimately show ?thesis using w(1) re(1) by auto
qed

theorem fs_write_confined_witness:
  "\<exists>out w'. handle_fs_write sample_env sample_write sample_world = (out, w') \<and>
     (\<exists>r \<in> set (roots_now sample_env sample_tree). strict_prefix r [''share'', ''a''])"
proof -
  obtain out w' where run: "handle_fs_write sample_env sample_write sample_world = (out, w')"
    and t: "w_tree w' = AList.update [''share'', ''a''] (File [66]) sample_tree"
    using sample_write_runs by (auto simp: written_tree_def)
  have ch: "w_tree w' \<noteq> w_tree sample_world"
    by (simp add: t sample_world_def sample_tree_def)
  have "real_roots sample_env (w_tree sample_world)"
    using sample_real_roots by (simp add: sample_world_def)
  from fs_write_confined [OF run ch this] run show ?thesis
    by (simp add: sample_write_def str_param_def sample_parts sample_world_def Let_def)
qed

theorem storage_guard_is_textual_witness:
  "snd (handle_fs_write sample_env [(''path'', JStr ''/config/.storage/auth''), (''content'', JStr [])]
     sample_world) = sample_world"
proof -
  let ?params = "[(''path'', JStr ''/config/.storage/auth''), (''content'', JStr [])]"
  have "str_param ?params ''path'' [] = ''/config/.storage/auth''" by (simp add: str_param_def)
  moreover have "is_storage ''/config/.storage/auth''" by code_simp
  ultimately show ?thesis
    using storage_guard_is_textual [of ?params sample_env sample_world] by simp
qed

end
