(* ===== verification/Fs_Move_Delete.thy ===== *)
theory Fs_Move_Delete
  imports Fs_Write
begin

text \<open>
  \<open>commands/fs_move_delete.py\<close>: \<open>fs.move\<close> renames a file below the allowed roots after capturing
  what both ends held, and carries the version history along; \<open>fs.delete\<close> captures the file and
  moves it to the trash. The trash purge of a restore is in \<open>Fs_Write\<close>.
\<close>

subsection \<open>Policy checks\<close>

definition write_preflight :: "fs_env \<Rightarrow> string \<Rightarrow> string \<Rightarrow> bool \<Rightarrow> unit act" where
  "write_preflight env command path agent_bridge =
     seq (refuse_if (is_storage path) storage_refusal) (\<lambda>_.
     if is_protected path \<or> agent_bridge then approved env command else give ())"

definition post_resolution_check :: "fs_env \<Rightarrow> string \<Rightarrow> place \<Rightarrow> unit act" where
  "post_resolution_check env command p =
     (if is_protected (path_str p) then approved env command else give ())"

text \<open>\<open>Path.exists\<close> of a resolved path: a symlink is left there only by a loop.\<close>

definition path_exists :: "tree \<Rightarrow> place \<Rightarrow> bool" where
  "path_exists t p = (case map_of t p of None \<Rightarrow> False | Some (Link _) \<Rightarrow> False | Some _ \<Rightarrow> True)"

subsection \<open>fs.move\<close>

definition move_keys :: "string list" where
  "move_keys = [''src'', ''dst'', ''actor'', ''agent_bridge'', ''proposal_id'', ''_openclaw_approval'']"

definition read_for_move :: "fs_env \<Rightarrow> string \<Rightarrow> bool \<Rightarrow> string \<Rightarrow> nat list act" where
  "read_for_move env path missing_ok what =
     seq the_tree (\<lambda>t.
       case read_bytes_safe t path (roots_now env t) missing_ok of
         Done b \<Rightarrow> give b
       | Out_of_bounds \<Rightarrow> stop (outside_refusal path)
       | Os_error e \<Rightarrow> stop (err_reply ''READ_ERROR'' (what @ '': '' @ ev_errno_text env e))
       | No_allowed_roots \<Rightarrow> throw No_roots_exn)"

definition replace_file :: "fs_env \<Rightarrow> string \<Rightarrow> string \<Rightarrow> unit act" where
  "replace_file env src dst =
     seq the_tree (\<lambda>t.
       case replace_safe (ev_device env) t src dst (roots_now env t) of
         Done t' \<Rightarrow> put_tree t'
       | Out_of_bounds \<Rightarrow>
           stop (err_reply ''PATH_NOT_ALLOWED'' ''Source or destination escapes the allowed roots'')
       | Os_error e \<Rightarrow>
           if e = EXDEV then stop (err_reply ''CROSS_DEVICE''
             ''Cross-device moves are not supported; use fs.write + fs.delete instead'')
           else stop (err_reply ''MOVE_ERROR'' (''Move failed: '' @ ev_errno_text env e))
       | No_allowed_roots \<Rightarrow> throw No_roots_exn)"

definition carry_history :: "string \<Rightarrow> string \<Rightarrow> bool act" where
  "carry_history src dst s =
     (case rename_history (s_store s) src dst of
        (r, st) \<Rightarrow>
          (case r of
             Value moved \<Rightarrow> give moved
           | Store_error _ \<Rightarrow> give False
           | Store_os_error e \<Rightarrow> throw (Os_error_exn e)
           | Store_value_error _ \<Rightarrow> throw Value_error_exn
           | Store_type_error \<Rightarrow> throw Type_error_exn) (s\<lparr>s_store := st\<rparr>))"

definition fs_move_body :: "fs_env \<Rightarrow> dict \<Rightarrow> jval act" where
  "fs_move_body env params =
     (let src_raw = str_param params ''src'' [];
          dst_raw = str_param params ''dst'' [];
          proposal_id = str_param params ''proposal_id'' ''direct'';
          actor = str_param params ''actor'' ''agent'';
          agent_bridge = bool_param params ''agent_bridge'' (is_protected src_raw \<or> is_protected dst_raw)
      in
      seq (refuse_some (strict_keys_error params move_keys [])) (\<lambda>_.
      seq (refuse_if (src_raw = []) (missing_param ''src'')) (\<lambda>_.
      seq (refuse_if (dst_raw = []) (missing_param ''dst'')) (\<lambda>_.
      seq (write_preflight env ''fs.move'' src_raw agent_bridge) (\<lambda>_.
      seq (write_preflight env ''fs.move'' dst_raw agent_bridge) (\<lambda>_.
      seq (resolve_write_target env src_raw) (\<lambda>src.
      seq (post_resolution_check env ''fs.move'' src) (\<lambda>_.
      seq (resolve_write_target env dst_raw) (\<lambda>dst.
      seq (post_resolution_check env ''fs.move'' dst) (\<lambda>_.
      seq the_tree (\<lambda>t.
      seq (refuse_if (\<not> path_exists t src)
             (err_reply ''NOT_FOUND'' (''Source path does not exist: '' @ py_repr_str src_raw))) (\<lambda>_.
      seq (refuse_if (src = dst) (err_reply ''INVALID_PARAM'' ''src and dst must differ'')) (\<lambda>_.
      seq (if path_exists t dst then
             seq (read_for_move env dst_raw True ''Cannot read destination prior bytes'') (\<lambda>prior.
             seq (capture_bytes env dst_raw prior (''pre-move-'' @ proposal_id) Move_dst actor
                    ''Backup capture of destination failed; move aborted'') (\<lambda>_. give ()))
           else give ()) (\<lambda>_.
      seq (read_for_move env src_raw False ''Cannot read source'') (\<lambda>data.
      seq (capture_bytes env src_raw data proposal_id Move_src actor
             ''Backup capture of source failed; move aborted'') (\<lambda>_.
      seq (replace_file env src_raw dst_raw) (\<lambda>_.
      seq (carry_history src_raw dst_raw) (\<lambda>moved.
      give (JObj [(''ok'', JBool True), (''src'', JStr src_raw), (''dst'', JStr dst_raw),
                  (''size'', JInt (int (length data))), (''history_moved'', JBool moved)])))))))))))))))))))"

definition handle_fs_move :: "fs_env \<Rightarrow> dict \<Rightarrow> fs_world \<Rightarrow> outcome \<times> fs_world" where
  "handle_fs_move env params = run_handler params (fs_move_body env params)"

subsection \<open>fs.delete\<close>

definition delete_keys :: "string list" where
  "delete_keys = [''path'', ''actor'', ''agent_bridge'', ''proposal_id'', ''_openclaw_approval'']"

text \<open>
  \<open>Path.mkdir(parents=True, exist_ok=True)\<close> from a directory; what was made before a failure
  stays.
\<close>

fun make_dirs :: "tree \<Rightarrow> place \<Rightarrow> string list \<Rightarrow> (errno + place) \<times> tree" where
  "make_dirs t here [] = (Inr here, t)"
| "make_dirs t here (n # ns) =
     (if n = ''..'' then make_dirs t (butlast here) ns
      else (case map_of t (here @ [n]) of
          None \<Rightarrow> make_dirs (AList.update (here @ [n]) Dir t) (here @ [n]) ns
        | Some Dir \<Rightarrow> make_dirs t (here @ [n]) ns
        | Some (File _) \<Rightarrow> (Inl (if ns = [] then EEXIST else ENOTDIR), t)
        | Some (Link _) \<Rightarrow>
            (let p = realpath t (here @ [n])
             in if map_of t p = Some Dir then make_dirs t p ns else (Inl EEXIST, t))))"

text \<open>
  \<open>shutil.move\<close> of a file: a rename or, across devices, a copy and an unlink; into the destination
  when that is a directory.
\<close>

definition move_file :: "tree \<Rightarrow> place \<Rightarrow> place \<Rightarrow> errno + tree" where
  "move_file t p d =
     (let q = (if map_of t d = Some Dir then d @ [last p] else d)
      in case map_of t p of
           None \<Rightarrow> Inl ENOENT
         | Some n \<Rightarrow>
             if name_max < length (utf8_text (last d)) then Inl ENAMETOOLONG
             else if q \<noteq> d \<and> map_of t q \<noteq> None then Inl EEXIST
             else Inr (AList.update q n (AList.delete p t)))"

definition path_text :: "anchor \<Rightarrow> string list \<Rightarrow> string" where
  "path_text a parts =
     (case a of Relative \<Rightarrow> join ''/'' parts | Slash \<Rightarrow> path_str parts
      | Slash_slash \<Rightarrow> CHR ''/'' # path_str parts)"

definition trash_name :: "fs_env \<Rightarrow> place \<Rightarrow> string" where
  "trash_name env p = last p @ ''.'' @ path_slug env (path_str p) @ ''.'' @ ev_trash_stamp env"

definition trash_start :: "fs_env \<Rightarrow> place" where
  "trash_start env = (if path_anchor (ev_trash_dir env) = Relative then ev_cwd env else [])"

definition trash_file :: "fs_env \<Rightarrow> place \<Rightarrow> tree \<Rightarrow> (errno + string) \<times> tree" where
  "trash_file env p t =
     (case ev_send2trash env of
        Some send \<Rightarrow> (case send p t of Inl e \<Rightarrow> (Inl e, t) | Inr t' \<Rightarrow> (Inr ''system trash'', t'))
      | None \<Rightarrow>
          (case make_dirs t (trash_start env) (path_parts (ev_trash_dir env)) of
             (Inl e, t1) \<Rightarrow> (Inl e, t1)
           | (Inr d, t1) \<Rightarrow>
               (case move_file t1 p (d @ [trash_name env p]) of
                  Inl e \<Rightarrow> (Inl e, t1)
                | Inr t2 \<Rightarrow>
                    (Inr (path_text (path_anchor (ev_trash_dir env))
                       (path_parts (ev_trash_dir env) @ [trash_name env p])), t2))))"

definition trash_act :: "fs_env \<Rightarrow> place \<Rightarrow> string act" where
  "trash_act env p s =
     (case trash_file env p (s_tree s) of
        (r, t) \<Rightarrow>
          (case r of
             Inl e \<Rightarrow> stop (err_reply ''TRASH_ERROR'' (''Trash operation failed: '' @ ev_errno_text env e))
           | Inr where_to \<Rightarrow> give where_to) (s\<lparr>s_tree := t\<rparr>))"

definition fs_delete_body :: "fs_env \<Rightarrow> dict \<Rightarrow> jval act" where
  "fs_delete_body env params =
     (let path = str_param params ''path'' [];
          proposal_id = str_param params ''proposal_id'' ''direct'';
          actor = str_param params ''actor'' ''agent'';
          agent_bridge = bool_param params ''agent_bridge'' False
      in
      seq (refuse_some (strict_keys_error params delete_keys [])) (\<lambda>_.
      seq (refuse_if (path = []) (missing_param ''path'')) (\<lambda>_.
      seq (write_preflight env ''fs.delete'' path agent_bridge) (\<lambda>_.
      seq (resolve_write_target env path) (\<lambda>resolved.
      seq (post_resolution_check env ''fs.delete'' resolved) (\<lambda>_.
      seq the_tree (\<lambda>t.
      seq (refuse_if (\<not> path_exists t resolved)
             (err_reply ''NOT_FOUND'' (''Path does not exist: '' @ py_repr_str path))) (\<lambda>_.
      seq (read_for_move env path False ''Cannot read file'') (\<lambda>prior.
      seq (capture_bytes env path prior proposal_id Delete_op actor
             ''Backup capture failed; delete aborted'') (\<lambda>v.
      seq (trash_act env resolved) (\<lambda>trashed_to.
      give (JObj [(''ok'', JBool True), (''path'', JStr path), (''sha256'', JStr (v_sha256 v)),
                  (''trashed_to'', JStr trashed_to)]))))))))))))"

definition handle_fs_delete :: "fs_env \<Rightarrow> dict \<Rightarrow> fs_world \<Rightarrow> outcome \<times> fs_world" where
  "handle_fs_delete env params = run_handler params (fs_delete_body env params)"

subsection \<open>The steps of a handler that went through\<close>

lemma preflight_ok:
  assumes "write_preflight env command path bridge s = (Inr u, s')"
    and "check_state env command params used (s_check s)"
  shows "\<not> is_storage path" "is_protected path \<or> bridge \<Longrightarrow> authorised (asked env command params used)"
    "s_store s' = s_store s" "s_tree s' = s_tree s" "check_state env command params used (s_check s')"
proof -
  have st: "\<not> is_storage path"
    using assms(1) by (auto simp: write_preflight_def refuse_if_def stop_def)
  then have "(if is_protected path \<or> bridge then approved env command else give ()) s = (Inr (), s')"
    using assms(1) by (simp add: write_preflight_def refuse_if_def)
  note g = gate_step [OF this assms(2)]
  show "\<not> is_storage path" by (rule st)
  show "is_protected path \<or> bridge \<Longrightarrow> authorised (asked env command params used)" by (rule g(4))
  show "s_store s' = s_store s" "s_tree s' = s_tree s" "check_state env command params used (s_check s')"
    by (rule g)+
qed

lemma post_check_ok:
  assumes "post_resolution_check env command p s = (Inr u, s')"
    and "check_state env command params used (s_check s)"
  shows "is_protected (path_str p) \<Longrightarrow> authorised (asked env command params used)"
    "s_store s' = s_store s" "s_tree s' = s_tree s" "check_state env command params used (s_check s')"
  using gate_step [of "is_protected (path_str p)" env command s s' params used] assms
  by (simp_all add: post_resolution_check_def)

lemma read_for_move_ok:
  "read_for_move env path m what s = (Inr b, s') \<Longrightarrow>
     s' = s \<and> read_bytes_safe (s_tree s) path (roots_now env (s_tree s)) m = Done b"
  by (auto simp: read_for_move_def seq_def the_tree_def give_def stop_def throw_def split: io.splits)

lemma replace_file_ok:
  "replace_file env src dst s = (Inr u, s') \<Longrightarrow>
     \<exists>t. replace_safe (ev_device env) (s_tree s) src dst (roots_now env (s_tree s)) = Done t \<and>
       s' = s\<lparr>s_tree := t\<rparr>"
  by (auto simp: replace_file_def seq_def the_tree_def put_tree_def stop_def throw_def
      split: io.splits if_splits)

lemma carry_history_ok:
  "carry_history src dst s = (Inr moved, s') \<Longrightarrow>
     s_tree s' = s_tree s \<and> (\<exists>r. rename_history (s_store s) src dst = (r, s_store s'))"
  by (auto simp: carry_history_def give_def throw_def split: prod.splits stored.splits)

lemma the_tree_ok: "the_tree s = (Inr t, s') \<Longrightarrow> t = s_tree s \<and> s' = s"
  by (auto simp: the_tree_def)

lemma only_errors_preflight [errors]: "only_errors (write_preflight env c p b)"
  unfolding write_preflight_def by (intro errors) (simp add: storage_refusal_def)

lemma only_errors_post [errors]: "only_errors (post_resolution_check env c p)"
  unfolding post_resolution_check_def by (intro errors)

lemma only_errors_read_for_move [errors]: "only_errors (read_for_move env p m w)"
  unfolding read_for_move_def outside_refusal_def
  by (intro errors) (auto intro: errors split: io.split)

lemma only_errors_replace_file [errors]: "only_errors (replace_file env a b)"
  unfolding replace_file_def
  by (intro errors) (auto intro: errors split: io.split)

lemma only_errors_carry_history [errors]: "only_errors (carry_history a b)"
  unfolding only_errors_def carry_history_def
  by (auto simp: calm_def give_def throw_def split: prod.splits stored.splits)

lemma only_errors_trash_act [errors]: "only_errors (trash_act env p)"
  unfolding only_errors_def trash_act_def
  by (auto simp: calm_def give_def stop_def split: prod.splits sum.splits)

lemma only_errors_fs_move: "only_errors (fs_move_body env params)"
  unfolding fs_move_body_def Let_def
  by (intro errors) simp_all

lemma only_errors_fs_delete: "only_errors (fs_delete_body env params)"
  unfolding fs_delete_body_def Let_def
  by (intro errors) simp_all

text \<open>What a move that said ok did, from the state it began in.\<close>

lemma fs_move_ok:
  defines "src params \<equiv> str_param params ''src'' []" and "dst params \<equiv> str_param params ''dst'' []"
  assumes "check_state env ''fs.move'' params used (s_check s)"
  shows "ends_ok (fs_move_body env params) s (\<lambda>r s'.
    \<exists>p q b st1 st2 u prior x y. (is_protected (src params) \<or> is_protected (dst params) \<or>
        is_protected (path_str p) \<or> is_protected (path_str q) \<longrightarrow>
        authorised (asked env ''fs.move'' params used)) \<and>
      \<not> is_storage (src params) \<and> \<not> is_storage (dst params) \<and>
      resolve_safe (s_tree s) (src params) (roots_now env (s_tree s)) = Place p \<and>
      resolve_safe (s_tree s) (dst params) (roots_now env (s_tree s)) = Place q \<and>
      path_exists (s_tree s) p \<and> p \<noteq> q \<and>
      (if path_exists (s_tree s) q
       then read_bytes_safe (s_tree s) (dst params) (roots_now env (s_tree s)) True = Done prior \<and>
         capture (ev_sha256 env) (ev_utc_now env) (dst params) prior
           (''pre-move-'' @ str_param params ''proposal_id'' ''direct'') Move_dst
           (str_param params ''actor'' ''agent'') (s_store s) = (Value u, st1)
       else st1 = s_store s) \<and>
      read_bytes_safe (s_tree s) (src params) (roots_now env (s_tree s)) False = Done b \<and>
      capture (ev_sha256 env) (ev_utc_now env) (src params) b
        (str_param params ''proposal_id'' ''direct'') Move_src
        (str_param params ''actor'' ''agent'') st1 = (Value x, st2) \<and>
      replace_safe (ev_device env) (s_tree s) (src params) (dst params) (roots_now env (s_tree s)) =
        Done (s_tree s') \<and>
      rename_history st2 (src params) (dst params) = (y, s_store s'))"
  unfolding fs_move_body_def Let_def src_def [symmetric] dst_def [symmetric]
proof ((rule ends_ok_give ends_ok_split ends_ok_seq)+, goal_cases)
  case (1 a s1 aa s1a ab s1b ac s1c ad s1d ae s1e af s1f ag s1g ah s1h ai s1i aj s1j ak s1k al s1l am s1m
      an s1n ao s1o ap s1p)
  have b: "s1b = s"
    using refuse_some_ok [OF 1(1)] refuse_ok [OF 1(2)] refuse_ok [OF 1(3)] by simp
  note c4 = preflight_ok [OF 1(4), unfolded b, OF assms(3)]
  note c5 = preflight_ok [OF 1(5) c4(5)]
  note e6 = resolve_write_target_ok [OF 1(6)]
  note c7 = post_check_ok [OF 1(7), unfolded e6(1), OF c5(5)]
  note e8 = resolve_write_target_ok [OF 1(8)]
  note c9 = post_check_ok [OF 1(9), unfolded e8(1), OF c7(4)]
  have i: "ai = s_tree s1h" "s1i = s1h" "s1j = s1i" "s1k = s1j" "path_exists ai ae" "ae \<noteq> ag"
    using the_tree_ok [OF 1(10)] refuse_ok [OF 1(11)] refuse_ok [OF 1(12)] by auto
  have tr: "s_tree s1c = s_tree s" "s_tree s1d = s_tree s" "s_tree s1f = s_tree s" "s_tree s1h = s_tree s"
    using c4(4) c5(4) c7(3) c9(3) by simp_all
  have st: "s_store s1k = s_store s" "s_tree s1k = s_tree s"
    using c4(3) c5(3) c7(2) c9(2) i tr by simp_all
  have appr: "is_protected (src params) \<or> is_protected (dst params) \<or>
        is_protected (path_str ae) \<or> is_protected (path_str ag) \<longrightarrow>
        authorised (asked env ''fs.move'' params used)"
    using c4(2) c5(2) c7(1) c9(1) by blast
  have res: "resolve_safe (s_tree s) (src params) (roots_now env (s_tree s)) = Place ae"
    "resolve_safe (s_tree s) (dst params) (roots_now env (s_tree s)) = Place ag"
    using e6(2) e8(2) tr by simp_all
  obtain prior u where dstc: "if path_exists (s_tree s) ag
       then read_bytes_safe (s_tree s) (dst params) (roots_now env (s_tree s)) True = Done prior \<and>
         capture (ev_sha256 env) (ev_utc_now env) (dst params) prior
           (''pre-move-'' @ str_param params ''proposal_id'' ''direct'') Move_dst
           (str_param params ''actor'' ''agent'') (s_store s) = (Value u, s_store s1l)
       else s_store s1l = s_store s" and tl: "s_tree s1l = s_tree s"
  proof (cases "path_exists (s_tree s) ag")
    case True
    then have "seq (read_for_move env (dst params) True ''Cannot read destination prior bytes'') (\<lambda>prior.
        seq (capture_bytes env (dst params) prior (''pre-move-'' @ str_param params ''proposal_id'' ''direct'')
          Move_dst (str_param params ''actor'' ''agent'')
          ''Backup capture of destination failed; move aborted'') (\<lambda>_. give ())) s1k = (Inr al, s1l)"
      using 1(13) i tr by simp
    then obtain prior s2 where rd: "read_for_move env (dst params) True ''Cannot read destination prior bytes'' s1k = (Inr prior, s2)"
      and cp: "seq (capture_bytes env (dst params) prior (''pre-move-'' @ str_param params ''proposal_id'' ''direct'')
          Move_dst (str_param params ''actor'' ''agent'')
          ''Backup capture of destination failed; move aborted'') (\<lambda>_. give ()) s2 = (Inr al, s1l)"
      by (rule seq_ok)
    obtain v where "capture_bytes env (dst params) prior (''pre-move-'' @ str_param params ''proposal_id'' ''direct'')
          Move_dst (str_param params ''actor'' ''agent'')
          ''Backup capture of destination failed; move aborted'' s2 = (Inr v, s1l)"
      using ignore_ok [OF cp] ..
    from capture_bytes_ok [OF this] read_for_move_ok [OF rd] st True that [of prior v]
    show ?thesis by auto
  next
    case False
    then show ?thesis using 1(13) i tr st that by (simp add: give_def)
  qed
  note r14 = read_for_move_ok [OF 1(14)]
  from capture_bytes_ok [OF 1(15)] r14 tl obtain st2 where
    cap: "capture (ev_sha256 env) (ev_utc_now env) (src params) am
        (str_param params ''proposal_id'' ''direct'') Move_src
        (str_param params ''actor'' ''agent'') (s_store s1l) = (Value an, st2)"
    and n: "s_store s1n = st2" "s_tree s1n = s_tree s" by auto
  from replace_file_ok [OF 1(16)] n carry_history_ok [OF 1(17)] obtain y where
    rep: "replace_safe (ev_device env) (s_tree s) (src params) (dst params) (roots_now env (s_tree s)) =
        Done (s_tree s1p)" and ren: "rename_history st2 (src params) (dst params) = (y, s_store s1p)"
    by auto
  have rd: "read_bytes_safe (s_tree s) (src params) (roots_now env (s_tree s)) False = Done am"
    using r14 tl by simp
  show ?case
    by (rule exI [of _ ae], rule exI [of _ ag], rule exI [of _ am], rule exI [of _ "s_store s1l"],
      rule exI [of _ st2], rule exI [of _ u], rule exI [of _ prior], rule exI [of _ an], rule exI [of _ y])
     (intro conjI appr c4(1) c5(1) res dstc rd cap rep ren i(6); use i tr in simp)
qed

subsection \<open>What fs.move does\<close>

lemma move_start: "check_state env command params (w_used w)
    (s_check \<lparr>s_tree = t, s_store = st, s_check = approval_checker params (w_used w)\<rparr>)"
  by (simp add: check_state_def)

lemma parent_place:
  assumes "open_safe_parent_dir t path roots = Done (dir, name)"
    and "\<And>r. r \<in> set roots \<Longrightarrow> real_place t r"
  shows "path_parts path \<noteq> []" "plain_names (path_parts path)"
    "real_place t (butlast (path_parts path))" "map_of t (butlast (path_parts path)) = Some Dir"
    "\<exists>r \<in> set roots. strict_prefix r (path_parts path)"
  using open_safe_parent_ok [OF assms] below_butlast [of "path_parts path"] by auto

lemma own_place_protected:
  assumes "open_safe_parent_dir t path roots = Done (dir, name)"
    and "\<And>r. r \<in> set roots \<Longrightarrow> real_place t r"
    and "resolve_safe t path roots = Place p"
    and "\<And>l. map_of t (path_parts path) \<noteq> Some (Link l)"
    and "hd (path_parts path) \<in> set protected_names"
  shows "is_protected (path_str p)"
  using resolve_is_target [OF assms(3)] parent_place [OF assms(1,2)] assms(4,5)
    protected_place [of "path_parts path"] by simp

text \<open>What a move that said ok did: the tree, the two captures, the history, the approval.\<close>

lemma move_effect:
  assumes "handle_fs_move env params w = (Returned r, w')" "reply_ok r" "real_roots env (w_tree w)"
  defines "src \<equiv> str_param params ''src'' []" and "dst \<equiv> str_param params ''dst'' []"
  obtains b u st1 x st2 y where
    "map_of (w_tree w) (path_parts src) = Some (File b)"
    "map_of (w_tree w') = (map_of (w_tree w))(path_parts src := None, path_parts dst := Some (File b))"
    "\<exists>root \<in> set (roots_now env (w_tree w)). strict_prefix root (path_parts src)"
    "\<exists>root \<in> set (roots_now env (w_tree w)). strict_prefix root (path_parts dst)"
    "\<And>c. map_of (w_tree w) (path_parts dst) = Some (File c) \<Longrightarrow>
       capture (ev_sha256 env) (ev_utc_now env) dst c (''pre-move-'' @ str_param params ''proposal_id'' ''direct'')
         Move_dst (str_param params ''actor'' ''agent'') (w_store w) = (Value u, st1)"
    "capture (ev_sha256 env) (ev_utc_now env) src b (str_param params ''proposal_id'' ''direct'') Move_src
       (str_param params ''actor'' ''agent'') st1 = (Value x, st2)"
    "rename_history st2 src dst = (y, w_store w')" "src \<noteq> dst"
    "hd (path_parts src) \<in> set protected_names \<or>
     hd (path_parts dst) \<in> set protected_names \<and> (\<forall>l. map_of (w_tree w) (path_parts dst) \<noteq> Some (Link l)) \<Longrightarrow>
       authorised (asked env ''fs.move'' params (w_used w))"
proof -
  let ?roots = "roots_now env (w_tree w)" and ?sha = "ev_sha256 env"
  obtain s' where run: "fs_move_body env params \<lparr>s_tree = w_tree w, s_store = w_store w,
      s_check = approval_checker params (w_used w)\<rparr> = (Inr r, s')"
    and w': "w_tree w' = s_tree s'" "w_store w' = s_store s'"
    by (rule run_handler_ok [OF assms(1) [unfolded handle_fs_move_def] assms(2) only_errors_fs_move])
  from ends_okD [OF fs_move_ok [OF move_start] run, unfolded fs_state.select_convs, folded src_def dst_def]
  obtain p q b st1 st2 u prior x y where
    appr: "is_protected src \<or> is_protected dst \<or> is_protected (path_str p) \<or> is_protected (path_str q) \<longrightarrow>
        authorised (asked env ''fs.move'' params (w_used w))"
    and res: "resolve_safe (w_tree w) src ?roots = Place p" "resolve_safe (w_tree w) dst ?roots = Place q"
    and ex: "p \<noteq> q"
    and dstc: "if path_exists (w_tree w) q
       then read_bytes_safe (w_tree w) dst ?roots True = Done prior \<and>
         capture ?sha (ev_utc_now env) dst prior (''pre-move-'' @ str_param params ''proposal_id'' ''direct'')
           Move_dst (str_param params ''actor'' ''agent'') (w_store w) = (Value u, st1)
       else st1 = w_store w"
    and rd: "read_bytes_safe (w_tree w) src ?roots False = Done b"
    and srcc: "capture ?sha (ev_utc_now env) src b (str_param params ''proposal_id'' ''direct'') Move_src
        (str_param params ''actor'' ''agent'') st1 = (Value x, st2)"
    and rep: "replace_safe (ev_device env) (w_tree w) src dst ?roots = Done (s_tree s')"
    and ren: "rename_history st2 src dst = (y, s_store s')"
    by (elim exE conjE) rule
  note real = real_rootsD [OF assms(3)]
  obtain sdir sname ddir dname n where par: "open_safe_parent_dir (w_tree w) src ?roots = Done (sdir, sname)"
    "open_safe_parent_dir (w_tree w) dst ?roots = Done (ddir, dname)"
    and n: "map_of (w_tree w) (path_parts src) = Some n"
    and t': "s_tree s' = AList.update (path_parts dst) n (AList.delete (path_parts src) (w_tree w))"
    by (rule replace_ok [OF rep real])
  note ps = parent_place [OF par(1) real] and qs = parent_place [OF par(2) real]
  have held: "map_of (w_tree w) (path_parts src) = Some (File b)"
    using read_bytes_ok [OF rd] n real by auto
  then have src_link: "map_of (w_tree w) (path_parts src) \<noteq> Some (Link l)" for l by simp
  have moved: "map_of (w_tree w') = (map_of (w_tree w))(path_parts src := None, path_parts dst := Some (File b))"
    using w'(1) t' n held by (simp add: update_conv' delete_conv')
  have cap: "capture ?sha (ev_utc_now env) dst c (''pre-move-'' @ str_param params ''proposal_id'' ''direct'')
      Move_dst (str_param params ''actor'' ''agent'') (w_store w) = (Value u, st1)"
    if c: "map_of (w_tree w) (path_parts dst) = Some (File c)" for c
  proof -
    have "q = path_parts dst" using resolve_is_target [OF res(2) qs(2,1,3)] c by simp
    with c have "path_exists (w_tree w) q" by (simp add: path_exists_def)
    with dstc read_finds(2) [OF real qs(1,3,4) c, where m = True and c = prior] show ?thesis by simp
  qed
  have prot: "authorised (asked env ''fs.move'' params (w_used w))"
    if "hd (path_parts src) \<in> set protected_names \<or>
      hd (path_parts dst) \<in> set protected_names \<and> (\<forall>l. map_of (w_tree w) (path_parts dst) \<noteq> Some (Link l))"
    using that appr own_place_protected [OF par(1) real res(1) src_link]
      own_place_protected [OF par(2) real res(2)] by blast
  have "src \<noteq> dst" using res ex by auto
  with that held moved ps(5) qs(5) cap srcc ren [folded w'(2)] prot show thesis by blast
qed

text \<open>
  What a move that says ok did: the source was a file, and its bytes are now at the
  destination, gone from the source, everything else untouched; both places are below allowed
  roots; what the destination held is in the backup store; and if the source, or the destination
  unless it is a symlink, lies under a protected root, the approval check authorised the call.
\<close>

theorem fs_move_moves:
  assumes "handle_fs_move env params w = (Returned r, w')" "reply_ok r"
    and "real_roots env (w_tree w)" "content_addressed (ev_sha256 env) (w_store w)"
  shows "let p = path_parts (str_param params ''src'' []); q = path_parts (str_param params ''dst'' [])
    in (\<exists>b. map_of (w_tree w) p = Some (File b) \<and>
          map_of (w_tree w') = (map_of (w_tree w))(p := None, q := Some (File b))) \<and>
      (\<exists>root \<in> set (roots_now env (w_tree w)). strict_prefix root p) \<and>
      (\<exists>root \<in> set (roots_now env (w_tree w)). strict_prefix root q) \<and>
      (\<forall>c. map_of (w_tree w) q = Some (File c) \<longrightarrow>
         (\<exists>d. fetch_object (w_store w') (ev_sha256 env c) = Value d \<and> ev_sha256 env d = ev_sha256 env c)) \<and>
      (hd p \<in> set protected_names \<or>
       hd q \<in> set protected_names \<and> (\<forall>l. map_of (w_tree w) q \<noteq> Some (Link l)) \<longrightarrow>
       authorised (asked env ''fs.move'' params (w_used w)))"
proof -
  obtain b u st1 x st2 y where e:
    "map_of (w_tree w) (path_parts (str_param params ''src'' [])) = Some (File b)"
    "map_of (w_tree w') = (map_of (w_tree w))(path_parts (str_param params ''src'' []) := None,
       path_parts (str_param params ''dst'' []) := Some (File b))"
    "\<exists>root \<in> set (roots_now env (w_tree w)). strict_prefix root (path_parts (str_param params ''src'' []))"
    "\<exists>root \<in> set (roots_now env (w_tree w)). strict_prefix root (path_parts (str_param params ''dst'' []))"
    and cap: "\<And>c. map_of (w_tree w) (path_parts (str_param params ''dst'' [])) = Some (File c) \<Longrightarrow>
       capture (ev_sha256 env) (ev_utc_now env) (str_param params ''dst'' []) c
         (''pre-move-'' @ str_param params ''proposal_id'' ''direct'') Move_dst
         (str_param params ''actor'' ''agent'') (w_store w) = (Value u, st1)"
    and srcc: "capture (ev_sha256 env) (ev_utc_now env) (str_param params ''src'' []) b
       (str_param params ''proposal_id'' ''direct'') Move_src (str_param params ''actor'' ''agent'') st1 =
       (Value x, st2)"
    and ren: "rename_history st2 (str_param params ''src'' []) (str_param params ''dst'' []) = (y, w_store w')"
    and prot: "hd (path_parts (str_param params ''src'' [])) \<in> set protected_names \<or>
     hd (path_parts (str_param params ''dst'' [])) \<in> set protected_names \<and>
       (\<forall>l. map_of (w_tree w) (path_parts (str_param params ''dst'' [])) \<noteq> Some (Link l)) \<Longrightarrow>
     authorised (asked env ''fs.move'' params (w_used w))"
    by (rule move_effect [OF assms(1-3)]) blast
  have "\<exists>d. fetch_object (w_store w') (ev_sha256 env c) = Value d \<and> ev_sha256 env d = ev_sha256 env c"
    if at_dst: "map_of (w_tree w) (path_parts (str_param params ''dst'' [])) = Some (File c)" for c
  proof -
    obtain d where "fetch_object st1 (ev_sha256 env c) = Value d" "ev_sha256 env d = ev_sha256 env c"
      by (rule capture_body [OF assms(4) cap [OF at_dst]])
    with capture_keeps_body [OF srcc] rename_objects [OF ren] show ?thesis
      by (auto simp: fetch_object_def)
  qed
  with e prot show ?thesis unfolding Let_def by blast
qed

text \<open>
  C25. A move over a file can be undone: after a move that said ok onto a path that held bytes
  \<open>c\<close>, restoring version -1 of that path puts \<open>c\<close> back, although the history of the source has
  been carried in front of it.
\<close>

theorem restore_undoes_move:
  assumes "handle_fs_move env params w = (Returned r, w1)" "reply_ok r"
    and "real_roots env (w_tree w)" "content_addressed (ev_sha256 env) (w_store w)"
    and "map_of (w_tree w) (path_parts (str_param params ''dst'' [])) = Some (File c)"
    and "\<And>d. ev_sha256 env d = ev_sha256 env c \<Longrightarrow> d = c"
    and "history (w_store w) (str_param params ''src'' []) = Value vs"
    and "history (w_store w) (str_param params ''dst'' []) = Value ws"
    and "handle_fs_restore env' params' w1 = (Returned r', w2)" "reply_ok r'"
    and "str_param params' ''path'' [] = str_param params ''dst'' []"
    and "dget params' ''version'' = JInt (-1)"
    and "real_roots env' (w_tree w1)"
    and "\<not> prefix (trash_place env' (AList.update (path_parts (str_param params ''dst'' [])) (File c) (w_tree w1)))
           (path_parts (str_param params ''dst'' []))"
  shows "map_of (w_tree w2) (path_parts (str_param params ''dst'' [])) = Some (File c)"
proof -
  let ?src = "str_param params ''src'' []" and ?dst = "str_param params ''dst'' []"
  obtain b u st1 x st2 y where cap: "capture (ev_sha256 env) (ev_utc_now env) ?dst c
         (''pre-move-'' @ str_param params ''proposal_id'' ''direct'') Move_dst
         (str_param params ''actor'' ''agent'') (w_store w) = (Value u, st1)"
    and srcc: "capture (ev_sha256 env) (ev_utc_now env) ?src b
       (str_param params ''proposal_id'' ''direct'') Move_src (str_param params ''actor'' ''agent'') st1 =
       (Value x, st2)"
    and ren: "rename_history st2 ?src ?dst = (y, w_store w1)" and ne: "?src \<noteq> ?dst"
    by (rule move_effect [OF assms(1-3)]) (use assms(5) in blast)
  have "history st2 ?src = Value (vs @ [x])" "history st2 ?dst = Value (ws @ [u])"
    using capture_history [OF cap] capture_history [OF srcc] assms(7,8) ne by auto
  from rename_keeps_suffix [OF ren ne this] obtain us where
    h: "history (w_store w1) ?dst = Value ((us @ ws) @ [u])" by auto
  obtain d where "fetch_object st1 (ev_sha256 env c) = Value d" "ev_sha256 env d = ev_sha256 env c"
    by (rule capture_body [OF assms(4) cap])
  then have "fetch_object (w_store w1) (v_sha256 u) = Value c"
    using assms(6) [of d] capture_keeps_body [OF srcc] rename_objects [OF ren] capture_version(1) [OF cap]
    by (auto simp: fetch_object_def)
  from restore_latest [OF h this assms(9-14)] show ?thesis .
qed

subsection \<open>What fs.delete does\<close>

lemma trash_act_ok:
  "trash_act env p s = (Inr x, s') \<Longrightarrow>
     trash_file env p (s_tree s) = (Inr x, s_tree s') \<and> s_store s' = s_store s"
  by (auto simp: trash_act_def give_def stop_def split: prod.splits sum.splits)

lemma fs_delete_ok:
  defines "path params \<equiv> str_param params ''path'' []"
  assumes "check_state env ''fs.delete'' params used (s_check s)"
  shows "ends_ok (fs_delete_body env params) s (\<lambda>r s'.
    \<exists>p b v x. (is_protected (path params) \<or> is_protected (path_str p) \<longrightarrow>
        authorised (asked env ''fs.delete'' params used)) \<and> \<not> is_storage (path params) \<and>
      resolve_safe (s_tree s) (path params) (roots_now env (s_tree s)) = Place p \<and>
      read_bytes_safe (s_tree s) (path params) (roots_now env (s_tree s)) False = Done b \<and>
      capture (ev_sha256 env) (ev_utc_now env) (path params) b
        (str_param params ''proposal_id'' ''direct'') Delete_op
        (str_param params ''actor'' ''agent'') (s_store s) = (Value v, s_store s') \<and>
      trash_file env p (s_tree s) = (Inr x, s_tree s'))"
  unfolding fs_delete_body_def Let_def path_def [symmetric]
proof ((rule ends_ok_give ends_ok_split ends_ok_seq)+, goal_cases)
  case (1 a s1 aa s1a ab s1b ac s1c ad s1d ae s1e af s1f ag s1g ah s1h ai s1i)
  have b: "s1a = s"
    using refuse_some_ok [OF 1(1)] refuse_ok [OF 1(2)] by simp
  note c3 = preflight_ok [OF 1(3), unfolded b, OF assms(2)]
  note e4 = resolve_write_target_ok [OF 1(4)]
  note c5 = post_check_ok [OF 1(5), unfolded e4(1), OF c3(5)]
  have i: "s1f = s1d" "s_tree s1d = s_tree s" "s_store s1d = s_store s" "s_tree s1b = s_tree s"
    using the_tree_ok [OF 1(6)] refuse_ok [OF 1(7)] c3(3,4) c5(2,3) by simp_all
  note r8 = read_for_move_ok [OF 1(8)]
  from capture_bytes_ok [OF 1(9)] r8 i have cap: "capture (ev_sha256 env) (ev_utc_now env) (path params) ag
        (str_param params ''proposal_id'' ''direct'') Delete_op
        (str_param params ''actor'' ''agent'') (s_store s) = (Value ah, s_store s1h)" and t: "s_tree s1h = s_tree s"
    by auto
  note t10 = trash_act_ok [OF 1(10), unfolded t]
  have rd: "read_bytes_safe (s_tree s) (path params) (roots_now env (s_tree s)) False = Done ag"
    and res: "resolve_safe (s_tree s) (path params) (roots_now env (s_tree s)) = Place ac"
    using r8 e4(2) i by simp_all
  show ?case
    using c3(1,2) c5(1) rd res cap t10
    by - (rule exI [of _ ac], rule exI [of _ ag], rule exI [of _ ah], rule exI [of _ ai], auto)
qed

lemma delete_effect:
  assumes "handle_fs_delete env params w = (Returned r, w')" "reply_ok r" "real_roots env (w_tree w)"
  defines "path \<equiv> str_param params ''path'' []"
  assumes "map_of (w_tree w) (path_parts path) = Some (File b)"
    and "path_parts path \<noteq> []" "real_place (w_tree w) (butlast (path_parts path))"
    and "map_of (w_tree w) (butlast (path_parts path)) = Some Dir" "plain_names (path_parts path)"
  obtains v x where
    "capture (ev_sha256 env) (ev_utc_now env) path b (str_param params ''proposal_id'' ''direct'') Delete_op
       (str_param params ''actor'' ''agent'') (w_store w) = (Value v, w_store w')"
    "trash_file env (path_parts path) (w_tree w) = (Inr x, w_tree w')"
    "is_protected path \<or> hd (path_parts path) \<in> set protected_names \<Longrightarrow>
       authorised (asked env ''fs.delete'' params (w_used w))"
proof -
  let ?roots = "roots_now env (w_tree w)"
  obtain s' where run: "fs_delete_body env params \<lparr>s_tree = w_tree w, s_store = w_store w,
      s_check = approval_checker params (w_used w)\<rparr> = (Inr r, s')"
    and w': "w_tree w' = s_tree s'" "w_store w' = s_store s'"
    by (rule run_handler_ok [OF assms(1) [unfolded handle_fs_delete_def] assms(2) only_errors_fs_delete])
  from ends_okD [OF fs_delete_ok [OF move_start] run, unfolded fs_state.select_convs, folded path_def]
  obtain p c v x where appr: "is_protected path \<or> is_protected (path_str p) \<longrightarrow>
        authorised (asked env ''fs.delete'' params (w_used w))"
    and res: "resolve_safe (w_tree w) path ?roots = Place p"
    and rd: "read_bytes_safe (w_tree w) path ?roots False = Done c"
    and cap: "capture (ev_sha256 env) (ev_utc_now env) path c (str_param params ''proposal_id'' ''direct'')
       Delete_op (str_param params ''actor'' ''agent'') (w_store w) = (Value v, s_store s')"
    and tr: "trash_file env p (w_tree w) = (Inr x, s_tree s')"
    by (elim exE conjE) rule
  note real = real_rootsD [OF assms(3)]
  have p: "p = path_parts path" using resolve_is_target [OF res assms(9,6,7)] assms(5) by simp
  have "c = b" by (rule read_finds(2) [OF real assms(6-8,5) rd])
  with that cap tr w' p appr protected_place [OF assms(6)] show thesis by auto
qed

text \<open>
  A delete can be undone, whatever the trash does: after an \<open>fs.delete\<close> that said ok of a
  file with bytes \<open>b\<close>, restoring version -1 of its path puts the file back with bytes \<open>b\<close>.
\<close>

theorem restore_undoes_delete:
  assumes "handle_fs_delete env params w = (Returned r, w1)" "reply_ok r"
    and "real_roots env (w_tree w)" "content_addressed (ev_sha256 env) (w_store w)"
    and "map_of (w_tree w) (path_parts (str_param params ''path'' [])) = Some (File b)"
    and "real_place (w_tree w) (butlast (path_parts (str_param params ''path'' [])))"
    and "map_of (w_tree w) (butlast (path_parts (str_param params ''path'' []))) = Some Dir"
    and "path_parts (str_param params ''path'' []) \<noteq> []" "plain_names (path_parts (str_param params ''path'' []))"
    and "\<And>d. ev_sha256 env d = ev_sha256 env b \<Longrightarrow> d = b"
    and "history (w_store w) (str_param params ''path'' []) = Value vs"
    and "handle_fs_restore env' params' w1 = (Returned r', w2)" "reply_ok r'"
    and "str_param params' ''path'' [] = str_param params ''path'' []"
    and "dget params' ''version'' = JInt (-1)"
    and "real_roots env' (w_tree w1)"
    and "\<not> prefix (trash_place env' (AList.update (path_parts (str_param params ''path'' [])) (File b) (w_tree w1)))
           (path_parts (str_param params ''path'' []))"
  shows "map_of (w_tree w2) (path_parts (str_param params ''path'' [])) = Some (File b)"
proof -
  obtain v x where cap: "capture (ev_sha256 env) (ev_utc_now env) (str_param params ''path'' []) b
      (str_param params ''proposal_id'' ''direct'') Delete_op (str_param params ''actor'' ''agent'')
      (w_store w) = (Value v, w_store w1)"
    by (rule delete_effect [OF assms(1-3,5,8,6,7,9)])
  have h: "history (w_store w1) (str_param params ''path'' []) = Value (vs @ [v])"
    using capture_history [OF cap] assms(11) by simp
  obtain d where "fetch_object (w_store w1) (ev_sha256 env b) = Value d" "ev_sha256 env d = ev_sha256 env b"
    by (rule capture_body [OF assms(4) cap])
  then have "fetch_object (w_store w1) (v_sha256 v) = Value b"
    using assms(10) [of d] capture_version(1) [OF cap] by simp
  from restore_latest [OF h this assms(12-17)] show ?thesis .
qed

subsection \<open>The fallback trash\<close>

lemma make_dirs_adds:
  assumes "make_dirs t here ns = (res, t')"
  shows "map_of t' q = map_of t q \<or> map_of t q = None \<and> map_of t' q = Some Dir"
  using assms
proof (induction t here ns arbitrary: res t' rule: make_dirs.induct)
  case (2 t here n ns)
  show ?case
  proof (cases "n = ''..''")
    case True
    then show ?thesis using 2(1) [OF True] 2(5) by simp
  next
    case n: False
    show ?thesis
    proof (cases "map_of t (here @ [n])")
      case None
      with n 2(5) have "make_dirs (AList.update (here @ [n]) Dir t) (here @ [n]) ns = (res, t')" by simp
      from 2(2) [OF n None this] show ?thesis using None by (auto simp: update_conv' split: if_splits)
    next
      case (Some k)
      then show ?thesis
        using n 2(3) [OF n Some] 2(4) [OF n Some] 2(5)
        by (cases k) (auto simp: Let_def split: if_splits)
    qed
  qed
qed simp

lemma trash_name_longer: "trash_name env p \<noteq> last p"
proof
  assume "trash_name env p = last p"
  then have "length (trash_name env p) = length (last p)" by simp
  then show False by (simp add: trash_name_def)
qed

text \<open>
  In the fallback trash a delete loses nothing: when \<open>send2trash\<close> is not installed and
  \<open>fs.delete\<close> said ok, the file is gone from its place and its bytes are at a place that was free
  or held an older trash entry of that name; everything else there was is unchanged, and what is
  new are directories.
\<close>

theorem delete_moves_to_trash:
  assumes "handle_fs_delete env params w = (Returned r, w')" "reply_ok r"
    and "real_roots env (w_tree w)" "ev_send2trash env = None"
    and "map_of (w_tree w) (path_parts (str_param params ''path'' [])) = Some (File b)"
    and "path_parts (str_param params ''path'' []) \<noteq> []"
    and "real_place (w_tree w) (butlast (path_parts (str_param params ''path'' [])))"
    and "map_of (w_tree w) (butlast (path_parts (str_param params ''path'' []))) = Some Dir"
    and "plain_names (path_parts (str_param params ''path'' []))"
  shows "let p = path_parts (str_param params ''path'' []) in
    map_of (w_tree w') p = None \<and>
    (\<exists>x. x \<noteq> p \<and> map_of (w_tree w') x = Some (File b) \<and>
      (last x = trash_name env p \<or> map_of (w_tree w) x = None) \<and>
      (\<forall>q. q \<noteq> p \<longrightarrow> q \<noteq> x \<longrightarrow> map_of (w_tree w') q = map_of (w_tree w) q \<or>
         map_of (w_tree w) q = None \<and> map_of (w_tree w') q = Some Dir))"
proof -
  let ?p = "path_parts (str_param params ''path'' [])"
  obtain v x where tr: "trash_file env ?p (w_tree w) = (Inr x, w_tree w')"
    by (rule delete_effect [OF assms(1-3,5-9)])
  then obtain d t1 where md: "make_dirs (w_tree w) (trash_start env) (path_parts (ev_trash_dir env)) = (Inr d, t1)"
    and mv: "move_file t1 ?p (d @ [trash_name env ?p]) = Inr (w_tree w')"
    using assms(4) by (auto simp: trash_file_def split: prod.splits sum.splits)
  note adds = make_dirs_adds [OF md]
  have at: "map_of t1 ?p = Some (File b)" using adds [of ?p] assms(5) by auto
  define q where "q = (if map_of t1 (d @ [trash_name env ?p]) = Some Dir
      then d @ [trash_name env ?p] @ [last ?p] else d @ [trash_name env ?p])"
  have new: "w_tree w' = AList.update q (File b) (AList.delete ?p t1)"
    "q \<noteq> d @ [trash_name env ?p] \<longrightarrow> map_of t1 q = None"
    using mv at by (auto simp: move_file_def q_def Let_def split: if_splits)
  have qp: "q \<noteq> ?p"
  proof
    assume "q = ?p"
    with new(2) at have "?p = d @ [trash_name env ?p]" by auto
    then have "last ?p = trash_name env ?p" by (metis last_snoc)
    then show False using trash_name_longer [of env ?p] by simp
  qed
  have "map_of (w_tree w') = (map_of t1)(?p := None, q := Some (File b))"
    using new(1) by (simp add: update_conv' delete_conv')
  moreover have "last q = trash_name env ?p \<or> map_of (w_tree w) q = None"
    using new(2) adds [of q] by (cases "q = d @ [trash_name env ?p]") auto
  ultimately show ?thesis
    unfolding Let_def using qp adds by (intro conjI exI [of _ q]) auto
qed

subsection \<open>Sample runs\<close>

definition two_files :: tree where
  "two_files = ([''share'', ''b''], File [8, 9]) # sample_tree"

definition two_world :: fs_world where
  "two_world = \<lparr>w_tree = two_files, w_store = empty_store, w_used = []\<rparr>"

definition sample_move :: dict where
  "sample_move = [(''src'', JStr ''/share/a''), (''dst'', JStr ''/share/b'')]"

definition restore_last :: "string \<Rightarrow> dict" where
  "restore_last path = [(''path'', JStr path), (''version'', JInt (-1))]"

definition restorable :: "outcome \<times> fs_world \<Rightarrow> string \<Rightarrow> nat list \<Rightarrow> bool" where
  "restorable run path b =
     (case run of
        (Returned r, w1) \<Rightarrow>
          reply_ok r \<and> real_roots sample_env (w_tree w1) \<and>
          \<not> prefix (trash_place sample_env (AList.update (path_parts path) (File b) (w_tree w1))) (path_parts path) \<and>
          (case handle_fs_restore sample_env (restore_last path) w1 of
             (Returned r', _) \<Rightarrow> reply_ok r' | _ \<Rightarrow> False)
      | _ \<Rightarrow> False)"

lemma restorableE:
  assumes "restorable run path b"
  obtains r w1 r' w2 where "run = (Returned r, w1)" "reply_ok r" "real_roots sample_env (w_tree w1)"
    "\<not> prefix (trash_place sample_env (AList.update (path_parts path) (File b) (w_tree w1))) (path_parts path)"
    "handle_fs_restore sample_env (restore_last path) w1 = (Returned r', w2)" "reply_ok r'"
  using assms by (auto simp: restorable_def split: prod.splits outcome.splits)

lemma restore_last_params [simp]:
  "str_param (restore_last path) ''path'' [] = path" "dget (restore_last path) ''version'' = JInt (-1)"
  by (simp_all add: restore_last_def str_param_def)

lemma sample_sha: "ev_sha256 sample_env d = ev_sha256 sample_env c \<Longrightarrow> d = c"
  using unary_digest_inj by (simp add: sample_env_def)

lemma sample_store: "content_addressed (ev_sha256 sample_env) (w_store two_world)"
  by (simp add: two_world_def content_addressed_def empty_store_def)

lemma two_roots: "real_roots sample_env (w_tree two_world)"
  by code_simp

lemma sample_moves: "restorable (handle_fs_move sample_env sample_move two_world) ''/share/b'' [8, 9]"
  by code_simp

lemma sample_deletes: "restorable (handle_fs_delete sample_env [(''path'', JStr ''/share/b'')] two_world) ''/share/b'' [8, 9]"
  by code_simp

lemma two_histories:
  "history (w_store two_world) ''/share/a'' = Value []" "history (w_store two_world) ''/share/b'' = Value []"
  by code_simp+

lemma two_places:
  "path_parts ''/share/b'' = [''share'', ''b'']" "map_of (w_tree two_world) [''share'', ''b''] = Some (File [8, 9])"
  "real_place (w_tree two_world) [''share'']" "map_of (w_tree two_world) [''share''] = Some Dir"
  "plain_names [''share'', ''b'']"
  by code_simp+

lemma sample_move_params [simp]:
  "str_param sample_move ''src'' [] = ''/share/a''" "str_param sample_move ''dst'' [] = ''/share/b''"
  "str_param [(''path'', JStr s)] ''path'' [] = s"
  by (simp_all add: sample_move_def str_param_def)

theorem fs_move_moves_witness:
  "map_of (w_tree (snd (handle_fs_move sample_env sample_move two_world))) [''share'', ''b''] = Some (File [7])"
proof -
  obtain r w1 where run: "handle_fs_move sample_env sample_move two_world = (Returned r, w1)" "reply_ok r"
    by (rule restorableE [OF sample_moves])
  have p: "path_parts ''/share/a'' = [''share'', ''a'']" "map_of (w_tree two_world) [''share'', ''a''] = Some (File [7])"
    by code_simp+
  from fs_move_moves [OF run two_roots sample_store] show ?thesis
    unfolding Let_def using p two_places(1) run(1) by auto
qed

theorem restore_undoes_move_witness:
  "map_of (w_tree (snd (handle_fs_restore sample_env (restore_last ''/share/b'')
     (snd (handle_fs_move sample_env sample_move two_world))))) [''share'', ''b''] = Some (File [8, 9])"
proof -
  obtain r w1 r' w2 where run: "handle_fs_move sample_env sample_move two_world = (Returned r, w1)" "reply_ok r"
      "real_roots sample_env (w_tree w1)"
      "\<not> prefix (trash_place sample_env (AList.update (path_parts ''/share/b'') (File [8, 9]) (w_tree w1)))
         (path_parts ''/share/b'')"
    and undo: "handle_fs_restore sample_env (restore_last ''/share/b'') w1 = (Returned r', w2)" "reply_ok r'"
    by (rule restorableE [OF sample_moves])
  have "map_of (w_tree w2) (path_parts (str_param sample_move ''dst'' [])) = Some (File [8, 9])"
    by (rule restore_undoes_move [OF run(1,2) two_roots sample_store _ _ _ _ undo])
       (use two_places two_histories run(3,4) sample_sha in simp_all)
  then show ?thesis using run(1) undo(1) two_places(1) by simp
qed

theorem restore_undoes_delete_witness:
  "map_of (w_tree (snd (handle_fs_restore sample_env (restore_last ''/share/b'')
     (snd (handle_fs_delete sample_env [(''path'', JStr ''/share/b'')] two_world))))) [''share'', ''b''] =
   Some (File [8, 9])"
proof -
  let ?del = "[(''path'', JStr ''/share/b'')]"
  obtain r w1 r' w2 where run: "handle_fs_delete sample_env ?del two_world = (Returned r, w1)" "reply_ok r"
      "real_roots sample_env (w_tree w1)"
      "\<not> prefix (trash_place sample_env (AList.update (path_parts ''/share/b'') (File [8, 9]) (w_tree w1)))
         (path_parts ''/share/b'')"
    and undo: "handle_fs_restore sample_env (restore_last ''/share/b'') w1 = (Returned r', w2)" "reply_ok r'"
    by (rule restorableE [OF sample_deletes])
  have "map_of (w_tree w2) (path_parts (str_param ?del ''path'' [])) = Some (File [8, 9])"
    by (rule restore_undoes_delete [OF run(1,2) two_roots sample_store _ _ _ _ _ _ _ undo])
       (use two_places two_histories run(3,4) sample_sha in simp_all)
  then show ?thesis using run(1) undo(1) two_places(1) by simp
qed

theorem delete_moves_to_trash_witness:
  "map_of (w_tree (snd (handle_fs_delete sample_env [(''path'', JStr ''/share/b'')] two_world))) [''share'', ''b''] = None"
proof -
  let ?del = "[(''path'', JStr ''/share/b'')]"
  obtain r w1 where run: "handle_fs_delete sample_env ?del two_world = (Returned r, w1)" "reply_ok r"
    by (rule restorableE [OF sample_deletes])
  have "ev_send2trash sample_env = None" by (simp add: sample_env_def)
  from delete_moves_to_trash [OF run two_roots this] show ?thesis
    using two_places run(1) by (simp add: Let_def)
qed

subsection \<open>A protected symlink can be replaced without approval\<close>

definition link_world :: fs_world where
  "link_world = \<lparr>w_tree = ([''config'', ''link''], Link ''/share/gone'') # sample_tree,
     w_store = empty_store, w_used = []\<rparr>"

definition link_move :: dict where
  "link_move = [(''src'', JStr ''/share/a''), (''dst'', JStr ''/./config/link'')]"

text \<open>
  The exception there is real. A destination spelled so that it does not begin with
  \<open>/config/\<close>, whose last name is a symlink to nothing outside the protected roots, passes both
  policy checks: a call without a marker replaces the symlink below \<open>/config\<close> by a file of its
  choice, although the approval check would refuse it.
\<close>

theorem move_replaces_protected_link:
  "hd (path_parts ''/./config/link'') \<in> set protected_names \<and>
   \<not> authorised (asked sample_env ''fs.move'' link_move (w_used link_world)) \<and>
   (case handle_fs_move sample_env link_move link_world of
      (Returned r, w') \<Rightarrow> reply_ok r \<and> map_of (w_tree w') [''config'', ''link''] = Some (File [7])
    | _ \<Rightarrow> False)"
proof (intro conjI)
  show "hd (path_parts ''/./config/link'') \<in> set protected_names" by code_simp
  show "\<not> authorised (asked sample_env ''fs.move'' link_move (w_used link_world))" by code_simp
  show "case handle_fs_move sample_env link_move link_world of
      (Returned r, w') \<Rightarrow> reply_ok r \<and> map_of (w_tree w') [''config'', ''link''] = Some (File [7])
    | _ \<Rightarrow> False" by code_simp
qed

end
