(* ===== verification/Unified_Diff.thy ===== *)
theory Unified_Diff
  imports File_System Canonical_JSON
begin

text \<open>
  The patch engine of \<open>commands/fs_patch.py\<close>: splitting bytes into lines that keep their ends,
  reading hunk headers, and walking the body of each hunk over the source lines. It is specified
  twice: a patch that applies changes the source by its own additions and deletions only, in order
  (soundness), and the text of any list of hunks that fits the source applies (completeness).
\<close>

subsection \<open>Lines\<close>

fun split_lines_keep_ends :: "nat list \<Rightarrow> nat list list" where
  "split_lines_keep_ends [] = []"
| "split_lines_keep_ends (b # bs) =
     (if b = 10 then [b] # split_lines_keep_ends bs
      else (case split_lines_keep_ends bs of [] \<Rightarrow> [[b]] | l # ls \<Rightarrow> (b # l) # ls))"

lemma concat_split_lines [simp]: "concat (split_lines_keep_ends bs) = bs"
  by (induction bs) (auto split: list.split)

text \<open>\<open>repr\<close> of bytes.\<close>

definition bytes_esc :: "nat \<Rightarrow> nat \<Rightarrow> string" where
  "bytes_esc q b =
     (if b = q \<or> b = 0x5C then [CHR 0x5C, char_of b]
      else if b = 9 then [CHR 0x5C, CHR ''t'']
      else if b = 10 then [CHR 0x5C, CHR ''n'']
      else if b = 13 then [CHR 0x5C, CHR ''r'']
      else if b < 32 \<or> 127 \<le> b then [CHR 0x5C, CHR ''x''] @ hex2 b
      else [char_of b])"

definition py_repr_bytes :: "nat list \<Rightarrow> string" where
  "py_repr_bytes bs =
     (let q = (if 0x27 \<in> set bs \<and> 0x22 \<notin> set bs then 0x22 else 0x27)
      in CHR ''b'' # char_of q # concat (map (bytes_esc q) bs) @ [char_of q])"

subsection \<open>Hunk headers\<close>

text \<open>
  \<open>^@@ -(\d+)(?:,(\d+))? \+(\d+)(?:,(\d+))? @@\<close>. After its digits each group must be followed by a
  character that is not a digit, so the greedy reading is the only one.
\<close>

definition is_digit :: "char \<Rightarrow> bool" where
  "is_digit c \<longleftrightarrow> (48::nat) \<le> of_char c \<and> of_char c \<le> (57::nat)"

definition scan_number :: "string \<Rightarrow> (string \<times> string) option" where
  "scan_number s =
     (let d = takeWhile is_digit s in if d = [] then None else Some (d, dropWhile is_digit s))"

definition scan_count :: "string \<Rightarrow> string option \<times> string" where
  "scan_count s =
     (if take 1 s = '','' then
        (case scan_number (drop 1 s) of Some (d, r) \<Rightarrow> (Some d, r) | None \<Rightarrow> (None, s))
      else (None, s))"

definition scan_word :: "string \<Rightarrow> string \<Rightarrow> string option" where
  "scan_word w s = (if prefix w s then Some (drop (length w) s) else None)"

record header =
  old_start :: string
  old_count :: "string option"
  new_start :: string
  new_count :: "string option"

definition hunk_header_re :: "string \<Rightarrow> header option" where
  "hunk_header_re s =
     Option.bind (scan_word ''@@ -'' s) (\<lambda>s1.
     Option.bind (scan_number s1) (\<lambda>(a, s2).
     let (b, s3) = scan_count s2 in
     Option.bind (scan_word '' +'' s3) (\<lambda>s4.
     Option.bind (scan_number s4) (\<lambda>(c, s5).
     let (d, s6) = scan_count s5 in
     Option.bind (scan_word '' @@'' s6) (\<lambda>_.
     Some \<lparr>old_start = a, old_count = b, new_start = c, new_count = d\<rparr>)))))"

text \<open>A control line is compared without a carriage return at its end.\<close>

definition control :: "string \<Rightarrow> string" where
  "control line = (if suffix [CHR 0x0D] line then butlast line else line)"

definition is_hunk :: "string \<Rightarrow> bool" where
  "is_hunk line = prefix ''@@'' (control line)"

text \<open>
  \<open>int\<close> of more than 4300 digits is a \<open>ValueError\<close>, which is no \<open>PatchApplyError\<close> and leaves the
  handler.
\<close>

datatype patch_error = Patch_apply_error string | Digit_limit

definition int_of_digits :: "string \<Rightarrow> patch_error + nat" where
  "int_of_digits d =
     (if 4300 < length d then Inl Digit_limit else Inr (digits_val (map (\<lambda>c. of_char c - 48) d)))"

definition int_of_count :: "string option \<Rightarrow> patch_error + nat" where
  "int_of_count d = (case d of None \<Rightarrow> Inr 1 | Some t \<Rightarrow> int_of_digits t)"

subsection \<open>The body of a hunk\<close>

record walk =
  wk_out :: "nat list list"
  wk_cursor :: nat
  wk_old :: nat
  wk_new :: nat

definition line_at :: "nat list list \<Rightarrow> walk \<Rightarrow> nat list option" where
  "line_at src w = (if wk_cursor w < length src then Some (src ! wk_cursor w) else None)"

definition keep_line :: "nat list \<Rightarrow> walk \<Rightarrow> walk" where
  "keep_line b w = w\<lparr>wk_out := wk_out w @ [b], wk_cursor := Suc (wk_cursor w),
     wk_old := Suc (wk_old w), wk_new := Suc (wk_new w)\<rparr>"

definition drop_line :: "walk \<Rightarrow> walk" where
  "drop_line w = w\<lparr>wk_cursor := Suc (wk_cursor w), wk_old := Suc (wk_old w)\<rparr>"

definition add_line :: "nat list \<Rightarrow> walk \<Rightarrow> walk" where
  "add_line b w = w\<lparr>wk_out := wk_out w @ [b], wk_new := Suc (wk_new w)\<rparr>"

definition mismatch :: "string \<Rightarrow> nat list list \<Rightarrow> walk \<Rightarrow> nat list \<Rightarrow> patch_error" where
  "mismatch kind src w b =
     Patch_apply_error (kind @ '' mismatch at src line '' @ nat_str (wk_cursor w + 1) @
       '': expected '' @ py_repr_bytes b @ '', got '' @
       py_repr_bytes (case line_at src w of None \<Rightarrow> [] | Some l \<Rightarrow> l))"

definition blank_line :: "nat list list \<Rightarrow> walk \<Rightarrow> patch_error + walk" where
  "blank_line src w =
     (if line_at src w = Some [10] then Inr (keep_line [10] w)
      else Inl (Patch_apply_error (''context mismatch at src line '' @ nat_str (wk_cursor w + 1) @
             '': expected blank line'')))"

definition tagged_line :: "nat list list \<Rightarrow> string \<Rightarrow> char \<Rightarrow> nat list \<Rightarrow> walk \<Rightarrow> patch_error + walk" where
  "tagged_line src line tag b w =
     (if tag = CHR '' '' then
        (if line_at src w = Some b then Inr (keep_line b w) else Inl (mismatch ''context'' src w b))
      else if tag = CHR ''-'' then
        (if line_at src w = Some b then Inr (drop_line w) else Inl (mismatch ''delete'' src w b))
      else if tag = CHR ''+'' then Inr (add_line b w)
      else if tag = CHR 0x5C then
        (if prefix [CHR 0x5C, CHR '' ''] line then Inr w
         else Inl (Patch_apply_error (''unrecognised marker line: '' @ py_repr_str line)))
      else Inl (Patch_apply_error (''unrecognised hunk line prefix: '' @ py_repr_str line)))"

text \<open>The marker after a line that has no newline at its end.\<close>

definition no_newline :: "string list \<Rightarrow> bool" where
  "no_newline rest =
     (case rest of [] \<Rightarrow> False | m # _ \<Rightarrow> prefix (CHR 0x5C # '' No newline'') (control m))"

definition body_bytes :: "string \<Rightarrow> string list \<Rightarrow> nat list" where
  "body_bytes body rest = utf8_text (if no_newline rest then body else body @ [CHR 0x0A])"

definition after_marker :: "string list \<Rightarrow> string list" where
  "after_marker rest = (if no_newline rest then tl rest else rest)"

lemma after_marker_length: "length (after_marker rest) \<le> length rest"
  by (simp add: after_marker_def)

function hunk_body ::
  "nat list list \<Rightarrow> string list \<Rightarrow> walk \<Rightarrow> patch_error + (walk \<times> string list)" where
  "hunk_body src [] w = Inr (w, [])"
| "hunk_body src (line # rest) w =
     (if is_hunk line then Inr (w, line # rest)
      else if line = [] then sum_bind (blank_line src w) (hunk_body src rest)
      else sum_bind (tagged_line src line (hd line) (body_bytes (tl line) rest) w)
             (hunk_body src (after_marker rest)))"
  by pat_completeness auto
termination
  by (relation "measure (\<lambda>(src, lines, w). length lines)")
     (auto simp: le_imp_less_Suc after_marker_length)

lemma hunk_body_shorter: "hunk_body src lines w = Inr (w', rest) \<Longrightarrow> length rest \<le> length lines"
proof (induction src lines w arbitrary: w' rest rule: hunk_body.induct)
  case (2 src line lines w)
  then show ?case
    using after_marker_length [of lines]
    by (fastforce simp: sum_bind_Inr split: if_splits)
qed simp

subsection \<open>Applying a patch\<close>

text \<open>Where a hunk begins in the source lines.\<close>

definition hunk_src_index :: "nat \<Rightarrow> nat \<Rightarrow> nat \<Rightarrow> patch_error + nat" where
  "hunk_src_index start declared_old n =
     (if declared_old = 0 then
        (if n < start then Inl (Patch_apply_error (''pure-add hunk at old_start='' @ nat_str start @
             '' is beyond end of source ('' @ nat_str n @ '' lines)''))
         else Inr start)
      else Inr (start - 1))"

definition count_mismatch :: "nat \<Rightarrow> nat \<Rightarrow> nat \<Rightarrow> walk \<Rightarrow> patch_error" where
  "count_mismatch start declared_old declared_new w =
     Patch_apply_error (''hunk count mismatch at old_start='' @ nat_str start @
       '': header declared -'' @ nat_str declared_old @ '' +'' @ nat_str declared_new @
       '', body walked -'' @ nat_str (wk_old w) @ '' +'' @ nat_str (wk_new w))"

definition one_hunk ::
  "nat list list \<Rightarrow> string \<Rightarrow> string list \<Rightarrow> nat list list \<Rightarrow> nat \<Rightarrow>
     patch_error + (walk \<times> string list)" where
  "one_hunk src line rest out cursor =
     (case hunk_header_re (control line) of
        None \<Rightarrow> Inl (Patch_apply_error (''malformed hunk header: '' @ py_repr_str (control line)))
      | Some h \<Rightarrow>
          sum_bind (int_of_digits (old_start h)) (\<lambda>start.
          sum_bind (int_of_count (old_count h)) (\<lambda>declared_old.
          sum_bind (int_of_count (new_count h)) (\<lambda>declared_new.
          sum_bind (hunk_src_index start declared_old (length src)) (\<lambda>index.
          if index < cursor then
            Inl (Patch_apply_error (''overlapping or out-of-order hunk at line '' @ nat_str start))
          else
            sum_bind (hunk_body src rest
              \<lparr>wk_out = out @ take (index - cursor) (drop cursor src), wk_cursor = index,
                wk_old = 0, wk_new = 0\<rparr>) (\<lambda>(w, rest').
            if wk_old w \<noteq> declared_old \<or> wk_new w \<noteq> declared_new
            then Inl (count_mismatch start declared_old declared_new w)
            else Inr (w, rest')))))))"

lemma one_hunk_shorter:
  "one_hunk src line rest out cursor = Inr (w, rest') \<Longrightarrow> length rest' \<le> length rest"
  by (auto simp: one_hunk_def sum_bind_Inr split: option.splits if_splits dest: hunk_body_shorter)

function apply_hunks ::
  "nat list list \<Rightarrow> string list \<Rightarrow> nat list list \<Rightarrow> nat \<Rightarrow> nat \<Rightarrow>
     patch_error + (nat list list \<times> nat \<times> nat)" where
  "apply_hunks src [] out cursor n = Inr (out, cursor, n)"
| "apply_hunks src (line # rest) out cursor n =
     (case one_hunk src line rest out cursor of
        Inl e \<Rightarrow> Inl e
      | Inr (w, rest') \<Rightarrow> apply_hunks src rest' (wk_out w) (wk_cursor w) (Suc n))"
  by pat_completeness auto
termination
  by (relation "measure (\<lambda>(src, lines, out, cursor, n). length lines)")
     (auto simp: le_imp_less_Suc dest: one_hunk_shorter)

text \<open>The lines of a patch: split at newlines, without the empty piece after the last one.\<close>

definition patch_lines :: "string \<Rightarrow> string list" where
  "patch_lines text =
     (let ls = split_on (CHR 0x0A) text in if last ls = [] then butlast ls else ls)"

definition apply_unified_diff :: "nat list \<Rightarrow> string \<Rightarrow> patch_error + (nat list \<times> nat)" where
  "apply_unified_diff original text =
     (let src = split_lines_keep_ends original
      in sum_bind (apply_hunks src (dropWhile (\<lambda>l. \<not> is_hunk l) (patch_lines text)) [] 0 0)
           (\<lambda>(out, cursor, n).
            if n = 0 then Inl (Patch_apply_error ''no hunks found in patch'')
            else Inr (concat (out @ drop cursor src), n)))"

definition run_patch :: "nat list \<Rightarrow> string \<Rightarrow> bool \<Rightarrow> patch_error + (nat list \<times> nat)" where
  "run_patch original text dry_run =
     sum_bind (apply_unified_diff original text)
       (\<lambda>(patched, hunks). Inr (if dry_run then [] else patched, hunks))"

subsection \<open>Edits\<close>

datatype 'a edit = Keep 'a | Del 'a | Add 'a

fun old_lines :: "'a edit list \<Rightarrow> 'a list" where
  "old_lines [] = []"
| "old_lines (Keep l # es) = l # old_lines es"
| "old_lines (Del l # es) = l # old_lines es"
| "old_lines (Add l # es) = old_lines es"

fun new_lines :: "'a edit list \<Rightarrow> 'a list" where
  "new_lines [] = []"
| "new_lines (Keep l # es) = l # new_lines es"
| "new_lines (Del l # es) = new_lines es"
| "new_lines (Add l # es) = l # new_lines es"

fun changes :: "'a edit list \<Rightarrow> 'a edit list" where
  "changes [] = []"
| "changes (Keep l # es) = changes es"
| "changes (e # es) = e # changes es"

lemma edits_append [simp]:
  "old_lines (es @ fs) = old_lines es @ old_lines fs"
  "new_lines (es @ fs) = new_lines es @ new_lines fs"
  "changes (es @ fs) = changes es @ changes fs"
proof -
  show "old_lines (es @ fs) = old_lines es @ old_lines fs" by (induction es rule: old_lines.induct) simp_all
  show "new_lines (es @ fs) = new_lines es @ new_lines fs" by (induction es rule: new_lines.induct) simp_all
  show "changes (es @ fs) = changes es @ changes fs" by (induction es rule: changes.induct) simp_all
qed

lemma keep_all [simp]:
  "old_lines (map Keep ls) = ls" "new_lines (map Keep ls) = ls" "changes (map Keep ls) = []"
  by (induction ls) simp_all

text \<open>What the body lines of a patch say, whatever the source is.\<close>

definition stated :: "char \<Rightarrow> nat list \<Rightarrow> nat list edit list" where
  "stated tag b =
     (if tag = CHR '' '' then [Keep b] else if tag = CHR ''-'' then [Del b]
      else if tag = CHR ''+'' then [Add b] else [])"

function patch_edits :: "string list \<Rightarrow> nat list edit list" where
  "patch_edits [] = []"
| "patch_edits (line # rest) =
     (if is_hunk line then patch_edits rest
      else if line = [] then Keep [10] # patch_edits rest
      else stated (hd line) (body_bytes (tl line) rest) @ patch_edits (after_marker rest))"
  by pat_completeness auto
termination
  by (relation "measure length") (auto simp: le_imp_less_Suc after_marker_length)

definition walked :: "nat list list \<Rightarrow> walk \<Rightarrow> nat list edit list \<Rightarrow> walk \<Rightarrow> bool" where
  "walked src w es w' \<longleftrightarrow>
     wk_out w' = wk_out w @ new_lines es \<and> wk_cursor w' = wk_cursor w + length (old_lines es) \<and>
     wk_old w' = wk_old w + length (old_lines es) \<and> wk_new w' = wk_new w + length (new_lines es) \<and>
     old_lines es = take (length (old_lines es)) (drop (wk_cursor w) src)"

lemma walked_Nil [simp]: "walked src w [] w' \<longleftrightarrow> wk_out w' = wk_out w \<and> wk_cursor w' = wk_cursor w \<and>
    wk_old w' = wk_old w \<and> wk_new w' = wk_new w"
  by (auto simp: walked_def)

lemma line_at_drop: "line_at src w = Some l \<Longrightarrow> drop (wk_cursor w) src = l # drop (Suc (wk_cursor w)) src"
  by (auto simp: line_at_def Cons_nth_drop_Suc split: if_splits)

lemma walked_trans:
  assumes "walked src w es w'" "walked src w' fs w''"
  shows "walked src w (es @ fs) w''"
proof -
  let ?n = "length (old_lines es)" and ?d = "drop (wk_cursor w) src"
  have "take (?n + length (old_lines fs)) ?d = take ?n ?d @ take (length (old_lines fs)) (drop ?n ?d)"
    by (rule take_add)
  moreover have "drop ?n ?d = drop (wk_cursor w') src" using assms(1) by (simp add: walked_def add.commute)
  moreover have "take ?n ?d = old_lines es" "take (length (old_lines fs)) (drop (wk_cursor w') src) = old_lines fs"
    using assms by (simp_all add: walked_def)
  ultimately have "take (?n + length (old_lines fs)) ?d = old_lines es @ old_lines fs" by simp
  then show ?thesis
    using assms by (auto simp: walked_def)
qed

lemma walked_step:
  "line_at src w = Some l \<Longrightarrow> walked src w [Keep l] (keep_line l w)"
  "line_at src w = Some l \<Longrightarrow> walked src w [Del l] (drop_line w)"
  "walked src w [Add l] (add_line l w)"
  using line_at_drop [of src w l]
  by (auto simp: walked_def keep_line_def drop_line_def add_line_def line_at_def split: if_splits)

lemma tagged_line_walked:
  "tagged_line src line tag b w = Inr w' \<Longrightarrow> walked src w (stated tag b) w'"
  by (auto simp: tagged_line_def stated_def intro: walked_step split: if_splits)

lemma hunk_body_walked:
  "hunk_body src lines w = Inr (w', rest) \<Longrightarrow>
     \<exists>es. patch_edits lines = es @ patch_edits rest \<and> walked src w es w' \<and>
       (rest = [] \<or> is_hunk (hd rest))"
proof (induction src lines w arbitrary: w' rest rule: hunk_body.induct)
  case (2 src line lines w)
  consider (hunk) "is_hunk line" | (blank) "\<not> is_hunk line" "line = []" | (tag) "\<not> is_hunk line" "line \<noteq> []"
    by blast
  then show ?case
  proof cases
    case hunk
    then show ?thesis using 2(3) by (intro exI [of _ "[]"]) auto
  next
    case blank
    then obtain w1 where w1: "blank_line src w = Inr w1" and b: "hunk_body src lines w1 = Inr (w', rest)"
      using 2(3) by (auto simp: sum_bind_Inr)
    obtain es where "patch_edits lines = es @ patch_edits rest" "walked src w1 es w'" "rest = [] \<or> is_hunk (hd rest)"
      using 2(1) [OF blank w1 b] by blast
    moreover have "walked src w [Keep [10]] w1"
      using w1 walked_step(1) by (auto simp: blank_line_def split: if_splits)
    ultimately show ?thesis
      using blank walked_trans [of src w "[Keep [10]]" w1 es w']
      by (intro exI [of _ "Keep [10] # es"]) simp
  next
    case tag
    then obtain w1 where w1: "tagged_line src line (hd line) (body_bytes (tl line) lines) w = Inr w1"
      and b: "hunk_body src (after_marker lines) w1 = Inr (w', rest)"
      using 2(3) by (auto simp: sum_bind_Inr)
    obtain es where "patch_edits (after_marker lines) = es @ patch_edits rest" "walked src w1 es w'"
      "rest = [] \<or> is_hunk (hd rest)"
      using 2(2) [OF tag w1 b] by blast
    with tag walked_trans [OF tagged_line_walked [OF w1]] show ?thesis
      by (intro exI [of _ "stated (hd line) (body_bytes (tl line) lines) @ es"]) simp
  qed
qed (simp add: exI [of _ "[]"])

subsection \<open>A patch changes only what it states\<close>

lemma drop_split: "i \<le> j \<Longrightarrow> drop i xs = take (j - i) (drop i xs) @ drop j xs"
  by (metis append_take_drop_id drop_drop le_add_diff_inverse2)

lemma one_hunk_parts:
  assumes "one_hunk src line rest out cursor = Inr (w, rest')"
  obtains index where "cursor \<le> index"
    "hunk_body src rest \<lparr>wk_out = out @ take (index - cursor) (drop cursor src), wk_cursor = index,
       wk_old = 0, wk_new = 0\<rparr> = Inr (w, rest')"
  using assms
  by (auto simp: one_hunk_def sum_bind_Inr not_less split: option.splits if_splits)

lemma one_hunk_edits:
  assumes "one_hunk src line rest out cursor = Inr (w, rest')"
  shows "\<exists>es. changes es @ changes (patch_edits rest') = changes (patch_edits rest) \<and>
    wk_out w = out @ new_lines es \<and> drop cursor src = old_lines es @ drop (wk_cursor w) src \<and>
    (rest' = [] \<or> is_hunk (hd rest'))"
proof -
  obtain index where i: "cursor \<le> index"
    and b: "hunk_body src rest \<lparr>wk_out = out @ take (index - cursor) (drop cursor src), wk_cursor = index,
       wk_old = 0, wk_new = 0\<rparr> = Inr (w, rest')"
    by (rule one_hunk_parts [OF assms])
  obtain fs where f: "patch_edits rest = fs @ patch_edits rest'" "rest' = [] \<or> is_hunk (hd rest')"
    "wk_out w = out @ take (index - cursor) (drop cursor src) @ new_lines fs"
    "wk_cursor w = index + length (old_lines fs)"
    "old_lines fs = take (length (old_lines fs)) (drop index src)"
    using hunk_body_walked [OF b] by (auto simp: walked_def)
  have "drop index src = old_lines fs @ drop (wk_cursor w) src"
    using append_take_drop_id [of "length (old_lines fs)" "drop index src"] f(4,5) by (simp add: add.commute)
  then have "drop cursor src = take (index - cursor) (drop cursor src) @ old_lines fs @ drop (wk_cursor w) src"
    using drop_split [OF i] by metis
  then show ?thesis
    using f by (intro exI [of _ "map Keep (take (index - cursor) (drop cursor src)) @ fs"]) simp
qed

lemma apply_hunks_edits:
  assumes "apply_hunks src lines out cursor n = Inr (out', cursor', n')"
    and "lines = [] \<or> is_hunk (hd lines)"
  shows "\<exists>es. changes es = changes (patch_edits lines) \<and> out' = out @ new_lines es \<and>
    drop cursor src = old_lines es @ drop cursor' src"
  using assms
proof (induction src lines out cursor n rule: apply_hunks.induct)
  case (2 src line rest out cursor n)
  obtain w rest' where o: "one_hunk src line rest out cursor = Inr (w, rest')"
    and a: "apply_hunks src rest' (wk_out w) (wk_cursor w) (Suc n) = Inr (out', cursor', n')"
    using 2(2) by (auto split: sum.splits)
  obtain es where e: "changes es @ changes (patch_edits rest') = changes (patch_edits rest)"
    "wk_out w = out @ new_lines es" "drop cursor src = old_lines es @ drop (wk_cursor w) src"
    "rest' = [] \<or> is_hunk (hd rest')"
    using one_hunk_edits [OF o] by blast
  obtain fs where "changes fs = changes (patch_edits rest')" "out' = wk_out w @ new_lines fs"
    "drop (wk_cursor w) src = old_lines fs @ drop cursor' src"
    using 2(1) [OF o refl a e(4)] by blast
  with e 2(3) show ?case by (intro exI [of _ "es @ fs"]) simp
qed (auto intro: exI [of _ "[]"])

lemma dropWhile_hd: "dropWhile (\<lambda>l. \<not> P l) ls = [] \<or> P (hd (dropWhile (\<lambda>l. \<not> P l) ls))"
  by (induction ls) auto

text \<open>
  C29. Soundness of the patch engine: when a patch applies, original and result are the two sides of
  one script of edits whose deletions and additions are, in order, exactly those the patch text
  states; every line not stated to be deleted is kept, and there was at least one hunk.
\<close>

theorem patch_changes_only_stated:
  assumes "apply_unified_diff original text = Inr (patched, n)"
  shows "\<exists>es. old_lines es = split_lines_keep_ends original \<and> concat (old_lines es) = original \<and>
    concat (new_lines es) = patched \<and>
    changes es = changes (patch_edits (dropWhile (\<lambda>l. \<not> is_hunk l) (patch_lines text))) \<and> 0 < n"
proof -
  let ?src = "split_lines_keep_ends original"
  let ?lines = "dropWhile (\<lambda>l. \<not> is_hunk l) (patch_lines text)"
  obtain out cursor where a: "apply_hunks ?src ?lines [] 0 0 = Inr (out, cursor, n)"
    and n: "0 < n" and p: "patched = concat (out @ drop cursor ?src)"
    using assms by (auto simp: apply_unified_diff_def Let_def sum_bind_Inr split: if_splits)
  obtain es where e: "changes es = changes (patch_edits ?lines)" "out = new_lines es"
    "?src = old_lines es @ drop cursor ?src"
    using apply_hunks_edits [OF a dropWhile_hd] by auto
  have "old_lines (es @ map Keep (drop cursor ?src)) = ?src" using e(3) by simp
  then show ?thesis
    using e p n by (intro exI [of _ "es @ map Keep (drop cursor ?src)"]) simp
qed

subsection \<open>The text of a diff\<close>

text \<open>
  Hunks as \<open>difflib.unified_diff\<close> prints them: a line of text and whether a newline ends it; the
  count of a range left out when it is one, the start of an empty range one less.
\<close>

type_synonym text_line = "string \<times> bool"

definition line_bytes :: "text_line \<Rightarrow> nat list" where
  "line_bytes l = utf8_text (if snd l then fst l @ [CHR 0x0A] else fst l)"

record hunk =
  hk_start :: nat
  hk_new_start :: nat
  hk_edits :: "text_line edit list"

definition marker_line :: string where
  "marker_line = CHR 0x5C # '' No newline at end of file''"

definition line_text :: "char \<Rightarrow> text_line \<Rightarrow> string list" where
  "line_text c l = (c # fst l) # (if snd l then [] else [marker_line])"

fun edit_text :: "text_line edit \<Rightarrow> string list" where
  "edit_text (Keep l) = line_text (CHR '' '') l"
| "edit_text (Del l) = line_text (CHR ''-'') l"
| "edit_text (Add l) = line_text (CHR ''+'') l"

fun edit_line :: "'a edit \<Rightarrow> 'a" where
  "edit_line (Keep l) = l"
| "edit_line (Del l) = l"
| "edit_line (Add l) = l"

definition range_first :: "nat \<Rightarrow> nat \<Rightarrow> nat" where
  "range_first start n = (if n = 0 then start else start + 1)"

definition range_count :: "nat \<Rightarrow> string option" where
  "range_count n = (if n = 1 then None else Some (nat_str n))"

definition range_text :: "nat \<Rightarrow> nat \<Rightarrow> string" where
  "range_text start n = nat_str (range_first start n) @
     (case range_count n of None \<Rightarrow> [] | Some t \<Rightarrow> CHR '','' # t)"

definition header_text :: "hunk \<Rightarrow> string" where
  "header_text h = ''@@ -'' @ range_text (hk_start h) (length (old_lines (hk_edits h))) @
     '' +'' @ range_text (hk_new_start h) (length (new_lines (hk_edits h))) @ '' @@''"

definition hunk_text :: "hunk \<Rightarrow> string list" where
  "hunk_text h = header_text h # concat (map edit_text (hk_edits h))"

definition diff_text :: "string list \<Rightarrow> hunk list \<Rightarrow> string" where
  "diff_text front hs = concat (map (\<lambda>l. l @ [CHR 0x0A]) (front @ concat (map hunk_text hs)))"

definition old_bytes :: "hunk \<Rightarrow> nat list list" where
  "old_bytes h = map line_bytes (old_lines (hk_edits h))"

definition new_bytes :: "hunk \<Rightarrow> nat list list" where
  "new_bytes h = map line_bytes (new_lines (hk_edits h))"

definition printable :: "hunk \<Rightarrow> bool" where
  "printable h \<longleftrightarrow>
     list_all (\<lambda>e. CHR 0x0A \<notin> set (fst (edit_line e))) (hk_edits h) \<and>
     length (nat_str (hk_start h + 1)) \<le> 4300 \<and> length (nat_str (hk_start h)) \<le> 4300 \<and>
     length (nat_str (length (old_lines (hk_edits h)))) \<le> 4300 \<and>
     length (nat_str (length (new_lines (hk_edits h)))) \<le> 4300"

fun fits :: "nat list list \<Rightarrow> nat \<Rightarrow> hunk list \<Rightarrow> bool" where
  "fits src pos [] = True"
| "fits src pos (h # hs) \<longleftrightarrow>
     pos \<le> hk_start h \<and> hk_start h \<le> length src \<and> printable h \<and>
     take (length (old_bytes h)) (drop (hk_start h) src) = old_bytes h \<and>
     fits src (hk_start h + length (old_bytes h)) hs"

fun spliced :: "nat list list \<Rightarrow> nat \<Rightarrow> hunk list \<Rightarrow> nat list list" where
  "spliced src pos [] = drop pos src"
| "spliced src pos (h # hs) = take (hk_start h - pos) (drop pos src) @ new_bytes h @
     spliced src (hk_start h + length (old_bytes h)) hs"

lemma lengths [simp]:
  "length (old_bytes h) = length (old_lines (hk_edits h))"
  "length (new_bytes h) = length (new_lines (hk_edits h))"
  by (simp_all add: old_bytes_def new_bytes_def)

subsubsection \<open>Headers\<close>

lemma nat_str_is_digit: "x \<in> set (nat_str n) \<Longrightarrow> is_digit x"
  using nat_str_digits by (simp add: is_digit_def)

lemma scan_number_nat_str:
  assumes "r = [] \<or> \<not> is_digit (hd r)"
  shows "scan_number (nat_str n @ r) = Some (nat_str n, r)"
proof -
  have "takeWhile is_digit (nat_str n @ r) = nat_str n @ takeWhile is_digit r"
    "dropWhile is_digit (nat_str n @ r) = dropWhile is_digit r"
    using nat_str_is_digit by (simp_all add: takeWhile_append2 dropWhile_append2)
  moreover have "takeWhile is_digit r = []" "dropWhile is_digit r = r"
    using assms by (cases r; simp)+
  moreover have "nat_str n \<noteq> []" using nat_digits_nonempty by (simp add: nat_str_def)
  ultimately show ?thesis by (simp add: scan_number_def)
qed

lemma scan_range:
  assumes "r \<noteq> []" "\<not> is_digit (hd r)" "hd r \<noteq> CHR '',''"
  obtains s where "scan_number (range_text start n @ r) = Some (nat_str (range_first start n), s)"
    "scan_count s = (range_count n, r)"
proof (cases "range_count n")
  case None
  have "scan_count r = (None, r)" using assms by (cases r) (simp_all add: scan_count_def)
  with None assms show ?thesis
    using that [of r] by (simp add: range_text_def scan_number_nat_str)
next
  case (Some t)
  then have t: "t = nat_str n" by (simp add: range_count_def split: if_splits)
  have "scan_count (CHR '','' # nat_str n @ r) = (Some (nat_str n), r)"
    using assms by (simp add: scan_count_def scan_number_nat_str)
  with Some t show ?thesis
    using that [of "CHR '','' # t @ r"] scan_number_nat_str [of "CHR '','' # t @ r"]
    by (simp add: range_text_def is_digit_def)
qed

lemma control_id: "line \<noteq> [] \<Longrightarrow> last line \<noteq> CHR 0x0D \<Longrightarrow> control line = line"
  by (auto simp: control_def suffix_def)

lemma control_header: "control (header_text h) = header_text h"
  by (rule control_id) (simp_all add: header_text_def)

lemma scan_word_append [simp]: "scan_word w (w @ s) = Some s"
  by (simp add: scan_word_def)

lemma header_text_read:
  "hunk_header_re (header_text h) = Some
     \<lparr>old_start = nat_str (range_first (hk_start h) (length (old_lines (hk_edits h)))),
      old_count = range_count (length (old_lines (hk_edits h))),
      new_start = nat_str (range_first (hk_new_start h) (length (new_lines (hk_edits h)))),
      new_count = range_count (length (new_lines (hk_edits h)))\<rparr>"
proof -
  let ?o = "length (old_lines (hk_edits h))" and ?n = "length (new_lines (hk_edits h))"
  let ?r2 = "'' @@''"
  let ?r1 = "'' +'' @ range_text (hk_new_start h) ?n @ ?r2"
  obtain s where s: "scan_number (range_text (hk_start h) ?o @ ?r1) = Some (nat_str (range_first (hk_start h) ?o), s)"
    "scan_count s = (range_count ?o, ?r1)"
    by (rule scan_range [of ?r1]) (simp_all add: is_digit_def)
  obtain u where u: "scan_number (range_text (hk_new_start h) ?n @ ?r2) = Some (nat_str (range_first (hk_new_start h) ?n), u)"
    "scan_count u = (range_count ?n, ?r2)"
    by (rule scan_range [of ?r2]) (simp_all add: is_digit_def)
  have w: "scan_word ''@@ -'' (header_text h) = Some (range_text (hk_start h) ?o @ ?r1)"
    "scan_word '' +'' ?r1 = Some (range_text (hk_new_start h) ?n @ ?r2)" "scan_word '' @@'' ?r2 = Some []"
    by (simp_all add: header_text_def scan_word_def)
  show ?thesis
    unfolding hunk_header_re_def w(1) Let_def
    by (simp only: Option.bind.bind_lunit s u w split_conv)
qed

lemma int_of_nat_str: "length (nat_str n) \<le> 4300 \<Longrightarrow> int_of_digits (nat_str n) = Inr n"
proof -
  assume "length (nat_str n) \<le> 4300"
  moreover have "of_char (digit_char d) - 48 = d" if "d < 10" for d :: nat
    using that by (simp add: digit_char_def)
  then have "map (\<lambda>c. of_char c - 48) (nat_str n) = nat_digits n"
    using nat_digits_lt10 [of _ n] by (simp add: nat_str_def map_idI)
  ultimately show ?thesis by (simp add: int_of_digits_def)
qed

subsubsection \<open>Bodies\<close>

lemma prefix_control: "prefix [c, d] (control (x # s)) \<Longrightarrow> x = c"
  by (cases s rule: rev_cases) (auto simp: control_def split: if_splits)

lemma not_is_hunk: "x \<noteq> CHR ''@'' \<Longrightarrow> \<not> is_hunk (x # s)"
  using prefix_control unfolding is_hunk_def by blast

lemma control_prefix: "prefix (control m) m"
  by (cases m rule: rev_cases) (auto simp: control_def)

lemma marker_control:
  assumes "prefix (CHR 0x5C # '' No newline'') (control m)"
  shows "hd m = CHR 0x5C"
  using prefix_order.trans [OF assms control_prefix] by (cases m) auto

lemma no_newline_hunk: "rest = [] \<or> is_hunk (hd rest) \<Longrightarrow> \<not> no_newline rest"
proof
  assume r: "rest = [] \<or> is_hunk (hd rest)" and "no_newline rest"
  then obtain m ms where m: "rest = m # ms" "prefix (CHR 0x5C # '' No newline'') (control m)"
    by (cases rest) (auto simp: no_newline_def)
  with r have "prefix ''@@'' (control m)" by (simp add: is_hunk_def)
  with m(2) show False by (cases "control m") auto
qed

lemma no_newline_tag: "x \<noteq> CHR 0x5C \<Longrightarrow> \<not> no_newline ((x # s) # rest)"
  using marker_control by (fastforce simp: no_newline_def)

lemma no_newline_edits:
  assumes "rest = [] \<or> is_hunk (hd rest)"
  shows "\<not> no_newline (concat (map edit_text es) @ rest)"
proof (cases es)
  case Nil
  then show ?thesis using no_newline_hunk [OF assms] by simp
next
  case (Cons e fs)
  then show ?thesis by (cases e) (simp_all add: line_text_def no_newline_tag)
qed

lemma no_newline_marker: "no_newline (marker_line # rest)"
  by (simp add: no_newline_def marker_line_def control_def suffix_def)

lemma body_of_line:
  assumes "\<not> no_newline rest"
  shows "body_bytes (fst l) (tl (line_text c l) @ rest) = line_bytes l"
    "after_marker (tl (line_text c l) @ rest) = rest"
  using assms no_newline_marker
  by (simp_all add: body_bytes_def after_marker_def line_text_def line_bytes_def)

definition walk_edits :: "text_line edit list \<Rightarrow> walk \<Rightarrow> walk" where
  "walk_edits es w = \<lparr>wk_out = wk_out w @ map line_bytes (new_lines es),
     wk_cursor = wk_cursor w + length (old_lines es), wk_old = wk_old w + length (old_lines es),
     wk_new = wk_new w + length (new_lines es)\<rparr>"

lemma hunk_body_stop: "rest = [] \<or> is_hunk (hd rest) \<Longrightarrow> hunk_body src rest w = Inr (w, rest)"
  by (cases rest) simp_all

lemma hunk_body_line:
  assumes "x \<noteq> CHR ''@''" "\<not> no_newline rest"
    and "tagged_line src (x # fst l) x (line_bytes l) w = Inr w'"
  shows "hunk_body src (line_text x l @ rest) w = hunk_body src rest w'"
proof -
  have e: "line_text x l @ rest = (x # fst l) # (tl (line_text x l) @ rest)" by (simp add: line_text_def)
  show ?thesis
    unfolding e using assms(1,3) body_of_line [OF assms(2), where l = l and c = x] by (simp add: not_is_hunk)
qed

lemma line_at_take:
  "take (Suc n) (drop (wk_cursor w) src) = l # ls \<Longrightarrow> length (l # ls) = Suc n \<Longrightarrow>
     line_at src w = Some l \<and> take n (drop (Suc (wk_cursor w)) src) = ls"
  by (cases "drop (wk_cursor w) src")
     (auto simp: line_at_def nth_via_drop drop_Suc tl_drop [symmetric] dest: arg_cong [of _ _ length])

lemma hunk_body_edits:
  assumes "take (length (old_lines es)) (drop (wk_cursor w) src) = map line_bytes (old_lines es)"
    and "rest = [] \<or> is_hunk (hd rest)"
  shows "hunk_body src (concat (map edit_text es) @ rest) w = Inr (walk_edits es w, rest)"
  using assms(1)
proof (induction es arbitrary: w)
  case Nil
  then show ?case using hunk_body_stop [OF assms(2)] by (simp add: walk_edits_def)
next
  case (Cons e es)
  let ?rest = "concat (map edit_text es) @ rest"
  note nn = no_newline_edits [OF assms(2), of es]
  show ?case
  proof (cases e)
    case (Keep l)
    with Cons.prems have at: "line_at src w = Some (line_bytes l)"
      "take (length (old_lines es)) (drop (Suc (wk_cursor w)) src) = map line_bytes (old_lines es)"
      using line_at_take [where n = "length (old_lines es)" and w = w and src = src] by auto
    have "hunk_body src (line_text (CHR '' '') l @ ?rest) w = hunk_body src ?rest (keep_line (line_bytes l) w)"
      by (rule hunk_body_line [OF _ nn]) (simp_all add: tagged_line_def at(1))
    then show ?thesis
      using Keep Cons.IH [of "keep_line (line_bytes l) w"] at(2)
      by (simp add: keep_line_def walk_edits_def)
  next
    case (Del l)
    with Cons.prems have at: "line_at src w = Some (line_bytes l)"
      "take (length (old_lines es)) (drop (Suc (wk_cursor w)) src) = map line_bytes (old_lines es)"
      using line_at_take [where n = "length (old_lines es)" and w = w and src = src] by auto
    have "hunk_body src (line_text (CHR ''-'') l @ ?rest) w = hunk_body src ?rest (drop_line w)"
      by (rule hunk_body_line [OF _ nn]) (simp_all add: tagged_line_def at(1))
    then show ?thesis
      using Del Cons.IH [of "drop_line w"] at(2) by (simp add: drop_line_def walk_edits_def)
  next
    case (Add l)
    have "hunk_body src (line_text (CHR ''+'') l @ ?rest) w = hunk_body src ?rest (add_line (line_bytes l) w)"
      by (rule hunk_body_line [OF _ nn]) (simp_all add: tagged_line_def)
    then show ?thesis
      using Add Cons.prems Cons.IH [of "add_line (line_bytes l) w"] by (simp add: add_line_def walk_edits_def)
  qed
qed

subsubsection \<open>Whole diffs\<close>

lemma is_hunk_header: "is_hunk (header_text h)"
  unfolding is_hunk_def control_header by (simp add: header_text_def)

lemma hunks_start: "concat (map hunk_text hs) = [] \<or> is_hunk (hd (concat (map hunk_text hs)))"
  by (cases hs) (simp_all add: hunk_text_def is_hunk_header)

lemma one_hunk_applies:
  assumes "fits src pos (h # hs)"
  shows "one_hunk src (header_text h) (concat (map edit_text (hk_edits h)) @ concat (map hunk_text hs)) out pos =
    Inr (\<lparr>wk_out = out @ take (hk_start h - pos) (drop pos src) @ new_bytes h,
      wk_cursor = hk_start h + length (old_bytes h), wk_old = length (old_bytes h),
      wk_new = length (new_bytes h)\<rparr>, concat (map hunk_text hs))"
proof -
  let ?o = "length (old_lines (hk_edits h))" and ?n = "length (new_lines (hk_edits h))"
  have p: "printable h" "pos \<le> hk_start h" "hk_start h \<le> length src"
    "take ?o (drop (hk_start h) src) = map line_bytes (old_lines (hk_edits h))"
    using assms by (simp_all add: old_bytes_def)
  have nums: "int_of_digits (nat_str (range_first (hk_start h) ?o)) = Inr (range_first (hk_start h) ?o)"
    "int_of_count (range_count ?o) = Inr ?o" "int_of_count (range_count ?n) = Inr ?n"
    using p(1) by (simp_all add: int_of_nat_str range_first_def range_count_def int_of_count_def printable_def)
  have index: "hunk_src_index (range_first (hk_start h) ?o) ?o (length src) = Inr (hk_start h)"
    using p(3) by (simp add: hunk_src_index_def range_first_def)
  have body: "hunk_body src (concat (map edit_text (hk_edits h)) @ concat (map hunk_text hs)) w =
      Inr (walk_edits (hk_edits h) w, concat (map hunk_text hs))" if "wk_cursor w = hk_start h" for w
    using hunk_body_edits [OF _ hunks_start] p(4) that by simp
  show ?thesis
    using p(2)
    by (simp add: one_hunk_def control_header header_text_read nums index body walk_edits_def
        old_bytes_def new_bytes_def)
qed

lemma apply_hunks_applies:
  "fits src pos hs \<Longrightarrow> \<exists>out' c. apply_hunks src (concat (map hunk_text hs)) out pos n =
     Inr (out', c, n + length hs) \<and> out' @ drop c src = out @ spliced src pos hs"
proof (induction hs arbitrary: out pos n)
  case (Cons h hs)
  let ?out = "out @ take (hk_start h - pos) (drop pos src) @ new_bytes h"
  obtain out' c where "apply_hunks src (concat (map hunk_text hs)) ?out
      (hk_start h + length (old_bytes h)) (Suc n) = Inr (out', c, Suc n + length hs)"
    "out' @ drop c src = ?out @ spliced src (hk_start h + length (old_bytes h)) hs"
    using Cons.IH [of "hk_start h + length (old_bytes h)" ?out "Suc n"] Cons.prems by auto
  moreover have "concat (map hunk_text (h # hs)) =
      header_text h # concat (map edit_text (hk_edits h)) @ concat (map hunk_text hs)"
    by (simp add: hunk_text_def)
  ultimately show ?case
    using one_hunk_applies [OF Cons.prems, of out] by simp
qed simp

lemma split_on_append:
  "c \<notin> set l \<Longrightarrow> split_on c (l @ c # r) = l # split_on c r"
  by (induction l) auto

lemma patch_lines_text:
  assumes "\<And>l. l \<in> set ls \<Longrightarrow> CHR 0x0A \<notin> set l"
  shows "patch_lines (concat (map (\<lambda>l. l @ [CHR 0x0A]) ls)) = ls"
proof -
  have "split_on (CHR 0x0A) (concat (map (\<lambda>l. l @ [CHR 0x0A]) ls)) = ls @ [[]]"
    using assms by (induction ls) (simp_all add: split_on_append)
  then show ?thesis by (simp add: patch_lines_def)
qed

lemma line_text_no_nl:
  "CHR 0x0A \<notin> set (fst l) \<Longrightarrow> c \<noteq> CHR 0x0A \<Longrightarrow> x \<in> set (line_text c l) \<Longrightarrow> CHR 0x0A \<notin> set x"
  by (auto simp: line_text_def marker_line_def split: if_splits)

lemma edit_text_no_nl:
  assumes "CHR 0x0A \<notin> set (fst (edit_line e))" "x \<in> set (edit_text e)"
  shows "CHR 0x0A \<notin> set x"
proof -
  have "\<exists>c. c \<noteq> CHR 0x0A \<and> edit_text e = line_text c (edit_line e)"
    by (cases e) (simp_all, (rule exI [of _ "CHR '' ''"] exI [of _ "CHR ''-''"] exI [of _ "CHR ''+''"], simp)+)
  then obtain c where c: "c \<noteq> CHR 0x0A" "edit_text e = line_text c (edit_line e)" by blast
  show ?thesis by (rule line_text_no_nl [OF assms(1) c(1) assms(2) [unfolded c(2)]])
qed

lemma nat_str_no_nl: "CHR 0x0A \<notin> set (nat_str n)"
  using nat_str_is_digit [of "CHR 0x0A" n] by (auto simp: is_digit_def)

lemma hunk_text_no_nl:
  assumes "printable h" "x \<in> set (hunk_text h)"
  shows "CHR 0x0A \<notin> set x"
proof (cases "x = header_text h")
  case True
  then show ?thesis
    using nat_str_no_nl
    by (auto simp: header_text_def range_text_def range_count_def split: option.splits if_splits)
next
  case False
  with assms(2) obtain e where e: "e \<in> set (hk_edits h)" "x \<in> set (edit_text e)"
    by (auto simp: hunk_text_def)
  have "CHR 0x0A \<notin> set (fst (edit_line e))"
    using assms(1) e(1) by (simp add: printable_def list_all_iff)
  then show ?thesis using e(2) by (rule edit_text_no_nl)
qed

lemma fits_printable: "fits src pos hs \<Longrightarrow> h \<in> set hs \<Longrightarrow> printable h"
  by (induction src pos hs rule: fits.induct) auto

text \<open>
  C30. Completeness of the patch engine: the text of any list of hunks whose kept and deleted lines
  are the source lines where they stand (in difflib's format, with whatever lines in front that
  are no hunk header) applies, counts its hunks, and yields the source with those ranges replaced.
\<close>

theorem diff_text_applies:
  assumes "fits (split_lines_keep_ends original) 0 hs" "hs \<noteq> []"
    and "\<And>l. l \<in> set front \<Longrightarrow> \<not> is_hunk l \<and> CHR 0x0A \<notin> set l"
  shows "apply_unified_diff original (diff_text front hs) =
    Inr (concat (spliced (split_lines_keep_ends original) 0 hs), length hs)"
proof -
  let ?src = "split_lines_keep_ends original" and ?ls = "concat (map hunk_text hs)"
  have nl: "CHR 0x0A \<notin> set l" if "l \<in> set (front @ ?ls)" for l
    using that assms(3) hunk_text_no_nl [OF fits_printable [OF assms(1)]] by auto
  have "patch_lines (diff_text front hs) = front @ ?ls"
    unfolding diff_text_def by (rule patch_lines_text [OF nl])
  moreover have "dropWhile (\<lambda>l. \<not> is_hunk l) (front @ ?ls) = ?ls"
    using assms(3) hunks_start [of hs] by (simp add: dropWhile_append2 dropWhile_eq_self_iff)
  moreover obtain out c where "apply_hunks ?src ?ls [] 0 0 = Inr (out, c, length hs)"
    "out @ drop c ?src = spliced ?src 0 hs"
    using apply_hunks_applies [OF assms(1), of "[]" 0] by auto
  ultimately show ?thesis
    using assms(2) by (simp add: apply_unified_diff_def flip: concat_append)
qed

subsection \<open>A sample patch\<close>

definition sample_hunk :: hunk where
  "sample_hunk = \<lparr>hk_start = 0, hk_new_start = 0,
     hk_edits = [Keep (''a'', True), Del (''b'', True), Add (''c'', False)]\<rparr>"

definition sample_patch :: string where
  "sample_patch = diff_text [''--- x'', ''+++ x''] [sample_hunk]"

lemma sample_patch_text: "sample_patch = ''--- x'' @ [CHR 0x0A] @ ''+++ x'' @ [CHR 0x0A] @
    ''@@ -1,2 +1,2 @@'' @ [CHR 0x0A] @ '' a'' @ [CHR 0x0A] @ ''-b'' @ [CHR 0x0A] @ ''+c'' @ [CHR 0x0A] @
    marker_line @ [CHR 0x0A]"
  by code_simp

theorem diff_text_applies_witness:
  "apply_unified_diff [97, 10, 98, 10] sample_patch = Inr ([97, 10, 99], 1)"
proof -
  have f: "fits (split_lines_keep_ends [97, 10, 98, 10]) 0 [sample_hunk]"
    "spliced (split_lines_keep_ends [97, 10, 98, 10]) 0 [sample_hunk] = [[97, 10], [99]]"
    by code_simp+
  have front: "\<not> is_hunk l \<and> CHR 0x0A \<notin> set l" if at: "l \<in> set [''--- x'', ''+++ x'']" for l
  proof -
    have "list_all (\<lambda>l. \<not> is_hunk l \<and> CHR 0x0A \<notin> set l) [''--- x'', ''+++ x'']" by code_simp
    with at show ?thesis unfolding list_all_iff by blast
  qed
  have "apply_unified_diff [97, 10, 98, 10] (diff_text [''--- x'', ''+++ x''] [sample_hunk]) =
      Inr (concat (spliced (split_lines_keep_ends [97, 10, 98, 10]) 0 [sample_hunk]), length [sample_hunk])"
    by (rule diff_text_applies [OF f(1) _ front]) simp_all
  then show ?thesis unfolding sample_patch_def f(2) by simp
qed

lemma sample_patch_runs: "apply_unified_diff [97, 10, 98, 10] sample_patch = Inr ([97, 10, 99], 1)"
  by code_simp

theorem patch_changes_only_stated_witness:
  "\<exists>es. old_lines es = [[97, 10], [98, 10 :: nat]] \<and> concat (new_lines es) = [97, 10, 99] \<and>
     changes es = [Del [98, 10], Add [99]]"
proof -
  have "split_lines_keep_ends [97, 10, 98, 10] = [[97, 10], [98, 10]]"
    "changes (patch_edits (dropWhile (\<lambda>l. \<not> is_hunk l) (patch_lines sample_patch))) = [Del [98, 10], Add [99]]"
    by code_simp+
  with patch_changes_only_stated [OF sample_patch_runs] show ?thesis by auto
qed

end
