(* ===== verification/Fs_Patch.thy ===== *)
theory Fs_Patch
  imports Fs_Move_Delete Unified_Diff
begin

text \<open>
  The handler of \<open>commands/fs_patch.py\<close>: \<open>fs.patch\<close> reads the file, applies the diff in memory,
  and only then captures the old bytes and writes the new ones; a dry run stops before that.
\<close>

definition patch_keys :: "string list" where
  "patch_keys = [''path'', ''patch'', ''dry_run'', ''actor'', ''agent_bridge'', ''proposal_id'',
     ''_openclaw_approval'']"

definition max_patch_bytes :: nat where
  "max_patch_bytes = 1024 * 1024"

definition read_for_patch :: "fs_env \<Rightarrow> string \<Rightarrow> nat list act" where
  "read_for_patch env path =
     seq the_tree (\<lambda>t.
       case read_bytes_safe t path (roots_now env t) False of
         Done b \<Rightarrow> give b
       | Out_of_bounds \<Rightarrow> stop (outside_refusal path)
       | Os_error e \<Rightarrow>
           if e = ENOENT then stop (err_reply ''NOT_FOUND'' (''Path does not exist: '' @ py_repr_str path))
           else stop (err_reply ''READ_ERROR'' (''Cannot read file: '' @ ev_errno_text env e))
       | No_allowed_roots \<Rightarrow> throw No_roots_exn)"

definition patched_or_error :: "nat list \<Rightarrow> string \<Rightarrow> bool \<Rightarrow> (nat list \<times> nat) act" where
  "patched_or_error original patch_text dry_run =
     (case run_patch original patch_text dry_run of
        Inr r \<Rightarrow> give r
      | Inl (Patch_apply_error m) \<Rightarrow>
          stop (err_reply ''PATCH_FAILED'' (''Patch did not apply cleanly: '' @ m))
      | Inl Digit_limit \<Rightarrow> throw Value_error_exn)"

definition fs_patch_body :: "fs_env \<Rightarrow> dict \<Rightarrow> jval act" where
  "fs_patch_body env params =
     (let path = str_param params ''path'' [];
          patch_text = str_param params ''patch'' [];
          patch_size = length (utf8_text patch_text);
          dry_run = bool_param params ''dry_run'' False;
          proposal_id = str_param params ''proposal_id'' ''direct'';
          actor = str_param params ''actor'' ''agent'';
          agent_bridge = bool_param params ''agent_bridge'' False
      in
      seq (refuse_some (strict_keys_error params patch_keys [])) (\<lambda>_.
      seq (refuse_if (path = []) (missing_param ''path'')) (\<lambda>_.
      seq (refuse_if (patch_text = []) (missing_param ''patch'')) (\<lambda>_.
      seq (refuse_if (max_patch_bytes < patch_size)
             (too_large ''REQUEST_TOO_LARGE'' ''patch is'' patch_size max_patch_bytes)) (\<lambda>_.
      seq (write_gate env ''fs.patch'' path agent_bridge) (\<lambda>_.
      seq (read_for_patch env path) (\<lambda>original.
      seq (patched_or_error original patch_text dry_run) (\<lambda>(patched, hunks).
      seq (refuse_if (max_write_bytes < length patched)
             (too_large ''RESULT_TOO_LARGE'' ''patched file would be'' (length patched) max_write_bytes)) (\<lambda>_.
      if dry_run then
        give (JObj [(''ok'', JBool True), (''path'', JStr path), (''dry_run'', JBool True),
                    (''hunks_applicable'', JInt (int hunks))])
      else
        seq (capture_bytes env path original proposal_id Patch_op actor
               ''Backup capture failed; patch aborted'') (\<lambda>_.
        seq (write_file env path patched ''Atomic write failed'') (\<lambda>_.
        give (JObj [(''ok'', JBool True), (''path'', JStr path), (''sha256'', JStr (ev_sha256 env patched)),
                    (''size'', JInt (int (length patched))), (''hunks_applied'', JInt (int hunks))]))))))))))))"

definition handle_fs_patch :: "fs_env \<Rightarrow> dict \<Rightarrow> fs_world \<Rightarrow> outcome \<times> fs_world" where
  "handle_fs_patch env params = run_handler params (fs_patch_body env params)"

subsection \<open>A patch that said ok\<close>

lemma read_for_patch_ok:
  "read_for_patch env path s = (Inr b, s') \<Longrightarrow>
     s' = s \<and> read_bytes_safe (s_tree s) path (roots_now env (s_tree s)) False = Done b"
  by (auto simp: read_for_patch_def seq_def the_tree_def give_def stop_def throw_def
      split: io.splits if_splits)

lemma patched_ok:
  "patched_or_error b txt dry s = (Inr r, s') \<Longrightarrow> s' = s \<and> run_patch b txt dry = Inr r"
  by (auto simp: patched_or_error_def give_def stop_def throw_def split: sum.splits patch_error.splits)

lemma only_errors_read_for_patch [errors]: "only_errors (read_for_patch env p)"
  unfolding read_for_patch_def outside_refusal_def
  by (intro errors) (auto intro: errors split: io.split)

lemma only_errors_patched [errors]: "only_errors (patched_or_error b txt dry)"
  unfolding patched_or_error_def
  by (auto intro: errors split: sum.split patch_error.split)

lemma only_errors_split [errors]:
  "(\<And>x y. only_errors (f x y)) \<Longrightarrow> only_errors (case a of (x, y) \<Rightarrow> f x y)"
  by (cases a) simp

lemma only_errors_fs_patch: "only_errors (fs_patch_body env params)"
  unfolding fs_patch_body_def Let_def
  by (intro errors) simp_all

lemma read_bytes_file:
  assumes "read_bytes_safe fs path roots False = Done b" "\<And>r. r \<in> set roots \<Longrightarrow> real_place fs r"
  shows "map_of fs (path_parts path) = Some (File b)"
proof -
  obtain p where p: "open_safe_fd fs path roots False = Done p"
    using assms(1) by (auto simp: read_bytes_safe_def split: io.splits if_splits)
  with open_safe_ok [OF p [unfolded open_safe_fd_def] assms(2)] assms(1) show ?thesis
    by (auto simp: read_bytes_safe_def split: option.splits node.splits)
qed

lemma ends_ok_if:
  "(c \<Longrightarrow> ends_ok m s Q) \<Longrightarrow> (\<not> c \<Longrightarrow> ends_ok n s Q) \<Longrightarrow> ends_ok (if c then m else n) s Q"
  by simp

lemma fs_patch_ok:
  defines "path params \<equiv> str_param params ''path'' []" and "dry params \<equiv> bool_param params ''dry_run'' False"
  shows "ends_ok (fs_patch_body env params) s (\<lambda>r s'.
    \<exists>p s1 b data n. write_gate env ''fs.patch'' (path params) (bool_param params ''agent_bridge'' False) s = (Inr p, s1) \<and>
      read_bytes_safe (s_tree s1) (path params) (roots_now env (s_tree s1)) False = Done b \<and>
      run_patch b (str_param params ''patch'' []) (dry params) = Inr (data, n) \<and>
      length data \<le> max_write_bytes \<and>
      (if dry params then s' = s1
       else \<exists>v s2. capture_bytes env (path params) b (str_param params ''proposal_id'' ''direct'') Patch_op
          (str_param params ''actor'' ''agent'') ''Backup capture failed; patch aborted'' s1 = (Inr v, s2) \<and>
        write_file env (path params) data ''Atomic write failed'' s2 = (Inr (), s')))"
  unfolding fs_patch_body_def Let_def path_def [symmetric] dry_def [symmetric]
proof ((rule ends_ok_give ends_ok_if ends_ok_split ends_ok_seq)+, goal_cases)
  case (1 a s1 aa s1a ab s1b ac s1c ad s1d ae s1e af s1f patched hunks ag s1g)
  have at: "s1c = s" "s1g = s1d" "length patched \<le> max_write_bytes"
    "read_bytes_safe (s_tree s1d) (path params) (roots_now env (s_tree s1d)) False = Done ae"
    "run_patch ae (str_param params ''patch'' []) (dry params) = Inr (patched, hunks)"
    using refuse_some_ok [OF 1(1)] refuse_ok [OF 1(2)] refuse_ok [OF 1(3)] refuse_ok [OF 1(4)]
      read_for_patch_ok [OF 1(6)] patched_ok [OF 1(7)] 1(8) refuse_ok [OF 1(9)] by simp_all
  show ?case
    using 1(5,10) at
    by - (rule exI [of _ ad], rule exI [of _ s1d], rule exI [of _ ae], rule exI [of _ patched],
      rule exI [of _ hunks], simp)
next
  case (2 a s1 aa s1a ab s1b ac s1c ad s1d ae s1e af s1f patched hunks ag s1g)
  have at: "s1c = s" "s1g = s1d" "length patched \<le> max_write_bytes"
    "read_bytes_safe (s_tree s1d) (path params) (roots_now env (s_tree s1d)) False = Done ae"
    "run_patch ae (str_param params ''patch'' []) (dry params) = Inr (patched, hunks)"
    using refuse_some_ok [OF 2(1)] refuse_ok [OF 2(2)] refuse_ok [OF 2(3)] refuse_ok [OF 2(4)]
      read_for_patch_ok [OF 2(6)] patched_ok [OF 2(7)] 2(8) refuse_ok [OF 2(9)] by simp_all
  show ?case
  proof ((rule ends_ok_give ends_ok_seq)+, goal_cases)
    case (1 ah s1h ai s1i)
    then show ?case
      using 2(5,10) at
      by - (rule exI [of _ ad], rule exI [of _ s1d], rule exI [of _ ae], rule exI [of _ patched],
        rule exI [of _ hunks], auto)
  qed
qed

text \<open>
  What a patch that says ok did. A dry run changed neither the tree nor the store, and the
  patch applies. Otherwise the file at the path's own place, below an allowed root, held bytes the
  patch applies to; it now holds the result, no longer than the limit, and nothing else changed;
  the old bytes are the last version in the path's history; and below a protected root the approval
  check authorised the call.
\<close>

theorem fs_patch_applies:
  assumes "handle_fs_patch env params w = (Returned r, w')" "reply_ok r"
    and "real_roots env (w_tree w)" "history (w_store w) (str_param params ''path'' []) = Value vs"
  shows "let path = str_param params ''path'' []; p = path_parts path in
    if bool_param params ''dry_run'' False then
      w_tree w' = w_tree w \<and> w_store w' = w_store w \<and>
      (\<exists>b x. apply_unified_diff b (str_param params ''patch'' []) = Inr x \<and>
        read_bytes_safe (w_tree w) path (roots_now env (w_tree w)) False = Done b)
    else
      (\<exists>b data n v. map_of (w_tree w) p = Some (File b) \<and>
        apply_unified_diff b (str_param params ''patch'' []) = Inr (data, n) \<and>
        length data \<le> max_write_bytes \<and>
        w_tree w' = AList.update p (File data) (w_tree w) \<and>
        history (w_store w') path = Value (vs @ [v]) \<and> v_sha256 v = ev_sha256 env b) \<and>
      (\<exists>root \<in> set (roots_now env (w_tree w)). strict_prefix root p) \<and>
      (is_protected path \<or> hd p \<in> set protected_names \<longrightarrow>
         authorised (asked env ''fs.patch'' params (w_used w)))"
proof -
  let ?path = "str_param params ''path'' []" and ?dry = "bool_param params ''dry_run'' False"
  let ?s = "\<lparr>s_tree = w_tree w, s_store = w_store w, s_check = approval_checker params (w_used w)\<rparr>"
  obtain s' where run: "fs_patch_body env params ?s = (Inr r, s')"
    and w': "w_tree w' = s_tree s'" "w_store w' = s_store s'"
    by (rule run_handler_ok [OF assms(1) [unfolded handle_fs_patch_def] assms(2) only_errors_fs_patch])
  from ends_okD [OF fs_patch_ok run] obtain q s1 b data n where
    gate: "write_gate env ''fs.patch'' ?path (bool_param params ''agent_bridge'' False) ?s = (Inr q, s1)"
    and rd: "read_bytes_safe (s_tree s1) ?path (roots_now env (s_tree s1)) False = Done b"
    and pat: "run_patch b (str_param params ''patch'' []) ?dry = Inr (data, n)"
    and len: "length data \<le> max_write_bytes"
    and rest: "if ?dry then s' = s1
       else \<exists>v s2. capture_bytes env ?path b (str_param params ''proposal_id'' ''direct'') Patch_op
          (str_param params ''actor'' ''agent'') ''Backup capture failed; patch aborted'' s1 = (Inr v, s2) \<and>
        write_file env ?path data ''Atomic write failed'' s2 = (Inr (), s')"
    by (elim exE conjE) rule
  note g = write_gate_ok [OF move_start gate, unfolded fs_state.select_convs]
  show ?thesis
  proof (cases ?dry)
    case True
    then have "w_tree w' = w_tree w" "w_store w' = w_store w" using rest w' g(4,5) by simp_all
    moreover obtain x where "apply_unified_diff b (str_param params ''patch'' []) = Inr x"
      using pat by (auto simp: run_patch_def sum_bind_Inr)
    ultimately show ?thesis using True rd [unfolded g(5)] unfolding Let_def by auto
  next
    case False
    then obtain v s2 where cap: "capture_bytes env ?path b (str_param params ''proposal_id'' ''direct'') Patch_op
          (str_param params ''actor'' ''agent'') ''Backup capture failed; patch aborted'' s1 = (Inr v, s2)"
      and wr: "write_file env ?path data ''Atomic write failed'' s2 = (Inr (), s')" using rest by auto
    from capture_bytes_ok [OF cap] obtain st where
      c: "capture (ev_sha256 env) (ev_utc_now env) ?path b (str_param params ''proposal_id'' ''direct'') Patch_op
          (str_param params ''actor'' ''agent'') (w_store w) = (Value v, st)"
      and s2: "s2 = s1\<lparr>s_store := st\<rparr>" using g(4) by auto
    have t2: "s_tree s2 = w_tree w" using s2 g(5) by simp
    obtain fs' where aw: "atomic_write_safe (w_tree w) ?path (roots_now env (w_tree w)) data = Done fs'"
      using wr t2 by (auto simp: write_file_def seq_def the_tree_def stop_def throw_def split: io.splits)
    note real = real_rootsD [OF assms(3)]
    note o = atomic_write_ok [OF aw real]
    note wo = write_file_ok [OF wr, unfolded t2, OF assms(3)]
    have nl: "map_of (w_tree w) (path_parts ?path) \<noteq> Some (Link l)" for l
      using read_not_link [of "w_tree w" ?path "roots_now env (w_tree w)" b l] rd [unfolded g(5)] real o by simp
    have q: "q = path_parts ?path"
      using resolve_is_target [of "w_tree w" ?path "roots_now env (w_tree w)" q] g(1) o nl by simp
    note held = read_bytes_file [OF rd [unfolded g(5)] real]
    have "history (w_store w') ?path = Value (vs @ [v])"
      using capture_history [OF c, of ?path] assms(4) w' wo(1) s2 by simp
    moreover have "v_sha256 v = ev_sha256 env b" by (rule capture_version(1) [OF c])
    moreover have "w_tree w' = AList.update (path_parts ?path) (File data) (w_tree w)" using w' wo(1) by simp
    moreover have "apply_unified_diff b (str_param params ''patch'' []) = Inr (data, n)"
      using pat False by (auto simp: run_patch_def sum_bind_Inr)
    moreover have "\<exists>r \<in> set (roots_now env (w_tree w)). strict_prefix r (path_parts ?path)"
      using o below_butlast by blast
    moreover have "is_protected ?path \<or> hd (path_parts ?path) \<in> set protected_names \<longrightarrow>
        authorised (asked env ''fs.patch'' params (w_used w))"
      using g(3) q protected_place [of "path_parts ?path"] wo(2) by blast
    ultimately show ?thesis using False held len unfolding Let_def by auto
  qed
qed

definition bell_patch :: dict where
  "bell_patch = [(''path'', JStr ''/share/a''), (''patch'', JStr (diff_text []
     [\<lparr>hk_start = 0, hk_new_start = 0, hk_edits = [Del ([CHR 0x07], False), Add (''B'', True)]\<rparr>]))]"

lemma bell_patch_runs:
  "case handle_fs_patch sample_env bell_patch sample_world of
     (Returned r, w') \<Rightarrow> reply_ok r \<and> w_tree w' = AList.update [''share'', ''a''] (File [66, 10]) sample_tree
   | _ \<Rightarrow> False"
  by code_simp

theorem fs_patch_applies_witness:
  "\<exists>v. history (w_store (snd (handle_fs_patch sample_env bell_patch sample_world))) ''/share/a'' = Value [v] \<and>
     v_sha256 v = unary_digest [7]"
proof -
  obtain r w' where run: "handle_fs_patch sample_env bell_patch sample_world = (Returned r, w')" "reply_ok r"
    using bell_patch_runs by (auto split: prod.splits outcome.splits)
  have k: "str_param bell_patch ''path'' [] = ''/share/a''" "bool_param bell_patch ''dry_run'' False = False"
    "history (w_store sample_world) ''/share/a'' = Value []" "real_roots sample_env (w_tree sample_world)"
    "map_of (w_tree sample_world) (path_parts ''/share/a'') = Some (File [7])"
    "ev_sha256 sample_env [7] = unary_digest [7]"
    by code_simp+
  from fs_patch_applies [OF run k(4)] k run(1) show ?thesis by (auto simp: Let_def)
qed

end
