(* ===== verification/Py_Case.thy ===== *)
theory Py_Case
  imports Prelude
begin

text \<open>String methods of Python that change or ignore case, and the searches for a part of a string.\<close>

text \<open>
  \<open>str.upper\<close>: the lower case letters below U+0100 have their capital 32 below, sharp s becomes two
  letters; U+00B5 and U+00FF leave the range and are kept, which no search for ASCII letters sees.
\<close>

definition upper_char :: "char \<Rightarrow> string" where
  "upper_char c =
     (let n = of_char c :: nat in
      if n = 223 then ''SS''
      else if 97 \<le> n \<and> n \<le> 122 \<or> 224 \<le> n \<and> n \<le> 254 \<and> n \<noteq> 247 then [char_of (n - 32)]
      else [c])"

definition py_upper :: "string \<Rightarrow> string" where
  "py_upper s = concat (map upper_char s)"

fun occurs :: "string \<Rightarrow> string \<Rightarrow> bool" where
  "occurs p [] \<longleftrightarrow> p = []"
| "occurs p (c # s) \<longleftrightarrow> prefix p (c # s) \<or> occurs p s"

text \<open>\<open>str.removeprefix\<close>, \<open>str.lower\<close> below U+0100 (the Latin-1 capitals lie 32 before their small letters).\<close>

definition removeprefix :: "'a list \<Rightarrow> 'a list \<Rightarrow> 'a list" where
  "removeprefix p s = (if take (length p) s = p then drop (length p) s else s)"

definition lower1 :: "char \<Rightarrow> char" where
  "lower1 c = (let n = of_char c :: nat in
     if 65 \<le> n \<and> n \<le> 90 \<or> 192 \<le> n \<and> n \<le> 222 \<and> n \<noteq> 215 then char_of (n + 32) else c)"

definition lower :: "string \<Rightarrow> string" where
  "lower s = map lower1 s"

lemma of_char_lower1:
  "of_char (lower1 c) =
     (let n = of_char c :: nat in
      if 65 \<le> n \<and> n \<le> 90 \<or> 192 \<le> n \<and> n \<le> 222 \<and> n \<noteq> 215 then n + 32 else n)"
  by (auto simp: lower1_def Let_def)

lemma lower1_idem: "lower1 (lower1 c) = lower1 c"
proof -
  have "(of_char (lower1 (lower1 c)) :: nat) = of_char (lower1 c)"
    by (auto simp: of_char_lower1 Let_def)
  then show ?thesis by simp
qed

lemma lower_idem [simp]: "lower (lower s) = lower s"
  by (simp add: lower_def lower1_idem)

text \<open>\<open>str.casefold\<close> below U+0100; the micro sign, which leaves that range, is kept.\<close>

definition casefold :: "string \<Rightarrow> string" where
  "casefold s = concat (map (\<lambda>c. if of_char c = (223 :: nat) then ''ss'' else [lower1 c]) s)"

definition starts_with :: "'a list \<Rightarrow> 'a list \<Rightarrow> bool" where
  "starts_with s p \<longleftrightarrow> take (length p) s = p"

end
