(* ===== verification/Exec_Approvals.thy ===== *)
theory Exec_Approvals
  imports Fs_Base "HOL-Library.Product_Lexorder"
begin

text \<open>
  \<open>commands/exec_approvals.py\<close>: the validators of an execution plan, the canonical command text,
  the closed schema of the approvals document, its redacted snapshot, the policy an agent gets, and
  the two stateful handlers. Characters above U+00FF do not occur in the model's strings, so the
  JavaScript white space is the part of it below that.
\<close>

subsection \<open>Constants\<close>

definition valid_security :: "string list" where
  "valid_security = [''deny'', ''allowlist'', ''full'']"

definition valid_ask :: "string list" where
  "valid_ask = [''off'', ''on-miss'', ''always'']"

definition policy_fields :: "string list" where
  "policy_fields = [''security'', ''ask'', ''askFallback'', ''autoAllowSkills'']"

definition default_policy :: dict where
  "default_policy = [(''security'', JStr ''deny''), (''ask'', JStr ''on-miss''),
     (''askFallback'', JStr ''deny''), (''autoAllowSkills'', JBool False)]"

definition max_argv :: nat where
  "max_argv = 256"

definition max_arg_len :: nat where
  "max_arg_len = 8192"

definition js_whitespace :: "char \<Rightarrow> bool" where
  "js_whitespace c = (of_char c \<in> set [9, 10, 11, 12, 13, 32, 160 :: nat])"

definition js_quote_trigger :: "char \<Rightarrow> bool" where
  "js_quote_trigger c \<longleftrightarrow> js_whitespace c \<or> c = CHR 0x22"

definition default_document :: dict where
  "default_document = [(''version'', JInt 1), (''defaults'', JObj default_policy), (''agents'', JObj [])]"

definition invalid_param :: "string \<Rightarrow> jval" where
  "invalid_param m = err_reply ''INVALID_PARAM'' m"

definition names_text :: "string list \<Rightarrow> string" where
  "names_text ks = py_repr (JList (map JStr (sorted_set ks)))"

subsection \<open>The plan\<close>

text \<open>\<open>_validate_cwd\<close>; a NUL in the path leaves as a \<open>ValueError\<close>.\<close>

definition validate_cwd :: "fs_env \<Rightarrow> tree \<Rightarrow> string \<Rightarrow> (outcome + string)" where
  "validate_cwd env t cwd =
     (case resolve_safe t cwd (roots_now env t) of
        Refused_no_roots \<Rightarrow>
          Inl (Returned (err_reply ''NO_ALLOWED_ROOTS'' ''No filesystem roots configured''))
      | Refused_outside \<Rightarrow>
          Inl (Returned (err_reply ''PATH_NOT_ALLOWED''
            (''cwd is outside the allowed roots: '' @ py_repr_str cwd)))
      | Value_error \<Rightarrow> Inl (Raised Value_error_exn)
      | Place p \<Rightarrow>
          if map_of t p = Some Dir then Inr (path_str p)
          else Inl (Returned (invalid_param (''cwd is not a directory: '' @ py_repr_str cwd))))"

fun str_items :: "jval list \<Rightarrow> string list option" where
  "str_items [] = Some []"
| "str_items (JStr s # vs) = map_option ((#) s) (str_items vs)"
| "str_items (_ # vs) = None"

definition validate_argv :: "jval \<Rightarrow> jval + string list" where
  "validate_argv v = (case v of
     JNull \<Rightarrow> Inl (err_reply ''MISSING_PARAM'' ''command is required'')
   | JList items \<Rightarrow>
       (case str_items items of
          Some (a # as) \<Rightarrow>
            (let argv = a # as in
             if a = [] then Inl (invalid_param ''command[0] must be a non-empty executable name'')
             else if max_argv < length argv then
               Inl (invalid_param (''command has more than '' @ nat_str max_argv @ '' arguments''))
             else if list_ex (\<lambda>x. max_arg_len < length x) argv then
               Inl (invalid_param (''command contains an argument longer than '' @ nat_str max_arg_len))
             else if list_ex (\<lambda>x. CHR 0x00 \<in> set x) argv then
               Inl (invalid_param ''command arguments must not contain NUL bytes'')
             else Inr argv)
        | _ \<Rightarrow> Inl (invalid_param ''command must be a non-empty list of strings''))
   | _ \<Rightarrow> Inl (invalid_param ''command must be a list of strings''))"

definition validate_env :: "jval \<Rightarrow> jval option" where
  "validate_env v =
     (let bad = Some (invalid_param ''env must be an object of non-empty string keys and values'')
      in case v of
           JNull \<Rightarrow> None
         | JObj d \<Rightarrow> if list_all (\<lambda>(k, x). k \<noteq> [] \<and> is_str x) d then None else bad
         | _ \<Rightarrow> bad)"

definition format_arg :: "string \<Rightarrow> string" where
  "format_arg arg =
     (if arg = [] then [CHR 0x22, CHR 0x22]
      else if \<not> list_ex js_quote_trigger arg then arg
      else CHR 0x22 # concat (map (\<lambda>c. if c = CHR 0x22 then [CHR 0x5C, CHR 0x22] else [c]) arg) @ [CHR 0x22])"

definition format_exec_command :: "string list \<Rightarrow> string" where
  "format_exec_command argv = join '' '' (map format_arg argv)"

definition inline_shell_payload :: "string list \<Rightarrow> string option" where
  "inline_shell_payload argv = (case argv of
     [a, f, x] \<Rightarrow>
       if a = ''/bin/sh'' \<and> f \<in> {''-c'', ''-lc''} \<and> strip x \<noteq> [] then Some (strip x) else None
   | _ \<Rightarrow> None)"

definition raw_mismatch :: "string \<Rightarrow> jval" where
  "raw_mismatch command_text =
     JObj [(''ok'', JBool False), (''error'', JStr ''RAW_COMMAND_MISMATCH''),
           (''message'', JStr ''INVALID_REQUEST: rawCommand does not match command''),
           (''inferred'', JStr command_text), (''formattedArgv'', JStr command_text)]"

definition resolve_command_text :: "string list \<Rightarrow> jval \<Rightarrow> jval + (string \<times> string option)" where
  "resolve_command_text argv raw_command =
     (if raw_command \<noteq> JNull \<and> \<not> is_str raw_command then Inl (invalid_param ''rawCommand must be a string'')
      else (let raw = (case raw_command of JStr s \<Rightarrow> strip s | _ \<Rightarrow> []);
                command_text = format_exec_command argv;
                payload = inline_shell_payload argv;
                preview = (if payload \<noteq> Some command_text then payload else None)
            in if raw = [] then Inr (command_text, preview)
               else if raw \<noteq> command_text \<and> Some raw \<noteq> payload then Inl (raw_mismatch command_text)
               else Inr (command_text, preview)))"

subsection \<open>The schema of the approvals document\<close>

text \<open>Checks in order: the first error is the answer.\<close>

fun first_error :: "jval option list \<Rightarrow> jval option" where
  "first_error [] = None"
| "first_error (Some e # es) = Some e"
| "first_error (None # es) = first_error es"

definition error_if :: "bool \<Rightarrow> string \<Rightarrow> jval option" where
  "error_if bad m = (if bad then Some (invalid_param m) else None)"

fun is_one_of :: "jval \<Rightarrow> string list \<Rightarrow> bool" where
  "is_one_of (JStr s) allowed \<longleftrightarrow> s \<in> set allowed"
| "is_one_of _ allowed \<longleftrightarrow> False"

definition validate_optional_string :: "string \<Rightarrow> dict \<Rightarrow> string \<Rightarrow> jval option" where
  "validate_optional_string scope container field =
     error_if (has_key container field \<and> \<not> is_str (dget container field))
       (scope @ ''.'' @ field @ '' must be a string'')"

definition validate_min_length_string :: "string \<Rightarrow> jval \<Rightarrow> jval option" where
  "validate_min_length_string scope v =
     error_if (\<not> is_nonempty_str v) (scope @ '' must be a non-empty string'')"

definition validate_non_blank_string :: "string \<Rightarrow> jval \<Rightarrow> jval option" where
  "validate_non_blank_string scope v =
     first_error [error_if (\<not> is_nonempty_str v) (scope @ '' must be a non-empty string''),
       error_if (case v of JStr s \<Rightarrow> list_all js_whitespace s | _ \<Rightarrow> False)
         (scope @ '' must contain a non-whitespace character'')]"

definition timestamp_error :: "string \<Rightarrow> jval \<Rightarrow> jval option" where
  "timestamp_error name v = (case v of
     JInt i \<Rightarrow> error_if (i < 0) (name @ '' must be greater than or equal to 0'')
   | JFloat (FFin _ q) \<Rightarrow> error_if (fst q < 0) (name @ '' must be greater than or equal to 0'')
   | JFloat _ \<Rightarrow> Some (invalid_param (name @ '' must be a finite number''))
   | _ \<Rightarrow> Some (invalid_param (name @ '' must be a number'')))"

definition validate_timestamp :: "string \<Rightarrow> dict \<Rightarrow> string \<Rightarrow> bool \<Rightarrow> jval option" where
  "validate_timestamp scope container field required =
     (if \<not> has_key container field
      then error_if required (scope @ ''.'' @ field @ '' is required'')
      else timestamp_error (scope @ ''.'' @ field) (dget container field))"

definition unknown_fields :: "string \<Rightarrow> dict \<Rightarrow> string list \<Rightarrow> jval option" where
  "unknown_fields scope d allowed =
     (let unknown = filter (\<lambda>k. k \<notin> set allowed) (map fst d)
      in error_if (unknown \<noteq> []) (scope @ '' contains unknown fields: '' @ names_text unknown))"

definition allowlist_entry_fields :: "string list" where
  "allowlist_entry_fields = [''id'', ''pattern'', ''source'', ''commandText'', ''argPattern'',
     ''lastUsedAt'', ''lastUsedCommand'', ''lastResolvedPath'']"

definition mcp_tool_fields :: "string list" where
  "mcp_tool_fields = [''server'', ''tool'', ''source'', ''addedAt'', ''lastUsedAt'']"

definition source_must :: "string \<Rightarrow> string" where
  "source_must scope = scope @ ''.source must be '' @ py_repr_str ''allow-always''"

definition validate_allowlist_entry :: "string \<Rightarrow> jval \<Rightarrow> jval option" where
  "validate_allowlist_entry scope entry = (case entry of
     JObj d \<Rightarrow> first_error
       ([unknown_fields scope d allowlist_entry_fields,
         error_if (\<not> is_str (dget d ''pattern'')) (scope @ ''.pattern must be a string''),
         (if has_key d ''id'' then validate_min_length_string (scope @ ''.id'') (dget d ''id'') else None),
         error_if (has_key d ''source'' \<and> dget d ''source'' \<noteq> JStr ''allow-always'')
           (source_must scope)] @
        map (validate_optional_string scope d)
          [''commandText'', ''argPattern'', ''lastUsedCommand'', ''lastResolvedPath''] @
        [validate_timestamp scope d ''lastUsedAt'' False])
   | _ \<Rightarrow> Some (invalid_param (scope @ '' must be an object'')))"

definition validate_mcp_tool :: "string \<Rightarrow> jval \<Rightarrow> jval option" where
  "validate_mcp_tool scope entry = (case entry of
     JObj d \<Rightarrow> first_error
       ([unknown_fields scope d mcp_tool_fields] @
        map (\<lambda>f. validate_non_blank_string (scope @ ''.'' @ f) (dget d f)) [''server'', ''tool''] @
        [error_if (dget d ''source'' \<noteq> JStr ''allow-always'') (source_must scope),
         validate_timestamp scope d ''addedAt'' True,
         validate_timestamp scope d ''lastUsedAt'' False])
   | _ \<Rightarrow> Some (invalid_param (scope @ '' must be an object'')))"

definition indexed :: "string \<Rightarrow> (string \<Rightarrow> jval \<Rightarrow> jval option) \<Rightarrow> jval list \<Rightarrow> jval option list" where
  "indexed scope f vs =
     map (\<lambda>(i, v). f (scope @ ''['' @ nat_str i @ '']'') v) (zip [0..<length vs] vs)"

definition list_field ::
  "string \<Rightarrow> dict \<Rightarrow> string \<Rightarrow> (string \<Rightarrow> jval \<Rightarrow> jval option) \<Rightarrow> jval option" where
  "list_field scope d field f =
     (if \<not> has_key d field then None
      else case dget d field of
             JList vs \<Rightarrow> first_error (indexed (scope @ ''.'' @ field) f vs)
           | _ \<Rightarrow> Some (invalid_param (scope @ ''.'' @ field @ '' must be a list'')))"

definition choice_field :: "string \<Rightarrow> dict \<Rightarrow> string \<Rightarrow> string list \<Rightarrow> jval option" where
  "choice_field scope d field allowed =
     error_if (has_key d field \<and> \<not> is_one_of (dget d field) allowed)
       (scope @ ''.'' @ field @ '' must be one of '' @ names_text allowed)"

definition validate_policy :: "string \<Rightarrow> dict \<Rightarrow> bool \<Rightarrow> jval option" where
  "validate_policy scope policy allow_allowlist = first_error
     [unknown_fields scope policy
        (policy_fields @ (if allow_allowlist then [''allowlist'', ''mcpTools''] else [])),
      choice_field scope policy ''security'' valid_security,
      choice_field scope policy ''ask'' valid_ask,
      choice_field scope policy ''askFallback'' valid_security,
      error_if (has_key policy ''autoAllowSkills'' \<and> \<not> is_bool (dget policy ''autoAllowSkills''))
        (scope @ ''.autoAllowSkills must be boolean''),
      list_field scope policy ''allowlist'' validate_allowlist_entry,
      list_field scope policy ''mcpTools'' validate_mcp_tool]"

fun is_version_one :: "jval \<Rightarrow> bool" where
  "is_version_one (JInt i) \<longleftrightarrow> i = 1"
| "is_version_one (JFloat (FFin _ q)) \<longleftrightarrow> fst q = snd q"
| "is_version_one _ \<longleftrightarrow> False"

definition validate_socket :: "jval \<Rightarrow> jval option" where
  "validate_socket v = (case v of
     JObj s \<Rightarrow> first_error
       [error_if (\<not> list_all (\<lambda>k. k \<in> {''path'', ''token''}) (map fst s)) ''file.socket is invalid'',
        error_if (\<not> list_all is_str (map snd s)) ''file.socket values must be strings'']
   | _ \<Rightarrow> Some (invalid_param ''file.socket is invalid''))"

definition validate_agents :: "jval \<Rightarrow> jval option" where
  "validate_agents v = (case v of
     JObj agents \<Rightarrow> first_error (map (\<lambda>(agent_id, p).
       case p of
         JObj policy \<Rightarrow> validate_policy (''file.agents.'' @ agent_id) policy True
       | _ \<Rightarrow> Some (invalid_param ''file.agents entries must be policy objects'')) agents)
   | _ \<Rightarrow> Some (invalid_param ''file.agents must be an object''))"

definition validate_document :: "jval \<Rightarrow> jval option" where
  "validate_document v = (case v of
     JObj d \<Rightarrow> first_error
       [error_if (\<not> list_all (\<lambda>k. k \<in> {''version'', ''socket'', ''defaults'', ''agents''}) (map fst d))
          ''file contains unknown fields'',
        error_if (\<not> is_version_one (dget d ''version'')) ''file.version must be 1'',
        (if has_key d ''socket'' then validate_socket (dget d ''socket'') else None),
        (if has_key d ''defaults'' then
           (case dget d ''defaults'' of
              JObj p \<Rightarrow> validate_policy ''file.defaults'' p False
            | _ \<Rightarrow> Some (invalid_param ''file.defaults must be an object''))
         else None),
        (if has_key d ''agents'' then validate_agents (dget d ''agents'') else None)]
   | _ \<Rightarrow> Some (invalid_param ''file must be an object''))"

subsection \<open>Reading and redacting the document\<close>

text \<open>
  The document on disk is bytes or missing. \<open>ae_loads\<close> is \<open>json.loads\<close> of decoded bytes (none for
  any \<open>ValueError\<close>), \<open>ae_dumps\<close> the bytes of \<open>_serialize_document\<close>; \<open>ae_io\<close> says which of the file
  operations fail, with the text of the \<open>OSError\<close>.
\<close>

datatype io_stage = Make_dir | Take_lock | Read_before | Write_temp | Replace_doc | Read_after

record approvals_env =
  ae_path :: string
  ae_sha256 :: "nat list \<Rightarrow> string"
  ae_loads :: "nat list \<Rightarrow> jval option"
  ae_dumps :: "dict \<Rightarrow> nat list"
  ae_io :: "io_stage \<Rightarrow> string option"

definition document_of :: "approvals_env \<Rightarrow> nat list \<Rightarrow> dict" where
  "document_of env raw =
     (case ae_loads env raw of
        Some (JObj d) \<Rightarrow> if validate_document (JObj d) = None then d else default_document
      | _ \<Rightarrow> default_document)"

definition read_snapshot ::
  "approvals_env \<Rightarrow> io_stage \<Rightarrow> nat list option \<Rightarrow> dict \<times> nat list option" where
  "read_snapshot env stage bytes =
     (case (ae_io env stage, bytes) of
        (None, Some raw) \<Rightarrow> (document_of env raw, Some raw)
      | _ \<Rightarrow> (default_document, None))"

definition redact_document :: "dict \<Rightarrow> dict" where
  "redact_document document =
     (case dget document ''socket'' of
        JObj s \<Rightarrow>
          (case dget s ''path'' of
             JStr p \<Rightarrow>
               if strip p \<noteq> [] then AList.update ''socket'' (JObj [(''path'', JStr (strip p))]) document
               else AList.delete ''socket'' document
           | _ \<Rightarrow> AList.delete ''socket'' document)
      | _ \<Rightarrow> AList.delete ''socket'' document)"

definition dict_field :: "dict \<Rightarrow> string \<Rightarrow> dict" where
  "dict_field d k = (case dget d k of JObj s \<Rightarrow> s | _ \<Rightarrow> [])"

definition str_field :: "dict \<Rightarrow> string \<Rightarrow> string option" where
  "str_field d k = (case dget d k of JStr s \<Rightarrow> Some s | _ \<Rightarrow> None)"

definition pick_path :: "dict \<Rightarrow> dict \<Rightarrow> string option" where
  "pick_path incoming stored =
     (case str_field incoming ''path'' of
        None \<Rightarrow> str_field stored ''path''
      | Some new \<Rightarrow>
          (case str_field stored ''path'' of
             Some old \<Rightarrow> if new = strip old then Some old else Some new
           | None \<Rightarrow> Some new))"

definition pick_token :: "dict \<Rightarrow> dict \<Rightarrow> string option" where
  "pick_token incoming stored =
     (case str_field incoming ''token'' of None \<Rightarrow> str_field stored ''token'' | Some new \<Rightarrow> Some new)"

definition present :: "string \<Rightarrow> string option \<Rightarrow> dict" where
  "present k v = (case v of None \<Rightarrow> [] | Some s \<Rightarrow> [(k, JStr s)])"

definition merge_socket :: "dict \<Rightarrow> dict \<Rightarrow> dict" where
  "merge_socket document current =
     (let incoming = dict_field document ''socket'';
          stored = dict_field current ''socket'';
          socket = present ''path'' (pick_path incoming stored) @ present ''token'' (pick_token incoming stored)
      in if socket \<noteq> [] then AList.update ''socket'' (JObj socket) document
         else AList.delete ''socket'' document)"

definition missing_hash :: "approvals_env \<Rightarrow> string" where
  "missing_hash env = ''missing:'' @ ae_sha256 env []"

definition snapshot_hash :: "approvals_env \<Rightarrow> nat list option \<Rightarrow> string" where
  "snapshot_hash env raw = (case raw of None \<Rightarrow> missing_hash env | Some b \<Rightarrow> ae_sha256 env b)"

definition snapshot :: "approvals_env \<Rightarrow> io_stage \<Rightarrow> nat list option \<Rightarrow> jval" where
  "snapshot env stage bytes =
     (case read_snapshot env stage bytes of
        (document, raw) \<Rightarrow>
          JObj [(''path'', JStr (ae_path env)), (''exists'', JBool (raw \<noteq> None)),
                (''hash'', JStr (snapshot_hash env raw)), (''file'', JObj (redact_document document))])"

definition handle_system_exec_approvals_get :: "approvals_env \<Rightarrow> nat list option \<Rightarrow> jval" where
  "handle_system_exec_approvals_get env bytes = snapshot env Read_before bytes"

subsection \<open>The policy of an agent\<close>

record rule =
  ru_pattern :: string
  ru_arg_pattern :: "string option"
  ru_allow_always :: bool

definition rule_of :: "jval \<Rightarrow> rule option" where
  "rule_of entry = (case entry of
     JObj d \<Rightarrow>
       (case dget d ''pattern'' of
          JStr p \<Rightarrow> Some \<lparr>ru_pattern = p, ru_arg_pattern = str_field d ''argPattern'',
                         ru_allow_always = (dget d ''source'' = JStr ''allow-always'')\<rparr>
        | _ \<Rightarrow> None)
   | _ \<Rightarrow> None)"

definition rules_of :: "dict \<Rightarrow> rule list" where
  "rules_of source =
     (case dget source ''allowlist'' of JList es \<Rightarrow> List.map_filter rule_of es | _ \<Rightarrow> [])"

text \<open>Each rule once, where it came first; then sorted by the bytes of its parts.\<close>

definition rule_key :: "rule \<Rightarrow> nat list \<times> nat list \<times> nat list" where
  "rule_key r = (utf8_text (ru_pattern r),
     utf8_text (case ru_arg_pattern r of None \<Rightarrow> [] | Some a \<Rightarrow> a),
     utf8_text (if ru_allow_always r then ''allow-always'' else []))"

definition allowlist_rules :: "dict \<Rightarrow> dict \<Rightarrow> rule list" where
  "allowlist_rules wildcard exact =
     sort_key rule_key (rev (remdups (rev (rules_of wildcard @ rules_of exact))))"

definition rule_json :: "rule \<Rightarrow> jval" where
  "rule_json r = JObj ((''pattern'', JStr (ru_pattern r)) #
     present ''argPattern'' (ru_arg_pattern r) @
     (if ru_allow_always r then [(''source'', JStr ''allow-always'')] else []))"

record policy =
  po_security :: jval
  po_ask :: jval
  po_ask_fallback :: jval
  po_auto_allow_skills :: jval
  po_rules :: "rule list"

definition policy_field :: "dict \<Rightarrow> dict \<Rightarrow> dict \<Rightarrow> string \<Rightarrow> jval" where
  "policy_field exact wildcard defaults name =
     dget_or exact name (dget_or wildcard name (dget_or defaults name (dget default_policy name)))"

definition resolve_policy :: "dict \<Rightarrow> string option \<Rightarrow> policy" where
  "resolve_policy document agent_id =
     (let defaults = dict_field document ''defaults'';
          agents = dict_field document ''agents'';
          wildcard = dict_field agents ''*'';
          exact = (case agent_id of None \<Rightarrow> [] | Some a \<Rightarrow> if a = [] then [] else dict_field agents a);
          field = policy_field exact wildcard defaults
      in \<lparr>po_security = field ''security'', po_ask = field ''ask'', po_ask_fallback = field ''askFallback'',
          po_auto_allow_skills = field ''autoAllowSkills'', po_rules = allowlist_rules wildcard exact\<rparr>)"

definition policy_json :: "policy \<Rightarrow> jval" where
  "policy_json p = JObj [(''security'', po_security p), (''ask'', po_ask p), (''askFallback'', po_ask_fallback p),
     (''autoAllowSkills'', po_auto_allow_skills p), (''allowlistRules'', JList (map rule_json (po_rules p)))]"

subsection \<open>system.run.prepare\<close>

definition prepared_cwd :: "fs_env \<Rightarrow> tree \<Rightarrow> jval \<Rightarrow> outcome + string option" where
  "prepared_cwd fenv t v = (case v of
     JNull \<Rightarrow> Inr None
   | JStr s \<Rightarrow>
       if strip s = [] then Inl (Returned (invalid_param ''cwd must be a non-empty string''))
       else sum_bind (validate_cwd fenv t s) (\<lambda>p. Inr (Some p))
   | _ \<Rightarrow> Inl (Returned (invalid_param ''cwd must be a non-empty string'')))"

definition optional_name :: "string \<Rightarrow> jval \<Rightarrow> outcome + string option" where
  "optional_name name v = (case v of
     JNull \<Rightarrow> Inr None
   | JStr s \<Rightarrow>
       if strip s = [] then Inl (Returned (invalid_param (name @ '' must be a non-empty string'')))
       else Inr (Some s)
   | _ \<Rightarrow> Inl (Returned (invalid_param (name @ '' must be a non-empty string''))))"

fun as_outcome :: "jval + 'a \<Rightarrow> outcome + 'a" where
  "as_outcome (Inl e) = Inl (Returned e)"
| "as_outcome (Inr a) = Inr a"

definition nullable :: "string option \<Rightarrow> jval" where
  "nullable v = (case v of None \<Rightarrow> JNull | Some s \<Rightarrow> JStr s)"

definition handle_system_run_prepare ::
  "fs_env \<Rightarrow> approvals_env \<Rightarrow> tree \<Rightarrow> nat list option \<Rightarrow> dict \<Rightarrow> outcome" where
  "handle_system_run_prepare fenv env t bytes params =
     (case
        sum_bind (as_outcome (validate_argv (dget params ''command''))) (\<lambda>argv.
        sum_bind (as_outcome (resolve_command_text argv (dget params ''rawCommand''))) (\<lambda>(text, preview).
        sum_bind (case validate_env (dget params ''env'') of
                    None \<Rightarrow> Inr () | Some e \<Rightarrow> Inl (Returned e)) (\<lambda>_.
        sum_bind (prepared_cwd fenv t (dget params ''cwd'')) (\<lambda>cwd.
        sum_bind (optional_name ''agentId'' (dget params ''agentId'')) (\<lambda>agent_id.
        sum_bind (optional_name ''sessionKey'' (dget params ''sessionKey'')) (\<lambda>session_key.
        let policy = resolve_policy (fst (read_snapshot env Read_before bytes)) agent_id in
        Inr (JObj
          [(''plan'', JObj
             [(''argv'', JList (map JStr argv)), (''cwd'', nullable cwd), (''commandText'', JStr text),
              (''commandPreview'', nullable preview), (''agentId'', nullable agent_id),
              (''sessionKey'', nullable session_key), (''policySnapshot'', policy_json policy)]),
           (''execPolicy'', JObj [(''security'', po_security policy), (''ask'', po_ask policy)]),
           (''allowAlwaysCoverage'', JObj [(''complete'', JBool False), (''patterns'', JList [])])])))))))
      of Inl r \<Rightarrow> r | Inr v \<Rightarrow> Returned v)"

subsection \<open>system.execApprovals.set\<close>

definition invalid_request :: "string \<Rightarrow> jval" where
  "invalid_request m = err_reply ''INVALID_REQUEST'' m"

definition io_error :: "string \<Rightarrow> jval" where
  "io_error e = err_reply ''IO_ERROR'' (''Could not write approvals document: '' @ e)"

definition base_hash_of :: "dict \<Rightarrow> string" where
  "base_hash_of params = (case dget params ''baseHash'' of JStr s \<Rightarrow> strip s | _ \<Rightarrow> [])"

text \<open>The comparison with what is on disk, under the lock.\<close>

definition base_hash_error :: "approvals_env \<Rightarrow> nat list option \<Rightarrow> string \<Rightarrow> jval option" where
  "base_hash_error env raw base =
     (if raw \<noteq> None then
        (if snapshot_hash env raw = [] then
           Some (invalid_request ''exec approvals base hash unavailable; reload and retry'')
         else if base = [] then
           Some (invalid_request ''exec approvals base hash required; reload and retry'')
         else if base \<noteq> snapshot_hash env raw then
           Some (invalid_request ''exec approvals changed; reload and retry'')
         else None)
      else if base \<noteq> [] \<and> base \<noteq> snapshot_hash env raw then
        Some (invalid_request ''exec approvals changed; reload and retry'')
      else None)"

text \<open>What the writer decides from the bytes it read: an answer, or the bytes to commit.\<close>

definition decide_set :: "approvals_env \<Rightarrow> dict \<Rightarrow> nat list option \<Rightarrow> jval + nat list" where
  "decide_set env params bytes =
     (case read_snapshot env Read_before bytes of
        (current, raw) \<Rightarrow>
          (case base_hash_error env raw (base_hash_of params) of
             Some e \<Rightarrow> Inl e
           | None \<Rightarrow>
               (case ae_io env Write_temp of
                  Some e \<Rightarrow> Inl (io_error e)
                | None \<Rightarrow> Inr (ae_dumps env (merge_socket (dict_field params ''file'') current)))))"

definition handle_system_exec_approvals_set ::
  "approvals_env \<Rightarrow> dict \<Rightarrow> nat list option \<Rightarrow> jval \<times> nat list option" where
  "handle_system_exec_approvals_set env params bytes =
     (case validate_document (dget params ''file'') of
        Some e \<Rightarrow> (e, bytes)
      | None \<Rightarrow>
          (case (ae_io env Make_dir, ae_io env Take_lock) of
             (Some e, _) \<Rightarrow> (io_error e, bytes)
           | (None, Some e) \<Rightarrow> (io_error e, bytes)
           | (None, None) \<Rightarrow>
               (case decide_set env params bytes of
                  Inl e \<Rightarrow> (e, bytes)
                | Inr new \<Rightarrow>
                    (case ae_io env Replace_doc of
                       Some e \<Rightarrow> (io_error e, bytes)
                     | None \<Rightarrow> (snapshot env Read_after (Some new), Some new)))))"

subsection \<open>What a prepared plan says\<close>

lemma str_items_Some: "str_items vs = Some ss \<longleftrightarrow> vs = map JStr ss"
  by (induction vs arbitrary: ss rule: str_items.induct) (auto simp: map_eq_Cons_conv Cons_eq_map_conv)

lemma str_items_map [simp]: "str_items (map JStr ss) = Some ss"
  by (simp add: str_items_Some)

lemma map_JStr_eq [simp]: "map JStr xs = map JStr ys \<longleftrightarrow> xs = ys"
  by (rule inj_map_eq_map) (simp add: inj_def)

lemma validate_argv_ok:
  "validate_argv v = Inr argv \<longleftrightarrow> v = JList (map JStr argv) \<and> argv \<noteq> [] \<and> hd argv \<noteq> [] \<and>
     length argv \<le> max_argv \<and> (\<forall>a \<in> set argv. length a \<le> max_arg_len \<and> CHR 0x00 \<notin> set a)"
  by (cases argv)
     (auto simp: validate_argv_def str_items_Some Let_def list_ex_iff not_less
       split: json.splits option.splits list.splits if_splits, meson leD)

lemma inline_shell_payload_Some:
  "inline_shell_payload argv = Some x \<longleftrightarrow>
     (\<exists>f y. argv = [''/bin/sh'', f, y] \<and> f \<in> {''-c'', ''-lc''} \<and> strip y = x \<and> x \<noteq> [])"
  by (auto simp: inline_shell_payload_def split: list.splits if_splits)

lemma resolve_command_text_ok:
  assumes "resolve_command_text argv raw = Inr (text, preview)"
  shows "text = format_exec_command argv"
    "raw = JNull \<or> (\<exists>s. raw = JStr s \<and> (strip s \<in> {[], text} \<or> inline_shell_payload argv = Some (strip s)))"
    "preview = (if inline_shell_payload argv \<noteq> Some text then inline_shell_payload argv else None)"
  using assms
  by (auto simp: resolve_command_text_def Let_def split: json.splits if_splits)

lemma validate_cwd_ok:
  "validate_cwd env t cwd = Inr p \<Longrightarrow>
     \<exists>q. resolve_safe t cwd (roots_now env t) = Place q \<and> map_of t q = Some Dir \<and> p = path_str q"
  by (auto simp: validate_cwd_def split: resolved.splits if_splits)

lemma resolve_safe_below: "resolve_safe t path roots = Place p \<Longrightarrow> \<exists>r \<in> set roots. prefix r p"
  by (auto simp: resolve_safe_def Let_def list_ex_iff split: if_splits)

lemma as_outcome_Inr: "as_outcome m = Inr a \<longleftrightarrow> m = Inr a"
  by (cases m) auto

lemma as_outcome_Inl: "as_outcome m = Inl r \<Longrightarrow> \<exists>e. m = Inl e \<and> r = Returned e"
  by (cases m) auto

definition plan_of :: "outcome \<Rightarrow> dict option" where
  "plan_of out =
     (case out of Returned (JObj d) \<Rightarrow> (case dget d ''plan'' of JObj p \<Rightarrow> Some p | _ \<Rightarrow> None) | _ \<Rightarrow> None)"

lemma plan_of_err: "plan_of (Returned (err_reply c m)) = None"
  by (simp add: plan_of_def err_reply_def)

text \<open>The steps of a preparation that gave a plan: every early answer is an error without one.\<close>

definition no_plan :: "outcome + 'a \<Rightarrow> bool" where
  "no_plan m \<longleftrightarrow> (\<forall>r. m = Inl r \<longrightarrow> plan_of r = None)"

lemma plan_bind:
  assumes "plan_of (case sum_bind m f of Inl r \<Rightarrow> r | Inr v \<Rightarrow> Returned v) = Some p" "no_plan m"
  obtains a where "m = Inr a" "plan_of (case f a of Inl r \<Rightarrow> r | Inr v \<Rightarrow> Returned v) = Some p"
  using assms by (cases m) (auto simp: no_plan_def)

lemma invalid_param_no_plan [simp]: "plan_of (Returned (invalid_param m)) = None"
  by (simp add: invalid_param_def plan_of_err)

lemma no_plan_steps:
  "no_plan (as_outcome (validate_argv v))" "no_plan (as_outcome (resolve_command_text argv v))"
  "no_plan (case validate_env v of None \<Rightarrow> Inr () | Some e \<Rightarrow> Inl (Returned e))"
  "no_plan (prepared_cwd fenv t v)" "no_plan (optional_name n v)"
proof -
  have ao: "no_plan (as_outcome m)" if "\<forall>e. m = Inl e \<longrightarrow> plan_of (Returned e) = None" for m :: "jval + 'z"
    using that by (cases m) (auto simp: no_plan_def)
  have "plan_of (Returned e) = None" if "validate_argv v = Inl e" for e
    using that by (auto simp: validate_argv_def Let_def plan_of_err
        split: json.splits option.splits list.splits if_splits)
  then show "no_plan (as_outcome (validate_argv v))"
    by (intro ao) blast
  have "plan_of (Returned (raw_mismatch c)) = None" for c
    by (simp add: plan_of_def raw_mismatch_def dget_def)
  moreover have "(\<exists>m. e = invalid_param m) \<or> (\<exists>c. e = raw_mismatch c)" if "resolve_command_text argv v = Inl e" for e
    using that by (auto simp: resolve_command_text_def Let_def split: if_splits)
  ultimately show "no_plan (as_outcome (resolve_command_text argv v))"
    by (intro ao) (metis invalid_param_no_plan)
  show "no_plan (case validate_env v of None \<Rightarrow> Inr () | Some e \<Rightarrow> Inl (Returned e))"
    by (auto simp: no_plan_def validate_env_def Let_def split: json.splits if_splits option.splits)
  have cwd: "plan_of r = None" if "validate_cwd fenv t s = Inl r" for s r
    using that by (auto simp: validate_cwd_def plan_of_err plan_of_def [of "Raised _"]
        split: resolved.splits if_splits)
  have "no_plan (sum_bind (validate_cwd fenv t s) (\<lambda>p. Inr (Some p)))" for s
    by (cases "validate_cwd fenv t s") (auto simp: no_plan_def dest: cwd)
  then show "no_plan (prepared_cwd fenv t v)"
    by (auto simp: no_plan_def prepared_cwd_def split: json.splits if_splits)
  show "no_plan (optional_name n v)"
    by (auto simp: no_plan_def optional_name_def split: json.splits if_splits)
qed

definition settle :: "outcome + jval \<Rightarrow> outcome" where
  "settle m = (case m of Inl r \<Rightarrow> r | Inr v \<Rightarrow> Returned v)"

lemma settle_bind:
  assumes "plan_of (settle (sum_bind m f)) = Some p" "no_plan m"
  shows "\<exists>a. m = Inr a \<and> plan_of (settle (f a)) = Some p"
  using assms by (cases m) (auto simp: no_plan_def settle_def)

lemma prepare_plan:
  assumes "plan_of (handle_system_run_prepare fenv env t bytes params) = Some plan"
  shows "\<exists>argv shown preview cwd agent sess.
    validate_argv (dget params ''command'') = Inr argv \<and>
    resolve_command_text argv (dget params ''rawCommand'') = Inr (shown, preview) \<and>
    prepared_cwd fenv t (dget params ''cwd'') = Inr cwd \<and>
    optional_name ''agentId'' (dget params ''agentId'') = Inr agent \<and>
    optional_name ''sessionKey'' (dget params ''sessionKey'') = Inr sess \<and>
    plan = [(''argv'', JList (map JStr argv)), (''cwd'', nullable cwd), (''commandText'', JStr shown),
       (''commandPreview'', nullable preview), (''agentId'', nullable agent),
       (''sessionKey'', nullable sess),
       (''policySnapshot'', policy_json (resolve_policy (fst (read_snapshot env Read_before bytes)) agent))]"
  using assms unfolding handle_system_run_prepare_def settle_def [symmetric]
  apply -
  apply (drule settle_bind, rule no_plan_steps, elim exE conjE)
  apply (drule settle_bind, rule no_plan_steps, elim exE conjE)
  subgoal for argv shown
  apply (cases shown)
  apply simp
  apply (drule settle_bind, rule no_plan_steps, elim exE conjE)
  apply (drule settle_bind, rule no_plan_steps, elim exE conjE)
  apply (drule settle_bind, rule no_plan_steps, elim exE conjE)
  apply (drule settle_bind, rule no_plan_steps, elim exE conjE)
  apply (auto simp: Let_def settle_def plan_of_def dget_def as_outcome_Inr)
  done
  done

lemma prepared_cwd_Some:
  assumes "prepared_cwd fenv t v = Inr (Some c)"
  shows "\<exists>q. map_of t q = Some Dir \<and> c = path_str q \<and> (\<exists>r \<in> set (roots_now fenv t). prefix r q)"
proof -
  obtain s where "sum_bind (validate_cwd fenv t s) (\<lambda>p. Inr (Some p)) = Inr (Some c)"
    using assms unfolding prepared_cwd_def by (auto split: json.splits if_splits)
  then have "validate_cwd fenv t s = Inr c"
    by (cases "validate_cwd fenv t s") auto
  then show ?thesis
    using resolve_safe_below by (fastforce dest: validate_cwd_ok)
qed

subsection \<open>The command text names one command\<close>

definition quoted_body :: "string \<Rightarrow> string" where
  "quoted_body arg = concat (map (\<lambda>c. if c = CHR 0x22 then [CHR 0x5C, CHR 0x22] else [c]) arg)"

lemma quoted_body_simps [simp]:
  "quoted_body [] = []"
  "quoted_body (c # s) = (if c = CHR 0x22 then [CHR 0x5C, CHR 0x22] else [c]) @ quoted_body s"
  by (simp_all add: quoted_body_def)

lemma quoted_body_quote: "quoted_body s = u @ CHR 0x22 # v \<Longrightarrow> u \<noteq> [] \<and> last u = CHR 0x5C"
proof (induction s arbitrary: u)
  case (Cons c s)
  show ?case
  proof (cases "c = CHR 0x22")
    case True
    with Cons show ?thesis
      by (auto simp: Cons_eq_append_conv split: if_splits)
  next
    case False
    with Cons show ?thesis
      by (auto simp: Cons_eq_append_conv split: if_splits)
  qed
qed simp

lemma quoted_body_inj: "quoted_body a = quoted_body b \<longleftrightarrow> a = b"
proof (induction a arbitrary: b)
  case Nil
  show ?case by (cases b) auto
next
  case (Cons c a)
  have start: "quoted_body s \<noteq> CHR 0x22 # v" for s v
    using quoted_body_quote [of s "[]" v] by auto
  show ?case
    by (cases b) (auto simp: Cons start start [symmetric])
qed

definition needs_quotes :: "string \<Rightarrow> bool" where
  "needs_quotes a \<longleftrightarrow> a = [] \<or> list_ex js_quote_trigger a"

lemma format_arg_cases:
  "format_arg a = (if needs_quotes a then CHR 0x22 # quoted_body a @ [CHR 0x22] else a)"
  by (auto simp: format_arg_def needs_quotes_def quoted_body_def)

lemma plain_arg:
  "\<not> needs_quotes a \<Longrightarrow> a \<noteq> [] \<and> CHR 0x22 \<notin> set a \<and> CHR '' '' \<notin> set a"
proof -
  have "js_quote_trigger (CHR 0x22)" "js_quote_trigger CHR '' ''"
    by (simp_all add: js_quote_trigger_def js_whitespace_def)
  then show "\<not> needs_quotes a \<Longrightarrow> ?thesis"
    by (auto simp: needs_quotes_def list_ex_iff)
qed

text \<open>Text before an argument is empty or ends with the separating space.\<close>

definition at_arg :: "string \<Rightarrow> bool" where
  "at_arg s \<longleftrightarrow> s = [] \<or> last s = CHR '' ''"

lemma quoted_end:
  assumes "P @ CHR 0x22 # quoted_body a = Q @ CHR 0x22 # quoted_body b" "at_arg P" "at_arg Q"
  shows "P = Q"
proof -
  have no: "False" if us: "us \<noteq> []" "at_arg (Q @ us)" "us @ CHR 0x22 # quoted_body a = CHR 0x22 # quoted_body b"
    for us a b Q
  proof -
    obtain vs where "us = CHR 0x22 # vs" "quoted_body b = vs @ CHR 0x22 # quoted_body a"
      using us by (cases us) auto
    with us quoted_body_quote [of b vs] show False
      by (auto simp: at_arg_def)
  qed
  obtain us where
    "P = Q @ us \<and> us @ CHR 0x22 # quoted_body a = CHR 0x22 # quoted_body b \<or>
     Q = P @ us \<and> us @ CHR 0x22 # quoted_body b = CHR 0x22 # quoted_body a"
    using assms(1) unfolding append_eq_append_conv2 by metis
  then show ?thesis
    using assms(2,3) no [of us Q a b] no [of us P b a] by (cases "us = []") auto
qed

lemma plain_end:
  assumes "P @ a = Q @ b" "at_arg P" "at_arg Q" "CHR '' '' \<notin> set a" "CHR '' '' \<notin> set b"
  shows "P = Q"
proof -
  have space: "us \<noteq> [] \<Longrightarrow> at_arg (xs @ us) \<Longrightarrow> CHR '' '' \<in> set us" for us xs
    unfolding at_arg_def by (metis append_is_Nil_conv last_appendR last_in_set)
  obtain us where "P = Q @ us \<and> us @ a = b \<or> Q = P @ us \<and> us @ b = a"
    using assms(1) by (auto simp: append_eq_append_conv2)
  then show ?thesis
    using assms(2-5) space [of us] by (cases "us = []") auto
qed

lemma format_arg_end:
  assumes "P @ format_arg a = Q @ format_arg b" "at_arg P" "at_arg Q"
  shows "P = Q \<and> a = b"
proof (cases "needs_quotes a \<longleftrightarrow> needs_quotes b")
  case True
  then show ?thesis
    using assms quoted_end [of P a Q b] plain_end [of P a Q b] plain_arg [of a] plain_arg [of b]
    by (auto simp: format_arg_cases quoted_body_inj simp flip: append_Cons append_assoc split: if_splits)
next
  case False
  have "last (P @ format_arg a) = last (Q @ format_arg b)"
    using assms(1) by simp
  with False show ?thesis
    using plain_arg [of a] plain_arg [of b] last_in_set [of a] last_in_set [of b]
    by (auto simp: format_arg_cases simp del: last_in_set split: if_splits)
qed

lemma format_exec_command_snoc:
  "format_exec_command (xs @ [a]) =
     (if xs = [] then [] else format_exec_command xs @ '' '') @ format_arg a"
  by (induction xs rule: induct_list012) (auto simp: format_exec_command_def)

lemma format_exec_command_Nil: "format_exec_command xs = [] \<longleftrightarrow> xs = []"
proof -
  have "format_arg a \<noteq> []" for a
    using plain_arg [of a] by (auto simp: format_arg_cases)
  then show ?thesis
    by (cases xs rule: rev_cases) (simp_all add: format_exec_command_snoc, simp add: format_exec_command_def)
qed

lemma format_exec_command_inj: "format_exec_command xs = format_exec_command ys \<longleftrightarrow> xs = ys"
proof (induction xs arbitrary: ys rule: rev_induct)
  case Nil
  show ?case
    using format_exec_command_Nil by metis
next
  case (snoc a xs)
  define before where "before = (\<lambda>zs. if zs = [] then [] else format_exec_command zs @ '' '')"
  have before: "at_arg (before zs)" "before zs = before xs \<longleftrightarrow> format_exec_command zs = format_exec_command xs" for zs
    using format_exec_command_Nil [of "[]"] format_exec_command_Nil [of xs] format_exec_command_Nil [of zs]
    by (simp_all add: before_def at_arg_def)
      (cases "xs = []"; cases "zs = []"; force)
  show ?case
  proof (cases ys rule: rev_cases)
    case Nil
    then show ?thesis
      using format_exec_command_Nil by (metis snoc_eq_iff_butlast)
  next
    case (snoc zs b)
    have "format_exec_command (ws @ [c]) = before ws @ format_arg c" for ws c
      by (simp add: format_exec_command_snoc before_def)
    then show ?thesis
      using snoc format_arg_end [of "before xs" a "before zs" b] before [of xs] before [of zs] snoc.IH [of zs]
      by auto
  qed
qed

subsection \<open>Valid documents give valid policies\<close>

lemma first_error_None: "first_error es = None \<longleftrightarrow> (\<forall>e \<in> set es. e = None)"
  by (induction es rule: first_error.induct) auto

lemma error_if_None [simp]: "error_if b m = None \<longleftrightarrow> \<not> b"
  by (simp add: error_if_def)

lemma choice_field_value:
  assumes "choice_field scope d k allowed = None" "v \<in> JStr ` set allowed"
  shows "dget_or d k v \<in> JStr ` set allowed"
proof (cases "has_key d k")
  case True
  then have "is_one_of (dget d k) allowed"
    using assms(1) by (simp add: choice_field_def)
  then show ?thesis
    using True by (cases "dget d k") (auto simp: dget_or_def dget_def has_key_map_of split: option.splits)
next
  case False
  then show ?thesis
    using assms(2) by (auto simp: dget_or_def has_key_map_of split: option.splits)
qed

definition policy_value :: "string \<Rightarrow> jval set" where
  "policy_value k =
     (if k = ''autoAllowSkills'' then range JBool
      else JStr ` set (if k = ''ask'' then valid_ask else valid_security))"

definition valid_block :: "dict \<Rightarrow> bool" where
  "valid_block d \<longleftrightarrow> (\<forall>k \<in> set policy_fields. \<forall>v \<in> policy_value k. dget_or d k v \<in> policy_value k)"

lemma valid_block_Nil [simp]: "valid_block []"
  by (simp add: valid_block_def dget_or_def)

lemma validate_policy_block:
  assumes "validate_policy scope d allow = None"
  shows "valid_block d"
proof -
  have "is_bool (dget d ''autoAllowSkills'')" if "has_key d ''autoAllowSkills''"
    using assms that by (simp add: validate_policy_def first_error_None)
  then have "dget_or d ''autoAllowSkills'' v \<in> range JBool" if "v \<in> range JBool" for v
    using that by (cases "dget d ''autoAllowSkills''")
      (auto simp: dget_or_def dget_def has_key_map_of split: option.splits)
  moreover have "choice_field scope d ''security'' valid_security = None" "choice_field scope d ''ask'' valid_ask = None"
    "choice_field scope d ''askFallback'' valid_security = None"
    using assms by (simp_all add: validate_policy_def first_error_None)
  ultimately show ?thesis
    by (auto simp: valid_block_def policy_fields_def policy_value_def choice_field_value)
qed

lemma validate_document_blocks:
  assumes "validate_document (JObj d) = None"
  shows "valid_block (dict_field d ''defaults'')" "valid_block (dict_field (dict_field d ''agents'') a)"
proof -
  have "\<exists>p. dget d ''defaults'' = JObj p \<and> validate_policy ''file.defaults'' p False = None"
    if "has_key d ''defaults''"
    using assms that by (auto simp: validate_document_def first_error_None split: json.splits)
  then show "valid_block (dict_field d ''defaults'')"
    by (cases "has_key d ''defaults''")
      (auto simp: dict_field_def dget_def has_key_map_of dest: validate_policy_block split: json.splits option.splits)
  have agents: "validate_agents (dget d ''agents'') = None" if "has_key d ''agents''"
    using assms that by (auto simp: validate_document_def first_error_None)
  show "valid_block (dict_field (dict_field d ''agents'') a)"
  proof (cases "\<exists>as p. dget d ''agents'' = JObj as \<and> map_of as a = Some (JObj p)")
    case True
    then obtain as p where "dget d ''agents'' = JObj as" "map_of as a = Some (JObj p)"
      by blast
    moreover from this have "validate_policy (''file.agents.'' @ a) p True = None"
      using agents by (fastforce simp: validate_agents_def first_error_None dget_def has_key_map_of
          dest: map_of_SomeD split: option.splits)
    ultimately show ?thesis
      by (auto simp: dict_field_def dget_def dest: validate_policy_block)
  next
    case False
    then show ?thesis
      by (auto simp: dict_field_def dget_def split: json.splits option.splits)
  qed
qed

lemma policy_field_value:
  assumes "valid_block exact" "valid_block wildcard" "valid_block defaults" "k \<in> set policy_fields"
  shows "policy_field exact wildcard defaults k \<in> policy_value k"
proof -
  have "dget default_policy k \<in> policy_value k"
    using assms(4)
    by (auto simp: policy_fields_def default_policy_def dget_def policy_value_def valid_security_def valid_ask_def)
  then show ?thesis
    using assms by (simp add: policy_field_def valid_block_def)
qed

definition valid_policy :: "policy \<Rightarrow> bool" where
  "valid_policy p \<longleftrightarrow> po_security p \<in> policy_value ''security'' \<and> po_ask p \<in> policy_value ''ask'' \<and>
     po_ask_fallback p \<in> policy_value ''askFallback'' \<and> po_auto_allow_skills p \<in> policy_value ''autoAllowSkills''"

lemma resolve_policy_valid:
  assumes "valid_block (dict_field d ''defaults'')" "\<And>a. valid_block (dict_field (dict_field d ''agents'') a)"
  shows "valid_policy (resolve_policy d agent)"
  using assms
  by (auto simp: valid_policy_def resolve_policy_def Let_def policy_fields_def
      intro!: policy_field_value split: option.splits)

definition closed_policy :: policy where
  "closed_policy = \<lparr>po_security = JStr ''deny'', po_ask = JStr ''on-miss'', po_ask_fallback = JStr ''deny'',
     po_auto_allow_skills = JBool False, po_rules = []\<rparr>"

lemma resolve_default: "resolve_policy default_document agent = closed_policy"
  by (auto simp: resolve_policy_def default_document_def default_policy_def closed_policy_def Let_def
      dict_field_def dget_def dget_or_def policy_field_def allowlist_rules_def rules_of_def split: option.splits)

lemma allowlist_rules_set: "set (allowlist_rules w e) = set (rules_of w) \<union> set (rules_of e)"
  by (auto simp: allowlist_rules_def)

lemma allowlist_rules_distinct: "distinct (allowlist_rules w e)"
  by (simp add: allowlist_rules_def)

lemma allowlist_rules_sorted: "sorted (map rule_key (allowlist_rules w e))"
  by (simp add: allowlist_rules_def)

subsection \<open>The socket across a redacted round trip\<close>

declare dget_update [simp]

lemma dict_field_update [simp]:
  "dict_field (AList.update k v d) k' = (if k' = k then (case v of JObj s \<Rightarrow> s | _ \<Rightarrow> []) else dict_field d k')"
  by (simp add: dict_field_def)

lemma dict_field_delete [simp]: "dict_field (AList.delete k d) k' = (if k' = k then [] else dict_field d k')"
  by (simp add: dict_field_def dget_delete)

lemma str_field_present:
  "str_field (present ''path'' a @ present ''token'' b) k =
     (if k = ''path'' then a else if k = ''token'' then b else None)"
  by (auto simp: str_field_def present_def dget_def split: option.splits)

lemma merge_socket_fields:
  "str_field (dict_field (merge_socket document current) ''socket'') ''path'' =
     pick_path (dict_field document ''socket'') (dict_field current ''socket'')"
  "str_field (dict_field (merge_socket document current) ''socket'') ''token'' =
     pick_token (dict_field document ''socket'') (dict_field current ''socket'')"
  by (auto simp: merge_socket_def Let_def str_field_present)
    (auto simp: str_field_def present_def dget_def split: option.splits)

lemma merge_socket_other: "k \<noteq> ''socket'' \<Longrightarrow> dget (merge_socket document current) k = dget document k"
  by (simp add: merge_socket_def Let_def dget_delete)

lemma redact_document_other: "k \<noteq> ''socket'' \<Longrightarrow> dget (redact_document d) k = dget d k"
  by (auto simp: redact_document_def dget_delete split: json.splits)

lemma redact_document_alt:
  "redact_document d =
     (case str_field (dict_field d ''socket'') ''path'' of
        Some p \<Rightarrow> if strip p \<noteq> [] then AList.update ''socket'' (JObj [(''path'', JStr (strip p))]) d
                  else AList.delete ''socket'' d
      | None \<Rightarrow> AList.delete ''socket'' d)"
proof (cases "dget d ''socket''")
  case (JObj s)
  then show ?thesis
    by (cases "dget s ''path''") (simp_all add: redact_document_def dict_field_def str_field_def)
qed (simp_all add: redact_document_def dict_field_def str_field_def dget_def)

lemma redact_document_socket:
  "dict_field (redact_document d) ''socket'' =
     (case str_field (dict_field d ''socket'') ''path'' of
        Some p \<Rightarrow> if strip p = [] then [] else [(''path'', JStr (strip p))]
      | None \<Rightarrow> [])"
  by (simp add: redact_document_alt split: option.split)

lemma redact_document_token:
  "str_field s ''path'' = str_field s' ''path'' \<Longrightarrow>
   redact_document (AList.update ''socket'' (JObj s) d) = redact_document (AList.update ''socket'' (JObj s') d)"
  by (simp add: redact_document_alt delete_update_same split: option.split)

lemma redacted_round_trip:
  assumes "document = redact_document current"
  shows "str_field (dict_field (merge_socket document current) ''socket'') ''path'' =
      str_field (dict_field current ''socket'') ''path''"
    "str_field (dict_field (merge_socket document current) ''socket'') ''token'' =
      str_field (dict_field current ''socket'') ''token''"
  unfolding assms
  by (simp_all add: merge_socket_fields pick_path_def pick_token_def redact_document_socket
      str_field_def [of "[]"] split: option.split)
    (simp_all add: str_field_def dget_def split: option.split)

subsection \<open>Writers of the document, interleaved\<close>

text \<open>
  Every \<open>system.execApprovals.set\<close> in flight is a writer, possibly of another process. The lock file
  admits one at a time; the writer that holds it reads the document in one step and replaces it in
  another, and any step of another writer may come between. A writer whose process dies loses the
  lock. Each file operation may fail at any step: the \<open>ae_io\<close> of a step is arbitrary.
\<close>

datatype writer =
    Idle
  | Holding dict
  | Committing dict "nat list option" "nat list option" "nat list"
  | Finished jval
  | Died

fun working :: "writer \<Rightarrow> bool" where
  "working (Holding _) \<longleftrightarrow> True"
| "working (Committing _ _ _ _) \<longleftrightarrow> True"
| "working _ \<longleftrightarrow> False"

record commit =
  cm_params :: dict
  cm_seen :: "nat list option"
  cm_prior :: "nat list option"
  cm_new :: "nat list"

record approvals_world =
  aw_doc :: "nat list option"
  aw_holder :: "nat option"
  aw_writers :: "nat \<Rightarrow> writer"
  aw_log :: "commit list"

definition with_io :: "approvals_env \<Rightarrow> (io_stage \<Rightarrow> string option) \<Rightarrow> approvals_env" where
  "with_io env io = env\<lparr>ae_io := io\<rparr>"

definition leave :: "nat \<Rightarrow> writer \<Rightarrow> approvals_world \<Rightarrow> approvals_world" where
  "leave w st s = s\<lparr>aw_holder := None, aw_writers := (aw_writers s)(w := st)\<rparr>"

definition stay :: "nat \<Rightarrow> writer \<Rightarrow> approvals_world \<Rightarrow> approvals_world" where
  "stay w st s = s\<lparr>aw_writers := (aw_writers s)(w := st)\<rparr>"

inductive approvals_step :: "approvals_env \<Rightarrow> approvals_world \<Rightarrow> approvals_world \<Rightarrow> bool" for env where
  refused: "aw_writers s w = Idle \<Longrightarrow> validate_document (dget params ''file'') = Some e \<Longrightarrow>
     approvals_step env s (stay w (Finished e) s)"
| no_lock: "aw_writers s w = Idle \<Longrightarrow> validate_document (dget params ''file'') = None \<Longrightarrow>
     approvals_step env s (stay w (Finished (io_error e)) s)"
| take_lock: "aw_writers s w = Idle \<Longrightarrow> validate_document (dget params ''file'') = None \<Longrightarrow> aw_holder s = None \<Longrightarrow>
     approvals_step env s (stay w (Holding params) (s\<lparr>aw_holder := Some w\<rparr>))"
| decline: "aw_writers s w = Holding params \<Longrightarrow> decide_set (with_io env io) params (aw_doc s) = Inl e \<Longrightarrow>
     approvals_step env s (leave w (Finished e) s)"
| prepare: "aw_writers s w = Holding params \<Longrightarrow> decide_set (with_io env io) params (aw_doc s) = Inr new \<Longrightarrow>
     approvals_step env s
       (stay w (Committing params (snd (read_snapshot (with_io env io) Read_before (aw_doc s))) (aw_doc s) new) s)"
| fail_commit: "aw_writers s w = Committing params seen prior new \<Longrightarrow>
     approvals_step env s (leave w (Finished (io_error e)) s)"
| commit: "aw_writers s w = Committing params seen prior new \<Longrightarrow>
     approvals_step env s (leave w (Finished (snapshot (with_io env io) Read_after (Some new)))
       (s\<lparr>aw_doc := Some new,
          aw_log := aw_log s @ [\<lparr>cm_params = params, cm_seen = seen, cm_prior = aw_doc s, cm_new = new\<rparr>]\<rparr>))"
| die: "working (aw_writers s w) \<Longrightarrow> approvals_step env s (leave w Died s)"

definition initial_world :: "nat list option \<Rightarrow> approvals_world" where
  "initial_world doc = \<lparr>aw_doc = doc, aw_holder = None, aw_writers = \<lambda>_. Idle, aw_log = []\<rparr>"

definition approvals_reachable :: "approvals_env \<Rightarrow> nat list option \<Rightarrow> approvals_world \<Rightarrow> bool" where
  "approvals_reachable env doc s = (approvals_step env)\<^sup>*\<^sup>* (initial_world doc) s"

inductive_cases approvals_stepE: "approvals_step env s s'"

text \<open>The invariant: only the holder is between its read and its commit, and what it read is what is there.\<close>

definition seen_ok :: "approvals_env \<Rightarrow> dict \<Rightarrow> nat list option \<Rightarrow> nat list option \<Rightarrow> bool" where
  "seen_ok env params seen prior \<longleftrightarrow>
     seen \<in> {None, prior} \<and> base_hash_error env seen (base_hash_of params) = None"

fun chained :: "nat list option \<Rightarrow> commit list \<Rightarrow> nat list option \<Rightarrow> bool" where
  "chained doc [] final \<longleftrightarrow> final = doc"
| "chained doc (c # cs) final \<longleftrightarrow> cm_prior c = doc \<and> chained (Some (cm_new c)) cs final"

definition approvals_inv :: "approvals_env \<Rightarrow> nat list option \<Rightarrow> approvals_world \<Rightarrow> bool" where
  "approvals_inv env doc s \<longleftrightarrow>
     (\<forall>w. working (aw_writers s w) \<longrightarrow> aw_holder s = Some w) \<and>
     (\<forall>w params seen prior new. aw_writers s w = Committing params seen prior new \<longrightarrow>
        prior = aw_doc s \<and> seen_ok env params seen prior) \<and>
     chained doc (aw_log s) (aw_doc s) \<and>
     (\<forall>c \<in> set (aw_log s). seen_ok env (cm_params c) (cm_seen c) (cm_prior c))"

lemma chained_snoc: "chained doc (cs @ [c]) final \<longleftrightarrow> chained doc cs (cm_prior c) \<and> final = Some (cm_new c)"
  by (induction doc cs final rule: chained.induct) auto

lemma snapshot_hash_io: "snapshot_hash (with_io env io) = snapshot_hash env"
  by (simp add: snapshot_hash_def missing_hash_def with_io_def fun_eq_iff split: option.split)

lemma base_hash_error_io [simp]: "base_hash_error (with_io env io) = base_hash_error env"
  by (simp add: base_hash_error_def snapshot_hash_io fun_eq_iff)

lemma decide_set_seen:
  assumes "decide_set (with_io env io) params bytes = Inr new"
  shows "seen_ok env params (snd (read_snapshot (with_io env io) Read_before bytes)) bytes"
proof -
  have "snd (read_snapshot e st bytes) \<in> {None, bytes}" for e st
    by (auto simp: read_snapshot_def split: option.splits)
  then show ?thesis
    using assms by (auto simp: decide_set_def seen_ok_def split: prod.splits option.splits)
qed

lemma approvals_inv_alone:
  assumes "approvals_inv env doc s" "working (aw_writers s w)" "w' \<noteq> w"
  shows "\<not> working (aw_writers s w')"
  using assms unfolding approvals_inv_def by (metis option.inject)

lemma approvals_inv_committing:
  assumes "approvals_inv env doc s" "aw_writers s w = Committing params seen prior new"
  shows "prior = aw_doc s" "seen_ok env params seen prior"
  using assms unfolding approvals_inv_def by metis+

lemma approvals_inv_leave:
  assumes "approvals_inv env doc s" "working (aw_writers s w)" "\<not> working st"
  shows "approvals_inv env doc (leave w st s)"
proof -
  have "\<not> working (aw_writers s w')" if "w' \<noteq> w" for w'
    using approvals_inv_alone [OF assms(1,2)] that .
  then show ?thesis
    using assms(1,3) by (fastforce simp: approvals_inv_def leave_def)
qed

lemma approvals_step_inv:
  assumes "approvals_step env s s'" "approvals_inv env doc s"
  shows "approvals_inv env doc s'"
  using assms
proof (induction rule: approvals_step.induct)
  case (prepare s w params io new)
  then show ?case
    using decide_set_seen [OF prepare(2)] by (auto simp: approvals_inv_def stay_def)
next
  case (commit s w params seen prior new io)
  have mine: "prior = aw_doc s" "seen_ok env params seen prior"
    using approvals_inv_committing [OF commit(2,1)] .
  have "\<not> working (aw_writers s w')" if "w' \<noteq> w" for w'
    using approvals_inv_alone [OF commit(2), of w w'] commit(1) that by simp
  then show ?case
    using commit(2) mine by (fastforce simp: approvals_inv_def leave_def chained_snoc)
next
  case (take_lock s w params)
  then show ?case by (auto simp: approvals_inv_def stay_def)
next
  case (refused s w params e)
  then show ?case by (auto simp: approvals_inv_def stay_def)
next
  case (no_lock s w params e)
  then show ?case by (auto simp: approvals_inv_def stay_def)
qed (simp_all add: approvals_inv_leave)

lemma approvals_reachable_inv:
  assumes "approvals_reachable env doc s"
  shows "approvals_inv env doc s"
  using assms unfolding approvals_reachable_def
proof (induction rule: rtranclp_induct)
  case base
  show ?case by (simp add: approvals_inv_def initial_world_def)
next
  case (step s s')
  then show ?case by (blast intro: approvals_step_inv)
qed

text \<open>A call that meets no other writer is one run of these steps.\<close>

definition run_from :: "approvals_env \<Rightarrow> approvals_world \<Rightarrow> nat \<Rightarrow> jval \<times> nat list option \<Rightarrow> bool" where
  "run_from env s w r \<longleftrightarrow>
     (\<exists>s'. (approvals_step env)\<^sup>*\<^sup>* s s' \<and> aw_writers s' w = Finished (fst r) \<and> aw_doc s' = snd r)"

lemma run_from_step: "approvals_step env s s' \<Longrightarrow> run_from env s' w r \<Longrightarrow> run_from env s w r"
  by (auto simp: run_from_def intro: converse_rtranclp_into_rtranclp)

lemma run_from_done: "aw_writers s w = Finished (fst r) \<Longrightarrow> aw_doc s = snd r \<Longrightarrow> run_from env s w r"
  by (auto simp: run_from_def)

text \<open>What is left of the call once the lock is held.\<close>

definition locked_set :: "approvals_env \<Rightarrow> dict \<Rightarrow> nat list option \<Rightarrow> jval \<times> nat list option" where
  "locked_set env params bytes =
     (case decide_set env params bytes of
        Inl e \<Rightarrow> (e, bytes)
      | Inr new \<Rightarrow>
          (case ae_io env Replace_doc of
             Some e \<Rightarrow> (io_error e, bytes)
           | None \<Rightarrow> (snapshot env Read_after (Some new), Some new)))"

lemma committing_steps:
  assumes "aw_writers s w = Committing params seen (aw_doc s) new"
    "decide_set (with_io env io) params (aw_doc s) = Inr new"
  shows "run_from env s w (locked_set (with_io env io) params (aw_doc s))"
proof (cases "ae_io (with_io env io) Replace_doc")
  case None
  with assms(2) show ?thesis
    by (intro run_from_step [OF approvals_step.commit [OF assms(1), of env io]] run_from_done)
      (simp_all add: locked_set_def leave_def)
next
  case (Some e)
  with assms(2) show ?thesis
    by (intro run_from_step [OF approvals_step.fail_commit [OF assms(1), of env e]] run_from_done)
      (simp_all add: locked_set_def leave_def)
qed

lemma holding_steps:
  assumes "aw_writers s w = Holding params"
  shows "run_from env s w (locked_set (with_io env io) params (aw_doc s))"
proof (cases "decide_set (with_io env io) params (aw_doc s)")
  case (Inl e)
  then show ?thesis
    by (intro run_from_step [OF approvals_step.decline [OF assms Inl]] run_from_done)
      (simp_all add: locked_set_def leave_def)
next
  case (Inr new)
  let ?s = "stay w (Committing params (snd (read_snapshot (with_io env io) Read_before (aw_doc s))) (aw_doc s) new) s"
  have "run_from env ?s w (locked_set (with_io env io) params (aw_doc ?s))"
    by (rule committing_steps) (simp_all add: stay_def Inr)
  then show ?thesis
    by (intro run_from_step [OF approvals_step.prepare [OF assms Inr]]) (simp add: stay_def)
qed

text \<open>
  The handler refines the interleaving model. From a world where no writer holds the lock, a
  writer can take the steps of one call and end with the answer and the document that the sequential
  handler gives for the same parameters and the same failures of the file operations.
\<close>

theorem handle_set_runs_as_steps:
  assumes "aw_writers s w = Idle" "aw_holder s = None"
  shows "run_from env s w (handle_system_exec_approvals_set (with_io env io) params (aw_doc s))"
proof (cases "validate_document (dget params ''file'')")
  case (Some e)
  then show ?thesis
    by (intro run_from_step [OF approvals_step.refused [OF assms(1) Some]] run_from_done)
      (simp_all add: handle_system_exec_approvals_set_def stay_def)
next
  case None
  let ?e = "with_io env io" and ?s = "stay w (Holding params) (s\<lparr>aw_holder := Some w\<rparr>)"
  have early: "run_from env s w (io_error e, aw_doc s)" for e
    by (intro run_from_step [OF approvals_step.no_lock [OF assms(1) None]] run_from_done)
      (simp_all add: stay_def)
  have "run_from env ?s w (locked_set ?e params (aw_doc ?s))"
    by (rule holding_steps) (simp add: stay_def)
  then have "run_from env s w (locked_set ?e params (aw_doc s))"
    by (intro run_from_step [OF approvals_step.take_lock [OF assms(1) None assms(2)]]) (simp add: stay_def)
  with None early show ?thesis
    by (simp add: handle_system_exec_approvals_set_def flip: locked_set_def split: option.split)
qed

subsection \<open>Properties\<close>

definition shell_payload :: "string list \<Rightarrow> string \<Rightarrow> bool" where
  "shell_payload argv x \<longleftrightarrow> (\<exists>y. argv \<in> {[''/bin/sh'', ''-c'', y], [''/bin/sh'', ''-lc'', y]} \<and> strip y = x)"

lemma inline_shell_payload_iff: "inline_shell_payload argv = Some x \<longleftrightarrow> x \<noteq> [] \<and> shell_payload argv x"
  by (auto simp: inline_shell_payload_Some shell_payload_def)

text \<open>
  C32: a prepared plan is truthful. Its \<open>argv\<close> is the \<open>command\<close> parameter, a nonempty list of
  strings with a nonempty executable; its \<open>commandText\<close> is the canonical text of that \<open>argv\<close>, never
  text of the caller; a nonblank \<open>rawCommand\<close> that was accepted is that text or the payload of a
  literal \<open>/bin/sh -c\<close>, and so is the preview; its \<open>cwd\<close> is an existing directory below an allowed root.
\<close>

theorem prepared_plan_truthful:
  assumes "plan_of (handle_system_run_prepare fenv env t bytes params) = Some plan"
  shows "\<exists>argv. argv \<noteq> [] \<and> hd argv \<noteq> [] \<and> dget params ''command'' = JList (map JStr argv) \<and>
    dget plan ''argv'' = JList (map JStr argv) \<and>
    dget plan ''commandText'' = JStr (format_exec_command argv) \<and>
    (\<forall>s. dget params ''rawCommand'' = JStr s \<longrightarrow>
       strip s \<in> {[], format_exec_command argv} \<or> shell_payload argv (strip s)) \<and>
    (\<forall>x. dget plan ''commandPreview'' = JStr x \<longrightarrow> shell_payload argv x) \<and>
    (\<forall>c. dget plan ''cwd'' = JStr c \<longrightarrow>
       (\<exists>q. map_of t q = Some Dir \<and> c = path_str q \<and> (\<exists>r \<in> set (roots_now fenv t). prefix r q)))"
proof -
  obtain argv shown preview cwd agent sess where
    argv: "validate_argv (dget params ''command'') = Inr argv" and
    shown: "resolve_command_text argv (dget params ''rawCommand'') = Inr (shown, preview)" and
    cwd: "prepared_cwd fenv t (dget params ''cwd'') = Inr cwd" and
    plan: "plan = [(''argv'', JList (map JStr argv)), (''cwd'', nullable cwd), (''commandText'', JStr shown),
       (''commandPreview'', nullable preview), (''agentId'', nullable agent), (''sessionKey'', nullable sess),
       (''policySnapshot'', policy_json (resolve_policy (fst (read_snapshot env Read_before bytes)) agent))]"
    using prepare_plan [OF assms] by blast
  note parts = resolve_command_text_ok [OF shown]
  have "shell_payload argv x" if "dget plan ''commandPreview'' = JStr x" for x
    using that parts(3) by (auto simp: plan nullable_def inline_shell_payload_iff split: option.splits if_splits)
  moreover have "\<exists>q. map_of t q = Some Dir \<and> c = path_str q \<and> (\<exists>r \<in> set (roots_now fenv t). prefix r q)"
    if "dget plan ''cwd'' = JStr c" for c
    using that cwd by (intro prepared_cwd_Some) (auto simp: plan nullable_def split: option.splits)
  moreover have "strip s \<in> {[], format_exec_command argv} \<or> shell_payload argv (strip s)"
    if "dget params ''rawCommand'' = JStr s" for s
    using that parts(1,2) by (auto simp: inline_shell_payload_iff)
  ultimately show ?thesis
    using argv parts(1) by (intro exI [of _ argv]) (auto simp: validate_argv_ok plan)
qed

text \<open>
  The approval text names one command: two argument vectors with the same canonical text are the
  same vector, so what an approver reads determines what runs.
\<close>

theorem command_text_names_one_command:
  "format_exec_command argv = format_exec_command argv' \<longleftrightarrow> argv = argv'"
  by (rule format_exec_command_inj)

lemma read_snapshot_document:
  "fst (read_snapshot env stage bytes) = default_document \<or>
   (\<exists>raw d. fst (read_snapshot env stage bytes) = d \<and> bytes = Some raw \<and> ae_io env stage = None \<and>
      ae_loads env raw = Some (JObj d) \<and> validate_document (JObj d) = None)"
  by (auto simp: read_snapshot_def document_of_def split: option.splits json.splits)

lemma read_policy_valid: "valid_policy (resolve_policy (fst (read_snapshot env stage bytes)) agent)"
  using read_snapshot_document [of env stage bytes]
proof (elim disjE exE conjE)
  assume "fst (read_snapshot env stage bytes) = default_document"
  moreover have "valid_policy closed_policy"
    by (auto simp: valid_policy_def closed_policy_def policy_value_def valid_security_def valid_ask_def)
  ultimately show ?thesis
    by (simp add: resolve_default)
qed (auto intro: resolve_policy_valid validate_document_blocks)

lemma resolve_policy_rules:
  "distinct (po_rules (resolve_policy d agent))"
  "sorted (map rule_key (po_rules (resolve_policy d agent)))"
  "set (po_rules (resolve_policy d agent)) =
     set (rules_of (dict_field (dict_field d ''agents'') ''*'')) \<union>
     (case agent of None \<Rightarrow> {} | Some a \<Rightarrow>
        if a = [] then {} else set (rules_of (dict_field (dict_field d ''agents'') a)))"
  by (auto simp: resolve_policy_def Let_def allowlist_rules_set allowlist_rules_distinct
      allowlist_rules_sorted rules_of_def [of "[]"] dget_def [of "[]"] split: option.splits)

text \<open>
  C34: the policy an agent gets is always one of the known policies, whatever the bytes on disk. Its
  rules are those of the wildcard and of the agent, each once and sorted by bytes. When the document
  is missing, unreadable, not JSON or against the schema, the policy is the closed one: deny, no rules.
\<close>

theorem agent_policy_fails_closed:
  "let d = fst (read_snapshot env stage bytes); p = resolve_policy d agent;
       block = \<lambda>a. dict_field (dict_field d ''agents'') a in
   valid_policy p \<and> distinct (po_rules p) \<and> sorted (map rule_key (po_rules p)) \<and>
   set (po_rules p) = set (rules_of (block ''*'')) \<union>
     (case agent of None \<Rightarrow> {} | Some a \<Rightarrow> if a = [] then {} else set (rules_of (block a))) \<and>
   (p = closed_policy \<or>
    (\<exists>raw. bytes = Some raw \<and> ae_io env stage = None \<and> ae_loads env raw = Some (JObj d) \<and>
       validate_document (JObj d) = None))"
  using read_snapshot_document [of env stage bytes]
  by (auto simp: Let_def resolve_policy_rules read_policy_valid resolve_default)

text \<open>
  What a caller reads of the socket and what its write keeps. The snapshot does not depend on the
  stored token and holds none; writing back the document as it was shown restores the exact stored path
  and token and leaves every other field as it was.
\<close>

theorem socket_survives_redaction:
  "redact_document (AList.update ''socket'' (JObj (AList.update ''token'' x s)) d) =
     redact_document (AList.update ''socket'' (JObj s) d) \<and>
   str_field (dict_field (redact_document d) ''socket'') ''token'' = None \<and>
   str_field (dict_field (merge_socket (redact_document d) d) ''socket'') ''path'' =
     str_field (dict_field d ''socket'') ''path'' \<and>
   str_field (dict_field (merge_socket (redact_document d) d) ''socket'') ''token'' =
     str_field (dict_field d ''socket'') ''token'' \<and>
   dget (AList.delete ''socket'' (merge_socket (redact_document d) d)) k = dget (AList.delete ''socket'' d) k"
proof (intro conjI)
  have "str_field (AList.update ''token'' x s) ''path'' = str_field s ''path''"
    by (simp add: str_field_def)
  then show "redact_document (AList.update ''socket'' (JObj (AList.update ''token'' x s)) d) =
     redact_document (AList.update ''socket'' (JObj s) d)"
    by (rule redact_document_token)
  show "str_field (dict_field (redact_document d) ''socket'') ''token'' = None"
    by (simp add: redact_document_socket split: option.split) (simp add: str_field_def dget_def)
qed (simp_all add: redacted_round_trip dget_delete merge_socket_other redact_document_other)

lemma seen_ok_checked:
  "seen_ok env params seen prior \<Longrightarrow>
     (case seen of
        Some b \<Rightarrow> prior = Some b \<and> ae_sha256 env b = base_hash_of params \<and> base_hash_of params \<noteq> []
      | None \<Rightarrow> base_hash_of params \<in> {[], missing_hash env})"
  by (cases seen) (auto simp: seen_ok_def base_hash_error_def snapshot_hash_def split: if_splits)


subsection \<open>Witnesses\<close>

definition sample_approvals :: approvals_env where
  "sample_approvals = \<lparr>ae_path = ''/data/exec-approvals.json'', ae_sha256 = (\<lambda>bs. concat (map nat_str bs)),
     ae_loads = (\<lambda>bs. if bs = [1] then Some (JObj default_document) else None),
     ae_dumps = (\<lambda>d. [7]), ae_io = (\<lambda>_. None)\<rparr>"

definition sample_set :: dict where
  "sample_set = [(''file'', JObj default_document), (''baseHash'', JStr ''1'')]"

lemma sample_default_valid: "validate_document (JObj default_document) = None"
  by (simp add: validate_document_def default_document_def default_policy_def first_error_None
      validate_policy_def unknown_fields_def policy_fields_def choice_field_def list_field_def has_key_def
      validate_agents_def valid_security_def valid_ask_def)

lemma sample_decides: "decide_set (with_io sample_approvals (\<lambda>_. None)) sample_set (Some [1]) = Inr [7]"
  by (simp add: decide_set_def read_snapshot_def with_io_def sample_approvals_def base_hash_error_def
      snapshot_hash_def base_hash_of_def sample_set_def) code_simp

definition sample_fs :: fs_env where
  "sample_fs = \<lparr>ev_addon_mode = True, ev_roots_var = [], ev_cwd = [], ev_sha256 = (\<lambda>_. []),
     ev_sha1 = (\<lambda>_. []), ev_now = 0, ev_utc_now = [], ev_iso_time = (\<lambda>_. Aware 0),
     ev_caller = None, ev_errno_text = (\<lambda>_. []), ev_device = (\<lambda>_. 0),
     ev_unified_diff = (\<lambda>_ _ _ _. []), ev_send2trash = None, ev_trash_dir = [], ev_trash_stamp = []\<rparr>"

definition sample_prepare :: dict where
  "sample_prepare = [(''command'', JList (map JStr [''/bin/sh'', ''-lc'', ''ls''])), (''rawCommand'', JStr ''ls''),
     (''cwd'', JStr ''/share'')]"

definition sample_plan :: dict where
  "sample_plan = [(''argv'', JList (map JStr [''/bin/sh'', ''-lc'', ''ls''])), (''cwd'', JStr ''/share''),
     (''commandText'', JStr ''/bin/sh -lc ls''), (''commandPreview'', JStr ''ls''), (''agentId'', JNull),
     (''sessionKey'', JNull), (''policySnapshot'', policy_json closed_policy)]"

lemma sample_prepares:
  "plan_of (handle_system_run_prepare sample_fs sample_approvals [([], Dir), ([''share''], Dir)] None sample_prepare) =
     Some sample_plan"
  by code_simp

lemma prepared_plan_truthful_witness:
  "\<exists>argv. argv \<noteq> [] \<and> dget sample_prepare ''command'' = JList (map JStr argv) \<and>
     dget sample_plan ''commandText'' = JStr (format_exec_command argv)"
  using prepared_plan_truthful [OF sample_prepares] by blast

definition sample_world_set :: approvals_world where
  "sample_world_set = (let s1 = stay 0 (Holding sample_set) ((initial_world (Some [1]))\<lparr>aw_holder := Some 0\<rparr>);
       s2 = stay 0 (Committing sample_set (Some [1]) (Some [1]) [7]) s1 in
     leave 0 (Finished (snapshot (with_io sample_approvals (\<lambda>_. None)) Read_after (Some [7])))
       (s2\<lparr>aw_doc := Some [7], aw_log := [\<lparr>cm_params = sample_set, cm_seen = Some [1],
          cm_prior = Some [1], cm_new = [7]\<rparr>]\<rparr>))"

lemma sample_set_reachable: "approvals_reachable sample_approvals (Some [1]) sample_world_set"
proof -
  let ?e = "with_io sample_approvals (\<lambda>_. None)"
  let ?s0 = "initial_world (Some [1])"
  let ?s1 = "stay 0 (Holding sample_set) (?s0\<lparr>aw_holder := Some 0\<rparr>)"
  let ?s2 = "stay 0 (Committing sample_set (snd (read_snapshot ?e Read_before (aw_doc ?s1))) (aw_doc ?s1) [7]) ?s1"
  have 1: "approvals_step sample_approvals ?s0 ?s1"
    by (rule approvals_step.take_lock)
      (simp_all add: initial_world_def sample_set_def sample_default_valid)
  have 2: "approvals_step sample_approvals ?s1 ?s2"
    by (rule approvals_step.prepare) (simp_all add: initial_world_def stay_def sample_decides [simplified])
  have 3: "approvals_step sample_approvals ?s2 sample_world_set"
  proof -
    have s2: "aw_writers ?s2 0 = Committing sample_set (Some [1]) (Some [1]) [7]"
      "?s2 = stay 0 (Committing sample_set (Some [1]) (Some [1]) [7]) ?s1" "aw_doc ?s2 = Some [1]"
      "aw_log ?s2 = []"
      by (simp_all add: stay_def initial_world_def read_snapshot_def with_io_def sample_approvals_def)
    show ?thesis
      using approvals_step.commit [OF s2(1), of sample_approvals "\<lambda>_. None"]
      unfolding s2(3,4) append_Nil unfolding s2(2) sample_world_set_def Let_def .
  qed
  from 1 2 3 show ?thesis
    unfolding approvals_reachable_def
    by (intro rtranclp.rtrancl_into_rtrancl [OF rtranclp.rtrancl_into_rtrancl [OF r_into_rtranclp]])
qed


lemma handle_set_runs_as_steps_witness:
  "run_from sample_approvals (initial_world (Some [1])) 0
     (handle_system_exec_approvals_set (with_io sample_approvals (\<lambda>_. None)) sample_set (Some [1]))"
  using handle_set_runs_as_steps [of "initial_world (Some [1])" 0 sample_approvals "\<lambda>_. None" sample_set]
  by (simp add: initial_world_def)

text \<open>
  A document that exists but cannot be read counts as missing, and a writer without a base hash
  replaces it.
\<close>

lemma unreadable_document_is_replaced:
  "\<exists>env params old new. ae_io env Read_before \<noteq> None \<and> base_hash_of params = [] \<and>
     snd (handle_system_exec_approvals_set env params (Some old)) = Some new \<and> new \<noteq> old"
proof -
  let ?env = "with_io sample_approvals (\<lambda>st. if st = Read_before then Some ''EACCES'' else None)"
  have "snd (handle_system_exec_approvals_set ?env [(''file'', JObj default_document)] (Some [1])) = Some [7]"
    by (simp add: handle_system_exec_approvals_set_def decide_set_def read_snapshot_def base_hash_error_def
        base_hash_of_def with_io_def sample_approvals_def sample_default_valid dget_def)
  then show ?thesis
    by (intro exI [of _ ?env] exI [of _ "[(''file'', JObj default_document)]"] exI [of _ "[1]"] exI [of _ "[7]"])
      (simp add: with_io_def base_hash_of_def)
qed

end
