(* ===== verification/System_Run.thy ===== *)
theory System_Run
  imports Exec_Approvals Py_Case
begin

text \<open>
  \<open>commands/system_run.py\<close>: the checks a forwarded \<open>system.run\<close> passes before a process is started,
  the environment the process gets, and the answer for each way it can end.
\<close>

subsection \<open>The environment of the process\<close>

definition default_max_timeout_ms :: int where
  "default_max_timeout_ms = 60000"

definition default_timeout_ms :: int where
  "default_timeout_ms = 30000"

definition max_output_bytes :: nat where
  "max_output_bytes = 256 * 1024"

definition max_argv_bytes :: nat where
  "max_argv_bytes = 128 * 1024"

definition max_env_bytes :: nat where
  "max_env_bytes = 128 * 1024"

definition safe_env_keys :: "string list" where
  "safe_env_keys = [''PATH'', ''HOME'', ''LANG'', ''TZ'', ''USER'', ''TERM'', ''LOGNAME'']"

definition blocked_key_substrings :: "string list" where
  "blocked_key_substrings = [''TOKEN'', ''SECRET'', ''KEY'', ''PASS'', ''CREDENTIAL'', ''AUTH'', ''PWD'']"

definition is_blocked_key :: "string \<Rightarrow> bool" where
  "is_blocked_key key = list_ex (\<lambda>p. occurs p (py_upper key)) blocked_key_substrings"

type_synonym environment = "(string \<times> string) list"

definition base_env :: "environment \<Rightarrow> environment" where
  "base_env environ =
     List.map_filter (\<lambda>k. map_option (Pair k) (map_of environ k)) safe_env_keys"

definition merge_env :: "environment \<Rightarrow> environment \<Rightarrow> environment option" where
  "merge_env environ caller_env =
     (if list_ex (\<lambda>(k, v). is_blocked_key k) caller_env then None
      else Some (fold (\<lambda>(k, v). AList.update k v) caller_env (base_env environ)))"

definition encoded_size :: "string list \<Rightarrow> nat" where
  "encoded_size items = sum_list (map (\<lambda>s. length (utf8_text s) + 1) items)"

subsection \<open>The timeout\<close>

text \<open>
  \<open>int(s)\<close> for a string: white space around it, a sign, ASCII digits with single underscores between
  them, at most 4300 digits. White space below U+0020 is that of C.
\<close>

definition int_space :: "char \<Rightarrow> bool" where
  "int_space c = (of_char c \<in> set [9, 10, 11, 12, 13, 32, 133, 160 :: nat])"

definition int_strip :: "string \<Rightarrow> string" where
  "int_strip s = rev (dropWhile int_space (rev (dropWhile int_space s)))"

fun digit_run :: "string \<Rightarrow> string option" where
  "digit_run [] = None"
| "digit_run [c] = (if CHR ''0'' \<le> c \<and> c \<le> CHR ''9'' then Some [c] else None)"
| "digit_run (c # d # s) =
     (if \<not> (CHR ''0'' \<le> c \<and> c \<le> CHR ''9'') then None
      else map_option ((#) c) (digit_run (if d = CHR ''_'' then s else d # s)))"

definition int_of_string :: "string \<Rightarrow> int option" where
  "int_of_string s =
     (let unsigned = (\<lambda>t. case digit_run t of
                       Some ds \<Rightarrow> if length ds \<le> 4300 then Some (int (read_nat ds)) else None
                     | None \<Rightarrow> None)
      in case int_strip s of
           CHR ''-'' # t \<Rightarrow> map_option uminus (unsigned t)
         | CHR ''+'' # t \<Rightarrow> unsigned t
         | t \<Rightarrow> unsigned t)"

definition max_timeout_ms :: "environment \<Rightarrow> int" where
  "max_timeout_ms environ =
     (case map_of environ ''OPENCLAW_RUN_TIMEOUT_MAX_MS'' of
        None \<Rightarrow> default_max_timeout_ms
      | Some s \<Rightarrow> (case int_of_string s of Some i \<Rightarrow> i | None \<Rightarrow> default_max_timeout_ms))"

definition resolve_timeout_ms :: "environment \<Rightarrow> dict \<Rightarrow> jval + int" where
  "resolve_timeout_ms environ params =
     (if has_key params ''timeout'' \<and> \<not> has_key params ''timeoutMs'' then
        Inl (invalid_param ''timeout is not accepted; use timeoutMs (native exec wire contract)'')
      else
        (case dget_or params ''timeoutMs'' (JInt default_timeout_ms) of
           JInt i \<Rightarrow>
             if i \<le> 0 then Inl (invalid_param ''timeoutMs must be positive'')
             else Inr (min i (max_timeout_ms environ))
         | v \<Rightarrow> Inl (invalid_param (''timeoutMs must be an integer number of milliseconds, got '' @ py_repr v))))"

subsection \<open>The approval envelope and the plan\<close>

definition approval_decisions :: "string list" where
  "approval_decisions = [''allow-once'', ''allow-always'']"

definition nonblank_str :: "jval \<Rightarrow> bool" where
  "nonblank_str v = (case v of JStr s \<Rightarrow> strip s \<noteq> [] | _ \<Rightarrow> False)"

definition validate_optional_identifier :: "jval \<Rightarrow> string \<Rightarrow> jval option" where
  "validate_optional_identifier v field =
     error_if (v \<noteq> JNull \<and> \<not> nonblank_str v) (field @ '' must be a non-empty string'')"

definition unauthorized :: "string \<Rightarrow> jval" where
  "unauthorized m = err_reply ''UNAUTHORIZED'' m"

definition approval_given :: "dict \<Rightarrow> bool" where
  "approval_given params \<longleftrightarrow>
     dget params ''approved'' = JBool True \<or> is_one_of (dget params ''approvalDecision'') approval_decisions \<or>
     nonblank_str (dget params ''approvalSource'')"

definition verify_authorization :: "dict \<Rightarrow> jval option" where
  "verify_authorization params =
     (case dget params ''systemRunPlan'' of
        JNull \<Rightarrow> Some (unauthorized ''system.run requires the Gateway-forwarded systemRunPlan'')
      | JObj _ \<Rightarrow>
          if \<not> nonblank_str (dget params ''runId'') then
            Some (unauthorized ''system.run requires a non-empty runId from the approved forward'')
          else if \<not> approval_given params then
            Some (unauthorized (''system.run requires approved=true, approvalDecision, '' @
              ''or approvalSource from the Gateway approval envelope''))
          else None
      | _ \<Rightarrow> Some (invalid_param ''systemRunPlan must be an object''))"

definition plan_mismatch :: "bool \<Rightarrow> string \<Rightarrow> jval option" where
  "plan_mismatch bad m = (if bad then Some (err_reply ''PLAN_MISMATCH'' m) else None)"

text \<open>The forwarded values that are compared are null or strings, so equality is that of JSON.\<close>

definition verify_plan_consistency ::
  "dict \<Rightarrow> string list \<Rightarrow> string option \<Rightarrow> string \<Rightarrow> dict \<Rightarrow> jval option" where
  "verify_plan_consistency plan argv resolved_cwd command_text params = first_error
     ([plan_mismatch (dget plan ''argv'' \<noteq> JList (map JStr argv))
         ''command does not match the approved systemRunPlan argv'',
       plan_mismatch (\<not> has_key plan ''commandText'')
         ''systemRunPlan is missing the approval-bound commandText'',
       plan_mismatch (dget plan ''commandText'' \<noteq> JStr command_text)
         ''commandText does not match the approved systemRunPlan''] @
      concat (map (\<lambda>(field, forwarded).
        [plan_mismatch (\<not> has_key plan field) (''systemRunPlan is missing the approval-bound '' @ field),
         plan_mismatch (dget plan field \<noteq> forwarded) (field @ '' does not match the approved systemRunPlan'')])
        [(''cwd'', nullable resolved_cwd), (''agentId'', dget params ''agentId''),
         (''sessionKey'', dget params ''sessionKey'')]))"

subsection \<open>The run\<close>

record execution =
  ex_argv :: "string list"
  ex_cwd :: "string option"
  ex_env :: environment
  ex_timeout_ms :: int

text \<open>
  What the process does is a parameter: it does not start, ends and its pipes are read to the end, is
  still running at the timeout (and the pipes are drained after the kill, or not), or has ended with the
  pipes held open by a descendant. \<open>rn_decode\<close> is \<open>decode(errors="replace")\<close>, whose replacement
  character lies outside the model's characters.
\<close>

datatype process =
    Binary_missing
  | Spawn_failed string
  | Ended int "nat list" "nat list"
  | Out_of_time bool
  | Pipes_held int "nat list" "nat list"

record run_env =
  rn_environ :: environment
  rn_process :: "execution \<Rightarrow> process"
  rn_elapsed_ms :: "execution \<Rightarrow> int"
  rn_decode :: "nat list \<Rightarrow> string"

definition check_none :: "jval option \<Rightarrow> outcome + unit" where
  "check_none e = (case e of None \<Rightarrow> Inr () | Some r \<Rightarrow> Inl (Returned r))"

definition caller_env_of :: "jval \<Rightarrow> environment" where
  "caller_env_of v = (case v of JObj d \<Rightarrow> map (\<lambda>(k, x). (k, case x of JStr s \<Rightarrow> s | _ \<Rightarrow> [])) d | _ \<Rightarrow> [])"

definition too_large :: "string \<Rightarrow> bool \<Rightarrow> string \<Rightarrow> jval option" where
  "too_large code bad m = (if bad then Some (err_reply code m) else None)"

definition checked_env :: "environment \<Rightarrow> environment \<Rightarrow> jval + environment" where
  "checked_env environ caller_env =
     (case merge_env environ caller_env of
        None \<Rightarrow> Inl (invalid_param (''env contains a key matching a blocked pattern '' @
                  ''(TOKEN, SECRET, KEY, PASS, CREDENTIAL, AUTH, PWD)''))
      | Some env \<Rightarrow>
          if max_env_bytes < encoded_size (map (\<lambda>(k, v). k @ ''='' @ v) env) then
            Inl (err_reply ''ENV_TOO_LARGE'' (''env exceeds '' @ nat_str max_env_bytes @ '' total bytes''))
          else Inr env)"

text \<open>Everything before the process is started: an answer, or what is started.\<close>

definition admit_run :: "fs_env \<Rightarrow> run_env \<Rightarrow> tree \<Rightarrow> dict \<Rightarrow> outcome + execution" where
  "admit_run fenv env t params =
     sum_bind (as_outcome (validate_argv (dget params ''command''))) (\<lambda>argv.
     sum_bind (check_none (verify_authorization params)) (\<lambda>_.
     sum_bind (as_outcome (resolve_command_text argv (dget params ''rawCommand''))) (\<lambda>(command_text, _).
     sum_bind (check_none (validate_env (dget params ''env''))) (\<lambda>_.
     sum_bind (prepared_cwd fenv t (dget params ''cwd'')) (\<lambda>cwd.
     sum_bind (check_none (first_error (map (\<lambda>f. validate_optional_identifier (dget params f) f)
       [''agentId'', ''sessionKey'', ''proposalId'', ''runId'', ''approvalSource'']))) (\<lambda>_.
     sum_bind (check_none (verify_plan_consistency (dict_field params ''systemRunPlan'') argv cwd
       command_text params)) (\<lambda>_.
     sum_bind (check_none (too_large ''ARGV_TOO_LARGE'' (max_argv_bytes < encoded_size argv)
       (''command exceeds '' @ nat_str max_argv_bytes @ '' total argv bytes''))) (\<lambda>_.
     sum_bind (as_outcome (checked_env (rn_environ env) (caller_env_of (dget params ''env'')))) (\<lambda>merged_env.
     sum_bind (as_outcome (resolve_timeout_ms (rn_environ env) params)) (\<lambda>timeout_ms.
     Inr \<lparr>ex_argv = argv, ex_cwd = cwd, ex_env = merged_env, ex_timeout_ms = timeout_ms\<rparr>))))))))))"

definition finished_reply :: "run_env \<Rightarrow> execution \<Rightarrow> int \<Rightarrow> nat list \<Rightarrow> nat list \<Rightarrow> bool \<Rightarrow> jval" where
  "finished_reply env ex returncode out err incomplete =
     JObj [(''ok'', JBool True), (''success'', JBool (returncode = 0)), (''exitCode'', JInt returncode),
       (''timedOut'', JBool False), (''stdout'', JStr (rn_decode env (take max_output_bytes out))),
       (''stderr'', JStr (rn_decode env (take max_output_bytes err))),
       (''outputIncomplete'', JBool incomplete), (''elapsed_ms'', JInt (rn_elapsed_ms env ex))]"

definition timed_out_reply :: "run_env \<Rightarrow> execution \<Rightarrow> bool \<Rightarrow> jval" where
  "timed_out_reply env ex incomplete =
     JObj [(''ok'', JBool True), (''success'', JBool False), (''exitCode'', JNull), (''timedOut'', JBool True),
       (''stdout'', JStr []), (''stderr'', JStr []), (''outputIncomplete'', JBool incomplete),
       (''error'', JStr (''Command timed out after '' @ int_str (ex_timeout_ms ex) @ ''ms'')),
       (''elapsed_ms'', JInt (rn_elapsed_ms env ex))]"

definition run_reply :: "run_env \<Rightarrow> execution \<Rightarrow> jval" where
  "run_reply env ex =
     (case rn_process env ex of
        Binary_missing \<Rightarrow> err_reply ''NOT_FOUND'' (''Binary not found: '' @ py_repr_str (hd (ex_argv ex)))
      | Spawn_failed e \<Rightarrow> err_reply ''EXEC_ERROR'' (''Execution failed: '' @ e)
      | Ended rc out err \<Rightarrow> finished_reply env ex rc out err False
      | Out_of_time drained \<Rightarrow> timed_out_reply env ex (\<not> drained)
      | Pipes_held rc out err \<Rightarrow> finished_reply env ex rc out err True)"

text \<open>
  The handler: its answer and the process it started, if any. An environment name with an equals sign
  or a NUL in the environment makes \<open>Popen\<close> raise a \<open>ValueError\<close> that nothing catches.
\<close>

definition popen_refuses :: "environment \<Rightarrow> bool" where
  "popen_refuses env = list_ex (\<lambda>(k, v). CHR ''='' \<in> set k \<or> CHR 0x00 \<in> set (k @ v)) env"

definition handle_system_run :: "fs_env \<Rightarrow> run_env \<Rightarrow> tree \<Rightarrow> dict \<Rightarrow> outcome \<times> execution option" where
  "handle_system_run fenv env t params =
     (case admit_run fenv env t params of
        Inl r \<Rightarrow> (r, None)
      | Inr ex \<Rightarrow>
          if popen_refuses (ex_env ex) then (Raised Value_error_exn, None)
          else (Returned (run_reply env ex), Some ex))"

subsection \<open>What an admitted run has passed\<close>

lemma check_none_ok: "check_none e = Inr u \<longleftrightarrow> e = None"
  by (cases e) (simp_all add: check_none_def)

lemma merged_keys:
  "(k, v) \<in> set (fold (\<lambda>(k, v). AList.update k v) new env) \<Longrightarrow> (k, v) \<in> set env \<or> (k, v) \<in> set new"
proof (induction new arbitrary: env)
  case (Cons x new)
  obtain k' v' where x: "x = (k', v')" by (cases x)
  have "set (AList.update k' v' env) \<subseteq> insert (k', v') (set env)"
    by (induction env) auto
  then show ?case
    using Cons.IH [of "AList.update k' v' env"] Cons.prems by (auto simp: x)
qed simp

lemma safe_keys_not_blocked: "k \<in> set safe_env_keys \<Longrightarrow> \<not> is_blocked_key k"
proof -
  have "list_all (\<lambda>k. \<not> is_blocked_key k) safe_env_keys"
    by code_simp
  then show "k \<in> set safe_env_keys \<Longrightarrow> ?thesis"
    by (simp add: list_all_iff)
qed

lemma base_env_mem: "(k, v) \<in> set (base_env environ) \<longleftrightarrow> k \<in> set safe_env_keys \<and> map_of environ k = Some v"
  by (auto simp: base_env_def List.map_filter_def image_iff)

lemma checked_env_ok:
  assumes "checked_env environ new = Inr env" "(k, v) \<in> set env"
  shows "\<not> is_blocked_key k" "k \<in> set safe_env_keys \<and> map_of environ k = Some v \<or> (k, v) \<in> set new"
proof -
  have clean: "\<not> list_ex (\<lambda>(k, v). is_blocked_key k) new" and
    env: "env = fold (\<lambda>(k, v). AList.update k v) new (base_env environ)"
    using assms(1) by (auto simp: checked_env_def merge_env_def split: if_splits)
  show origin: "k \<in> set safe_env_keys \<and> map_of environ k = Some v \<or> (k, v) \<in> set new"
    using merged_keys [of k v new "base_env environ"] assms(2) by (auto simp: env base_env_mem)
  with clean show "\<not> is_blocked_key k"
    by (auto simp: list_ex_iff safe_keys_not_blocked)
qed

lemma plan_consistent:
  assumes "verify_plan_consistency plan argv cwd shown params = None"
  shows "dget plan ''argv'' = JList (map JStr argv)" "dget plan ''commandText'' = JStr shown"
    "list_all (has_key plan) [''commandText'', ''cwd'', ''agentId'', ''sessionKey'']"
    "dget plan ''cwd'' = nullable cwd" "dget plan ''agentId'' = dget params ''agentId''"
    "dget plan ''sessionKey'' = dget params ''sessionKey''"
  using assms by (simp_all add: verify_plan_consistency_def first_error_None plan_mismatch_def split: if_splits)

lemma timeout_capped: "resolve_timeout_ms environ params = Inr ms \<Longrightarrow> ms \<le> max_timeout_ms environ"
  by (auto simp: resolve_timeout_ms_def split: if_splits json.splits)

lemma admit_run_ok:
  assumes "admit_run fenv env t params = Inr ex"
  shows "validate_argv (dget params ''command'') = Inr (ex_argv ex)"
    "verify_authorization params = None"
    "prepared_cwd fenv t (dget params ''cwd'') = Inr (ex_cwd ex)"
    "\<exists>preview. resolve_command_text (ex_argv ex) (dget params ''rawCommand'') =
       Inr (format_exec_command (ex_argv ex), preview)"
    "verify_plan_consistency (dict_field params ''systemRunPlan'') (ex_argv ex) (ex_cwd ex)
       (format_exec_command (ex_argv ex)) params = None"
    "checked_env (rn_environ env) (caller_env_of (dget params ''env'')) = Inr (ex_env ex)"
    "resolve_timeout_ms (rn_environ env) params = Inr (ex_timeout_ms ex)"
    "encoded_size (ex_argv ex) \<le> max_argv_bytes"
  using assms
  by (auto simp: admit_run_def sum_bind_Inr as_outcome_Inr check_none_ok too_large_def
      dest: resolve_command_text_ok(1) split: if_splits prod.splits)

subsection \<open>Properties\<close>


text \<open>
  \<open>strip\<close> leaves the canonical text alone unless an argument holds a separator character that Python
  counts as white space and JavaScript does not.
\<close>

definition stray_space :: "char \<Rightarrow> bool" where
  "stray_space c \<longleftrightarrow> py_space c \<and> \<not> js_whitespace c"

lemma strip_id: "s = [] \<or> \<not> py_space (hd s) \<and> \<not> py_space (last s) \<Longrightarrow> strip s = s"
proof (cases "s = []")
  case False
  assume "s = [] \<or> \<not> py_space (hd s) \<and> \<not> py_space (last s)"
  with False have "dropWhile py_space s = s" "dropWhile py_space (rev s) = rev s"
    by (simp_all add: dropWhile_eq_self_iff hd_rev)
  then show ?thesis
    by (simp add: strip_def)
qed (simp add: strip_def)

lemma format_arg_ends:
  assumes "\<not> list_ex stray_space a"
  shows "format_arg a \<noteq> []" "\<not> py_space (hd (format_arg a))" "\<not> py_space (last (format_arg a))"
proof -
  have quote: "\<not> py_space (CHR 0x22)"
    by (simp add: py_space_def)
  have plain: "\<not> py_space c" if "c \<in> set a" "\<not> needs_quotes a" for c
    using that assms by (auto simp: list_ex_iff stray_space_def needs_quotes_def js_quote_trigger_def)
  show "format_arg a \<noteq> []"
    by (auto simp: format_arg_cases needs_quotes_def)
  show "\<not> py_space (hd (format_arg a))"
    using plain [of "hd a"] quote by (auto simp: format_arg_cases needs_quotes_def)
  show "\<not> py_space (last (format_arg a))"
    using plain [of "last a"] quote by (auto simp: format_arg_cases needs_quotes_def)
qed

lemma strip_command_text:
  assumes "\<not> list_ex (list_ex stray_space) argv"
  shows "strip (format_exec_command argv) = format_exec_command argv"
proof (cases argv)
  case (Cons a as)
  have "last argv \<in> set argv" "a \<in> set argv"
    using Cons by simp_all
  then have clean: "\<not> list_ex stray_space (last argv)" "\<not> list_ex stray_space a"
    using assms unfolding list_ex_iff by blast+
  have "hd (format_exec_command argv) = hd (format_arg a)"
    using format_arg_ends(1) [of a] assms Cons by (cases as) (simp_all add: format_exec_command_def)
  moreover have "last (format_exec_command argv) = last (format_arg (last argv))"
  proof -
    have "format_arg (last argv) \<noteq> []"
      by (rule format_arg_ends(1) [OF clean(1)])
    moreover have "butlast argv @ [last argv] = argv"
      using Cons by simp
    ultimately show ?thesis
      using format_exec_command_snoc [of "butlast argv" "last argv"] by (simp split: if_splits)
  qed
  ultimately show ?thesis
    using format_arg_ends(2) [OF clean(2)] format_arg_ends(3) [OF clean(1)]
    by (intro strip_id disjI2) simp
qed (simp add: format_exec_command_def strip_def)

text \<open>
  C39: what was prepared can be run. A prepared plan that the Gateway forwards unchanged, with a run id
  and an approval, starts exactly the prepared argument vector in the prepared directory, provided the
  plan's directory still stands for itself, neither the arguments nor the node's own environment are too
  large, and no argument holds one of the characters that Python strips and JavaScript does not quote.
\<close>

definition forward :: "dict \<Rightarrow> dict" where
  "forward plan =
     [(''command'', dget plan ''argv''), (''rawCommand'', dget plan ''commandText''), (''cwd'', dget plan ''cwd''),
      (''agentId'', dget plan ''agentId''), (''sessionKey'', dget plan ''sessionKey''),
      (''systemRunPlan'', JObj plan), (''runId'', JStr ''run''), (''approved'', JBool True)]"


text \<open>
  The plan of an argument that starts with U+001F is prepared and then refused: its own command text,
  stripped, is another text.
\<close>

lemma stray_space_plan_refused:
  "\<exists>argv. validate_argv (JList (map JStr argv)) = Inr argv \<and>
     resolve_command_text argv JNull = Inr (format_exec_command argv, None) \<and>
     resolve_command_text argv (JStr (format_exec_command argv)) = Inl (raw_mismatch (format_exec_command argv))"
proof (rule exI [of _ "[[CHR 0x1F, CHR ''a'']]"], intro conjI)
  show "validate_argv (JList (map JStr [[CHR 0x1F, CHR ''a'']])) = Inr [[CHR 0x1F, CHR ''a'']]"
    by code_simp
  show "resolve_command_text [[CHR 0x1F, CHR ''a'']] JNull = Inr (format_exec_command [[CHR 0x1F, CHR ''a'']], None)"
    by code_simp
  show "resolve_command_text [[CHR 0x1F, CHR ''a'']] (JStr (format_exec_command [[CHR 0x1F, CHR ''a'']])) =
      Inl (raw_mismatch (format_exec_command [[CHR 0x1F, CHR ''a'']]))"
    by code_simp
qed

subsection \<open>Witnesses\<close>

definition sample_run :: run_env where
  "sample_run = \<lparr>rn_environ = [(''PATH'', ''/bin''), (''API_KEY'', ''k'')], rn_process = (\<lambda>_. Ended 0 [79] []),
     rn_elapsed_ms = (\<lambda>_. 5), rn_decode = (\<lambda>bs. map char_of bs)\<rparr>"

definition sample_execution :: execution where
  "sample_execution = \<lparr>ex_argv = [''/bin/sh'', ''-lc'', ''ls''], ex_cwd = Some ''/share'',
     ex_env = [(''PATH'', ''/bin'')], ex_timeout_ms = 30000\<rparr>"

definition sample_places :: tree where
  "sample_places = [([], Dir), ([''share''], Dir)]"

lemma sample_runs:
  "snd (handle_system_run sample_fs sample_run sample_places (forward sample_plan)) = Some sample_execution"
  by code_simp



end
