(* ===== verification/Fs_Read.thy ===== *)
theory Fs_Read
  imports Fs_Write Fnmatch
begin

text \<open>
  \<open>commands/fs.py\<close>: the read-only commands \<open>fs.read\<close>, \<open>fs.list\<close>, \<open>fs.stat\<close> and \<open>fs.glob\<close>. They open
  their path with the symlink-free walk and then only use the descriptor. The attributes of a place that
  the tree does not hold (times, mode, owner, the size of a directory), how many bytes one \<open>pread\<close>
  returns, and the codecs are parameters.
\<close>

record stat_info =
  st_dir_size :: int
  st_mtime :: jval
  st_ctime :: jval
  st_mode :: int
  st_uid :: int
  st_gid :: int

text \<open>
  \<open>bytes.decode\<close>: text, an error of the kinds the handler catches with its text, or another exception
  (a codec name with a NUL, a codec that raises \<open>UnicodeError\<close>).
\<close>

datatype decoded = Decoded string | Decode_failed string | Decode_raised exn

record read_env =
  rd_fs :: fs_env
  rd_stat :: "place \<Rightarrow> stat_info"
  rd_chunk :: "nat \<Rightarrow> nat \<Rightarrow> nat"
  rd_decode :: "string \<Rightarrow> nat list \<Rightarrow> decoded"

subsection \<open>Helpers\<close>

definition default_read_max_bytes :: int where
  "default_read_max_bytes = 1024 * 1024"

definition hard_read_max_bytes :: int where
  "hard_read_max_bytes = 16 * 1024 * 1024"

definition default_list_max_entries :: int where
  "default_list_max_entries = 1000"

definition hard_list_max_entries :: int where
  "hard_list_max_entries = 5000"

definition default_glob_max_matches :: int where
  "default_glob_max_matches = 1000"

definition hard_glob_max_matches :: int where
  "hard_glob_max_matches = 5000"

definition clamp :: "int \<Rightarrow> int \<Rightarrow> int \<Rightarrow> int" where
  "clamp v fallback hard_cap = (if v \<le> 0 then fallback else min v hard_cap)"

definition err_extra :: "string \<Rightarrow> string \<Rightarrow> dict \<Rightarrow> jval" where
  "err_extra code m extra =
     JObj ([(''ok'', JBool False), (''error'', JStr code), (''message'', JStr m)] @ extra)"

definition path_extra :: "string \<Rightarrow> string \<times> jval" where
  "path_extra raw = (''path'', JStr raw)"

fun node_kind :: "node \<Rightarrow> string" where
  "node_kind Dir = ''dir''"
| "node_kind (File _) = ''file''"
| "node_kind (Link _) = ''symlink''"

definition node_size :: "read_env \<Rightarrow> place \<Rightarrow> node \<Rightarrow> int" where
  "node_size env p n =
     (case n of File b \<Rightarrow> int (length b) | Link target \<Rightarrow> int (length target) | Dir \<Rightarrow> st_dir_size (rd_stat env p))"

text \<open>The \<open>pread\<close> loop: each call gives at least one byte before the end of the file.\<close>

definition pread :: "(nat \<Rightarrow> nat \<Rightarrow> nat) \<Rightarrow> nat list \<Rightarrow> nat \<Rightarrow> nat \<Rightarrow> nat list" where
  "pread chunk data remaining pos = take (min remaining (max 1 (chunk remaining pos))) (drop pos data)"

function read_loop :: "(nat \<Rightarrow> nat \<Rightarrow> nat) \<Rightarrow> nat list \<Rightarrow> nat \<Rightarrow> nat \<Rightarrow> nat list" where
  "read_loop chunk data remaining pos =
     (if remaining = 0 then []
      else (let c = pread chunk data remaining pos in
            if c = [] then [] else c @ read_loop chunk data (remaining - length c) (pos + length c)))"
  by pat_completeness auto

termination
  by (relation "measure (\<lambda>(_, _, remaining, _). remaining)") (auto simp: Let_def)

declare read_loop.simps [simp del]

definition read_range :: "(nat \<Rightarrow> nat \<Rightarrow> nat) \<Rightarrow> nat list \<Rightarrow> nat \<Rightarrow> nat \<Rightarrow> bool \<Rightarrow> nat list" where
  "read_range chunk data offset cap probe_overflow =
     read_loop chunk data (cap + (if probe_overflow then 1 else 0)) offset"

text \<open>\<open>base64.b64encode\<close>.\<close>

definition base64_char :: "nat \<Rightarrow> char" where
  "base64_char n = (char_of :: nat \<Rightarrow> char)
     (if n < 26 then 65 + n else if n < 52 then 71 + n else if n < 62 then n - 4 else if n = 62 then 43 else 47)"

fun b64encode :: "nat list \<Rightarrow> string" where
  "b64encode [] = []"
| "b64encode [a] = [base64_char (a div 4), base64_char (a mod 4 * 16), CHR ''='', CHR ''='']"
| "b64encode [a, b] =
     [base64_char (a div 4), base64_char (a mod 4 * 16 + b div 16), base64_char (b mod 16 * 4), CHR ''='']"
| "b64encode (a # b # c # bs) =
     [base64_char (a div 4), base64_char (a mod 4 * 16 + b div 16), base64_char (b mod 16 * 4 + c div 64),
      base64_char (c mod 64)] @ b64encode bs"

definition int_param :: "dict \<Rightarrow> string \<Rightarrow> int \<Rightarrow> int" where
  "int_param params k fallback = (case dget_or params k (JInt fallback) of JInt i \<Rightarrow> i | _ \<Rightarrow> fallback)"

text \<open>For the caps of \<open>fs.list\<close> and \<open>fs.glob\<close> a boolean counts as a number.\<close>

definition loose_int_param :: "dict \<Rightarrow> string \<Rightarrow> int \<Rightarrow> int" where
  "loose_int_param params k fallback =
     (case dget_or params k (JInt fallback) of
        JInt i \<Rightarrow> i | JBool b \<Rightarrow> (if b then 1 else 0) | _ \<Rightarrow> fallback)"

definition no_roots_reply :: jval where
  "no_roots_reply = err_reply ''NO_ALLOWED_ROOTS'' ''No filesystem roots are configured for this node''"

definition outside_reply :: "string \<Rightarrow> string \<Rightarrow> jval" where
  "outside_reply k raw = err_extra ''OUT_OF_BOUNDS'' ''Path is outside the allowed roots'' [(k, JStr raw)]"

text \<open>Opening with the answers of a handler for the errors it catches; the others leave it.\<close>

definition opened :: "read_env \<Rightarrow> tree \<Rightarrow> string \<Rightarrow> string \<Rightarrow> bool \<Rightarrow> (errno \<Rightarrow> jval option) \<Rightarrow> outcome + place" where
  "opened env t k raw dir_only caught =
     (case open_safe_fd t raw (roots_now (rd_fs env) t) dir_only of
        Done p \<Rightarrow> Inr p
      | No_allowed_roots \<Rightarrow> Inl (Returned no_roots_reply)
      | Out_of_bounds \<Rightarrow> Inl (Returned (outside_reply k raw))
      | Os_error e \<Rightarrow> Inl (case caught e of Some r \<Rightarrow> Returned r | None \<Rightarrow> Raised (Os_error_exn e)))"

definition need :: "bool \<Rightarrow> jval \<Rightarrow> outcome + unit" where
  "need c r = (if c then Inr () else Inl (Returned r))"

definition strict :: "dict \<Rightarrow> string list \<Rightarrow> outcome + unit" where
  "strict params keys =
     (case strict_keys_error params keys [] of None \<Rightarrow> Inr () | Some e \<Rightarrow> Inl (Returned e))"

definition required_str :: "dict \<Rightarrow> string \<Rightarrow> string \<Rightarrow> outcome + string" where
  "required_str params k code =
     (if is_nonempty_str (dget params k) then (case dget params k of JStr s \<Rightarrow> Inr s | _ \<Rightarrow> Inr [])
      else Inl (Returned (err_reply code (''Missing required '' @ py_repr_str k @ '' parameter''))))"

definition finish :: "outcome + jval \<Rightarrow> outcome" where
  "finish m = (case m of Inl r \<Rightarrow> r | Inr v \<Rightarrow> Returned v)"

subsection \<open>fs.read\<close>

definition read_keys :: "string list" where
  "read_keys = [''path'', ''encoding'', ''max_bytes'', ''offset'', ''length'']"

definition offset_param :: "dict \<Rightarrow> string \<Rightarrow> outcome + int" where
  "offset_param params raw =
     (let m = py_repr_str ''offset'' @ '' must be a non-negative integer'' in
      case dget_or params ''offset'' (JInt 0) of
        JInt i \<Rightarrow>
          if i < 0 then Inl (Returned (err_extra ''BAD_OFFSET'' m [path_extra raw, (''offset'', JInt i)]))
          else Inr i
      | _ \<Rightarrow> Inl (Returned (err_extra ''BAD_OFFSET'' m [path_extra raw])))"

definition length_param :: "dict \<Rightarrow> string \<Rightarrow> int \<Rightarrow> outcome + int option" where
  "length_param params raw max_bytes =
     (let bad = Inl (Returned (err_extra ''BAD_LENGTH''
                  (py_repr_str ''length'' @ '' must be a positive integer when supplied'') [path_extra raw]))
      in if \<not> has_key params ''length'' then Inr None
         else case dget params ''length'' of
           JInt i \<Rightarrow>
             if i \<le> 0 then bad
             else if max_bytes < i then
               Inl (Returned (err_extra ''TOO_LARGE''
                 (''Requested length '' @ int_str i @ '' exceeds max_bytes '' @ int_str max_bytes)
                 [path_extra raw, (''length'', JInt i), (''max_bytes'', JInt max_bytes)]))
             else Inr (Some i)
         | _ \<Rightarrow> bad)"

definition read_content :: "read_env \<Rightarrow> string \<Rightarrow> string \<Rightarrow> int \<Rightarrow> nat list \<Rightarrow> outcome + string" where
  "read_content env raw encoding offset data =
     (if encoding = ''binary'' then Inr (b64encode data)
      else case rd_decode env encoding data of
        Decoded s \<Rightarrow> Inr s
      | Decode_raised e \<Rightarrow> Inl (Raised e)
      | Decode_failed e \<Rightarrow> Inl (Returned (err_extra ''DECODE_ERROR'' (''Cannot decode file as '' @ encoding @ '': '' @ e)
          [path_extra raw, (''encoding'', JStr encoding), (''offset'', JInt offset),
           (''length'', JInt (int (length data)))])))"

text \<open>The slice of an open file.\<close>

definition read_slice ::
  "read_env \<Rightarrow> string \<Rightarrow> int \<Rightarrow> int \<Rightarrow> int option \<Rightarrow> node option \<Rightarrow> outcome + nat list \<times> int" where
  "read_slice env raw max_bytes offset len node =
     (case node of
        Some (File bytes) \<Rightarrow>
          (let file_size = int (length bytes);
               cap = (case len of Some l \<Rightarrow> l | None \<Rightarrow> max_bytes);
               data = read_range (rd_chunk env) bytes (nat offset) (nat cap) (len = None)
           in if file_size < offset then
                Inl (Returned (err_extra ''OFFSET_BEYOND_EOF''
                  (''offset '' @ int_str offset @ '' is past end of file (size '' @ int_str file_size @ '')'')
                  [path_extra raw, (''offset'', JInt offset), (''file_size'', JInt file_size)]))
              else if cap < int (length data) then
                Inl (Returned (err_extra ''TOO_LARGE''
                  (''File slice exceeds limit of '' @ int_str max_bytes @ '' bytes'')
                  [path_extra raw, (''size'', JInt (int (length data))), (''max_bytes'', JInt max_bytes),
                   (''offset'', JInt offset), (''file_size'', JInt file_size)]))
              else Inr (data, file_size))
      | _ \<Rightarrow> Inl (Returned (err_extra ''IS_DIRECTORY'' (''Path is a directory: '' @ raw) [path_extra raw])))"

definition read_reply :: "read_env \<Rightarrow> string \<Rightarrow> string \<Rightarrow> int \<Rightarrow> nat list \<Rightarrow> int \<Rightarrow> string \<Rightarrow> jval" where
  "read_reply env raw encoding offset data file_size content =
     JObj [(''ok'', JBool True), (''path'', JStr raw), (''size'', JInt (int (length data))),
       (''file_size'', JInt file_size), (''offset'', JInt offset), (''length'', JInt (int (length data))),
       (''eof'', JBool (file_size \<le> offset + int (length data))), (''encoding'', JStr encoding),
       (''content'', JStr content), (''sha256'', JStr (ev_sha256 (rd_fs env) data))]"

definition missing_file :: "string \<Rightarrow> errno \<Rightarrow> jval option" where
  "missing_file raw e =
     (if e = ENOENT then Some (err_extra ''PATH_NOT_FOUND'' (''No such file: '' @ raw) [path_extra raw]) else None)"

definition handle_fs_read :: "read_env \<Rightarrow> tree \<Rightarrow> dict \<Rightarrow> outcome" where
  "handle_fs_read env t params = finish
     (sum_bind (strict params read_keys) (\<lambda>_.
      sum_bind (required_str params ''path'' ''PATH_REQUIRED'') (\<lambda>raw.
      let encoding = py_str (dget_or params ''encoding'' (JStr ''utf-8''));
          max_bytes = clamp (int_param params ''max_bytes'' default_read_max_bytes)
                        default_read_max_bytes hard_read_max_bytes in
      sum_bind (offset_param params raw) (\<lambda>offset.
      sum_bind (length_param params raw max_bytes) (\<lambda>len.
      sum_bind (opened env t ''path'' raw False (missing_file raw)) (\<lambda>p.
      sum_bind (read_slice env raw max_bytes offset len (map_of t p)) (\<lambda>(data, file_size).
      sum_bind (read_content env raw encoding offset data) (\<lambda>content.
      Inr (read_reply env raw encoding offset data file_size content)))))))))"

subsection \<open>fs.list and fs.stat\<close>

definition list_keys :: "string list" where
  "list_keys = [''path'', ''hidden'', ''max_entries'']"

text \<open>\<open>scandir\<close>: the names below a directory, in the order of the tree, which stands for any order.\<close>

definition child_names :: "tree \<Rightarrow> place \<Rightarrow> string list" where
  "child_names t p = remdups (map last (filter (\<lambda>q. q \<noteq> [] \<and> butlast q = p) (map fst t)))"

definition hidden_name :: "string \<Rightarrow> bool" where
  "hidden_name n = prefix ''.'' n"

definition entry_json :: "read_env \<Rightarrow> tree \<Rightarrow> place \<Rightarrow> string \<Rightarrow> jval" where
  "entry_json env t dir name =
     (case map_of t (dir @ [name]) of
        Some n \<Rightarrow> JObj [(''name'', JStr name), (''kind'', JStr (node_kind n)),
          (''size'', JInt (node_size env (dir @ [name]) n)), (''mtime'', st_mtime (rd_stat env (dir @ [name])))]
      | None \<Rightarrow> JNull)"

text \<open>The loop stops one name past the cap, and only the names seen by then are sorted.\<close>

definition listed_names :: "bool \<Rightarrow> nat \<Rightarrow> string list \<Rightarrow> string list \<times> bool" where
  "listed_names hidden max_entries names =
     (let seen = take (max_entries + 1) (filter (\<lambda>n. hidden \<or> \<not> hidden_name n) names);
          truncated = max_entries < length seen
      in (if truncated then take max_entries (sort seen) else sort seen, truncated))"

definition missing_dir :: "string \<Rightarrow> errno \<Rightarrow> jval option" where
  "missing_dir raw e =
     (if e = ENOENT then Some (err_extra ''PATH_NOT_FOUND'' (''No such path: '' @ raw) [path_extra raw])
      else if e = ENOTDIR then
        Some (err_extra ''NOT_A_DIRECTORY'' (''Path is not a directory: '' @ raw) [path_extra raw])
      else None)"

definition handle_fs_list :: "read_env \<Rightarrow> tree \<Rightarrow> dict \<Rightarrow> outcome" where
  "handle_fs_list env t params = finish
     (sum_bind (strict params list_keys) (\<lambda>_.
      sum_bind (required_str params ''path'' ''PATH_REQUIRED'') (\<lambda>raw.
      let hidden = bool_param params ''hidden'' False;
          max_entries = clamp (loose_int_param params ''max_entries'' default_list_max_entries)
                          default_list_max_entries hard_list_max_entries in
      sum_bind (opened env t ''path'' raw True (missing_dir raw)) (\<lambda>p.
      case listed_names hidden (nat max_entries) (child_names t p) of
        (names, truncated) \<Rightarrow>
          Inr (JObj [(''ok'', JBool True), (''path'', JStr raw),
            (''entries'', JList (map (entry_json env t p) names)), (''truncated'', JBool truncated)])))))"

definition stat_keys :: "string list" where
  "stat_keys = [''path'']"

definition stat_reply :: "read_env \<Rightarrow> string \<Rightarrow> place \<Rightarrow> node \<Rightarrow> jval" where
  "stat_reply env raw p n =
     JObj [(''ok'', JBool True), (''path'', JStr raw), (''exists'', JBool True), (''kind'', JStr (node_kind n)),
       (''size'', JInt (node_size env p n)), (''mtime'', st_mtime (rd_stat env p)),
       (''ctime'', st_ctime (rd_stat env p)), (''mode'', JInt (st_mode (rd_stat env p))),
       (''owner_uid'', JInt (st_uid (rd_stat env p))), (''group_gid'', JInt (st_gid (rd_stat env p))),
       (''is_symlink'', JBool False), (''link_target'', JNull)]"

definition absent :: "string \<Rightarrow> errno \<Rightarrow> jval option" where
  "absent raw e =
     (if e = ENOENT then Some (JObj [(''ok'', JBool True), (''path'', JStr raw), (''exists'', JBool False)]) else None)"

definition handle_fs_stat :: "read_env \<Rightarrow> tree \<Rightarrow> dict \<Rightarrow> outcome" where
  "handle_fs_stat env t params = finish
     (sum_bind (strict params stat_keys) (\<lambda>_.
      sum_bind (required_str params ''path'' ''PATH_REQUIRED'') (\<lambda>raw.
      sum_bind (opened env t ''path'' raw False (absent raw)) (\<lambda>p.
      Inr (case map_of t p of Some n \<Rightarrow> stat_reply env raw p n | None \<Rightarrow> JNull)))))"

subsection \<open>fs.glob\<close>

definition valid_glob_pattern :: "string \<Rightarrow> bool" where
  "valid_glob_pattern pattern \<longleftrightarrow>
     \<not> prefix ''/'' pattern \<and> CHR 0x00 \<notin> set pattern \<and> ''..'' \<notin> set (path_parts pattern)"

function glob_matches :: "string \<Rightarrow> string \<Rightarrow> bool" where
  "glob_matches rel_path pattern =
     (let here = (CHR ''/'' \<in> set pattern \<or> CHR ''/'' \<notin> set rel_path) \<and> fnmatchcase rel_path pattern
      in if prefix ''**/'' pattern then glob_matches rel_path (drop 3 pattern) \<or> here else here)"
  by pat_completeness auto

termination
  by (relation "measure (\<lambda>(_, pattern). length pattern)") (auto simp: prefix_def)

declare glob_matches.simps [simp del]

definition child_path :: "string \<Rightarrow> string \<Rightarrow> string" where
  "child_path rel name = (if rel = [] then name else rel @ ''/'' @ name)"

text \<open>
  One directory: the matches so far grow, directories go on the stack, and one match past the cap
  ends the scan.
\<close>

primrec scan_children ::
  "tree \<Rightarrow> string \<Rightarrow> bool \<Rightarrow> nat \<Rightarrow> place \<Rightarrow> string \<Rightarrow> string list \<Rightarrow>
   string list \<Rightarrow> (place \<times> string) list \<Rightarrow> string list \<times> (place \<times> string) list" where
  "scan_children t pattern hidden max_matches dir rel [] matches pushed = (matches, pushed)"
| "scan_children t pattern hidden max_matches dir rel (n # ns) matches pushed =
     (if \<not> hidden \<and> hidden_name n then scan_children t pattern hidden max_matches dir rel ns matches pushed
      else (let path = child_path rel n;
                hit = glob_matches path pattern;
                matches' = (if hit then matches @ [path] else matches);
                pushed' = (if map_of t (dir @ [n]) = Some Dir then (dir @ [n], path) # pushed else pushed)
            in if hit \<and> max_matches < length matches' then (matches', pushed)
               else scan_children t pattern hidden max_matches dir rel ns matches' pushed'))"

definition below :: "tree \<Rightarrow> place \<Rightarrow> place set" where
  "below t p = {q \<in> fst ` set t. strict_prefix p q}"

definition weight :: "tree \<Rightarrow> (place \<times> string) list \<Rightarrow> nat" where
  "weight t stack = (\<Sum>(p, _)\<leftarrow>stack. Suc (card (below t p)))"

lemma finite_below [simp]: "finite (below t p)"
  by (simp add: below_def)

lemma child_names_mem: "n \<in> set (child_names t p) \<longleftrightarrow> p @ [n] \<in> fst ` set t"
proof
  assume "n \<in> set (child_names t p)"
  then show "p @ [n] \<in> fst ` set t"
    by (auto simp: child_names_def) (metis append_butlast_last_id fst_conv image_eqI)
next
  assume "p @ [n] \<in> fst ` set t"
  then show "n \<in> set (child_names t p)"
    by (force simp: child_names_def image_iff)
qed

lemma weight_simps [simp]:
  "weight t [] = 0" "weight t ((p, rel) # stack) = Suc (card (below t p)) + weight t stack"
  "weight t (xs @ ys) = weight t xs + weight t ys"
  by (simp_all add: weight_def)

lemma scan_children_weight:
  "weight t (snd (scan_children t pattern hidden mx dir rel ns ms pushed)) \<le>
     weight t pushed + (\<Sum>n\<leftarrow>ns. Suc (card (below t (dir @ [n]))))"
proof (induction ns arbitrary: ms pushed hidden)
  case (Cons n ns)
  have "weight t (snd (scan_children t pattern hidden mx dir rel ns ms' pushed)) \<le>
      weight t pushed + (\<Sum>n\<leftarrow>n # ns. Suc (card (below t (dir @ [n]))))" for ms' hidden
    using Cons [of hidden ms' pushed] by simp
  moreover have "weight t (snd (scan_children t pattern hidden mx dir rel ns ms' ((dir @ [n], path) # pushed))) \<le>
      weight t pushed + (\<Sum>n\<leftarrow>n # ns. Suc (card (below t (dir @ [n]))))" for ms' path hidden
    using Cons [of hidden ms' "(dir @ [n], path) # pushed"] by simp
  ultimately show ?case
    by (simp add: Let_def)
qed simp

lemma children_weight:
  "(\<Sum>n\<leftarrow>child_names t p. Suc (card (below t (p @ [n])))) \<le> card (below t p)"
proof -
  let ?N = "set (child_names t p)" and ?B = "\<lambda>n. insert (p @ [n]) (below t (p @ [n]))"
  have "(\<Sum>n\<leftarrow>child_names t p. Suc (card (below t (p @ [n])))) = (\<Sum>n\<in>?N. card (?B n))"
    by (subst sum_list_distinct_conv_sum_set)
      (auto simp: child_names_def below_def intro!: sum.cong card_insert_disjoint [symmetric])
  also have "\<dots> = card (\<Union>n\<in>?N. ?B n)"
    by (rule card_UN_disjoint [symmetric]) (auto simp: below_def strict_prefix_def prefix_def)
  also have "\<dots> \<le> card (below t p)"
    by (rule card_mono) (auto simp: child_names_mem below_def strict_prefix_def prefix_def image_iff)
  finally show ?thesis .
qed

text \<open>The walk: the directory pushed last is scanned next.\<close>

function glob_walk ::
  "tree \<Rightarrow> string \<Rightarrow> bool \<Rightarrow> nat \<Rightarrow> string list \<Rightarrow> (place \<times> string) list \<Rightarrow> string list" where
  "glob_walk t pattern hidden mx matches [] = matches"
| "glob_walk t pattern hidden mx matches ((dir, rel) # stack) =
     (if mx < length matches then matches
      else (let r = scan_children t pattern hidden mx dir rel (child_names t dir) matches []
            in glob_walk t pattern hidden mx (fst r) (snd r @ stack)))"
  by pat_completeness auto

termination
proof (relation "measure (\<lambda>(t, _, _, _, _, stack). weight t stack)", simp_all)
  fix t dir pattern hidden mx rel matches stack
  show "weight t (snd (scan_children t pattern hidden mx dir rel (child_names t dir) matches [])) <
      Suc (card (below t dir))"
    using scan_children_weight [of t pattern hidden mx dir rel "child_names t dir" matches "[]"]
      children_weight [of t dir]
    by simp
qed

definition iter_matches :: "tree \<Rightarrow> place \<Rightarrow> string \<Rightarrow> bool \<Rightarrow> nat \<Rightarrow> string list \<times> bool" where
  "iter_matches t base pattern hidden mx =
     (let matches = glob_walk t pattern hidden mx [] [(base, [])];
          truncated = mx < length matches
      in (sort (if truncated then take mx matches else matches), truncated))"

definition glob_keys :: "string list" where
  "glob_keys = [''root'', ''pattern'', ''hidden'', ''max_matches'']"

definition bad_root :: "string \<Rightarrow> errno \<Rightarrow> jval option" where
  "bad_root raw e =
     (if e = ENOENT \<or> e = ENOTDIR then
        Some (err_extra ''NOT_A_DIRECTORY'' (''Root is not a directory: '' @ raw) [(''root'', JStr raw)])
      else None)"

definition handle_fs_glob :: "read_env \<Rightarrow> tree \<Rightarrow> dict \<Rightarrow> outcome" where
  "handle_fs_glob env t params = finish
     (sum_bind (strict params glob_keys) (\<lambda>_.
      sum_bind (required_str params ''root'' ''ROOT_REQUIRED'') (\<lambda>raw.
      sum_bind (required_str params ''pattern'' ''PATTERN_REQUIRED'') (\<lambda>pattern.
      sum_bind (need (valid_glob_pattern pattern)
        (err_reply ''BAD_PATTERN'' ''Glob pattern must be relative and stay beneath root'')) (\<lambda>_.
      let hidden = bool_param params ''hidden'' False;
          max_matches = clamp (loose_int_param params ''max_matches'' default_glob_max_matches)
                          default_glob_max_matches hard_glob_max_matches in
      sum_bind (opened env t ''root'' raw True (bad_root raw)) (\<lambda>p.
      case iter_matches t p pattern hidden (nat max_matches) of
        (matches, truncated) \<Rightarrow>
          Inr (JObj [(''ok'', JBool True), (''root'', JStr raw), (''pattern'', JStr pattern),
            (''matches'', JList (map JStr matches)), (''truncated'', JBool truncated)])))))))"

subsection \<open>What a read returns\<close>

lemma take_length_take: "take (length (take k xs)) xs = take k xs"
  by (cases "k \<le> length xs") simp_all

lemma read_loop_slice: "read_loop chunk data remaining pos = take remaining (drop pos data)"
proof (induction chunk data remaining pos rule: read_loop.induct)
  case (1 chunk data remaining pos)
  let ?c = "pread chunk data remaining pos"
  have len: "length ?c \<le> remaining" and c: "?c = take (length ?c) (drop pos data)"
    by (simp_all only: pread_def take_length_take) simp_all
  show ?case
  proof (cases "remaining = 0 \<or> ?c = []")
    case True
    then show ?thesis
      by (subst read_loop.simps) (auto simp: pread_def)
  next
    case False
    then have "read_loop chunk data remaining pos =
        ?c @ take (remaining - length ?c) (drop (pos + length ?c) data)"
      using 1 by (subst read_loop.simps) (simp add: Let_def)
    also have "\<dots> = take (length ?c) (drop pos data) @
        take (remaining - length ?c) (drop (length ?c) (drop pos data))"
      using c by (simp add: add.commute)
    also have "\<dots> = take remaining (drop pos data)"
      using len by (metis le_add_diff_inverse take_add)
    finally show ?thesis .
  qed
qed

lemma base64_char_cases:
  assumes "n < 64"
  shows "base64_value (base64_char n) = Some n" "base64_char n \<noteq> CHR ''=''" "of_char (base64_char n) < (128::nat)"
proof -
  have "list_all (\<lambda>n. base64_value (base64_char n) = Some n \<and> base64_char n \<noteq> CHR ''='' \<and>
      of_char (base64_char n) < (128::nat)) [0..<64]"
    by code_simp
  then show "base64_value (base64_char n) = Some n" "base64_char n \<noteq> CHR ''=''" "of_char (base64_char n) < (128::nat)"
    using assms by (auto simp: list_all_iff)
qed

lemma base64_loop_char:
  "n < 64 \<Longrightarrow> base64_loop (base64_char n # cs) quad left pads out =
     (if quad = 0 then base64_loop cs 1 n 0 out
      else if quad = 1 then base64_loop cs 2 (n mod 16) 0 ((left * 4 + n div 16) # out)
      else if quad = 2 then base64_loop cs 3 (n mod 4) 0 ((left * 16 + n div 4) # out)
      else base64_loop cs 0 0 0 ((left * 64 + n) # out))"
  by (simp add: base64_char_cases)

lemma sextets:
  fixes a b c :: nat
  shows "a < 256 \<Longrightarrow> a div 4 < 64" "b < 256 \<Longrightarrow> a mod 4 * 16 + b div 16 < 64"
    "c < 256 \<Longrightarrow> b mod 16 * 4 + c div 64 < 64" "c mod 64 < 64" "a mod 4 * 16 < 64" "b mod 16 * 4 < 64"
proof -
  have mods: "a mod 4 < 4" "b mod 16 < 16" by simp_all
  show "a < 256 \<Longrightarrow> a div 4 < 64" "c mod 64 < 64" "a mod 4 * 16 < 64" "b mod 16 * 4 < 64"
    using mods by (simp_all add: less_mult_imp_div_less)
  have "b < 256 \<Longrightarrow> b div 16 < 16" "c < 256 \<Longrightarrow> c div 64 < 4"
    by (simp_all add: less_mult_imp_div_less)
  then show "b < 256 \<Longrightarrow> a mod 4 * 16 + b div 16 < 64" "c < 256 \<Longrightarrow> b mod 16 * 4 + c div 64 < 64"
    using mods by linarith+
qed

lemma sextet_parts:
  fixes a b c :: nat
  shows "b < 256 \<Longrightarrow> (a mod 4 * 16 + b div 16) div 16 = a mod 4"
    "b < 256 \<Longrightarrow> (a mod 4 * 16 + b div 16) mod 16 = b div 16"
    "c < 256 \<Longrightarrow> (b mod 16 * 4 + c div 64) div 4 = b mod 16"
    "c < 256 \<Longrightarrow> (b mod 16 * 4 + c div 64) mod 4 = c div 64"
    "a mod 4 * 16 div 16 = a mod 4" "b mod 16 * 4 div 4 = b mod 16"
    "a div 4 * 4 + a mod 4 = a" "b div 16 * 16 + b mod 16 = b" "c div 64 * 64 + c mod 64 = c"
  by (simp_all add: less_mult_imp_div_less div_add1_eq mod_less)

lemma b64_loop_encode:
  "list_all (\<lambda>b. b < 256) bs \<Longrightarrow> base64_loop (b64encode bs) 0 0 pads out = Inr (rev out @ bs)"
proof (induction bs arbitrary: pads out rule: b64encode.induct)
  case (2 a)
  then show ?case
    by (simp add: base64_loop_char sextets sextet_parts del: base64_loop.simps(2))
      (simp add: sextet_parts less_mult_imp_div_less)
next
  case (3 a b)
  then show ?case
    by (simp add: base64_loop_char sextets sextet_parts del: base64_loop.simps(2))
      (simp add: sextet_parts less_mult_imp_div_less)
next
  case (4 a b c bs)
  then show ?case
    by (simp add: base64_loop_char sextets sextet_parts del: base64_loop.simps(2))
      (simp add: sextet_parts less_mult_imp_div_less)
qed simp

lemma b64_round_trip:
  assumes "list_all (\<lambda>b. b < 256) bs"
  shows "b64decode (b64encode bs) = Inr bs"
proof -
  have "list_all (\<lambda>c. of_char c < (128::nat)) (b64encode bs)"
    using assms
    by (induction bs rule: b64encode.induct) (auto simp: base64_char_cases sextets)
  then show ?thesis
    using b64_loop_encode [OF assms, of 0 "[]"] by (simp add: b64decode_def)
qed

subsection \<open>What a walk finds\<close>

text \<open>The names below a directory that lead to an entry through directories, none of them hidden.\<close>

fun found :: "tree \<Rightarrow> bool \<Rightarrow> place \<Rightarrow> string list \<Rightarrow> bool" where
  "found t hidden p [] \<longleftrightarrow> False"
| "found t hidden p (n # cs) \<longleftrightarrow>
     p @ [n] \<in> fst ` set t \<and> (hidden \<or> \<not> hidden_name n) \<and>
     (cs = [] \<or> map_of t (p @ [n]) = Some Dir \<and> found t hidden (p @ [n]) cs)"

definition named_tree :: "tree \<Rightarrow> bool" where
  "named_tree t \<longleftrightarrow> (\<forall>p \<in> fst ` set t. [] \<notin> set p)"

definition hits :: "tree \<Rightarrow> string \<Rightarrow> bool \<Rightarrow> place \<times> string \<Rightarrow> string set" where
  "hits t pattern hidden pr = {path. \<exists>cs. found t hidden (fst pr) cs \<and>
     path = child_path (snd pr) (join ''/'' cs) \<and> glob_matches path pattern}"

lemma named_child: "named_tree t \<Longrightarrow> p @ [n] \<in> fst ` set t \<Longrightarrow> n \<noteq> []"
  unfolding named_tree_def by (metis in_set_conv_decomp)

lemma child_path_step:
  "n \<noteq> [] \<Longrightarrow> cs \<noteq> [] \<Longrightarrow> child_path (child_path rel n) (join ''/'' cs) = child_path rel (join ''/'' (n # cs))"
  by (cases cs) (auto simp: child_path_def)

definition visible :: "bool \<Rightarrow> string list \<Rightarrow> string set" where
  "visible hidden ns = {n \<in> set ns. hidden \<or> \<not> hidden_name n}"

definition matched :: "string \<Rightarrow> bool \<Rightarrow> string \<Rightarrow> string list \<Rightarrow> string set" where
  "matched pattern hidden rel ns =
     {child_path rel n |n. n \<in> visible hidden ns \<and> glob_matches (child_path rel n) pattern}"

definition entered :: "tree \<Rightarrow> bool \<Rightarrow> place \<Rightarrow> string \<Rightarrow> string list \<Rightarrow> (place \<times> string) set" where
  "entered t hidden dir rel ns =
     {(dir @ [n], child_path rel n) |n. n \<in> visible hidden ns \<and> map_of t (dir @ [n]) = Some Dir}"

lemma matched_simps [simp]:
  "matched pattern hidden rel [] = {}"
  "matched pattern hidden rel (n # ns) =
     (if (hidden \<or> \<not> hidden_name n) \<and> glob_matches (child_path rel n) pattern
      then {child_path rel n} else {}) \<union> matched pattern hidden rel ns"
  by (auto simp: matched_def visible_def)

lemma entered_simps [simp]:
  "entered t hidden dir rel [] = {}"
  "entered t hidden dir rel (n # ns) =
     (if (hidden \<or> \<not> hidden_name n) \<and> map_of t (dir @ [n]) = Some Dir
      then {(dir @ [n], child_path rel n)} else {}) \<union> entered t hidden dir rel ns"
  by (auto simp: entered_def visible_def)

lemma scan_children_ok:
  "length (fst (scan_children t pattern hidden mx dir rel ns ms pushed)) \<le> mx \<Longrightarrow>
     set (fst (scan_children t pattern hidden mx dir rel ns ms pushed)) = set ms \<union> matched pattern hidden rel ns \<and>
     set (snd (scan_children t pattern hidden mx dir rel ns ms pushed)) = set pushed \<union> entered t hidden dir rel ns"
proof (induction ns arbitrary: ms pushed)
  case (Cons n ns)
  let ?path = "child_path rel n" and ?push = "(dir @ [n], child_path rel n) # pushed"
  note ih = Cons.IH [of ms pushed] Cons.IH [of "ms @ [?path]" pushed] Cons.IH [of ms ?push]
    Cons.IH [of "ms @ [?path]" ?push]
  show ?case
    by (cases "hidden_name n \<and> \<not> hidden"; cases "map_of t (dir @ [n]) = Some Dir"; cases "glob_matches ?path pattern")
      (use ih Cons.prems in \<open>auto simp: Let_def split: if_splits\<close>)
qed simp

lemma scan_children_sub:
  "set (fst (scan_children t pattern hidden mx dir rel ns ms pushed)) \<subseteq> set ms \<union> matched pattern hidden rel ns \<and>
   set (snd (scan_children t pattern hidden mx dir rel ns ms pushed)) \<subseteq> set pushed \<union> entered t hidden dir rel ns"
proof (induction ns arbitrary: ms pushed)
  case (Cons n ns)
  let ?path = "child_path rel n" and ?push = "(dir @ [n], child_path rel n) # pushed"
  note ih = Cons.IH [of ms pushed] Cons.IH [of "ms @ [?path]" pushed] Cons.IH [of ms ?push]
    Cons.IH [of "ms @ [?path]" ?push]
  show ?case
    by (cases "hidden_name n \<and> \<not> hidden"; cases "map_of t (dir @ [n]) = Some Dir"; cases "glob_matches ?path pattern")
      (use ih in \<open>auto simp: Let_def\<close>)
qed simp

lemma scan_children_grows:
  "length ms \<le> length (fst (scan_children t pattern hidden mx dir rel ns ms pushed))"
proof (induction ns arbitrary: ms pushed hidden)
  case (Cons n ns)
  have "length ms \<le> length (fst (scan_children t pattern hidden mx dir rel ns (ms @ [x]) pushed))" for x pushed hidden
    using Cons [of "ms @ [x]" hidden pushed] by simp
  then show ?case
    using Cons by (simp add: Let_def)
qed simp

lemma glob_walk_grows: "length ms \<le> length (glob_walk t pattern hidden mx ms stack)"
proof (induction t pattern hidden mx ms stack rule: glob_walk.induct)
  case (2 t pattern hidden mx ms dir rel stack)
  show ?case
    using scan_children_grows [of ms t pattern hidden mx dir rel "child_names t dir" "[]"] 2 [OF _ refl]
    by (auto simp: Let_def)
qed simp

lemma hits_step:
  assumes "named_tree t"
  shows "hits t pattern hidden (p, rel) =
    matched pattern hidden rel (child_names t p) \<union>
    (\<Union>pr \<in> entered t hidden p rel (child_names t p). hits t pattern hidden pr)" (is "_ = ?here \<union> ?deeper")
proof (intro set_eqI iffI)
  fix path
  assume "path \<in> hits t pattern hidden (p, rel)"
  then obtain ns where ns: "found t hidden p ns" "path = child_path rel (join ''/'' ns)" "glob_matches path pattern"
    by (auto simp: hits_def)
  then obtain n cs where "ns = n # cs"
    by (cases ns) auto
  with ns have f: "found t hidden p (n # cs)" and
    path: "path = child_path rel (join ''/'' (n # cs))" "glob_matches path pattern"
    by simp_all
  have n: "n \<in> visible hidden (child_names t p)" "n \<noteq> []"
    using f named_child [OF assms] by (auto simp: visible_def child_names_mem)
  show "path \<in> ?here \<union> ?deeper"
  proof (cases "cs = []")
    case True
    then show ?thesis using n path by (auto simp: matched_def)
  next
    case False
    then have "path = child_path (child_path rel n) (join ''/'' cs)" "map_of t (p @ [n]) = Some Dir" "found t hidden (p @ [n]) cs"
      using f n path child_path_step [of n cs rel] by auto
    then show ?thesis using n path(2) by (fastforce simp: hits_def entered_def)
  qed
next
  fix path
  assume "path \<in> ?here \<union> ?deeper"
  then consider n where "path = child_path rel n" "n \<in> visible hidden (child_names t p)" "glob_matches path pattern"
    | n cs where "n \<in> visible hidden (child_names t p)" "map_of t (p @ [n]) = Some Dir" "found t hidden (p @ [n]) cs"
        "path = child_path (child_path rel n) (join ''/'' cs)" "glob_matches path pattern"
    by (auto simp: hits_def matched_def entered_def)
  then show "path \<in> hits t pattern hidden (p, rel)"
  proof cases
    case (1 n)
    then show ?thesis
      by (auto simp: hits_def visible_def child_names_mem simp del: found.simps intro!: exI [of _ "[n]"])
        (simp_all add: rev_image_eqI)
  next
    case (2 n cs)
    moreover have "cs \<noteq> []" "n \<noteq> []"
      using 2 named_child [OF assms, of p n] by (auto simp: visible_def child_names_mem)
    ultimately show ?thesis
      using child_path_step [of n cs rel]
      by (auto simp: hits_def visible_def child_names_mem intro!: exI [of _ "n # cs"]) (simp_all add: rev_image_eqI)
  qed
qed

lemma glob_walk_sub:
  "named_tree t \<Longrightarrow> set (glob_walk t pattern hidden mx ms stack) \<subseteq>
     set ms \<union> (\<Union>pr \<in> set stack. hits t pattern hidden pr)"
proof (induction t pattern hidden mx ms stack rule: glob_walk.induct)
  case (2 t pattern hidden mx ms dir rel stack)
  let ?r = "scan_children t pattern hidden mx dir rel (child_names t dir) ms []"
  have "set (fst ?r) \<union> (\<Union>pr \<in> set (snd ?r). hits t pattern hidden pr) \<subseteq> set ms \<union> hits t pattern hidden (dir, rel)"
    using scan_children_sub [of t pattern hidden mx dir rel "child_names t dir" ms "[]"]
    by (subst hits_step [OF 2(2)]) auto
  then show ?case
    using 2(1) [OF _ refl 2(2)] by (simp add: Let_def) blast
qed simp

lemma glob_walk_all:
  "named_tree t \<Longrightarrow> length (glob_walk t pattern hidden mx ms stack) \<le> mx \<Longrightarrow>
     set (glob_walk t pattern hidden mx ms stack) = set ms \<union> (\<Union>pr \<in> set stack. hits t pattern hidden pr)"
proof (induction t pattern hidden mx ms stack rule: glob_walk.induct)
  case (2 t pattern hidden mx ms dir rel stack)
  let ?r = "scan_children t pattern hidden mx dir rel (child_names t dir) ms []"
  have le: "length ms \<le> mx"
    using 2(3) glob_walk_grows [of ms t pattern hidden mx "(dir, rel) # stack"] by linarith
  then have "length (fst ?r) \<le> mx"
    using 2(3) glob_walk_grows [of "fst ?r" t pattern hidden mx "snd ?r @ stack"] by (simp add: Let_def)
  from scan_children_ok [OF this]
  have "set (fst ?r) \<union> (\<Union>pr \<in> set (snd ?r). hits t pattern hidden pr) = set ms \<union> hits t pattern hidden (dir, rel)"
    by (subst hits_step [OF 2(2)]) auto
  then show ?case
    using 2(1) [OF _ refl 2(2)] 2(3) le by (simp add: Let_def) blast
qed simp

subsection \<open>The steps of an answered read\<close>

text \<open>A step that ends the handler ends it with an error.\<close>

definition refuses :: "outcome + 'a \<Rightarrow> bool" where
  "refuses m \<longleftrightarrow> (\<forall>v. m = Inl (Returned v) \<longrightarrow> \<not> reply_ok v)"

lemma finish_bind:
  assumes "finish (sum_bind m f) = Returned v" "reply_ok v" "refuses m"
  shows "\<exists>a. m = Inr a \<and> finish (f a) = Returned v"
  using assms by (cases m) (auto simp: finish_def refuses_def)

lemma reply_ok_extra [simp]: "\<not> reply_ok (err_extra c m d)"
  by (simp add: err_extra_def reply_ok_def)

lemma refuses_strict: "refuses (strict params keys)"
  using strict_keys_code [of params keys "[]"] by (auto simp: refuses_def strict_def split: option.splits)

lemma refuses_required: "refuses (required_str params k c)"
  by (auto simp: refuses_def required_str_def split: json.splits)

lemma refuses_need: "\<not> reply_ok r \<Longrightarrow> refuses (need b r)"
  by (auto simp: refuses_def need_def)

lemma refuses_opened:
  "(\<And>e r. caught e = Some r \<Longrightarrow> \<not> reply_ok r) \<Longrightarrow> refuses (opened env t k raw d caught)"
  by (auto simp: refuses_def opened_def no_roots_reply_def outside_reply_def split: io.splits option.splits)

lemma refuses_read:
  "refuses (offset_param params raw)" "refuses (length_param params raw mx)"
  "refuses (opened env t k raw d (missing_file raw'))" "refuses (opened env t k raw d (missing_dir raw'))"
  "refuses (opened env t k raw d (bad_root raw'))"
  "refuses (read_slice env raw mx offset len node)" "refuses (read_content env raw enc offset data)"
proof -
  show "refuses (offset_param params raw)"
    by (auto simp: refuses_def offset_param_def Let_def split: json.splits if_splits)
  show "refuses (length_param params raw mx)"
    by (auto simp: refuses_def length_param_def Let_def split: json.splits if_splits)
  show "refuses (opened env t k raw d (missing_file raw'))" "refuses (opened env t k raw d (missing_dir raw'))"
    "refuses (opened env t k raw d (bad_root raw'))"
    by (rule refuses_opened; auto simp: missing_file_def missing_dir_def bad_root_def split: if_splits)+
  show "refuses (read_slice env raw mx offset len node)"
    by (auto simp: refuses_def read_slice_def Let_def split: option.splits node.splits if_splits)
  show "refuses (read_content env raw enc offset data)"
    by (auto simp: refuses_def read_content_def split: decoded.splits if_splits)
qed

lemma opened_ok:
  assumes "opened env t k raw d caught = Inr p" "real_roots (rd_fs env) t"
  shows "p = path_parts raw \<and> real_place t p \<and> (\<exists>r \<in> set (roots_now (rd_fs env) t). prefix r p) \<and>
    (d \<longrightarrow> map_of t p = Some Dir)"
proof -
  have "open_safe t raw (path_anchor raw) (path_parts raw) (roots_now (rd_fs env) t) d = Done p"
    using assms(1) by (auto simp: opened_def open_safe_fd_def split: io.splits)
  from open_safe_ok [OF this real_rootsD [OF assms(2)]] show ?thesis
    by (auto simp: real_place_def path_parts_plain)
qed

lemma read_slice_ok:
  assumes "read_slice env raw mx offset len node = Inr (data, file_size)" "0 \<le> offset"
  shows "\<exists>bytes. node = Some (File bytes) \<and> file_size = int (length bytes) \<and> offset \<le> file_size \<and>
    data = (case len of Some l \<Rightarrow> take (nat l) (drop (nat offset) bytes) | None \<Rightarrow> drop (nat offset) bytes) \<and>
    int (length data) \<le> (case len of Some l \<Rightarrow> l | None \<Rightarrow> mx)"
proof -
  obtain bytes where n: "node = Some (File bytes)"
    using assms(1) by (auto simp: read_slice_def split: option.splits node.splits)
  have d: "data = take (nat (case len of Some l \<Rightarrow> l | None \<Rightarrow> mx) + (if len = None then 1 else 0)) (drop (nat offset) bytes)"
    and small: "int (length data) \<le> (case len of Some l \<Rightarrow> l | None \<Rightarrow> mx)"
    and size: "offset \<le> file_size" "file_size = int (length bytes)"
    using assms(1)
    by (auto simp: n read_slice_def Let_def read_range_def read_loop_slice split: if_splits)
  have "data = (case len of Some l \<Rightarrow> take (nat l) (drop (nat offset) bytes) | None \<Rightarrow> drop (nat offset) bytes)"
  proof (cases len)
    case None
    with d small have "length (drop (nat offset) bytes) \<le> nat mx" by auto
    with d None show ?thesis by simp
  qed (use d in simp)
  with n size small show ?thesis by blast
qed

lemma length_param_ok:
  "length_param params raw mx = Inr len \<Longrightarrow>
     (case len of Some l \<Rightarrow> dget params ''length'' = JInt l \<and> l \<le> mx | None \<Rightarrow> dget params ''length'' = JNull)"
  by (auto simp: length_param_def Let_def dget_missing split: json.splits if_splits)

lemma offset_param_ok: "offset_param params raw = Inr i \<Longrightarrow> 0 \<le> i \<and> dget_or params ''offset'' (JInt 0) = JInt i"
  by (auto simp: offset_param_def Let_def split: json.splits if_splits)

lemma required_str_ok: "required_str params k c = Inr s \<Longrightarrow> dget params k = JStr s \<and> s \<noteq> []"
  by (cases "dget params k") (auto simp: required_str_def split: if_splits)

definition byte_tree :: "tree \<Rightarrow> bool" where
  "byte_tree t \<longleftrightarrow> (\<forall>(p, n) \<in> set t. case n of File b \<Rightarrow> list_all (\<lambda>x. x < 256) b | _ \<Rightarrow> True)"

lemma byte_treeD: "byte_tree t \<Longrightarrow> map_of t p = Some (File b) \<Longrightarrow> list_all (\<lambda>x. x < 256) b"
  by (fastforce simp: byte_tree_def dest: map_of_SomeD)

subsection \<open>Properties\<close>

text \<open>
  C40: what \<open>fs.read\<close> answers. An ok read returned bytes of one file, at the path as written below an
  allowed root with no symlink on the way: exactly the bytes from the offset on, all of them when no
  length was asked for, never more than the cap, however the system call cuts them up; the hash and the
  end-of-file flag are those of that slice, and binary content decodes to it.
\<close>

theorem fs_read_exact:
  assumes "handle_fs_read env t params = Returned v" "reply_ok v" "real_roots (rd_fs env) t" "byte_tree t"
  shows "\<exists>raw p bytes offset data content.
    dget params ''path'' = JStr raw \<and> p = path_parts raw \<and> real_place t p \<and>
    (\<exists>r \<in> set (roots_now (rd_fs env) t). prefix r p) \<and> map_of t p = Some (File bytes) \<and>
    dget_or params ''offset'' (JInt 0) = JInt (int offset) \<and> offset \<le> length bytes \<and>
    data = (case dget params ''length'' of JInt l \<Rightarrow> take (nat l) (drop offset bytes) | _ \<Rightarrow> drop offset bytes) \<and>
    int (length data) \<le> hard_read_max_bytes \<and>
    v = read_reply env raw (py_str (dget_or params ''encoding'' (JStr ''utf-8''))) (int offset) data
          (int (length bytes)) content \<and>
    (if py_str (dget_or params ''encoding'' (JStr ''utf-8'')) = ''binary''
     then decode_content content ''base64'' = Inr data
     else rd_decode env (py_str (dget_or params ''encoding'' (JStr ''utf-8''))) data = Decoded content)"
proof -
  let ?mx = "clamp (int_param params ''max_bytes'' default_read_max_bytes) default_read_max_bytes hard_read_max_bytes"
  let ?enc = "py_str (dget_or params ''encoding'' (JStr ''utf-8''))"
  have mx: "?mx \<le> hard_read_max_bytes"
    by (simp add: clamp_def default_read_max_bytes_def hard_read_max_bytes_def)
  obtain raw offset len p data size content where
    raw: "required_str params ''path'' ''PATH_REQUIRED'' = Inr raw" and
    offset: "offset_param params raw = Inr offset" and len: "length_param params raw ?mx = Inr len" and
    p: "opened env t ''path'' raw False (missing_file raw) = Inr p" and
    slice: "read_slice env raw ?mx offset len (map_of t p) = Inr (data, size)" and
    content: "read_content env raw ?enc offset data = Inr content" and
    v: "v = read_reply env raw ?enc offset data size content"
    using assms(1) unfolding handle_fs_read_def Let_def
    by (auto dest!: finish_bind [OF _ assms(2)] simp: refuses_strict refuses_required refuses_read)
      (auto simp: finish_def)
  note o = offset_param_ok [OF offset] and l = length_param_ok [OF len]
  obtain bytes where bytes: "map_of t p = Some (File bytes)" "size = int (length bytes)" "offset \<le> size"
    "data = (case len of Some l \<Rightarrow> take (nat l) (drop (nat offset) bytes) | None \<Rightarrow> drop (nat offset) bytes)"
    "int (length data) \<le> (case len of Some l \<Rightarrow> l | None \<Rightarrow> ?mx)"
    using read_slice_ok [OF slice] o by blast
  have "list_all (\<lambda>x. x < 256) data"
    using byte_treeD [OF assms(4) bytes(1)]
    by (auto simp: bytes(4) list_all_iff dest: in_set_takeD in_set_dropD split: option.splits)
  then have decoded: "if ?enc = ''binary'' then decode_content content ''base64'' = Inr data
      else rd_decode env ?enc data = Decoded content"
    using content by (auto simp: read_content_def decode_content_def b64_round_trip split: decoded.splits if_splits)
  have cap: "int (length data) \<le> hard_read_max_bytes"
    using bytes(5) l mx by (cases len) auto
  have sliced: "data = (case dget params ''length'' of JInt l \<Rightarrow> take (nat l) (drop (nat offset) bytes)
      | _ \<Rightarrow> drop (nat offset) bytes)"
    using bytes(4) l by (cases len) auto
  show ?thesis
    using opened_ok [OF p assms(3)] required_str_ok [OF raw] o bytes(1-3) decoded cap sliced v
    by (intro exI [of _ raw] exI [of _ p] exI [of _ bytes] exI [of _ "nat offset"] exI [of _ data] exI [of _ content])
      auto
qed

definition glob_all :: "tree \<Rightarrow> string \<Rightarrow> bool \<Rightarrow> place \<Rightarrow> string set" where
  "glob_all t pattern hidden p =
     {join ''/'' cs |cs. found t hidden p cs \<and> glob_matches (join ''/'' cs) pattern}"

lemma hits_all: "hits t pattern hidden (p, []) = glob_all t pattern hidden p"
  by (auto simp: hits_def glob_all_def child_path_def)

lemma iter_matches_ok:
  assumes "named_tree t" "iter_matches t p pattern hidden mx = (matches, truncated)"
  shows "sorted matches" "set matches \<subseteq> glob_all t pattern hidden p" "length matches \<le> mx"
    "if truncated then length matches = mx else set matches = glob_all t pattern hidden p"
proof -
  let ?w = "glob_walk t pattern hidden mx [] [(p, [])]"
  have r: "matches = sort (if truncated then take mx ?w else ?w)" "truncated \<longleftrightarrow> mx < length ?w"
    using assms(2) by (auto simp: iter_matches_def Let_def)
  have sub: "set ?w \<subseteq> glob_all t pattern hidden p"
    using glob_walk_sub [OF assms(1), of pattern hidden mx "[]" "[(p, [])]"] by (simp add: hits_all)
  have all: "set ?w = glob_all t pattern hidden p" if "length ?w \<le> mx"
    using glob_walk_all [OF assms(1) that] by (simp add: hits_all)
  show "sorted matches" by (simp add: r(1))
  show "length matches \<le> mx" using r by auto
  show "set matches \<subseteq> glob_all t pattern hidden p"
    using sub r(1) by (auto dest: in_set_takeD split: if_splits)
  show "if truncated then length matches = mx else set matches = glob_all t pattern hidden p"
    using r all by (cases truncated) auto
qed


subsection \<open>Witnesses\<close>

definition sample_read :: read_env where
  "sample_read = \<lparr>rd_fs = sample_env,
     rd_stat = (\<lambda>_. \<lparr>st_dir_size = 0, st_mtime = JInt 0, st_ctime = JInt 0, st_mode = 420, st_uid = 0, st_gid = 0\<rparr>),
     rd_chunk = (\<lambda>_ _. 1), rd_decode = (\<lambda>_ bs. Decoded (map char_of bs))\<rparr>"

definition sample_files :: tree where
  "sample_files = [([], Dir), ([''config''], Dir), ([''share''], Dir), ([''media''], Dir),
     ([''share'', ''a.yaml''], File [72, 105, 33]), ([''share'', ''d''], Dir), ([''share'', ''d'', ''b.yaml''], File []),
     ([''share'', ''.x.yaml''], File []), ([''share'', ''l''], Link ''/config'')]"

lemma sample_files_ok: "real_roots sample_env sample_files" "byte_tree sample_files" "named_tree sample_files"
  by (simp add: real_roots_def sample_roots real_place_def sample_files_def plain_names_def,
      simp add: byte_tree_def sample_files_def, simp add: named_tree_def sample_files_def)

lemma sample_read_runs:
  "handle_fs_read sample_read sample_files [(''path'', JStr ''/share/a.yaml''), (''offset'', JInt 1), (''encoding'', JStr ''binary'')] =
     Returned (read_reply sample_read ''/share/a.yaml'' ''binary'' 1 [105, 33] 3 ''aSE='')"
  by code_simp

lemma fs_read_exact_witness:
  "map_of sample_files [''share'', ''a.yaml''] = Some (File [72, 105, 33]) \<and>
   decode_content ''aSE='' ''base64'' = Inr (drop 1 [72, 105, 33 :: nat])"
proof -
  have "reply_ok (read_reply sample_read ''/share/a.yaml'' ''binary'' 1 [105, 33] 3 ''aSE='')"
    by (simp add: read_reply_def reply_ok_def)
  moreover have "map_of sample_files [''share'', ''a.yaml''] = Some (File [72, 105, 33])"
    by (simp add: sample_files_def)
  ultimately show ?thesis
    using fs_read_exact [OF sample_read_runs] sample_files_ok by (auto simp: sample_read_def read_reply_def path_parts_def dget_def)
qed

lemma sample_glob_runs:
  "handle_fs_glob sample_read sample_files [(''root'', JStr ''/share''), (''pattern'', JStr ''**/*.yaml'')] =
     Returned (JObj [(''ok'', JBool True), (''root'', JStr ''/share''), (''pattern'', JStr ''**/*.yaml''),
       (''matches'', JList (map JStr [''a.yaml'', ''d/b.yaml''])), (''truncated'', JBool False)])"
  by code_simp


end
