(* ===== verification/Relay_State.thy ===== *)
theory Relay_State
  imports Complex_Main Turn_Context Py_Case
begin

text \<open>
  The state of one \<open>ChatRelay\<close> (\<open>chat_relay.py\<close>) and the operations every part of it shares. The
  dictionaries of the relay are maps, except the two whose order or size the code looks at: the
  principals of turns in flight and the turns that ended. A queue and a reply event are objects that
  outlive their entry in a dictionary (a consumer keeps its own reference), and so is the lock of a
  session; they live in a heap and the dictionaries hold their addresses. A future is found by its
  request id, which is unique; \<open>pending\<close> holds the ids that still route a response. Text on its way to the user is a list of code points.
\<close>

subsection \<open>Errors, queue items, futures\<close>

datatype relay_error = Relay_error (err_code: string) (err_message: string)

datatype tool_phase = Tool_start | Tool_end

record tool_frame =
  tf_phase :: tool_phase
  tf_name :: string
  tf_id :: string
  tf_seq :: int

datatype queue_item = Q_text ustr | Q_close | Q_error relay_error | Q_frame tool_frame

datatype rpc_future = Waiting | Answered jval | Failed relay_error | Cancelled

record relay =
  pending :: "string set"
  futures :: "string \<rightharpoonup> rpc_future"
  chat_send_canonical :: "string \<rightharpoonup> string"
  canonical_by_raw :: "string \<rightharpoonup> string"
  active_turns :: "(string \<times> caller) list"
  ended_turns :: "(string \<times> rat) list"
  gateway_agents :: "string list option"
  subscribed :: "string set"
  replay_pending :: "string \<rightharpoonup> string set"
  last_text :: "string \<rightharpoonup> string"
  terminal_text :: "string \<rightharpoonup> string"
  reply_events :: "string \<rightharpoonup> nat"
  event_set :: "nat set"
  delta_queues :: "string \<rightharpoonup> nat"
  queue_items :: "nat \<Rightarrow> queue_item list"
  next_address :: nat
  active_run_id :: "string \<rightharpoonup> string"
  seen_same_run :: "string \<rightharpoonup> bool"
  active_tool :: "string \<rightharpoonup> string"
  tool_progress_seq :: "string \<rightharpoonup> int"
  active_tool_id :: "string \<rightharpoonup> string"
  active_tool_seq :: "string \<rightharpoonup> int"
  use_tool_frames :: "string \<rightharpoonup> bool"
  text_tool_name :: "string \<rightharpoonup> string"
  text_tool_count :: "string \<rightharpoonup> int"
  started_tool_ids :: "string \<rightharpoonup> string set"
  text_has_visible_output :: "string \<rightharpoonup> bool"
  text_status_open :: "string \<rightharpoonup> bool"
  turn_locks :: "string \<rightharpoonup> nat"
  held_locks :: "nat set"

definition new_relay :: relay where
  "new_relay = \<lparr>
     pending = {}, futures = Map.empty, chat_send_canonical = Map.empty, canonical_by_raw = Map.empty,
     active_turns = [], ended_turns = [], gateway_agents = None, subscribed = {},
     replay_pending = Map.empty, last_text = Map.empty, terminal_text = Map.empty,
     reply_events = Map.empty, event_set = {}, delta_queues = Map.empty,
     queue_items = (\<lambda>_. []), next_address = 0, active_run_id = Map.empty,
     seen_same_run = Map.empty, active_tool = Map.empty, tool_progress_seq = Map.empty,
     active_tool_id = Map.empty, active_tool_seq = Map.empty, use_tool_frames = Map.empty,
     text_tool_name = Map.empty, text_tool_count = Map.empty, started_tool_ids = Map.empty,
     text_has_visible_output = Map.empty, text_status_open = Map.empty, turn_locks = Map.empty, held_locks = {}\<rparr>"

text \<open>\<open>d.get(k, default)\<close> on the relay's own dictionaries.\<close>

definition get_or :: "('k \<rightharpoonup> 'v) \<Rightarrow> 'k \<Rightarrow> 'v \<Rightarrow> 'v" where
  "get_or m k v = (case m k of None \<Rightarrow> v | Some w \<Rightarrow> w)"

definition put :: "nat \<Rightarrow> queue_item \<Rightarrow> relay \<Rightarrow> relay" where
  "put q x r = r\<lparr>queue_items := (queue_items r)(q := queue_items r q @ [x])\<rparr>"

text \<open>The queue of a key and what is on it.\<close>

definition queue_of :: "relay \<Rightarrow> string \<Rightarrow> queue_item list" where
  "queue_of r key = (case delta_queues r key of None \<Rightarrow> [] | Some q \<Rightarrow> queue_items r q)"

subsection \<open>Python values\<close>

text \<open>\<open>a or b\<close>, and \<open>str(x or "")\<close>.\<close>

definition py_or :: "jval \<Rightarrow> jval \<Rightarrow> jval" where
  "py_or a b = (if truthy a then a else b)"

definition str_or_empty :: "jval \<Rightarrow> string" where
  "str_or_empty v = py_str (py_or v (JStr []))"

definition str_field :: "dict \<Rightarrow> string \<Rightarrow> string" where
  "str_field d k = py_str (dget_or d k (JStr []))"

lemma str_or_empty_JStr [simp]: "str_or_empty (JStr s) = s"
  by (simp add: str_or_empty_def py_or_def)

lemma str_or_empty_JNull [simp]: "str_or_empty JNull = []"
  by (simp add: str_or_empty_def py_or_def)

subsection \<open>Session keys and agents\<close>

definition session_key_prefix :: string where
  "session_key_prefix = ''ha-assist:''"

definition session_key :: "string \<Rightarrow> string \<Rightarrow> string" where
  "session_key conversation_id agent_id =
     (let base = session_key_prefix @ conversation_id
      in if agent_id \<noteq> [] then ''agent:'' @ agent_id @ '':'' @ base else base)"

definition strip_mcp_prefix :: "string \<Rightarrow> string" where
  "strip_mcp_prefix name =
     (let rest = removeprefix ''mcp__openclaw__'' name in if rest = [] then name else rest)"

text \<open>\<open>_extract_agent_ids\<close>: the first of \<open>id\<close> and \<open>agentId\<close> that is a non-empty string names an agent.\<close>

fun agent_entry :: "jval \<Rightarrow> string list" where
  "agent_entry (JStr s) = (if s \<noteq> [] then [s] else [])"
| "agent_entry (JObj d) =
     (case filter is_nonempty_str [dget d ''id'', dget d ''agentId''] of
        JStr s # _ \<Rightarrow> [s] | _ \<Rightarrow> [])"
| "agent_entry _ = []"

definition raw_agents :: "dict \<Rightarrow> jval list" where
  "raw_agents response =
     (case (dget response ''agents'', dget response ''items'', dget response ''data'') of
        (JList xs, _, _) \<Rightarrow> xs
      | (_, JList xs, _) \<Rightarrow> xs
      | (_, _, JObj d) \<Rightarrow> (case dget d ''agents'' of JList xs \<Rightarrow> xs | _ \<Rightarrow> [])
      | _ \<Rightarrow> [])"

definition extract_agent_ids :: "dict \<Rightarrow> string list" where
  "extract_agent_ids response = sorted_set (concat (map agent_entry (raw_agents response)))"

text \<open>
  \<open>_require_resolvable_owner\<close>: \<open>agents\<close> is the inventory after it was asked for. The message to the
  user is the remedy and names no agent.
\<close>

definition require_resolvable_owner :: "string list option \<Rightarrow> string \<Rightarrow> relay_error option" where
  "require_resolvable_owner agents agent_id =
     (if agent_id \<noteq> [] then None
      else case agents of
        None \<Rightarrow> None
      | Some as \<Rightarrow>
          if length as \<le> 1 then None
          else Some (Relay_error ''INVALID_REQUEST''
            (''No agent owns this Assist turn: the gateway has '' @ nat_str (length as) @
             '' agents and identity.default_agent_id is unset, and this turn is from an anonymous or '' @
             ''unmapped user. Set identity.default_agent_id in the add-on configuration to one of: '' @
             join '', '' as)))"

definition ensure_agent_inventory :: "relay_error + dict \<Rightarrow> relay \<Rightarrow> relay" where
  "ensure_agent_inventory answer r =
     (case gateway_agents r of
        Some _ \<Rightarrow> r
      | None \<Rightarrow> (case answer of Inl _ \<Rightarrow> r | Inr d \<Rightarrow> r\<lparr>gateway_agents := Some (extract_agent_ids d)\<rparr>))"

subsection \<open>Text of a message\<close>

definition tool_block_types :: "string list" where
  "tool_block_types = [''toolCall'', ''toolUse'', ''functionCall'', ''tool_call'', ''tool_use'',
     ''function_call'', ''toolResult'', ''tool_result'', ''tool_result_error'', ''function_call_output'']"

definition is_tool_block :: "jval \<Rightarrow> bool" where
  "is_tool_block b = (case b of
     JObj d \<Rightarrow> (case dget d ''type'' of JStr t \<Rightarrow> t \<in> set tool_block_types | _ \<Rightarrow> False) | _ \<Rightarrow> False)"

text \<open>Membership in a frozen set hashes the value first, which raises for a list or a dictionary.\<close>

fun unhashable :: "jval \<Rightarrow> bool" where
  "unhashable (JList _) = True"
| "unhashable (JObj _) = True"
| "unhashable _ = False"

fun block_parts :: "jval list \<Rightarrow> string list \<Rightarrow> turn_error + string list" where
  "block_parts [] parts = Inr parts"
| "block_parts (JObj d # bs) parts =
     (if dget d ''type'' = JStr ''text'' then block_parts bs (parts @ [str_field d ''text''])
      else if unhashable (dget d ''type'') then Inl Type_error
      else if is_tool_block (JObj d) then block_parts bs []
      else block_parts bs parts)"
| "block_parts (JStr s # bs) parts = block_parts bs (parts @ [s])"
| "block_parts (_ # bs) parts = block_parts bs parts"

text \<open>The dictionary case calls itself on one of three members, each smaller than the dictionary.\<close>

definition content_size :: "jval \<Rightarrow> nat" where
  "content_size v = (if is_str v then 0 else size v)"

lemma content_smaller1: "content_size (dget_or d k (JStr [])) < size (JObj d)"
proof (induction d)
  case (Cons a d)
  then show ?case by (cases a) (auto simp: content_size_def)
qed (simp add: content_size_def)

lemma content_smaller:
  "content_size (py_or (py_or (dget_or d a (JStr [])) (dget_or d b (JStr []))) (dget_or d c (JStr [])))
     < content_size (JObj d)"
  using content_smaller1 [of d a] content_smaller1 [of d b] content_smaller1 [of d c]
  by (simp add: py_or_def content_size_def [of "JObj d"])

function extract_text :: "jval \<Rightarrow> turn_error + string" where
  "extract_text (JStr s) = Inr s"
| "extract_text (JList bs) = sum_bind (block_parts bs []) (\<lambda>parts. Inr (concat parts))"
| "extract_text (JObj d) =
     extract_text (py_or (py_or (dget_or d ''content'' (JStr [])) (dget_or d ''text'' (JStr [])))
                         (dget_or d ''message'' (JStr [])))"
| "extract_text JNull = Inr []"
| "extract_text (JBool b) = Inr (if b then py_str (JBool b) else [])"
| "extract_text (JInt i) = Inr (if truthy (JInt i :: jval) then py_str (JInt i) else [])"
| "extract_text (JFloat f) = Inr (if truthy (JFloat f :: jval) then py_str (JFloat f) else [])"
  by pat_completeness auto
termination
  by (relation "measure content_size") (simp_all add: content_smaller)

declare extract_text.simps(3) [simp del]

text \<open>The final answer of a message in blocks: the text blocks after its last tool block.\<close>

fun block_text :: "jval \<Rightarrow> string" where
  "block_text (JStr s) = s"
| "block_text (JObj d) = (if dget d ''type'' = JStr ''text'' then str_field d ''text'' else [])"
| "block_text _ = []"

fun bad_block :: "jval \<Rightarrow> bool" where
  "bad_block (JObj d) = unhashable (dget d ''type'')"
| "bad_block _ = False"

definition after_last_tool :: "jval list \<Rightarrow> jval list" where
  "after_last_tool bs = rev (takeWhile (\<lambda>b. \<not> is_tool_block b) (rev bs))"

definition final_answer :: "jval list \<Rightarrow> string" where
  "final_answer bs = concat (map block_text (after_last_tool bs))"

lemma final_answer_Cons:
  "final_answer (b # bs) =
     (if is_tool_block b \<or> (\<exists>c \<in> set bs. is_tool_block c) then [] else block_text b) @ final_answer bs"
  by (auto simp: final_answer_def after_last_tool_def takeWhile_append takeWhile_eq_all_conv [THEN iffD2])

lemma final_answer_Nil [simp]: "final_answer [] = []"
  by (simp add: final_answer_def after_last_tool_def)

lemma text_block_is_no_tool: "dget d ''type'' = JStr ''text'' \<Longrightarrow> \<not> is_tool_block (JObj d)"
  by (simp add: is_tool_block_def tool_block_types_def)

lemma block_parts_text:
  assumes "\<forall>b \<in> set bs. \<not> bad_block b"
  shows "\<exists>ps. block_parts bs parts = Inr ps \<and>
    concat ps = (if \<exists>b \<in> set bs. is_tool_block b then [] else concat parts) @ final_answer bs"
  using assms
proof (induction bs parts rule: block_parts.induct)
  case (2 d bs parts)
  then show ?case
    by (auto simp: final_answer_Cons text_block_is_no_tool)
qed (auto simp: final_answer_Cons is_tool_block_def)

lemma extract_text_blocks:
  "\<forall>b \<in> set bs. \<not> bad_block b \<Longrightarrow> extract_text (JList bs) = Inr (final_answer bs)"
  using block_parts_text [of bs "[]"] by auto

lemma block_parts_raises:
  "block_parts bs parts = Inl e \<Longrightarrow> \<exists>b \<in> set bs. bad_block b"
  by (induction bs parts rule: block_parts.induct) (auto split: if_splits)

end
