(* ===== verification/Turn_Registry.thy ===== *)
theory Turn_Registry
  imports Relay_State
begin

text \<open>
  Whose turn it is. The relay registers the principal of each Assist turn while it runs; a command the
  agent sends back names the session, and the registry says for whom it runs (\<open>_active_turn\<close>,
  \<open>active_caller\<close>, \<open>recently_ended\<close> of \<open>chat_relay.py\<close>). The turns of one relay interleave at every
  await: they are a step relation over the relay, the turns that wait for the lock of their session
  and the turns that hold it. Also here: the routing of responses to waiting calls and \<open>reset\<close>.
\<close>

subsection \<open>Turns that ended\<close>

definition ended_turn_ttl_s :: rat where
  "ended_turn_ttl_s = 300"

definition ended_turn_max :: nat where
  "ended_turn_max = 256"

definition prune_ended :: "rat \<Rightarrow> relay \<Rightarrow> relay" where
  "prune_ended now r =
     (let kept = filter (\<lambda>(k, t). \<not> now - t > ended_turn_ttl_s) (ended_turns r)
      in r\<lparr>ended_turns := drop (length kept - ended_turn_max) kept\<rparr>)"

definition record_ended :: "string \<Rightarrow> rat \<Rightarrow> relay \<Rightarrow> relay" where
  "record_ended key now r =
     prune_ended now
       (r\<lparr>ended_turns :=
            AList.update (lower (get_or (canonical_by_raw r) key key)) now
              (AList.update (lower key) now (ended_turns r))\<rparr>)"

definition recently_ended :: "string \<Rightarrow> rat \<Rightarrow> relay \<Rightarrow> bool \<times> relay" where
  "recently_ended hint now r =
     (let r' = prune_ended now r in (has_key (ended_turns r') (lower (strip hint)), r'))"

subsection \<open>Turns in flight\<close>

record turn =
  t_raw :: string
  t_caller :: caller
  t_lock :: nat

text \<open>\<open>Caller.from_turn(authz) if authz else UNTRUSTED\<close>.\<close>

definition caller_of_authz :: "turn_authz option \<Rightarrow> caller" where
  "caller_of_authz authz = (case authz of
     None \<Rightarrow> untrusted
   | Some a \<Rightarrow> \<lparr>caller_role = Turn (ta_role a),
                 actor_id = (case ta_actor a of None \<Rightarrow> ''<anonymous>'' | Some u \<Rightarrow> user_id u),
                 forbidden = ta_forbidden a\<rparr>)"

definition agent_of_authz :: "turn_authz option \<Rightarrow> string" where
  "agent_of_authz authz = (case authz of None \<Rightarrow> [] | Some a \<Rightarrow> ta_agent_id a)"

text \<open>\<open>self._turn_locks.setdefault(session_key, asyncio.Lock())\<close>.\<close>

definition lock_for :: "string \<Rightarrow> relay \<Rightarrow> nat \<times> relay" where
  "lock_for key r = (case turn_locks r key of
     Some l \<Rightarrow> (l, r)
   | None \<Rightarrow> (next_address r, r\<lparr>turn_locks := (turn_locks r)(key \<mapsto> next_address r),
                                next_address := Suc (next_address r)\<rparr>))"

definition enter_turn :: "turn \<Rightarrow> relay \<Rightarrow> relay" where
  "enter_turn t r =
     r\<lparr>held_locks := insert (t_lock t) (held_locks r),
       active_turns := AList.update (t_raw t) (t_caller t) (active_turns r)\<rparr>"

definition finish_turn :: "rat \<Rightarrow> turn \<Rightarrow> relay \<Rightarrow> relay" where
  "finish_turn now t r =
     (let r' = record_ended (t_raw t) now (r\<lparr>active_turns := AList.delete (t_raw t) (active_turns r)\<rparr>)
      in r'\<lparr>held_locks := held_locks r' - {t_lock t}\<rparr>)"

definition names_key :: "relay \<Rightarrow> string \<Rightarrow> string \<Rightarrow> bool" where
  "names_key r hint raw \<longleftrightarrow>
     lower (strip hint) \<in> {lower raw, lower (get_or (canonical_by_raw r) raw raw)}"

definition active_caller :: "string \<Rightarrow> relay \<Rightarrow> caller option" where
  "active_caller hint r =
     (case filter (\<lambda>(raw, c). names_key r hint raw) (active_turns r) of
        [(raw, c)] \<Rightarrow> Some c
      | _ \<Rightarrow> None)"

subsection \<open>Responses, subscriptions, reset\<close>

definition pending_run_id :: string where
  "pending_run_id = ''__pending_chat_send_ack__''"

text \<open>\<open>_prepare_pending\<close>, and the \<open>finally\<close> of a call.\<close>

definition prepare_pending :: "string \<Rightarrow> relay \<Rightarrow> relay" where
  "prepare_pending req_id r =
     r\<lparr>pending := insert req_id (pending r), futures := (futures r)(req_id \<mapsto> Waiting)\<rparr>"

definition forget_pending :: "string \<Rightarrow> relay \<Rightarrow> relay" where
  "forget_pending req_id r = r\<lparr>pending := pending r - {req_id}\<rparr>"

definition response_error :: "dict \<Rightarrow> relay_error" where
  "response_error msg = (case dget_or msg ''error'' (JObj []) of
     JObj d \<Rightarrow> Relay_error (py_str (dget_or d ''code'' (JStr ''UNKNOWN''))) (str_field d ''message'')
   | v \<Rightarrow> (let code = if truthy v then py_str v else ''UNKNOWN'' in Relay_error code code))"

text \<open>An acknowledged \<open>chat.send\<close> names the run before anything else is woken.\<close>

definition apply_run_id :: "string \<Rightarrow> jval \<Rightarrow> relay \<Rightarrow> relay" where
  "apply_run_id req_id payload r =
     (case (chat_send_canonical r req_id, payload) of
        (Some key, JObj d) \<Rightarrow>
          (let run = str_or_empty (dget_or d ''runId'' (JStr [])) in
           if run \<noteq> [] then r\<lparr>active_run_id := (active_run_id r)(key \<mapsto> run)\<rparr>
           else if active_run_id r key = Some pending_run_id
           then r\<lparr>active_run_id := (active_run_id r)(key := None)\<rparr>
           else r)
      | _ \<Rightarrow> r)"

definition handle_response :: "dict \<Rightarrow> relay \<Rightarrow> bool \<times> relay" where
  "handle_response msg r = (case dget msg ''id'' of
     JStr req_id \<Rightarrow>
       if req_id \<notin> pending r \<or> futures r req_id \<noteq> Some Waiting then (False, r)
       else if truthy (dget msg ''ok'') then
         (let payload = py_or (dget msg ''payload'') (JObj []);
              r' = apply_run_id req_id payload r
          in (True, r'\<lparr>futures := (futures r')(req_id \<mapsto> Answered payload)\<rparr>))
       else (True, r\<lparr>futures := (futures r)(req_id \<mapsto> Failed (response_error msg))\<rparr>)
   | _ \<Rightarrow> (False, r))"

definition disconnected :: relay_error where
  "disconnected = Relay_error ''DISCONNECTED'' ''Gateway connection lost''"

definition relay_reset :: "relay \<Rightarrow> relay" where
  "relay_reset r = new_relay\<lparr>
     futures := (\<lambda>q. if q \<in> pending r \<and> futures r q = Some Waiting then Some (Failed disconnected)
                     else futures r q),
     active_turns := active_turns r, ended_turns := ended_turns r,
     gateway_agents := gateway_agents r,
     event_set := event_set r \<union> ran (reply_events r),
     queue_items := (\<lambda>q. queue_items r q @ (if q \<in> ran (delta_queues r) then [Q_error disconnected] else [])),
     next_address := next_address r, held_locks := held_locks r\<rparr>"

text \<open>
  What \<open>_ensure_session\<close> keeps of a subscribe response (\<open>response\<close>): the canonical key, and the
  approvals that were already waiting.
\<close>

fun approval_id :: "jval \<Rightarrow> string list" where
  "approval_id (JObj a) = (if dget a ''id'' = JNull then [] else [py_str (dget a ''id'')])"
| "approval_id _ = []"

definition replayed_ids :: "dict \<Rightarrow> string set" where
  "replayed_ids response = (case dget response ''approvalReplay'' of
     JObj replay \<Rightarrow> (case dget replay ''approvals'' of
         JList approvals \<Rightarrow> set (concat (map approval_id approvals))
       | _ \<Rightarrow> {})
   | _ \<Rightarrow> {})"

definition canonical_key_of :: "string \<Rightarrow> dict \<Rightarrow> string" where
  "canonical_key_of key response =
     (case dget response ''key'' of JStr k \<Rightarrow> if k \<noteq> [] then k else key | _ \<Rightarrow> key)"

definition note_subscription :: "string \<Rightarrow> dict \<Rightarrow> relay \<Rightarrow> string \<times> relay" where
  "note_subscription key response r =
     (let ck = canonical_key_of key response; ids = replayed_ids response in
      (ck, r\<lparr>replay_pending := (if ids = {} then replay_pending r else (replay_pending r)(ck \<mapsto> ids)),
             canonical_by_raw := (canonical_by_raw r)(key \<mapsto> ck),
             subscribed := insert ck (subscribed r)\<rparr>))"

subsection \<open>Any interleaving of turns\<close>

text \<open>
  The flag says whether the connection was lost on the way: then \<open>reset\<close> dropped the locks, and turns
  of one session may overlap until they notice.
\<close>

inductive turns_reach :: "bool \<Rightarrow> relay \<Rightarrow> turn list \<Rightarrow> turn list \<Rightarrow> bool" where
  start: "turns_reach False new_relay [] []"
| arrive: "turns_reach b r W F \<Longrightarrow> lock_for raw r = (l, r') \<Longrightarrow>
    turns_reach b r' (\<lparr>t_raw = raw, t_caller = caller_of_authz authz, t_lock = l\<rparr> # W) F"
| enter: "turns_reach b r W F \<Longrightarrow> t \<in> set W \<Longrightarrow> t_lock t \<notin> held_locks r \<Longrightarrow>
    turns_reach b (enter_turn t r) (remove1 t W) (F @ [t])"
| give_up: "turns_reach b r W F \<Longrightarrow> t \<in> set W \<Longrightarrow> turns_reach b r (remove1 t W) F"
| learn: "turns_reach b r W F \<Longrightarrow> note_subscription key response r = (ck, r') \<Longrightarrow>
    turns_reach b r' W F"
| respond: "turns_reach b r W F \<Longrightarrow> handle_response msg r = (c, r') \<Longrightarrow> turns_reach b r' W F"
| asked: "turns_reach b r W F \<Longrightarrow> recently_ended hint now r = (c, r') \<Longrightarrow> turns_reach b r' W F"
| finish: "turns_reach b r W F \<Longrightarrow> t \<in> set F \<Longrightarrow>
    turns_reach b (finish_turn now t r) W (remove1 t F)"
| lost: "turns_reach b r W F \<Longrightarrow> turns_reach True (relay_reset r) W F"

text \<open>Only \<open>enter\<close> and \<open>finish\<close> touch the registry and the locks that are held.\<close>

lemma prune_ended_keeps [simp]:
  "active_turns (prune_ended now r) = active_turns r"
  "held_locks (prune_ended now r) = held_locks r"
  "turn_locks (prune_ended now r) = turn_locks r"
  "next_address (prune_ended now r) = next_address r"
  "canonical_by_raw (prune_ended now r) = canonical_by_raw r"
  by (simp_all add: prune_ended_def Let_def)

lemma record_ended_keeps [simp]:
  "active_turns (record_ended key now r) = active_turns r"
  "held_locks (record_ended key now r) = held_locks r"
  "turn_locks (record_ended key now r) = turn_locks r"
  "next_address (record_ended key now r) = next_address r"
  "canonical_by_raw (record_ended key now r) = canonical_by_raw r"
  by (simp_all add: record_ended_def)

lemma finish_turn_fields [simp]:
  "active_turns (finish_turn now t r) = AList.delete (t_raw t) (active_turns r)"
  "held_locks (finish_turn now t r) = held_locks r - {t_lock t}"
  "turn_locks (finish_turn now t r) = turn_locks r"
  "next_address (finish_turn now t r) = next_address r"
  by (simp_all add: finish_turn_def Let_def)

lemma recently_ended_keeps:
  "recently_ended hint now r = (c, r') \<Longrightarrow> r' = prune_ended now r"
  by (auto simp: recently_ended_def Let_def)

lemma apply_run_id_keeps:
  "apply_run_id q p r = r\<lparr>active_run_id := active_run_id (apply_run_id q p r)\<rparr>"
  by (simp add: apply_run_id_def Let_def split: option.splits json.splits)

lemma handle_response_keeps:
  assumes "handle_response msg r = (c, r')"
  shows "r' = r\<lparr>futures := futures r', active_run_id := active_run_id r'\<rparr>"
proof -
  have *: "(apply_run_id q p r)\<lparr>futures := fs\<rparr> =
    r\<lparr>futures := fs, active_run_id := active_run_id (apply_run_id q p r)\<rparr>" for q p fs
    by (subst apply_run_id_keeps) simp
  from assms show ?thesis
    by (auto simp: handle_response_def Let_def * split: json.splits if_splits)
qed

lemma handle_response_fields:
  assumes "handle_response msg r = (c, r')"
  shows "active_turns r' = active_turns r" "held_locks r' = held_locks r"
    "turn_locks r' = turn_locks r" "next_address r' = next_address r" "ended_turns r' = ended_turns r"
  by (subst handle_response_keeps [OF assms], simp)+

lemma note_subscription_keeps:
  "note_subscription key response r = (ck, r') \<Longrightarrow>
     active_turns r' = active_turns r \<and> held_locks r' = held_locks r \<and> turn_locks r' = turn_locks r \<and>
     next_address r' = next_address r \<and> ended_turns r' = ended_turns r"
  by (auto simp: note_subscription_def Let_def)

lemma lock_for_keeps:
  "lock_for key r = (l, r') \<Longrightarrow>
     active_turns r' = active_turns r \<and> held_locks r' = held_locks r \<and> ended_turns r' = ended_turns r \<and>
     turn_locks r' key = Some l"
  by (auto simp: lock_for_def split: option.splits)

lemma reset_keeps [simp]:
  "active_turns (relay_reset r) = active_turns r" "held_locks (relay_reset r) = held_locks r"
  "turn_locks (relay_reset r) = Map.empty" "next_address (relay_reset r) = next_address r"
  "ended_turns (relay_reset r) = ended_turns r"
  by (simp_all add: relay_reset_def new_relay_def)

subsection \<open>The registry is the list of turns in flight\<close>

definition locks_ok :: "(string \<rightharpoonup> nat) \<Rightarrow> nat \<Rightarrow> bool" where
  "locks_ok m n \<longleftrightarrow>
     (\<forall>k k' l. m k = Some l \<longrightarrow> m k' = Some l \<longrightarrow> k = k') \<and> (\<forall>k l. m k = Some l \<longrightarrow> l < n)"

lemma locks_ok_empty [simp]: "locks_ok Map.empty n"
  by (simp add: locks_ok_def)

lemma locks_ok_insert: "locks_ok m n \<Longrightarrow> locks_ok (m(k \<mapsto> n)) (Suc n)"
  unfolding locks_ok_def by (metis fun_upd_apply less_SucI less_irrefl lessI option.inject)

definition registry_exact :: "relay \<Rightarrow> turn list \<Rightarrow> turn list \<Rightarrow> bool" where
  "registry_exact r W F \<longleftrightarrow>
     active_turns r = map (\<lambda>t. (t_raw t, t_caller t)) F \<and>
     held_locks r = t_lock ` set F \<and> distinct (map t_lock F) \<and>
     (\<forall>t \<in> set W \<union> set F. turn_locks r (t_raw t) = Some (t_lock t)) \<and>
     locks_ok (turn_locks r) (next_address r)"

lemma registry_raws_distinct:
  assumes "registry_exact r W F"
  shows "distinct (map t_raw F)"
proof -
  have "inj_on t_raw (set F)"
    using assms unfolding registry_exact_def distinct_map inj_on_def by (metis UnCI option.inject)
  moreover have "distinct F" using assms by (simp add: registry_exact_def distinct_map)
  ultimately show ?thesis by (simp add: distinct_map)
qed

lemma delete_mapped:
  assumes "distinct (map t_raw F)" "t \<in> set F"
  shows "AList.delete (t_raw t) (map (\<lambda>t. (t_raw t, t_caller t)) F) =
    map (\<lambda>t. (t_raw t, t_caller t)) (remove1 t F)"
  using assms
proof (induction F)
  case (Cons s F)
  have "AList.delete k (map (\<lambda>t. (t_raw t, t_caller t)) F) = map (\<lambda>t. (t_raw t, t_caller t)) F"
    if "k \<notin> t_raw ` set F" for k
    using that by (simp add: delete_idem image_image)
  moreover have "t_raw t = t_raw s \<longrightarrow> t = s" using Cons.prems by (auto simp: rev_image_eqI)
  ultimately show ?case using Cons by (auto simp del: delete_conv')
qed simp

lemma update_new: "k \<notin> fst ` set xs \<Longrightarrow> AList.update k v xs = xs @ [(k, v)]"
  by (induction xs) auto

lemma registry_exact_inv: "turns_reach b r W F \<Longrightarrow> \<not> b \<Longrightarrow> registry_exact r W F"
proof (induction rule: turns_reach.induct)
  case start
  then show ?case by (simp add: registry_exact_def new_relay_def)
next
  case (arrive b r W F raw l r' authz)
  then have inv: "registry_exact r W F" by simp
  show ?case
  proof (cases "turn_locks r raw")
    case (Some k)
    with arrive inv show ?thesis by (auto simp: lock_for_def registry_exact_def)
  next
    case None
    then have l: "l = next_address r" and r': "r' = r\<lparr>turn_locks := (turn_locks r)(raw \<mapsto> l), next_address := Suc l\<rparr>"
      using arrive.hyps by (auto simp: lock_for_def)
    from inv None show ?thesis
      unfolding registry_exact_def r' by (auto simp: l locks_ok_insert)
  qed
next
  case (enter b r W F t)
  then have inv: "registry_exact r W F" by simp
  have lock: "turn_locks r (t_raw t) = Some (t_lock t)" and new: "t_lock t \<notin> t_lock ` set F"
    using enter inv by (auto simp: registry_exact_def)
  have "t_raw t \<notin> t_raw ` set F"
    using inv lock new unfolding registry_exact_def by (metis (no_types, lifting) UnCI image_iff option.inject)
  then have "t_raw t \<notin> fst ` set (active_turns r)"
    using inv by (auto simp: registry_exact_def)
  then show ?case
    using inv enter.hyps(2) new set_remove1_subset [of t W]
    by (auto simp: registry_exact_def enter_turn_def update_new)
next
  case (finish b r W F t now)
  then have inv: "registry_exact r W F" by simp
  have "distinct (map t_lock F)" "distinct F"
    using inv by (simp_all add: registry_exact_def distinct_map)
  then have "t_lock ` set F - {t_lock t} = t_lock ` set (remove1 t F)"
    using finish.hyps(2) by (auto simp: distinct_map inj_on_def)
  moreover have "distinct (map t_lock (remove1 t F))"
    using \<open>distinct (map t_lock F)\<close> by (auto simp: distinct_map inj_on_def dest: notin_set_remove1)
  moreover have "set (remove1 t F) \<subseteq> set F" by (rule set_remove1_subset)
  ultimately show ?case
    using inv delete_mapped [OF registry_raws_distinct [OF inv] finish.hyps(2)]
    by (auto simp: registry_exact_def)
next
  case (give_up b r W F t)
  then show ?case using set_remove1_subset [of t W] by (auto simp: registry_exact_def)
next
  case (learn b r W F key response ck r')
  then show ?case using note_subscription_keeps [OF learn.hyps(2)] by (simp add: registry_exact_def)
next
  case (respond b r W F msg c r')
  then show ?case
    using handle_response_fields [OF respond.hyps(2)] by (simp add: registry_exact_def)
next
  case (asked b r W F hint now c r')
  then show ?case using recently_ended_keeps [OF asked.hyps(2)] by (simp add: registry_exact_def)
qed simp

lemma in_delete: "x \<in> set (AList.delete k xs) \<longleftrightarrow> x \<in> set xs \<and> fst x \<noteq> k"
  by (induction xs) auto

lemma in_update: "x \<in> set (AList.update k v xs) \<Longrightarrow> x = (k, v) \<or> x \<in> set xs"
  by (induction xs) (auto split: if_splits)

text \<open>After a lost connection an entry still belongs to a turn in flight.\<close>

lemma registry_sound:
  "turns_reach b r W F \<Longrightarrow>
     distinct (map fst (active_turns r)) \<and>
     (\<forall>(raw, c) \<in> set (active_turns r). \<exists>t \<in> set F. t_raw t = raw \<and> t_caller t = c)"
proof (induction rule: turns_reach.induct)
  case (arrive b r W F raw l r' authz)
  then show ?case using lock_for_keeps [OF arrive.hyps(2)] by simp
next
  case (enter b r W F t)
  then show ?case
    by (fastforce simp: enter_turn_def distinct_update dest!: in_update)
next
  case (finish b r W F t now)
  have entry: "\<exists>u \<in> set (remove1 t F). t_raw u = raw \<and> t_caller u = c"
    if "(raw, c) \<in> set (AList.delete (t_raw t) (active_turns r))" for raw c
  proof -
    have old: "(raw, c) \<in> set (active_turns r)" and "raw \<noteq> t_raw t"
      using that by (simp_all add: in_delete)
    moreover have "\<exists>u \<in> set F. t_raw u = raw \<and> t_caller u = c"
      using bspec [OF conjunct2 [OF finish.IH] old] by simp
    ultimately show ?thesis by (metis in_set_remove1)
  qed
  show ?case using entry finish.IH by (simp add: distinct_delete split_beta)
next
  case (learn b r W F key response ck r')
  then show ?case using note_subscription_keeps [OF learn.hyps(2)] by simp
next
  case (respond b r W F msg c r')
  then show ?case using handle_response_fields [OF respond.hyps(2)] by simp
next
  case (asked b r W F hint now c r')
  then show ?case using recently_ended_keeps [OF asked.hyps(2)] by simp
qed (simp_all add: new_relay_def)

lemma one_match:
  "(case xs of [(raw, c)] \<Rightarrow> Some c | _ \<Rightarrow> None) = Some c \<longleftrightarrow> (\<exists>raw. xs = [(raw, c)])"
  by (auto split: list.splits)

lemma active_caller_iff:
  assumes "turns_reach False r W F"
  shows "active_caller hint r = Some c \<longleftrightarrow>
    (\<exists>t. filter (\<lambda>t. names_key r hint (t_raw t)) F = [t] \<and> t_caller t = c)"
proof -
  have "active_turns r = map (\<lambda>t. (t_raw t, t_caller t)) F"
    using registry_exact_inv [OF assms] by (simp add: registry_exact_def)
  then have "filter (\<lambda>(raw, c). names_key r hint raw) (active_turns r) =
    map (\<lambda>t. (t_raw t, t_caller t)) (filter (\<lambda>t. names_key r hint (t_raw t)) F)"
    by (simp add: filter_map o_def)
  then show ?thesis
    by (auto simp: active_caller_def one_match map_eq_Cons_conv)
qed

subsection \<open>The memory of turns that ended\<close>

lemma length_prune_ended: "length (ended_turns (prune_ended now r)) \<le> ended_turn_max"
  by (simp add: prune_ended_def Let_def)

lemma ended_bounded: "turns_reach b r W F \<Longrightarrow> length (ended_turns r) \<le> ended_turn_max"
proof (induction rule: turns_reach.induct)
  case (arrive b r W F raw l r' authz)
  then show ?case using lock_for_keeps [OF arrive.hyps(2)] by simp
next
  case (finish b r W F t now)
  then show ?case by (simp add: finish_turn_def record_ended_def length_prune_ended)
next
  case (learn b r W F key response ck r')
  then show ?case using note_subscription_keeps [OF learn.hyps(2)] by simp
next
  case (respond b r W F msg c r')
  then show ?case using handle_response_fields [OF respond.hyps(2)] by simp
next
  case (asked b r W F hint now c r')
  then show ?case using recently_ended_keeps [OF asked.hyps(2)] length_prune_ended by simp
qed (simp_all add: new_relay_def enter_turn_def)

lemma update_holds: "(k, v) \<in> set (AList.update k v xs)"
  by (induction xs) auto

lemma update_keeps_other: "(j, v) \<in> set xs \<Longrightarrow> (j, v) \<in> set (AList.update k v xs)"
  by (induction xs) auto

lemma length_update: "length (AList.update k v xs) \<le> Suc (length xs)"
  by (induction xs) auto

lemma prune_ended_keeps_recent:
  assumes "length (ended_turns r) \<le> ended_turn_max" "(k, t) \<in> set (ended_turns r)"
    "now - t \<le> ended_turn_ttl_s"
  shows "(k, t) \<in> set (ended_turns (prune_ended now r))"
proof -
  let ?kept = "filter (\<lambda>(k, t). \<not> now - t > ended_turn_ttl_s) (ended_turns r)"
  have "length ?kept \<le> ended_turn_max" using assms(1) by (meson le_trans length_filter_le)
  then have "ended_turns (prune_ended now r) = ?kept" by (simp add: prune_ended_def Let_def)
  then show ?thesis using assms(2,3) by simp
qed

lemma ended_turn_remembered:
  assumes "length (ended_turns r) + 2 \<le> ended_turn_max" "names_key r hint (t_raw t)"
    "now' - now \<le> ended_turn_ttl_s"
  shows "fst (recently_ended hint now' (finish_turn now t r))"
proof -
  let ?canon = "get_or (canonical_by_raw r) (t_raw t) (t_raw t)"
  let ?xs = "AList.update (lower ?canon) now (AList.update (lower (t_raw t)) now (ended_turns r))"
  let ?r = "r\<lparr>active_turns := AList.delete (t_raw t) (active_turns r), ended_turns := ?xs\<rparr>"
  let ?k = "lower (strip hint)"
  have len: "length (ended_turns ?r) \<le> ended_turn_max"
    using assms(1) length_update [of "lower ?canon" now "AList.update (lower (t_raw t)) now (ended_turns r)"]
      length_update [of "lower (t_raw t)" now "ended_turns r"] by simp
  have "(?k, now) \<in> set (ended_turns ?r)"
    using assms(2) by (auto simp: names_key_def update_holds update_keeps_other)
  then have "(?k, now) \<in> set (ended_turns (finish_turn now t r))"
    using prune_ended_keeps_recent [OF len, of ?k now now]
    by (simp add: finish_turn_def record_ended_def ended_turn_ttl_s_def Let_def)
  moreover have "length (ended_turns (finish_turn now t r)) \<le> ended_turn_max"
    by (simp add: finish_turn_def record_ended_def length_prune_ended)
  ultimately have "(?k, now) \<in> set (ended_turns (prune_ended now' (finish_turn now t r)))"
    using assms(3) by (intro prune_ended_keeps_recent)
  then show ?thesis by (force simp: recently_ended_def has_key_def Let_def)
qed

subsection \<open>Two turns at once\<close>

definition sample_authz :: turn_authz where
  "sample_authz = resolve_turn_authz default_identity (Some \<lparr>user_id = ''u1'', is_admin = True\<rparr>)"

definition sample_turn :: "string \<Rightarrow> turn_authz option \<Rightarrow> nat \<Rightarrow> turn" where
  "sample_turn raw authz l = \<lparr>t_raw = raw, t_caller = caller_of_authz authz, t_lock = l\<rparr>"

lemma sample_turns:
  "\<exists>r. turns_reach False r [] [sample_turn ''ha-assist:a'' None 0, sample_turn ''ha-assist:b'' (Some sample_authz) 1]
     \<and> canonical_by_raw r = Map.empty"
proof -
  let ?A = "sample_turn ''ha-assist:a'' None 0"
  let ?B = "sample_turn ''ha-assist:b'' (Some sample_authz) 1"
  obtain r1 where 1: "lock_for ''ha-assist:a'' new_relay = (0, r1)" "held_locks r1 = {}"
    "canonical_by_raw r1 = Map.empty" "next_address r1 = 1" "turn_locks r1 ''ha-assist:b'' = None"
    by (simp add: lock_for_def new_relay_def)
  from turns_reach.arrive [OF turns_reach.start 1(1), of None]
  have "turns_reach False r1 [?A] []" by (simp add: sample_turn_def)
  from turns_reach.enter [OF this, of ?A] 1 have 2: "turns_reach False (enter_turn ?A r1) [] [?A]"
    by simp
  obtain r2 where 3: "lock_for ''ha-assist:b'' (enter_turn ?A r1) = (1, r2)" "held_locks r2 = {0}"
    "canonical_by_raw r2 = Map.empty"
    using 1 by (simp add: lock_for_def enter_turn_def sample_turn_def)
  from turns_reach.arrive [OF 2 3(1), of "Some sample_authz"]
  have "turns_reach False r2 [?B] [?A]" by (simp add: sample_turn_def)
  from turns_reach.enter [OF this, of ?B] 3
  have "turns_reach False (enter_turn ?B r2) [] [?A, ?B]" by (simp add: sample_turn_def)
  with 3(3) show ?thesis by (intro exI [of _ "enter_turn ?B r2"]) (simp add: enter_turn_def)
qed

lemma sample_active_caller:
  "\<exists>r. active_caller '' HA-assist:B'' r = Some (caller_of_authz (Some sample_authz))"
proof -
  let ?F = "[sample_turn ''ha-assist:a'' None 0, sample_turn ''ha-assist:b'' (Some sample_authz) 1]"
  obtain r where r: "turns_reach False r [] ?F" "canonical_by_raw r = Map.empty"
    using sample_turns by blast
  have "lower (strip '' HA-assist:B'') = ''ha-assist:b''" "lower ''ha-assist:a'' = ''ha-assist:a''"
    "lower ''ha-assist:b'' = ''ha-assist:b''" by code_simp+
  then have "filter (\<lambda>t. names_key r '' HA-assist:B'' (t_raw t)) ?F =
    [sample_turn ''ha-assist:b'' (Some sample_authz) 1]"
    using r(2) by (simp add: names_key_def get_or_def sample_turn_def)
  with active_caller_iff [OF r(1), of "'' HA-assist:B''" "caller_of_authz (Some sample_authz)"]
  show ?thesis by (auto simp: sample_turn_def)
qed

end
