(* ===== verification/Relay_Events.thy ===== *)
theory Relay_Events
  imports Turn_Registry
begin

text \<open>
  \<open>ChatRelay.handle_event\<close>: what an event from the gateway does to the turns of the relay. Approval
  events and tool events put progress on the stream; an assistant message becomes the reply, unless it
  belongs to another run of the session. \<open>handle_event\<close> raises \<open>TypeError\<close> where a content block has
  an unhashable type, before it changed anything.
\<close>

subsection \<open>Lines shown to the user\<close>

definition newline :: ustr where "newline = [10]"

definition stream_progress_delta :: ustr where
  "stream_progress_delta = of_ascii ''Working on it...''"

definition approval_waiting_line :: ustr where
  "approval_waiting_line =
     newline @ [0x23F8] @ of_ascii '' Approval required, waiting on you (Discord / Control UI)''"

definition approval_decision_prefix :: ustr where
  "approval_decision_prefix = newline @ of_ascii ''Approval decision: ''"

definition calling_prefix :: ustr where
  "calling_prefix = [0x1F527] @ of_ascii '' Calling ''"

definition repeat_prefix :: ustr where
  "repeat_prefix = of_ascii '' (x''"

definition tick :: ustr where "tick = [0x20, 0x2713]"

definition cross_prefix :: ustr where "cross_prefix = [0x20, 0x2717, 0x20]"

definition is_plain_text_status_chunk :: "ustr \<Rightarrow> bool" where
  "is_plain_text_status_chunk t \<longleftrightarrow>
     t \<in> {stream_progress_delta, approval_waiting_line} \<or>
     starts_with t approval_decision_prefix \<or>
     starts_with t (newline @ calling_prefix) \<or> starts_with t calling_prefix \<or>
     starts_with t repeat_prefix \<or> t = tick \<or> starts_with t cross_prefix"

definition approval_terminal_line :: "dict \<Rightarrow> ustr" where
  "approval_terminal_line approval =
     (let status = dget approval ''status''; decision = dget approval ''decision'';
          outcome =
            (if status = JStr ''allowed'' \<and> decision \<in> {JStr ''allow-once'', JStr ''allow-always''}
             then ''approved ('' @ py_str decision @ '')''
             else if status = JStr ''denied'' then ''denied (deny)''
             else if status = JStr ''expired'' then ''timed out''
             else ''approval ended'')
      in approval_decision_prefix @ of_ascii outcome)"

subsection \<open>Approval events\<close>

definition mark_status :: "string \<Rightarrow> relay \<Rightarrow> relay" where
  "mark_status key r =
     r\<lparr>text_has_visible_output := (text_has_visible_output r)(key \<mapsto> True),
       text_status_open := (text_status_open r)(key \<mapsto> True)\<rparr>"

definition push_approval_line :: "string \<Rightarrow> ustr \<Rightarrow> relay \<Rightarrow> relay" where
  "push_approval_line key line r = (case delta_queues r key of
     None \<Rightarrow> r
   | Some q \<Rightarrow>
       if get_or (use_tool_frames r) key False then r
       else mark_status key (put q (Q_text line) r))"

definition canonical_or_raw :: "relay \<Rightarrow> string \<Rightarrow> string" where
  "canonical_or_raw r raw =
     (case canonical_by_raw r raw of Some k \<Rightarrow> if k \<noteq> [] then k else raw | None \<Rightarrow> raw)"

definition discard_replayed :: "string \<Rightarrow> string \<Rightarrow> relay \<Rightarrow> relay" where
  "discard_replayed key aid r = (case replay_pending r key of
     None \<Rightarrow> r
   | Some ids \<Rightarrow>
       r\<lparr>replay_pending := (replay_pending r)(key := (if ids - {aid} = {} then None else Some (ids - {aid})))\<rparr>)"

definition handle_approval_event :: "dict \<Rightarrow> relay \<Rightarrow> relay" where
  "handle_approval_event payload r =
     (let key = canonical_or_raw r (str_field payload ''sessionKey'') in
      case dget payload ''approval'' of
        JObj approval \<Rightarrow>
          if dget payload ''phase'' = JStr ''pending'' then push_approval_line key approval_waiting_line r
          else if dget payload ''phase'' = JStr ''terminal'' then
            push_approval_line key (approval_terminal_line approval)
              (discard_replayed key (py_str (dget approval ''id'')) r)
          else r
      | _ \<Rightarrow> r)"

subsection \<open>Tool events\<close>

definition run_id_of :: "dict \<Rightarrow> string" where
  "run_id_of payload = str_or_empty (dget_or payload ''runId'' (JStr []))"

definition stale_tool_event :: "relay \<Rightarrow> string \<Rightarrow> string \<Rightarrow> bool" where
  "stale_tool_event r key run = (case active_run_id r key of
     None \<Rightarrow> False
   | Some active \<Rightarrow>
       active \<noteq> [] \<and>
       (active = pending_run_id \<or> run \<noteq> [] \<and> run \<noteq> active \<or>
        run = [] \<and> \<not> get_or (seen_same_run r) key False))"

definition tool_name_of :: "jval \<Rightarrow> dict \<Rightarrow> string option" where
  "tool_name_of stream data =
     (case py_or (dget data ''name'') (if stream = JStr ''item'' then dget data ''title'' else JNull) of
        JStr s \<Rightarrow> Some (strip_mcp_prefix s) | _ \<Rightarrow> None)"

definition tool_id_of :: "dict \<Rightarrow> string" where
  "tool_id_of data =
     str_or_empty (py_or (py_or (dget data ''id'') (dget data ''toolCallId'')) (dget data ''itemId''))"

definition dedup_id_of :: "dict \<Rightarrow> string" where
  "dedup_id_of data = removeprefix ''tool:''
     (str_or_empty (py_or (py_or (dget data ''toolCallId'') (dget data ''id'')) (dget data ''itemId'')))"

definition note_started :: "string \<Rightarrow> string \<Rightarrow> relay \<Rightarrow> relay option" where
  "note_started key did r =
     (if did = [] then Some r
      else let started = get_or (started_tool_ids r) key {} in
        if did \<in> started then None
        else Some (r\<lparr>started_tool_ids := (started_tool_ids r)(key \<mapsto> insert did started)\<rparr>))"

definition start_frame :: "string \<Rightarrow> string \<Rightarrow> string \<Rightarrow> relay \<Rightarrow> relay" where
  "start_frame key name tid r =
     (let seq = get_or (tool_progress_seq r) key 0 + 1;
          r' = r\<lparr>tool_progress_seq := (tool_progress_seq r)(key \<mapsto> seq),
                 active_tool_id := (active_tool_id r)(key \<mapsto> tid),
                 active_tool_seq := (active_tool_seq r)(key \<mapsto> seq)\<rparr>
      in case delta_queues r' key of
           None \<Rightarrow> r'
         | Some q \<Rightarrow> put q (Q_frame \<lparr>tf_phase = Tool_start, tf_name = name, tf_id = tid, tf_seq = seq\<rparr>) r')"

definition start_text :: "string \<Rightarrow> string \<Rightarrow> relay \<Rightarrow> relay" where
  "start_text key name r = (case delta_queues r key of
     None \<Rightarrow> r
   | Some q \<Rightarrow>
       if get_or (text_tool_name r) key [] = name then
         let count = get_or (text_tool_count r) key 1 + 1 in
         put q (Q_text (repeat_prefix @ of_ascii (int_str count @ '')...'')))
           (r\<lparr>text_tool_count := (text_tool_count r)(key \<mapsto> count)\<rparr>)
       else
         let prefix = (if get_or (text_has_visible_output r) key False then newline else []) in
         mark_status key
           (put q (Q_text (prefix @ calling_prefix @ of_ascii (name @ ''...'')))
             (r\<lparr>text_tool_name := (text_tool_name r)(key \<mapsto> name),
                text_tool_count := (text_tool_count r)(key \<mapsto> 1)\<rparr>)))"

definition tool_started :: "string \<Rightarrow> string \<Rightarrow> dict \<Rightarrow> relay \<Rightarrow> relay" where
  "tool_started key name data r = (case note_started key (dedup_id_of data) r of
     None \<Rightarrow> r
   | Some r1 \<Rightarrow>
       (let r2 = r1\<lparr>active_tool := (active_tool r1)(key \<mapsto> name)\<rparr> in
        if get_or (use_tool_frames r) key False then start_frame key name (tool_id_of data) r2
        else start_text key name r2))"

definition end_frame :: "string \<Rightarrow> string option \<Rightarrow> string \<Rightarrow> relay \<Rightarrow> relay" where
  "end_frame key name tid r =
     (let active_seq = get_or (active_tool_seq r) key 0;
          active_id = get_or (active_tool_id r) key [];
          active_name = get_or (active_tool r) key [];
          end_seq = get_or (tool_progress_seq r) key 0;
          id_match = (tid \<noteq> [] \<and> tid = active_id);
          both_idless_name_match =
            (tid = [] \<and> active_id = [] \<and> (name \<in> {None, Some []} \<or> name = Some active_name))
      in if (id_match \<or> both_idless_name_match) \<and> end_seq \<ge> active_seq then
           let r' = (case delta_queues r key of
                 None \<Rightarrow> r
               | Some q \<Rightarrow> put q (Q_frame \<lparr>tf_phase = Tool_end,
                     tf_name = (if active_name \<noteq> [] then active_name else case name of None \<Rightarrow> [] | Some n \<Rightarrow> n),
                     tf_id = active_id, tf_seq = active_seq\<rparr>) r)
           in r'\<lparr>active_tool := (active_tool r')(key := None),
                 active_tool_id := (active_tool_id r')(key := None),
                 active_tool_seq := (active_tool_seq r')(key := None)\<rparr>
         else r)"

text \<open>A line that ends the current marker: a tick, or a cross with the error.\<close>

definition push_status :: "string \<Rightarrow> ustr \<Rightarrow> relay \<Rightarrow> relay" where
  "push_status key line r = (case delta_queues r key of
     None \<Rightarrow> r | Some q \<Rightarrow> mark_status key (put q (Q_text line) r))"

definition end_text :: "string \<Rightarrow> ustr \<Rightarrow> relay \<Rightarrow> relay" where
  "end_text key line r =
     (let r' = push_status key line r in r'\<lparr>active_tool := (active_tool r')(key := None)\<rparr>)"

definition handle_tool_event :: "jval \<Rightarrow> dict \<Rightarrow> relay \<Rightarrow> relay" where
  "handle_tool_event stream payload r =
     (let key = canonical_or_raw r (str_field payload ''sessionKey'') in
      case dget payload ''data'' of
        JObj data \<Rightarrow>
          if key = [] then r
          else if stream = JStr ''item'' \<and> dget data ''kind'' \<noteq> JStr ''tool'' \<and>
                  \<not> truthy (dget data ''toolCallId'') then r
          else if stale_tool_event r key (run_id_of payload) then r
          else
            (let phase = dget data ''phase''; name = tool_name_of stream data; tid = tool_id_of data;
                 use_frames = get_or (use_tool_frames r) key False
             in if phase = JStr ''start'' \<and> name \<notin> {None, Some []} then tool_started key (the name) data r
                else if phase = JStr ''end'' then
                  (if use_frames then end_frame key name tid r else end_text key tick r)
                else if phase = JStr ''error'' then
                  (if use_frames then r
                   else end_text key (cross_prefix @ of_ascii (py_str (py_or (dget data ''error'') (JStr ''failed'')))) r)
                else r)
      | _ \<Rightarrow> r)"

subsection \<open>Assistant messages\<close>

definition starts_chat :: "jval \<Rightarrow> bool" where
  "starts_chat event = (case event of JStr e \<Rightarrow> starts_with e ''chat'' | _ \<Rightarrow> False)"

definition message_field :: "dict \<Rightarrow> jval" where
  "message_field m =
     py_or (py_or (dget_or m ''content'' (JStr [])) (dget_or m ''text'' (JStr [])))
           (dget_or m ''message'' (JStr []))"

definition role_of :: "dict \<Rightarrow> string" where
  "role_of payload =
     (let role = str_field payload ''role'' in
      case dget_or payload ''message'' (JStr []) of
        JObj m \<Rightarrow> if role \<noteq> [] then role else str_field m ''role''
      | _ \<Rightarrow> role)"

definition session_message_text :: "dict \<Rightarrow> turn_error + string" where
  "session_message_text payload =
     sum_bind (case dget_or payload ''message'' (JStr []) of
                 JObj m \<Rightarrow> extract_text (message_field m) | v \<Rightarrow> extract_text v)
       (\<lambda>text. if text \<noteq> [] then Inr text
               else extract_text (py_or (dget_or payload ''text'' (JStr [])) (dget_or payload ''content'' (JStr []))))"

definition chat_text :: "dict \<Rightarrow> turn_error + string" where
  "chat_text payload = (case dget_or payload ''message'' (JStr []) of
     JObj m \<Rightarrow> extract_text (message_field m)
   | v \<Rightarrow> extract_text (py_or v (dget_or payload ''text'' (JStr []))))"

text \<open>Session, role and text of an assistant message; empty for every other event.\<close>

definition read_message :: "jval \<Rightarrow> dict \<Rightarrow> turn_error + string \<times> string \<times> string" where
  "read_message event payload =
     (if event = JStr ''session.message'' then
        sum_bind (session_message_text payload)
          (\<lambda>text. Inr (str_field payload ''sessionKey'', role_of payload, text))
      else if starts_chat event then
        sum_bind (chat_text payload)
          (\<lambda>text. Inr (str_field payload ''sessionKey'', role_of payload, text))
      else Inr ([], [], []))"

definition stale_message :: "jval \<Rightarrow> string \<Rightarrow> string \<Rightarrow> string \<Rightarrow> relay \<Rightarrow> bool" where
  "stale_message event active run key r =
     (let is_session_msg = (event = JStr ''session.message'');
          mismatched = (run \<noteq> [] \<and> run \<noteq> active);
          stale_chat = (starts_chat event \<and> run = []);
          stale_pending = (active = pending_run_id \<and> run = []);
          stale_repeat_session =
            (is_session_msg \<and> run = [] \<and> get_or (terminal_text r) key [] \<noteq> []);
          stale_unconfirmed_session =
            (is_session_msg \<and> run = [] \<and> active \<noteq> pending_run_id \<and> delta_queues r key \<noteq> None \<and>
             \<not> get_or (seen_same_run r) key False)
      in mismatched \<or> stale_chat \<or> stale_pending \<or> stale_repeat_session \<or> stale_unconfirmed_session)"

definition mark_same_run :: "string \<Rightarrow> string \<Rightarrow> string \<Rightarrow> relay \<Rightarrow> relay" where
  "mark_same_run active run key r =
     (if run \<noteq> [] \<and> run = active \<and> active \<noteq> pending_run_id
      then r\<lparr>seen_same_run := (seen_same_run r)(key \<mapsto> True)\<rparr> else r)"

definition is_terminal :: "jval \<Rightarrow> dict \<Rightarrow> bool" where
  "is_terminal event payload \<longleftrightarrow>
     event = JStr ''session.message'' \<or> dget payload ''state'' \<in> {JStr ''final'', JNull}"

definition capture_text :: "jval \<Rightarrow> dict \<Rightarrow> string \<Rightarrow> string \<Rightarrow> relay \<Rightarrow> relay" where
  "capture_text event payload key text r =
     (let r1 = r\<lparr>last_text := (last_text r)(key \<mapsto> text)\<rparr> in
      if \<not> is_terminal event payload then r1
      else
        let r2 = (case delta_queues r1 key of
                    None \<Rightarrow> r1 | Some q \<Rightarrow> put q Q_close (put q (Q_text (of_ascii text)) r1));
            r3 = r2\<lparr>terminal_text := (terminal_text r2)(key \<mapsto> text)\<rparr>
        in case reply_events r3 key of
             None \<Rightarrow> r3 | Some e \<Rightarrow> r3\<lparr>event_set := insert e (event_set r3)\<rparr>)"

definition handle_message_event :: "jval \<Rightarrow> dict \<Rightarrow> relay \<Rightarrow> turn_error + relay" where
  "handle_message_event event payload r =
     sum_bind (read_message event payload) (\<lambda>(key, role, text).
       if \<not> (role = ''assistant'' \<and> key \<noteq> [] \<and> text \<noteq> []) then Inr r
       else if reply_events r key = None \<and> delta_queues r key = None then Inr r
       else
         let active = get_or (active_run_id r) key []; run = run_id_of payload in
         if active = [] then Inr (capture_text event payload key text r)
         else if stale_message event active run key r then Inr r
         else Inr (capture_text event payload key text (mark_same_run active run key r)))"

definition handle_event :: "dict \<Rightarrow> relay \<Rightarrow> turn_error + relay" where
  "handle_event msg r =
     (let event = dget_or msg ''event'' (JStr []) in
      case dget_or msg ''payload'' (JObj []) of
        JObj payload \<Rightarrow>
          (let stream = dget payload ''stream'' in
           if event = JStr ''session.approval'' then Inr (handle_approval_event payload r)
           else if event \<in> {JStr ''agent'', JStr ''session.tool''} \<and> stream \<in> {JStr ''tool'', JStr ''item''}
           then Inr (handle_tool_event stream payload r)
           else handle_message_event event payload r)
      | _ \<Rightarrow> Inr r)"

fun handle_events :: "dict list \<Rightarrow> relay \<Rightarrow> turn_error + relay" where
  "handle_events [] r = Inr r"
| "handle_events (m # ms) r = sum_bind (handle_event m r) (handle_events ms)"

subsection \<open>Progress never ends a stream\<close>

text \<open>
  What approval and tool events leave alone, and what they put on a queue: lines and frames, no end
  of the stream and no error.
\<close>

definition progress_items :: "queue_item list \<Rightarrow> bool" where
  "progress_items xs \<longleftrightarrow> Q_close \<notin> set xs \<and> (\<forall>e. Q_error e \<notin> set xs)"

definition quiet :: "relay \<Rightarrow> relay \<Rightarrow> bool" where
  "quiet r r' \<longleftrightarrow>
     delta_queues r' = delta_queues r \<and> reply_events r' = reply_events r \<and> event_set r' = event_set r \<and>
     active_run_id r' = active_run_id r \<and> seen_same_run r' = seen_same_run r \<and>
     terminal_text r' = terminal_text r \<and> last_text r' = last_text r \<and>
     use_tool_frames r' = use_tool_frames r \<and> canonical_by_raw r' = canonical_by_raw r \<and>
     next_address r' = next_address r \<and>
     (\<forall>q. \<exists>new. queue_items r' q = queue_items r q @ new \<and> progress_items new)"

lemma quiet_refl [simp]: "quiet r r"
  by (auto simp: quiet_def progress_items_def)

lemma quiet_trans: "quiet r s \<Longrightarrow> quiet s t \<Longrightarrow> quiet r t"
  unfolding quiet_def progress_items_def by (simp, metis append_assoc set_append Un_iff)

lemma quiet_put: "(case x of Q_text _ \<Rightarrow> True | Q_frame _ \<Rightarrow> True | _ \<Rightarrow> False) \<Longrightarrow> quiet r (put q x r)"
  by (auto simp: quiet_def put_def progress_items_def split: queue_item.splits)

lemmas quiet_update = quiet_def progress_items_def

lemma quiet_mark: "quiet r (mark_status key r)"
  by (auto simp: quiet_update mark_status_def)

lemma quiet_put_mark:
  "(case x of Q_text _ \<Rightarrow> True | Q_frame _ \<Rightarrow> True | _ \<Rightarrow> False) \<Longrightarrow> quiet r (mark_status key (put q x r))"
  using quiet_trans [OF quiet_put quiet_mark] .

lemma quiet_push_approval: "quiet r (push_approval_line key line r)"
  by (auto simp: push_approval_line_def quiet_put_mark split: option.splits)

lemma quiet_approval: "quiet r (handle_approval_event payload r)"
proof -
  have "quiet r (discard_replayed key aid r)" for key aid
    by (auto simp: quiet_update discard_replayed_def split: option.splits)
  from quiet_trans [OF this quiet_push_approval] quiet_push_approval show ?thesis
    by (auto simp: handle_approval_event_def Let_def split: json.splits)
qed

lemma quiet_end_text: "quiet r (end_text key line r)"
proof -
  have "quiet r (push_status key line r)"
    by (auto simp: push_status_def quiet_put_mark split: option.splits)
  then show ?thesis
    by (rule quiet_trans) (auto simp: quiet_update end_text_def Let_def)
qed

lemma quiet_start_frame: "quiet r (start_frame key name tid r)"
proof -
  let ?r = "r\<lparr>tool_progress_seq := a, active_tool_id := b, active_tool_seq := c\<rparr>"
  have "quiet r (r\<lparr>tool_progress_seq := a, active_tool_id := b, active_tool_seq := c\<rparr>)" for a b c
    by (auto simp: quiet_update)
  from this quiet_trans [OF this quiet_put] show ?thesis
    by (auto simp: start_frame_def Let_def split: option.splits)
qed

lemma quiet_start_text: "quiet r (start_text key name r)"
proof -
  have count: "quiet r (r\<lparr>text_tool_count := a\<rparr>)" for a by (auto simp: quiet_update)
  have name: "quiet r (r\<lparr>text_tool_name := a, text_tool_count := b\<rparr>)" for a b by (auto simp: quiet_update)
  show ?thesis
    using quiet_trans [OF count quiet_put] quiet_trans [OF name quiet_put_mark]
    by (auto simp: start_text_def Let_def split: option.splits)
qed

lemma quiet_end_frame: "quiet r (end_frame key name tid r)"
proof -
  have drop: "quiet r (r\<lparr>active_tool := a, active_tool_id := b, active_tool_seq := c\<rparr>)" for r a b c
    by (auto simp: quiet_update)
  have push: "quiet r (case delta_queues r key of None \<Rightarrow> r | Some q \<Rightarrow> put q (Q_frame f) r)" for f
    by (auto simp: quiet_put split: option.splits)
  from quiet_trans [OF push drop] show ?thesis
    by (simp add: end_frame_def Let_def)
qed

lemma quiet_note_started: "note_started key did r = Some r1 \<Longrightarrow> quiet r r1"
  by (auto simp: note_started_def quiet_update Let_def split: if_splits)

lemma quiet_tool_started: "quiet r (tool_started key name data r)"
proof (cases "note_started key (dedup_id_of data) r")
  case (Some r1)
  let ?r2 = "r1\<lparr>active_tool := (active_tool r1)(key \<mapsto> name)\<rparr>"
  have "quiet r1 ?r2" by (auto simp: quiet_update)
  with quiet_note_started [OF Some] have "quiet r ?r2" by (rule quiet_trans)
  from quiet_trans [OF this quiet_start_frame] quiet_trans [OF this quiet_start_text] Some
  show ?thesis by (simp add: tool_started_def Let_def)
qed (simp add: tool_started_def)

lemma quiet_tool: "quiet r (handle_tool_event stream payload r)"
  by (auto simp: handle_tool_event_def Let_def quiet_tool_started quiet_end_frame quiet_end_text
      split: json.splits)

subsection \<open>A reply belongs to the run that is waited for\<close>

definition assistant_message :: "dict \<Rightarrow> string \<Rightarrow> string \<Rightarrow> string \<Rightarrow> bool" where
  "assistant_message m key run text \<longleftrightarrow>
     (\<exists>payload. dget_or m ''payload'' (JObj []) = JObj payload \<and>
        read_message (dget_or m ''event'' (JStr [])) payload = Inr (key, ''assistant'', text) \<and>
        key \<noteq> [] \<and> text \<noteq> [] \<and> run_id_of payload = run)"

definition transcript_message :: "dict \<Rightarrow> bool" where
  "transcript_message m \<longleftrightarrow> dget_or m ''event'' (JStr []) = JStr ''session.message''"

text \<open>The queue of a session, of no other session.\<close>

definition owns_queue :: "relay \<Rightarrow> string \<Rightarrow> nat \<Rightarrow> bool" where
  "owns_queue r key q \<longleftrightarrow> (\<forall>k. delta_queues r k = Some q \<longleftrightarrow> k = key)"

lemma owns_queueD: "owns_queue r key q \<Longrightarrow> delta_queues r key = Some q"
  by (simp add: owns_queue_def)

lemma handle_event_cases:
  assumes "handle_event m r = Inr r'"
  obtains (progress) "quiet r r'"
  | (message) payload key words where
      "assistant_message m key (run_id_of payload) words" "dget_or m ''payload'' (JObj []) = JObj payload"
      "reply_events r key \<noteq> None \<or> delta_queues r key \<noteq> None"
      "get_or (active_run_id r) key [] = [] \<or>
       \<not> stale_message (dget_or m ''event'' (JStr [])) (get_or (active_run_id r) key []) (run_id_of payload) key r"
      "r' = capture_text (dget_or m ''event'' (JStr [])) payload key words
              (if get_or (active_run_id r) key [] = [] then r
               else mark_same_run (get_or (active_run_id r) key []) (run_id_of payload) key r)"
proof (cases "dget_or m ''payload'' (JObj [])")
  case (JObj payload)
  show thesis
  proof (cases "handle_event m r = handle_message_event (dget_or m ''event'' (JStr [])) payload r")
    case True
    with assms obtain key role words where
      msg: "read_message (dget_or m ''event'' (JStr [])) payload = Inr (key, role, words)"
      by (auto simp: handle_message_event_def sum_bind_Inr)
    with True assms progress message [of key payload words] JObj show thesis
      by (auto simp: handle_message_event_def assistant_message_def Let_def split: if_splits)
  next
    case False
    with assms JObj have "quiet r r'"
      using quiet_approval quiet_tool by (auto simp: handle_event_def Let_def split: if_splits)
    then show thesis by (rule progress)
  qed
qed (use assms progress in \<open>auto simp: handle_event_def Let_def\<close>)

text \<open>What an accepted message does to the relay.\<close>

lemma capture_text_effect:
  assumes "r' = capture_text event payload key text r"
  shows "delta_queues r' = delta_queues r" "active_run_id r' = active_run_id r"
    "seen_same_run r' = seen_same_run r" "reply_events r' = reply_events r"
    "use_tool_frames r' = use_tool_frames r" "canonical_by_raw r' = canonical_by_raw r"
    "next_address r' = next_address r" "last_text r' = (last_text r)(key \<mapsto> text)"
    "terminal_text r' = (if is_terminal event payload then (terminal_text r)(key \<mapsto> text) else terminal_text r)"
    "queue_items r' q = queue_items r q @
       (if is_terminal event payload \<and> delta_queues r key = Some q then [Q_text (of_ascii text), Q_close] else [])"
  using assms by (auto simp: capture_text_def put_def Let_def split: option.splits)

lemma mark_same_run_effect [simp]:
  "delta_queues (mark_same_run active run key r) = delta_queues r"
  "active_run_id (mark_same_run active run key r) = active_run_id r"
  "reply_events (mark_same_run active run key r) = reply_events r"
  "use_tool_frames (mark_same_run active run key r) = use_tool_frames r"
  "canonical_by_raw (mark_same_run active run key r) = canonical_by_raw r"
  "next_address (mark_same_run active run key r) = next_address r"
  "last_text (mark_same_run active run key r) = last_text r"
  "terminal_text (mark_same_run active run key r) = terminal_text r"
  "queue_items (mark_same_run active run key r) = queue_items r"
  by (simp_all add: mark_same_run_def)

lemma event_keeps:
  assumes "handle_event m r = Inr r'"
  shows "delta_queues r' = delta_queues r" "active_run_id r' = active_run_id r"
    "reply_events r' = reply_events r" "use_tool_frames r' = use_tool_frames r"
    "canonical_by_raw r' = canonical_by_raw r" "next_address r' = next_address r"
    "\<exists>new. queue_items r' q = queue_items r q @ new"
proof -
  have "delta_queues r' = delta_queues r \<and> active_run_id r' = active_run_id r \<and>
    reply_events r' = reply_events r \<and> use_tool_frames r' = use_tool_frames r \<and>
    canonical_by_raw r' = canonical_by_raw r \<and> next_address r' = next_address r \<and>
    (\<exists>new. queue_items r' q = queue_items r q @ new)"
    using assms
  proof (cases rule: handle_event_cases)
    case progress
    then show ?thesis unfolding quiet_def by blast
  next
    case (message payload k words)
    show ?thesis by (simp add: capture_text_effect [OF message(5)])
  qed
  then show "delta_queues r' = delta_queues r" "active_run_id r' = active_run_id r"
    "reply_events r' = reply_events r" "use_tool_frames r' = use_tool_frames r"
    "canonical_by_raw r' = canonical_by_raw r" "next_address r' = next_address r"
    "\<exists>new. queue_items r' q = queue_items r q @ new"
    by blast+
qed

text \<open>
  One event, seen from a stream that waits for run \<open>run\<close>: it is progress, or it is the reply: an
  assistant message of this session that carries the run, or a transcript message that carries none
  after one of this run was seen.
\<close>

lemma event_step:
  assumes "handle_event m r = Inr r'" "owns_queue r key q"
    "active_run_id r key = Some run" "run \<noteq> []" "run \<noteq> pending_run_id"
  shows "\<exists>new. queue_items r' q = queue_items r q @ new \<and>
    (progress_items new \<or>
     (\<exists>words. new = [Q_text (of_ascii words), Q_close] \<and>
        (assistant_message m key run words \<or>
         assistant_message m key [] words \<and> transcript_message m \<and> get_or (seen_same_run r) key False))) \<and>
    (get_or (seen_same_run r') key False \<longrightarrow>
       get_or (seen_same_run r) key False \<or> (\<exists>words. assistant_message m key run words))"
  using assms(1)
proof (cases rule: handle_event_cases)
  case progress
  then show ?thesis by (auto simp: quiet_def)
next
  case (message payload k words)
  let ?e = "dget_or m ''event'' (JStr [])"
  show ?thesis
  proof (cases "k = key")
    case True
    have run: "get_or (active_run_id r) key [] = run" using assms(3) by (simp add: get_or_def)
    with message(4) True assms(4) have fresh: "\<not> stale_message ?e run (run_id_of payload) key r" by simp
    then have "run_id_of payload = run \<or>
      run_id_of payload = [] \<and> transcript_message m \<and> get_or (seen_same_run r) key False"
      using message(1) assms(5) owns_queueD [OF assms(2)]
      by (auto simp: stale_message_def Let_def assistant_message_def read_message_def transcript_message_def
          split: if_splits)
    then have reply: "assistant_message m key run words \<or>
      assistant_message m key [] words \<and> transcript_message m \<and> get_or (seen_same_run r) key False"
      using message(1) True by metis
    have r': "r' = capture_text ?e payload key words (mark_same_run run (run_id_of payload) key r)"
      using message(5) True run assms(4) by simp
    have "get_or (seen_same_run r') key False \<longrightarrow>
       get_or (seen_same_run r) key False \<or> (\<exists>words. assistant_message m key run words)"
      using message(1) True by (auto simp: capture_text_effect [OF r'] mark_same_run_def)
    with reply show ?thesis
      by (auto simp: capture_text_effect [OF r'] owns_queueD [OF assms(2)] progress_items_def)
  next
    case False
    with assms(2) have "delta_queues r k \<noteq> Some q" by (simp add: owns_queue_def)
    with False show ?thesis
      by (auto simp: capture_text_effect [OF message(5)] progress_items_def mark_same_run_def get_or_def)
  qed
qed

text \<open>Before the acknowledgement no reply is taken: the sentinel is no run of the gateway.\<close>

lemma pending_event:
  assumes "handle_event m r = Inr r'" "owns_queue r key q" "active_run_id r key = Some pending_run_id"
    "\<And>words. \<not> assistant_message m key pending_run_id words"
  shows "(\<exists>new. queue_items r' q = queue_items r q @ new \<and> progress_items new) \<and>
    seen_same_run r' key = seen_same_run r key"
  using assms(1)
proof (cases rule: handle_event_cases)
  case progress
  then show ?thesis by (simp add: quiet_def)
next
  case (message payload k words)
  have active: "get_or (active_run_id r) key [] = pending_run_id" using assms(3) by (simp add: get_or_def)
  have "k \<noteq> key"
  proof
    assume k: "k = key"
    have "pending_run_id \<noteq> []" by (simp add: pending_run_id_def)
    with message(4) active k have "run_id_of payload = pending_run_id"
      by (auto simp: stale_message_def Let_def)
    with message(1) k assms(4) show False by simp
  qed
  moreover from this have "delta_queues r k \<noteq> Some q" using assms(2) by (simp add: owns_queue_def)
  ultimately show ?thesis
    by (simp add: capture_text_effect [OF message(5)] progress_items_def mark_same_run_def)
qed

lemma pending_events:
  assumes "handle_events ms r = Inr r'" "owns_queue r key q" "active_run_id r key = Some pending_run_id"
    "\<forall>m \<in> set ms. \<forall>words. \<not> assistant_message m key pending_run_id words"
    "progress_items (queue_items r q)"
  shows "progress_items (queue_items r' q) \<and> seen_same_run r' key = seen_same_run r key \<and>
    owns_queue r' key q \<and> active_run_id r' key = Some pending_run_id"
  using assms
proof (induction ms arbitrary: r)
  case (Cons m ms)
  obtain s where s: "handle_event m r = Inr s" "handle_events ms s = Inr r'"
    using Cons.prems(1) by (auto simp: sum_bind_Inr)
  note step = pending_event [OF s(1) Cons.prems(2,3)]
  have "owns_queue s key q" "active_run_id s key = Some pending_run_id"
    using event_keeps(1,2) [OF s(1)] Cons.prems(2,3) by (simp_all add: owns_queue_def)
  moreover have "progress_items (queue_items s q)" "seen_same_run s key = seen_same_run r key"
    using step Cons.prems(4,5) by (auto simp: progress_items_def)
  ultimately show ?case using Cons.IH [OF s(2)] Cons.prems(4) by simp
qed simp

end
