(* ===== verification/Relay_Tools.thy ===== *)
theory Relay_Tools
  imports Relay_Events
begin

text \<open>
  The structured tool frames of a stream (\<open>ToolProgressFrame\<close>): whatever events arrive, in whatever
  order, the frames put on the stream of one turn number the calls from 1 on, and an end frame closes
  the call that was started last, at most once.
\<close>

definition frames_of :: "queue_item list \<Rightarrow> tool_frame list" where
  "frames_of xs = concat (map (\<lambda>x. case x of Q_frame f \<Rightarrow> [f] | _ \<Rightarrow> []) xs)"

lemma frames_of_simps [simp]:
  "frames_of [] = []" "frames_of (xs @ ys) = frames_of xs @ frames_of ys"
  "frames_of (Q_frame f # xs) = f # frames_of xs" "frames_of (Q_text t # xs) = frames_of xs"
  "frames_of (Q_close # xs) = frames_of xs"
  by (simp_all add: frames_of_def)

text \<open>
  What a reader of the stream expects next, after \<open>n\<close> calls of which \<open>opened\<close> is the one that was not
  ended yet. When no call is open the only frame besides a start is the empty end frame, which an end
  event without a name and without an id produces.
\<close>

fun frame_step :: "int \<times> tool_frame option \<Rightarrow> tool_frame \<Rightarrow> (int \<times> tool_frame option) option" where
  "frame_step (n, opened) f =
     (case tf_phase f of
        Tool_start \<Rightarrow> if tf_seq f = n + 1 \<and> tf_name f \<noteq> [] then Some (n + 1, Some f) else None
      | Tool_end \<Rightarrow>
          (case opened of
             Some g \<Rightarrow> if f = g\<lparr>tf_phase := Tool_end\<rparr> then Some (n, None) else None
           | None \<Rightarrow> if tf_seq f = 0 \<and> tf_id f = [] \<and> tf_name f = [] then Some (n, None) else None))"

fun frame_run :: "int \<times> tool_frame option \<Rightarrow> tool_frame list \<Rightarrow> (int \<times> tool_frame option) option" where
  "frame_run s [] = Some s"
| "frame_run s (f # fs) = (case frame_step s f of None \<Rightarrow> None | Some s' \<Rightarrow> frame_run s' fs)"

lemma frame_run_append:
  "frame_run s (fs @ gs) = (case frame_run s fs of None \<Rightarrow> None | Some s' \<Rightarrow> frame_run s' gs)"
  by (induction s fs rule: frame_run.induct) (auto split: option.splits)

definition starts_of :: "tool_frame list \<Rightarrow> int list" where
  "starts_of fs = map tf_seq (filter (\<lambda>f. tf_phase f = Tool_start) fs)"

lemma frame_run_numbers:
  "frame_run (n, opened) fs = Some (n', opened') \<Longrightarrow> n \<le> n' \<and> starts_of fs = [n + 1..n']"
proof (induction fs arbitrary: n opened)
  case (Cons f fs)
  then obtain m o' where step: "frame_step (n, opened) f = Some (m, o')"
    and run: "frame_run (m, o') fs = Some (n', opened')"
    by (auto split: option.splits)
  note rest = Cons.IH [OF run]
  show ?case
  proof (cases "tf_phase f")
    case Tool_start
    with step have "m = n + 1" "tf_seq f = n + 1" by (auto split: if_splits)
    with rest Tool_start show ?thesis
      by (auto simp: starts_of_def upto.simps [of "n + 1" n'])
  next
    case Tool_end
    with step have "m = n" by (auto split: option.splits if_splits)
    with rest Tool_end show ?thesis by (simp add: starts_of_def)
  qed
qed (simp add: starts_of_def)

subsection \<open>The relay keeps the reader's state\<close>

definition tracks :: "relay \<Rightarrow> string \<Rightarrow> int \<times> tool_frame option \<Rightarrow> bool" where
  "tracks r key s \<longleftrightarrow>
     get_or (tool_progress_seq r) key 0 = fst s \<and> 0 \<le> fst s \<and>
     (case snd s of
        None \<Rightarrow> active_tool_seq r key = None \<and> active_tool_id r key = None \<and> active_tool r key = None
      | Some g \<Rightarrow> active_tool_seq r key = Some (tf_seq g) \<and> active_tool_id r key = Some (tf_id g) \<and>
          active_tool r key = Some (tf_name g) \<and> tf_seq g = fst s \<and> tf_phase g = Tool_start \<and> tf_name g \<noteq> [])"

definition tool_fields :: "relay \<Rightarrow> string \<Rightarrow> int \<times> int option \<times> string option \<times> string option" where
  "tool_fields r key =
     (get_or (tool_progress_seq r) key 0, active_tool_seq r key, active_tool_id r key, active_tool r key)"

lemma tracks_cong: "tool_fields r' key = tool_fields r key \<Longrightarrow> tracks r' key s = tracks r key s"
  by (cases "snd s") (simp_all add: tool_fields_def tracks_def)

text \<open>Everything but the tool events of this session leaves the fields and its queue alone.\<close>

lemma put_tool_fields [simp]: "tool_fields (put q x r) key = tool_fields r key"
  by (simp add: tool_fields_def put_def)

lemma mark_status_tool_fields [simp]: "tool_fields (mark_status k r) key = tool_fields r key"
  by (simp add: tool_fields_def mark_status_def)

lemma approval_tool_fields: "tool_fields (handle_approval_event payload r) key = tool_fields r key"
proof -
  have "tool_fields (push_approval_line k line r) key = tool_fields r key" for k line r
    by (simp add: push_approval_line_def split: option.splits)
  moreover have "tool_fields (discard_replayed k aid r) key = tool_fields r key" for k aid
    by (simp add: discard_replayed_def tool_fields_def split: option.splits)
  ultimately show ?thesis by (simp add: handle_approval_event_def Let_def split: json.splits)
qed

lemma push_approval_queue:
  assumes "owns_queue r key q" "use_tool_frames r key = Some True"
  shows "queue_items (push_approval_line k line r) q = queue_items r q"
proof (cases "delta_queues r k")
  case (Some p)
  show ?thesis
  proof (cases "p = q")
    case True
    with Some assms(1) have "k = key" by (simp add: owns_queue_def)
    with assms(2) Some show ?thesis by (simp add: push_approval_line_def get_or_def)
  next
    case False
    with Some show ?thesis by (simp add: push_approval_line_def mark_status_def put_def)
  qed
qed (simp add: push_approval_line_def)

lemma approval_queue:
  assumes "owns_queue r key q" "use_tool_frames r key = Some True"
  shows "queue_items (handle_approval_event payload r) q = queue_items r q"
proof -
  have d: "queue_items (discard_replayed k aid r) q = queue_items r q"
    "owns_queue (discard_replayed k aid r) key q"
    "use_tool_frames (discard_replayed k aid r) key = Some True" for k aid
    using assms by (simp_all add: discard_replayed_def owns_queue_def split: option.splits)
  show ?thesis
    by (simp add: handle_approval_event_def Let_def d push_approval_queue [OF d(2,3)]
        push_approval_queue [OF assms] split: json.splits)
qed

lemma message_tool_fields:
  assumes "handle_message_event event payload r = Inr r'"
  shows "tool_fields r' key = tool_fields r key"
proof -
  have "tool_fields (capture_text event payload k t r) key = tool_fields r key" for k t r
    by (simp add: capture_text_def tool_fields_def put_def Let_def split: option.splits)
  moreover have "tool_fields (mark_same_run a run k r) key = tool_fields r key" for a run k
    by (simp add: mark_same_run_def tool_fields_def)
  ultimately show ?thesis
    using assms by (auto simp: handle_message_event_def sum_bind_Inr Let_def split: if_splits)
qed

lemma message_queue:
  assumes "handle_message_event event payload r = Inr r'"
  shows "\<exists>new. queue_items r' q = queue_items r q @ new \<and> frames_of new = []"
proof -
  have cap: "\<exists>new. queue_items (capture_text event payload k t r) q = queue_items r q @ new \<and> frames_of new = []"
    for k t r
    by (simp add: capture_text_effect [OF refl])
  have "\<exists>new. queue_items r q = queue_items r q @ new \<and> frames_of new = []"
    by (rule exI [of _ "[]"]) simp
  then show ?thesis
    using assms cap cap [of _ _ "mark_same_run a run k r" for a run k]
    by (auto simp: handle_message_event_def sum_bind_Inr Let_def split: if_splits)
qed

lemma other_session_tool_fields:
  assumes "k \<noteq> key" "delta_queues r k \<noteq> Some q"
  shows "tool_fields (tool_started k name data r) key = tool_fields r key \<and>
      queue_items (tool_started k name data r) q = queue_items r q"
    "tool_fields (end_frame k nm tid r) key = tool_fields r key \<and>
      queue_items (end_frame k nm tid r) q = queue_items r q"
    "tool_fields (end_text k line r) key = tool_fields r key \<and>
      queue_items (end_text k line r) q = queue_items r q"
proof -
  show "tool_fields (end_text k line r) key = tool_fields r key \<and>
      queue_items (end_text k line r) q = queue_items r q"
    using assms by (simp add: end_text_def push_status_def tool_fields_def put_def mark_status_def Let_def
        split: option.splits)
  show "tool_fields (end_frame k nm tid r) key = tool_fields r key \<and>
      queue_items (end_frame k nm tid r) q = queue_items r q"
    using assms by (simp add: end_frame_def tool_fields_def put_def Let_def split: option.splits)
  have frame: "tool_fields (start_frame k name tid r) key = tool_fields r key \<and>
      queue_items (start_frame k name tid r) q = queue_items r q" if "delta_queues r k \<noteq> Some q" for r tid
    using that assms(1) by (simp add: start_frame_def tool_fields_def put_def get_or_def Let_def split: option.splits)
  have line: "tool_fields (start_text k name r) key = tool_fields r key \<and>
      queue_items (start_text k name r) q = queue_items r q" if "delta_queues r k \<noteq> Some q" for r
    using that by (simp add: start_text_def tool_fields_def put_def mark_status_def Let_def split: option.splits)
  show "tool_fields (tool_started k name data r) key = tool_fields r key \<and>
      queue_items (tool_started k name data r) q = queue_items r q"
  proof (cases "note_started k (dedup_id_of data) r")
    case (Some r1)
    then obtain s where r1: "r1 = r\<lparr>started_tool_ids := s\<rparr>"
      by (auto simp: note_started_def Let_def split: if_splits intro: that [of "started_tool_ids r"])
    let ?r2 = "r1\<lparr>active_tool := (active_tool r1)(k \<mapsto> name)\<rparr>"
    have "delta_queues ?r2 k \<noteq> Some q" "tool_fields ?r2 key = tool_fields r key" "queue_items ?r2 q = queue_items r q"
      using assms by (simp_all add: r1 tool_fields_def)
    with frame [of ?r2] line [of ?r2] Some show ?thesis by (simp add: tool_started_def Let_def)
  qed (simp add: tool_started_def)
qed

subsection \<open>The tool events of the session\<close>

definition follows :: "relay \<Rightarrow> relay \<Rightarrow> string \<Rightarrow> nat \<Rightarrow> int \<times> tool_frame option \<Rightarrow> bool" where
  "follows r r' key q s \<longleftrightarrow>
     (\<exists>new s'. queue_items r' q = queue_items r q @ new \<and> frame_run s (frames_of new) = Some s' \<and>
        tracks r' key s')"

lemma follows_still:
  assumes "tracks r key s" "tool_fields r' key = tool_fields r key"
    "queue_items r' q = queue_items r q @ new" "frames_of new = []"
  shows "follows r r' key q s"
  unfolding follows_def using assms(1,3,4) tracks_cong [OF assms(2)]
  by (intro exI [of _ new] exI [of _ s]) simp

lemma follows_by:
  assumes "queue_items r' q = queue_items r q @ new" "frame_run s (frames_of new) = Some s'" "tracks r' key s'"
  shows "follows r r' key q s"
  unfolding follows_def using assms by (intro exI [of _ new] exI [of _ s']) simp

lemma own_start:
  assumes "tracks r key s" "delta_queues r key = Some q" "use_tool_frames r key = Some True" "name \<noteq> []"
  shows "follows r (tool_started key name data r) key q s"
proof (cases "note_started key (dedup_id_of data) r")
  case None
  then show ?thesis using assms(1) by (intro follows_still [where new = "[]"]) (simp_all add: tool_started_def)
next
  case (Some r1)
  then obtain ids where r1: "r1 = r\<lparr>started_tool_ids := ids\<rparr>"
    by (auto simp: note_started_def Let_def split: if_splits intro: that [of "started_tool_ids r"])
  let ?f = "\<lparr>tf_phase = Tool_start, tf_name = name, tf_id = tool_id_of data, tf_seq = fst s + 1\<rparr>"
  let ?r' = "tool_started key name data r"
  have n: "get_or (tool_progress_seq r) key 0 = fst s" "0 \<le> fst s"
    using assms(1) by (simp_all add: tracks_def)
  have r': "?r' = start_frame key name (tool_id_of data) (r1\<lparr>active_tool := (active_tool r1)(key \<mapsto> name)\<rparr>)"
    using Some assms(3) by (simp add: tool_started_def get_or_def)
  have "queue_items ?r' q = queue_items r q @ [Q_frame ?f]"
    unfolding r' by (simp add: start_frame_def r1 assms(2) n put_def Let_def)
  moreover have "frame_run s (frames_of [Q_frame ?f]) = Some (fst s + 1, Some ?f)"
    using assms(4) by (cases s) simp
  moreover have "tracks ?r' key (fst s + 1, Some ?f)"
    unfolding r' using n assms(4) by (simp add: start_frame_def r1 assms(2) put_def tracks_def get_or_def Let_def)
  ultimately show ?thesis by (rule follows_by)
qed

lemma own_end:
  assumes "tracks r key s" "delta_queues r key = Some q"
  shows "follows r (end_frame key name tid r) key q s"
proof (cases "((tid \<noteq> [] \<and> tid = get_or (active_tool_id r) key []) \<or>
      (tid = [] \<and> get_or (active_tool_id r) key [] = [] \<and>
        (name \<in> {None, Some []} \<or> name = Some (get_or (active_tool r) key [])))) \<and>
    get_or (tool_progress_seq r) key 0 \<ge> get_or (active_tool_seq r) key 0")
  case False
  then have "end_frame key name tid r = r" unfolding end_frame_def Let_def by (simp only: if_False)
  with assms(1) show ?thesis by (intro follows_still [where new = "[]"]) simp_all
next
  case True
  obtain n opened where s: "s = (n, opened)" by (cases s)
  let ?a = "get_or (active_tool r) key []"
  let ?f = "\<lparr>tf_phase = Tool_end, tf_name = (if ?a \<noteq> [] then ?a else case name of None \<Rightarrow> [] | Some m \<Rightarrow> m),
    tf_id = get_or (active_tool_id r) key [], tf_seq = get_or (active_tool_seq r) key 0\<rparr>"
  let ?r' = "(put q (Q_frame ?f) r)\<lparr>active_tool := (active_tool r)(key := None),
    active_tool_id := (active_tool_id r)(key := None), active_tool_seq := (active_tool_seq r)(key := None)\<rparr>"
  note cond = conjunct1 [OF True]
  have r': "end_frame key name tid r = ?r'"
    unfolding end_frame_def Let_def using True by (simp only: if_True assms(2) option.case) (simp add: put_def)
  have "queue_items ?r' q = queue_items r q @ [Q_frame ?f]" by (simp add: put_def)
  moreover have "frame_run s (frames_of [Q_frame ?f]) = Some (n, None)"
  proof (cases opened)
    case None
    with assms(1) s have "active_tool_seq r key = None" "active_tool_id r key = None" "active_tool r key = None"
      by (simp_all add: tracks_def)
    with cond None s show ?thesis by (auto simp: get_or_def)
  next
    case (Some g)
    with assms(1) s have "active_tool_seq r key = Some (tf_seq g)" "active_tool_id r key = Some (tf_id g)"
      "active_tool r key = Some (tf_name g)" "tf_name g \<noteq> []"
      by (simp_all add: tracks_def)
    then have "?f = g\<lparr>tf_phase := Tool_end\<rparr>" by (cases g) (simp add: get_or_def)
    then show ?thesis using Some s by simp
  qed
  moreover have "tracks ?r' key (n, None)"
    using assms(1) s by (simp add: tracks_def put_def get_or_def)
  ultimately show ?thesis unfolding r' by (rule follows_by)
qed

lemma tool_event_cases:
  obtains (still) "handle_tool_event stream payload r = r"
  | (start) name data where "name \<noteq> []"
      "handle_tool_event stream payload r =
         tool_started (canonical_or_raw r (str_field payload ''sessionKey'')) name data r"
  | (frame) name tid where
      "handle_tool_event stream payload r =
         end_frame (canonical_or_raw r (str_field payload ''sessionKey'')) name tid r"
  | (line) l where
      "\<not> get_or (use_tool_frames r) (canonical_or_raw r (str_field payload ''sessionKey'')) False"
      "handle_tool_event stream payload r =
         end_text (canonical_or_raw r (str_field payload ''sessionKey'')) l r"
proof (cases "dget payload ''data''")
  case (JObj data)
  let ?k = "canonical_or_raw r (str_field payload ''sessionKey'')"
  let ?skip = "?k = [] \<or> stream = JStr ''item'' \<and> dget data ''kind'' \<noteq> JStr ''tool'' \<and>
    \<not> truthy (dget data ''toolCallId'') \<or> stale_tool_event r ?k (run_id_of payload)"
  let ?name = "tool_name_of stream data"
  consider "?skip" | "\<not> ?skip" "dget data ''phase'' = JStr ''start'' \<and> ?name \<notin> {None, Some []}"
    | "\<not> ?skip" "\<not> (dget data ''phase'' = JStr ''start'' \<and> ?name \<notin> {None, Some []})" by blast
  then show thesis
  proof cases
    case 1
    then have "handle_tool_event stream payload r = r"
      by (elim disjE) (simp_all add: handle_tool_event_def Let_def JObj)
    then show thesis by (rule still)
  next
    case 2
    then have no: "(?k = []) = False" "(stream = JStr ''item'' \<and> dget data ''kind'' \<noteq> JStr ''tool'' \<and>
        \<not> truthy (dget data ''toolCallId'')) = False" "stale_tool_event r ?k (run_id_of payload) = False"
      by blast+
    have "handle_tool_event stream payload r = tool_started ?k (the ?name) data r"
      unfolding handle_tool_event_def Let_def JObj json.case no eqTrueI [OF 2(2)] if_False if_True ..
    with 2 start [of "the ?name" data] show thesis by auto
  next
    case 3
    then have no: "(?k = []) = False" "(stream = JStr ''item'' \<and> dget data ''kind'' \<noteq> JStr ''tool'' \<and>
        \<not> truthy (dget data ''toolCallId'')) = False" "stale_tool_event r ?k (run_id_of payload) = False"
      "(dget data ''phase'' = JStr ''start'' \<and> ?name \<notin> {None, Some []}) = False"
      by blast+
    note defs = handle_tool_event_def Let_def JObj json.case no if_False
    show thesis
    proof (cases "get_or (use_tool_frames r) ?k False")
      case True
      then have "handle_tool_event stream payload r = r \<or>
        handle_tool_event stream payload r = end_frame ?k ?name (tool_id_of data) r"
        unfolding defs by (simp split: if_split)
      with still frame show thesis by blast
    next
      case False
      then have "handle_tool_event stream payload r = r \<or>
        handle_tool_event stream payload r = end_text ?k tick r \<or>
        handle_tool_event stream payload r =
          end_text ?k (cross_prefix @ of_ascii (py_str (py_or (dget data ''error'') (JStr ''failed'')))) r"
        unfolding defs by (simp split: if_split)
      with False still line show thesis by blast
    qed
  qed
qed (use still in \<open>simp_all add: handle_tool_event_def Let_def\<close>)

lemma tool_event_follows:
  assumes "tracks r key s" "owns_queue r key q" "use_tool_frames r key = Some True"
  shows "follows r (handle_tool_event stream payload r) key q s"
proof -
  let ?k = "canonical_or_raw r (str_field payload ''sessionKey'')"
  have own: "delta_queues r key = Some q" using assms(2) by (rule owns_queueD)
  have other: "follows r r' key q s"
    if "tool_fields r' key = tool_fields r key \<and> queue_items r' q = queue_items r q" for r'
    using that assms(1) by (intro follows_still [where new = "[]"]) simp_all
  have queue: "delta_queues r ?k \<noteq> Some q" if "?k \<noteq> key"
    using that assms(2) by (simp add: owns_queue_def)
  note same = other_session_tool_fields [OF _ queue, THEN other]
  show ?thesis
  proof (cases rule: tool_event_cases [of stream payload r])
    case still
    then show ?thesis using other by simp
  next
    case (start name data)
    then show ?thesis using own_start [OF assms(1) own assms(3), of name data] same(1)
      by (cases "?k = key") simp_all
  next
    case (frame name tid)
    then show ?thesis using own_end [OF assms(1) own, of name tid] same(2)
      by (cases "?k = key") simp_all
  next
    case (line l)
    then have "?k \<noteq> key" using assms(3) by (auto simp: get_or_def)
    then show ?thesis using line(2) same(3) by simp
  qed
qed

lemma event_follows:
  assumes "handle_event m r = Inr r'" "tracks r key s" "owns_queue r key q" "use_tool_frames r key = Some True"
  shows "follows r r' key q s"
proof (cases "dget_or m ''payload'' (JObj [])")
  case (JObj payload)
  let ?e = "dget_or m ''event'' (JStr [])"
  have approval: "follows r (handle_approval_event payload r) key q s"
    using follows_still [OF assms(2) approval_tool_fields, where new = "[]"] approval_queue [OF assms(3,4)]
    by simp
  have message: "follows r r' key q s" if msg: "handle_message_event ?e payload r = Inr r'"
    using follows_still [OF assms(2) message_tool_fields [OF msg]] message_queue [OF msg, of q] by blast
  show ?thesis
    using assms(1) JObj approval message tool_event_follows [OF assms(2-4)]
    by (auto simp: handle_event_def Let_def split: if_splits)
qed (use assms(1,2) in \<open>auto simp: handle_event_def Let_def intro!: follows_still [where new = "[]"]\<close>)

lemma events_follow:
  assumes "handle_events ms r = Inr r'" "tracks r key s" "owns_queue r key q" "use_tool_frames r key = Some True"
  shows "follows r r' key q s"
  using assms
proof (induction ms arbitrary: r s)
  case Nil
  then show ?case by (intro follows_still [where new = "[]"]) simp_all
next
  case (Cons m ms)
  obtain t where t: "handle_event m r = Inr t" "handle_events ms t = Inr r'"
    using Cons.prems(1) by (auto simp: sum_bind_Inr)
  obtain new s' where new: "queue_items t q = queue_items r q @ new" "frame_run s (frames_of new) = Some s'"
    "tracks t key s'"
    using event_follows [OF t(1) Cons.prems(2-4)] unfolding follows_def by (elim exE conjE) (rule that)
  have "owns_queue t key q" "use_tool_frames t key = Some True"
    using Cons.prems(3,4) event_keeps(1,4) [OF t(1)] by (simp_all add: owns_queue_def)
  from Cons.IH [OF t(2) new(3) this] obtain more s'' where
    "queue_items r' q = queue_items t q @ more" "frame_run s' (frames_of more) = Some s''" "tracks r' key s''"
    unfolding follows_def by (elim exE conjE) (rule that)
  with new show ?case by (intro follows_by [where new = "new @ more" and s' = s'']) (simp_all add: frame_run_append)
qed

text \<open>
  C33. The tool frames of a turn are well-formed: starts are numbered 1, 2, 3 and so on without gap, and an end
  frame has the name, id and number of the last start when that is still open, or is the empty frame numbered
  0 when none is. Whatever events arrive, in any order, duplicated or late.
\<close>

theorem tool_frames_alternate:
  assumes "handle_events ms r = Inr r'" "owns_queue r key q" "use_tool_frames r key = Some True"
    "tool_progress_seq r key = Some 0" "active_tool_seq r key = None" "active_tool_id r key = None"
    "active_tool r key = None"
  shows "\<exists>new n opened. queue_items r' q = queue_items r q @ new \<and>
    frame_run (0, None) (frames_of new) = Some (n, opened) \<and> starts_of (frames_of new) = [1..n]"
proof -
  have "tracks r key (0, None)" using assms(4-7) by (simp add: tracks_def get_or_def)
  from events_follow [OF assms(1) this assms(2,3)]
  obtain new s where "queue_items r' q = queue_items r q @ new" "frame_run (0, None) (frames_of new) = Some s"
    unfolding follows_def by (elim exE conjE) (rule that)
  moreover obtain n opened where "s = (n, opened)" by (cases s)
  ultimately show ?thesis using frame_run_numbers [of 0 None "frames_of new" n opened] by auto
qed

definition sample_tool_event :: "string \<Rightarrow> string \<Rightarrow> string \<Rightarrow> dict" where
  "sample_tool_event phase name tid =
     [(''event'', JStr ''agent''), (''payload'', JObj [(''stream'', JStr ''tool''), (''sessionKey'', JStr ''k''),
        (''data'', JObj [(''phase'', JStr phase), (''name'', JStr name), (''id'', JStr tid)])])]"

definition sample_tool_events :: "dict list" where
  "sample_tool_events = [sample_tool_event ''start'' ''Bash'' ''t1'', sample_tool_event ''start'' ''Bash'' ''t1'',
     sample_tool_event ''start'' ''mcp__openclaw__grep'' ''t2'', sample_tool_event ''end'' ''Bash'' ''t1'',
     sample_tool_event ''end'' ''grep'' ''t2'', sample_tool_event ''end'' ''grep'' ''t2'']"

definition sample_stream :: relay where
  "sample_stream = new_relay\<lparr>delta_queues := [''k'' \<mapsto> 0], use_tool_frames := [''k'' \<mapsto> True],
     tool_progress_seq := [''k'' \<mapsto> 0]\<rparr>"

theorem tool_frames_alternate_witness:
  "\<exists>r'. handle_events sample_tool_events sample_stream = Inr r' \<and>
     frames_of (queue_items r' 0) =
       [\<lparr>tf_phase = Tool_start, tf_name = ''Bash'', tf_id = ''t1'', tf_seq = 1\<rparr>,
        \<lparr>tf_phase = Tool_start, tf_name = ''grep'', tf_id = ''t2'', tf_seq = 2\<rparr>,
        \<lparr>tf_phase = Tool_end, tf_name = ''grep'', tf_id = ''t2'', tf_seq = 2\<rparr>] \<and>
     starts_of (frames_of (queue_items r' 0)) = [1..2]"
proof -
  have frames: "(case handle_events sample_tool_events sample_stream of
      Inl _ \<Rightarrow> [] | Inr r' \<Rightarrow> frames_of (queue_items r' 0)) =
    [\<lparr>tf_phase = Tool_start, tf_name = ''Bash'', tf_id = ''t1'', tf_seq = 1\<rparr>,
     \<lparr>tf_phase = Tool_start, tf_name = ''grep'', tf_id = ''t2'', tf_seq = 2\<rparr>,
     \<lparr>tf_phase = Tool_end, tf_name = ''grep'', tf_id = ''t2'', tf_seq = 2\<rparr>]"
    by code_simp
  then obtain r' where r': "handle_events sample_tool_events sample_stream = Inr r'"
    by (cases "handle_events sample_tool_events sample_stream") auto
  have "owns_queue sample_stream ''k'' 0" "queue_items sample_stream 0 = []"
    by (simp_all add: owns_queue_def sample_stream_def new_relay_def)
  with tool_frames_alternate [OF r', of "''k''" 0]
  obtain n opened where "frame_run (0, None) (frames_of (queue_items r' 0)) = Some (n, opened)"
    "starts_of (frames_of (queue_items r' 0)) = [1..n]"
    by (auto simp: sample_stream_def new_relay_def)
  with frames r' show ?thesis by simp
qed

end
