(* ===== verification/Relay_Stream.thy ===== *)
theory Relay_Stream
  imports Relay_Tools
begin

text \<open>
  One Assist turn over the gateway: \<open>_ensure_session\<close>, \<open>_stream_turn_locked\<close> and \<open>_relay_turn_locked\<close>
  of \<open>chat_relay.py\<close>, cut at their awaits. What an await brings (a response, an item, a timeout, the
  clock) is an argument; events are handled in between.
\<close>

subsection \<open>The session\<close>

definition approval_opt_in_refusals :: "string list" where
  "approval_opt_in_refusals = [''FORBIDDEN'', ''UNAVAILABLE'', ''INVALID_REQUEST'']"

definition ensure_session ::
  "string \<Rightarrow> (relay_error + dict) \<Rightarrow> (relay_error + dict) \<Rightarrow> (relay_error + dict) \<Rightarrow> relay \<Rightarrow>
   (relay_error + string) \<times> relay" where
  "ensure_session key created subscribed_with subscribed_without r =
     (let subscribe =
        (case subscribed_with of
           Inr d \<Rightarrow> Inr d
         | Inl e \<Rightarrow> if py_upper (err_code e) \<notin> set approval_opt_in_refusals then Inl e else subscribed_without);
        settle = (case subscribe of
           Inl e \<Rightarrow> (Inl e, r)
         | Inr d \<Rightarrow> (case note_subscription key d r of (ck, r') \<Rightarrow> (Inr ck, r')))
      in case created of
           Inl e \<Rightarrow> if occurs ''ALREADY_EXISTS'' (py_upper (err_code e)) then settle else (Inl e, r)
         | Inr _ \<Rightarrow> settle)"

text \<open>The known canonical key, or a new subscription.\<close>

definition known_session :: "string \<Rightarrow> relay \<Rightarrow> string option" where
  "known_session key r = (case canonical_by_raw r key of
     Some ck \<Rightarrow> if ck \<in> subscribed r then Some ck else None | None \<Rightarrow> None)"

subsection \<open>Before and after \<open>chat.send\<close>\<close>

text \<open>\<open>_HA_ASSIST_CONTEXT\<close>; the dash is U+2014.\<close>

definition ha_assist_context :: ustr where
  "ha_assist_context =
     of_ascii ''[OpenClaw HA Assist session '' @ [0x2014] @
     of_ascii '' do not echo or reference this block. This is a real-time user request from Home '' @
     of_ascii ''Assistant Assist. This is NOT a heartbeat poll; do not reply HEARTBEAT_OK.]''"

definition build_ha_assist_message :: "string \<Rightarrow> turn_authz option \<Rightarrow> ustr" where
  "build_ha_assist_message words authz =
     ha_assist_context @ newline @ newline @
     of_ascii (case authz of None \<Rightarrow> words | Some a \<Rightarrow> apply_turn_authz words a)"

definition clear_turn :: "string \<Rightarrow> relay \<Rightarrow> relay" where
  "clear_turn key r =
     r\<lparr>last_text := (last_text r)(key := None), terminal_text := (terminal_text r)(key := None),
       active_run_id := (active_run_id r)(key \<mapsto> pending_run_id),
       seen_same_run := (seen_same_run r)(key \<mapsto> False),
       active_tool := (active_tool r)(key := None)\<rparr>"

definition take_replayed :: "string \<Rightarrow> relay \<Rightarrow> relay" where
  "take_replayed key r =
     (let r' = r\<lparr>replay_pending := (replay_pending r)(key := None)\<rparr> in
      if get_or (replay_pending r) key {} \<noteq> {} then push_approval_line key approval_waiting_line r' else r')"

definition new_stream_fields :: "string \<Rightarrow> bool \<Rightarrow> relay \<Rightarrow> relay" where
  "new_stream_fields key frames r =
     (let q = next_address r; s = clear_turn key r in
      s\<lparr>tool_progress_seq := (tool_progress_seq s)(key \<mapsto> 0),
        active_tool_id := (active_tool_id s)(key := None),
        active_tool_seq := (active_tool_seq s)(key := None),
        use_tool_frames := (use_tool_frames s)(key \<mapsto> frames),
        text_tool_name := (text_tool_name s)(key := None),
        text_tool_count := (text_tool_count s)(key := None),
        started_tool_ids := (started_tool_ids s)(key := None),
        text_has_visible_output := (text_has_visible_output s)(key \<mapsto> False),
        text_status_open := (text_status_open s)(key \<mapsto> False),
        delta_queues := (delta_queues s)(key \<mapsto> q),
        queue_items := (queue_items s)(q := []),
        next_address := Suc q\<rparr>)"

definition stream_install :: "string \<Rightarrow> bool \<Rightarrow> relay \<Rightarrow> nat \<times> relay" where
  "stream_install key frames r = (next_address r, take_replayed key (new_stream_fields key frames r))"

definition relay_install :: "string \<Rightarrow> relay \<Rightarrow> nat \<times> relay" where
  "relay_install key r =
     (let e = next_address r; s = clear_turn key r in
      (e, s\<lparr>reply_events := (reply_events s)(key \<mapsto> e), event_set := event_set s - {e},
            next_address := Suc e\<rparr>))"

definition chat_send_params :: "string \<Rightarrow> ustr \<Rightarrow> string \<Rightarrow> string \<Rightarrow> (string \<times> ustr) list" where
  "chat_send_params key message idempotency_key agent_id =
     [(''sessionKey'', of_ascii key), (''message'', message), (''idempotencyKey'', of_ascii idempotency_key)] @
     (if agent_id \<noteq> [] then [(''agentId'', of_ascii agent_id)] else [])"

definition begin_send :: "string \<Rightarrow> string \<Rightarrow> relay \<Rightarrow> relay" where
  "begin_send req_id key r =
     (let r' = prepare_pending req_id r
      in r'\<lparr>chat_send_canonical := (chat_send_canonical r')(req_id \<mapsto> key)\<rparr>)"

definition cleanup_pending_turn :: "string \<Rightarrow> bool \<Rightarrow> relay \<Rightarrow> relay" where
  "cleanup_pending_turn key stream r =
     (let r1 = (if stream then r\<lparr>delta_queues := (delta_queues r)(key := None)\<rparr>
                else r\<lparr>reply_events := (reply_events r)(key := None)\<rparr>);
          r2 = (if active_run_id r1 key = Some pending_run_id
                then r1\<lparr>active_run_id := (active_run_id r1)(key := None)\<rparr> else r1)
      in r2\<lparr>seen_same_run := (seen_same_run r2)(key := None)\<rparr>)"

definition send_expired :: "string \<Rightarrow> bool \<Rightarrow> relay \<Rightarrow> relay_error \<times> relay" where
  "send_expired key stream r =
     (Relay_error ''TIMEOUT'' ''Turn deadline expired before chat.send'', cleanup_pending_turn key stream r)"

text \<open>The \<open>finally\<close> of the send, and what follows an acknowledgement.\<close>

definition finish_send :: "string \<Rightarrow> string \<Rightarrow> bool \<Rightarrow> (relay_error + jval) \<Rightarrow> relay \<Rightarrow> relay" where
  "finish_send req_id key stream ack r =
     (let r1 = r\<lparr>pending := pending r - {req_id},
                 chat_send_canonical := (chat_send_canonical r)(req_id := None)\<rparr>
      in case ack of
           Inl _ \<Rightarrow> cleanup_pending_turn key stream r1
         | Inr payload \<Rightarrow>
             (let run = (case payload of JObj d \<Rightarrow> str_or_empty (dget_or d ''runId'' (JStr [])) | _ \<Rightarrow> [])
              in r1\<lparr>active_run_id := (active_run_id r1)(key := (if run \<noteq> [] then Some run else None))\<rparr>))"

subsection \<open>The stream\<close>

definition stream_turn_timeout_s :: rat where "stream_turn_timeout_s = 180"
definition stream_first_keepalive_s :: rat where "stream_first_keepalive_s = 8"
definition stream_keepalive_interval_s :: rat where "stream_keepalive_interval_s = 15"

record stream =
  st_key :: string
  st_queue :: nat
  st_frames :: bool
  st_deadline :: rat
  st_last :: rat
  st_keepalives :: nat
  st_visible :: bool

datatype yielded = Y_text ustr | Y_keepalive | Y_frame tool_frame

datatype stream_next = Go_on stream | Finished | Raises relay_error

definition next_keepalive_at :: "stream \<Rightarrow> rat" where
  "next_keepalive_at st =
     st_last st + stream_first_keepalive_s + of_nat (st_keepalives st) * stream_keepalive_interval_s"

definition wait_budget :: "rat \<Rightarrow> stream \<Rightarrow> rat" where
  "wait_budget now st =
     max (min (st_deadline st - now) (max (next_keepalive_at st - now) 0)) (1 / 1000)"

definition pop_queue :: "nat \<Rightarrow> relay \<Rightarrow> relay" where
  "pop_queue q r = r\<lparr>queue_items := (queue_items r)(q := tl (queue_items r q))\<rparr>"

text \<open>An item that was taken from the queue at time \<open>now\<close>.\<close>

definition stream_item :: "rat \<Rightarrow> queue_item \<Rightarrow> stream \<Rightarrow> relay \<Rightarrow> yielded list \<times> stream_next \<times> relay" where
  "stream_item now item st r = (case item of
     Q_close \<Rightarrow> ([], Finished, r)
   | Q_error e \<Rightarrow> ([], Raises e, r)
   | Q_frame f \<Rightarrow> ([Y_frame f], Go_on st, r)
   | Q_text t \<Rightarrow>
       (let key = st_key st; status = is_plain_text_status_chunk t;
            shown = (if get_or (text_status_open r) key False \<and> t \<noteq> [] \<and> \<not> status \<and> \<not> starts_with t newline
                     then newline @ t else t)
        in ([Y_text shown], Go_on (st\<lparr>st_last := now, st_keepalives := 0, st_visible := True\<rparr>),
            r\<lparr>text_has_visible_output := (text_has_visible_output r)(key \<mapsto> True),
              text_status_open := (text_status_open r)(key \<mapsto> status)\<rparr>)))"

text \<open>No item came before the budget ran out.\<close>

definition stream_timeout :: "rat \<Rightarrow> stream \<Rightarrow> relay \<Rightarrow> yielded list \<times> stream_next \<times> relay" where
  "stream_timeout now st r =
     (if now \<ge> st_deadline st then ([], Finished, r)
      else
        let go = st\<lparr>st_keepalives := Suc (st_keepalives st)\<rparr>; key = st_key st in
        if st_keepalives st = 0 \<and> \<not> st_frames st \<and> get_or (active_tool r) key [] = [] then
          ([Y_text ((if st_visible st then newline else []) @ stream_progress_delta)],
           Go_on (go\<lparr>st_visible := True\<rparr>), mark_status key r)
        else ([Y_keepalive], Go_on go, r))"

text \<open>After the deadline what is queued is passed on as it is.\<close>

fun drain :: "queue_item list \<Rightarrow> yielded list \<times> stream_next" where
  "drain [] = ([], Finished)"
| "drain (Q_close # xs) = ([], Finished)"
| "drain (Q_error e # xs) = ([], Raises e)"
| "drain (Q_frame f # xs) = (case drain xs of (ys, s) \<Rightarrow> (Y_frame f # ys, s))"
| "drain (Q_text t # xs) = (case drain xs of (ys, s) \<Rightarrow> (Y_text t # ys, s))"

definition stream_close :: "string \<Rightarrow> relay \<Rightarrow> relay" where
  "stream_close key r =
     r\<lparr>delta_queues := (delta_queues r)(key := None), use_tool_frames := (use_tool_frames r)(key := None),
       tool_progress_seq := (tool_progress_seq r)(key := None),
       active_tool_id := (active_tool_id r)(key := None), active_tool_seq := (active_tool_seq r)(key := None),
       text_tool_name := (text_tool_name r)(key := None), text_tool_count := (text_tool_count r)(key := None),
       started_tool_ids := (started_tool_ids r)(key := None),
       text_has_visible_output := (text_has_visible_output r)(key := None),
       text_status_open := (text_status_open r)(key := None)\<rparr>"

definition stream_start :: "string \<Rightarrow> nat \<Rightarrow> bool \<Rightarrow> rat \<Rightarrow> rat \<Rightarrow> stream" where
  "stream_start key q frames deadline now =
     \<lparr>st_key = key, st_queue = q, st_frames = frames, st_deadline = deadline, st_last = now,
      st_keepalives = 0, st_visible = False\<rparr>"

subsection \<open>The turn without a stream\<close>

definition reply_of :: "string \<Rightarrow> relay \<Rightarrow> string" where
  "reply_of key r =
     (let terminal = get_or (terminal_text r) key [] in
      if terminal \<noteq> [] then terminal else get_or (last_text r) key [])"

definition no_reply :: "string \<Rightarrow> string \<Rightarrow> string \<Rightarrow> relay_error" where
  "no_reply session ck run = Relay_error ''NO_REPLY''
     (''No assistant reply captured for session '' @ session @ '' (canonical='' @ ck @
      '', runId='' @ run @ '')'')"

text \<open>After the acknowledgement: return at once, or wait for the event; \<open>r'\<close> is the relay when the wait ended.\<close>

definition relay_fast_reply :: "string \<Rightarrow> relay \<Rightarrow> (string \<times> relay) option" where
  "relay_fast_reply key r =
     (let terminal = get_or (terminal_text r) key [] in
      if terminal \<noteq> [] then Some (terminal, r\<lparr>reply_events := (reply_events r)(key := None)\<rparr>) else None)"

definition relay_reply :: "string \<Rightarrow> string \<Rightarrow> string \<Rightarrow> relay \<Rightarrow> (relay_error + string) \<times> relay" where
  "relay_reply session key run r' =
     (let reply = reply_of key r' in
      ((if reply = [] then Inl (no_reply session key run) else Inr reply),
       r'\<lparr>reply_events := (reply_events r')(key := None)\<rparr>))"

subsection \<open>The stream among everything else\<close>

text \<open>What other turns, calls and responses do to the relay, seen from the session \<open>key\<close> with queue \<open>q\<close>.\<close>

definition same_session :: "string \<Rightarrow> nat \<Rightarrow> relay \<Rightarrow> relay \<Rightarrow> bool" where
  "same_session key q r r' \<longleftrightarrow>
     (\<forall>k. delta_queues r' k = Some q \<longleftrightarrow> delta_queues r k = Some q) \<and>
     active_run_id r' key = active_run_id r key \<and> seen_same_run r' key = seen_same_run r key \<and>
     queue_items r' q = queue_items r q"

text \<open>
  A stream from the acknowledgement on: the events so far, the items it took, what it yielded, the
  relay, the stream, the time. It waits until an item comes or the budget is used up; whoever reads the
  stream may take time of its own; the connection may be lost.
\<close>

inductive stream_runs ::
  "relay \<Rightarrow> stream \<Rightarrow> rat \<Rightarrow> dict list \<Rightarrow> queue_item list \<Rightarrow> yielded list \<Rightarrow> relay \<Rightarrow> stream \<Rightarrow> rat \<Rightarrow> bool"
  for r0 st0 t0 where
  acked: "stream_runs r0 st0 t0 [] [] [] r0 st0 t0"
| event: "stream_runs r0 st0 t0 ms c ys r st t \<Longrightarrow> handle_event m r = Inr r' \<Longrightarrow>
    stream_runs r0 st0 t0 (ms @ [m]) c ys r' st t"
| others: "stream_runs r0 st0 t0 ms c ys r st t \<Longrightarrow> same_session (st_key st) (st_queue st) r r' \<Longrightarrow>
    stream_runs r0 st0 t0 ms c ys r' st t"
| lost: "stream_runs r0 st0 t0 ms c ys r st t \<Longrightarrow> stream_runs r0 st0 t0 ms c ys (relay_reset r) st t"
| item: "stream_runs r0 st0 t0 ms c ys r st t \<Longrightarrow> t < st_deadline st \<Longrightarrow>
    queue_items r (st_queue st) = x # xs \<Longrightarrow> t \<le> t' \<Longrightarrow>
    stream_item t' x st (pop_queue (st_queue st) r) = (zs, Go_on st', r') \<Longrightarrow>
    stream_runs r0 st0 t0 ms (c @ [x]) (ys @ zs) r' st' t'"
| silence: "stream_runs r0 st0 t0 ms c ys r st t \<Longrightarrow> t < st_deadline st \<Longrightarrow>
    queue_items r (st_queue st) = [] \<Longrightarrow> t + wait_budget t st \<le> t' \<Longrightarrow>
    stream_timeout t' st r = (zs, Go_on st', r') \<Longrightarrow>
    stream_runs r0 st0 t0 ms c (ys @ zs) r' st' t'"
| reader: "stream_runs r0 st0 t0 ms c ys r st t \<Longrightarrow> t \<le> t' \<Longrightarrow> stream_runs r0 st0 t0 ms c ys r st t'"

subsection \<open>Never silent for long\<close>

lemma stream_item_Go_on:
  assumes "stream_item now x st r = (zs, Go_on st', r')"
  shows "length zs = 1 \<and> st_key st' = st_key st \<and> st_queue st' = st_queue st \<and>
    st_deadline st' = st_deadline st \<and>
    (st_last st' = st_last st \<and> st_keepalives st' = st_keepalives st \<or> st_last st' = now \<and> st_keepalives st' = 0)"
  using assms by (auto simp: stream_item_def Let_def split: queue_item.splits)

lemma stream_timeout_Go_on:
  assumes "stream_timeout now st r = (zs, Go_on st', r')"
  shows "length zs = 1 \<and> now < st_deadline st \<and> st_key st' = st_key st \<and> st_queue st' = st_queue st \<and>
    st_deadline st' = st_deadline st \<and> st_last st' = st_last st \<and> st_keepalives st' = Suc (st_keepalives st)"
  using assms by (auto simp: stream_timeout_def Let_def split: if_splits)

text \<open>No keepalive is early, and none is sent before the time of the last real text.\<close>

definition on_schedule :: "stream \<Rightarrow> rat \<Rightarrow> bool" where
  "on_schedule st t \<longleftrightarrow> st_last st \<le> t \<and>
     (st_keepalives st > 0 \<longrightarrow> next_keepalive_at st - stream_keepalive_interval_s \<le> t)"

lemma wait_budget_reaches:
  "t < st_deadline st \<Longrightarrow> t + wait_budget t st \<ge> min (st_deadline st) (next_keepalive_at st)"
  by (auto simp: wait_budget_def)

lemma on_schedule_inv:
  assumes "stream_runs r0 st0 t0 ms c ys r st t" "on_schedule st0 t0"
  shows "on_schedule st t \<and> st_key st = st_key st0 \<and> st_queue st = st_queue st0 \<and>
    st_deadline st = st_deadline st0"
  using assms
proof (induction rule: stream_runs.induct)
  case (item ms c ys r st t x xs t' zs st' r')
  then show ?case
    using stream_item_Go_on [OF item.hyps(5)]
    by (auto simp: on_schedule_def next_keepalive_at_def)
next
  case (silence ms c ys r st t t' zs st' r')
  note st' = stream_timeout_Go_on [OF silence.hyps(5)]
  have "next_keepalive_at st \<le> t'"
    using wait_budget_reaches [OF silence.hyps(2)] silence.hyps(4) st' by (auto simp: min_def split: if_splits)
  moreover have "0 \<le> wait_budget t st" by (simp add: wait_budget_def)
  ultimately show ?case
    using silence st' by (auto simp: on_schedule_def next_keepalive_at_def algebra_simps)
qed (auto simp: on_schedule_def)

text \<open>
  C27. A stream is never silent for long. At every point of a run the wait is at most 15 seconds and does not
  reach past the deadline by more than a millisecond; when it ends without an item, something is yielded
  or the deadline has passed; an item that does not end the stream is yielded.
\<close>

theorem stream_never_silent:
  assumes "stream_runs r0 (stream_start key q frames deadline t0) t0 ms c ys r st t"
  shows "wait_budget t st \<le> 15 \<and> wait_budget t st \<le> max (deadline - t) (1 / 1000) \<and>
    (\<forall>now zs nxt r'. stream_timeout now st r = (zs, nxt, r') \<longrightarrow>
       (if now \<ge> deadline then zs = [] \<and> nxt = Finished else length zs = 1)) \<and>
    (\<forall>now x zs nxt r'. stream_item now x st r = (zs, nxt, r') \<longrightarrow>
       (if x = Q_close \<or> (\<exists>e. x = Q_error e) then zs = [] \<and> (\<forall>st'. nxt \<noteq> Go_on st') else length zs = 1))"
proof -
  have "on_schedule (stream_start key q frames deadline t0) t0" by (simp add: on_schedule_def stream_start_def)
  from on_schedule_inv [OF assms this] have inv: "on_schedule st t" "st_deadline st = deadline"
    by (simp_all add: stream_start_def)
  have "next_keepalive_at st - t \<le> 15"
    using inv(1) by (cases "st_keepalives st")
      (auto simp: on_schedule_def next_keepalive_at_def stream_first_keepalive_s_def stream_keepalive_interval_s_def)
  then have "wait_budget t st \<le> 15" "wait_budget t st \<le> max (deadline - t) (1 / 1000)"
    using inv(2) by (auto simp: wait_budget_def)
  moreover have "stream_timeout now st r = (zs, nxt, r') \<Longrightarrow>
       (if now \<ge> deadline then zs = [] \<and> nxt = Finished else length zs = 1)" for now zs nxt r'
    using inv(2) by (auto simp: stream_timeout_def Let_def split: if_splits)
  moreover have "stream_item now x st r = (zs, nxt, r') \<Longrightarrow>
       (if x = Q_close \<or> (\<exists>e. x = Q_error e) then zs = [] \<and> (\<forall>st'. nxt \<noteq> Go_on st') else length zs = 1)"
    for now x zs nxt r'
    by (auto simp: stream_item_def Let_def split: queue_item.splits)
  ultimately show ?thesis by blast
qed

subsection \<open>A stream that ends shows the reply of its own run\<close>

lemma progress_append [simp]: "progress_items (xs @ ys) \<longleftrightarrow> progress_items xs \<and> progress_items ys"
  by (auto simp: progress_items_def)

text \<open>What is on the queue and was on it, said with the events in the order they came.\<close>

definition replied :: "string \<Rightarrow> string \<Rightarrow> dict list \<Rightarrow> queue_item list \<Rightarrow> bool" where
  "replied key run ms items \<longleftrightarrow>
     (\<exists>before words later pre m post. items = before @ Q_text (of_ascii words) # later \<and>
        progress_items before \<and> (\<exists>later'. later = Q_close # later') \<and> ms = pre @ m # post \<and>
        (assistant_message m key run words \<or>
         assistant_message m key [] words \<and> transcript_message m \<and>
           (\<exists>m' \<in> set pre. \<exists>words'. assistant_message m' key run words')))"

lemma replied_snoc: "replied key run ms items \<Longrightarrow> replied key run (ms @ [m]) (items @ new)"
  unfolding replied_def by (elim exE conjE) (metis (no_types, lifting) append_Cons append_assoc)

lemma replied_more: "replied key run ms items \<Longrightarrow> replied key run ms (items @ new)"
  unfolding replied_def by (elim exE conjE) (metis (no_types, lifting) append_Cons append_assoc)

lemma replied_now:
  assumes "progress_items before"
    "assistant_message m key run words \<or> assistant_message m key [] words \<and> transcript_message m \<and>
       (\<exists>m' \<in> set ms. \<exists>words'. assistant_message m' key run words')"
  shows "replied key run (ms @ [m]) (before @ [Q_text (of_ascii words), Q_close])"
  unfolding replied_def using assms by fastforce

text \<open>The first end of the stream on the queue follows the reply; before it there is no error.\<close>

definition queue_story :: "string \<Rightarrow> string \<Rightarrow> dict list \<Rightarrow> queue_item list \<Rightarrow> bool" where
  "queue_story key run ms items \<longleftrightarrow>
     progress_items items \<or> replied key run ms items \<or>
     (\<exists>before e later. items = before @ Q_error e # later \<and> progress_items before)"

lemma queue_story_append:
  assumes "queue_story key run ms items" "\<not> progress_items items"
  shows "queue_story key run (ms @ ms') (items @ new)"
proof -
  have r: "replied key run (ms @ ms') (items @ new)" if "replied key run ms items"
  proof (induction ms' rule: rev_induct)
    case Nil
    show ?case using replied_more [OF that] by simp
  next
    case (snoc m ms')
    from replied_snoc [OF snoc, of m "[]"] show ?case by simp
  qed
  have "\<exists>before e later. items @ new = before @ Q_error e # later \<and> progress_items before"
    if "items = before @ Q_error e # later" "progress_items before" for before e later
    using that by (intro exI [of _ before] exI [of _ e] exI [of _ "later @ new"]) simp
  with assms r show ?thesis unfolding queue_story_def by blast
qed

lemma queue_story_error:
  assumes "progress_items items"
  shows "queue_story key run ms (items @ [Q_error e])"
  using assms unfolding queue_story_def by blast

lemma queue_story_event:
  assumes "handle_event m r = Inr r'" "owns_queue r key q" "active_run_id r key = Some run" "run \<noteq> []"
    "run \<noteq> pending_run_id" "queue_items r q = items" "queue_story key run ms (c @ items)"
    "get_or (seen_same_run r) key False \<longrightarrow> (\<exists>m' \<in> set ms. \<exists>words. assistant_message m' key run words)"
  shows "queue_story key run (ms @ [m]) (c @ queue_items r' q)"
proof -
  obtain new where new: "queue_items r' q = items @ new"
    "progress_items new \<or> (\<exists>words. new = [Q_text (of_ascii words), Q_close] \<and>
        (assistant_message m key run words \<or>
         assistant_message m key [] words \<and> transcript_message m \<and> get_or (seen_same_run r) key False))"
    using event_step [OF assms(1-5)] assms(6) by (elim exE conjE) (rule that, simp_all)
  show ?thesis
  proof (cases "progress_items (c @ items)")
    case False
    from queue_story_append [OF assms(7) False, of "[m]" new] new(1) show ?thesis by simp
  next
    case True
    from new(2) show ?thesis
    proof
      assume "progress_items new"
      with True new(1) show ?thesis by (simp add: queue_story_def)
    next
      assume "\<exists>words. new = [Q_text (of_ascii words), Q_close] \<and>
        (assistant_message m key run words \<or>
         assistant_message m key [] words \<and> transcript_message m \<and> get_or (seen_same_run r) key False)"
      then obtain words where "new = [Q_text (of_ascii words), Q_close]"
        "assistant_message m key run words \<or> assistant_message m key [] words \<and> transcript_message m \<and>
           (\<exists>m' \<in> set ms. \<exists>words'. assistant_message m' key run words')"
        using assms(8) by blast
      from replied_now [OF True this(2)] this(1) new(1) show ?thesis by (simp add: queue_story_def)
    qed
  qed
qed

text \<open>After a lost connection no event reaches the queue of the stream any more.\<close>

lemma unowned_event:
  assumes "handle_event m r = Inr r'" "\<And>k. delta_queues r k \<noteq> Some q"
  shows "queue_items r' q = queue_items r q \<or> (\<exists>new. queue_items r' q = queue_items r q @ new \<and> progress_items new)"
  using assms(1)
proof (cases rule: handle_event_cases)
  case progress
  then show ?thesis unfolding quiet_def by blast
next
  case (message payload k words)
  show ?thesis using assms(2) by (simp add: capture_text_effect(10) [OF message(5)])
qed

lemma stream_item_keeps:
  assumes "stream_item now x st (pop_queue q r) = (zs, Go_on st', r')"
  shows "queue_items r' q = tl (queue_items r q)" "delta_queues r' = delta_queues r"
    "active_run_id r' = active_run_id r" "seen_same_run r' = seen_same_run r" "progress_items [x]"
    "st_key st' = st_key st" "st_queue st' = st_queue st"
    "x = Q_text w \<Longrightarrow> zs = [Y_text w] \<or> zs = [Y_text (newline @ w)]"
  using assms
  by (auto simp: stream_item_def pop_queue_def progress_items_def Let_def split: queue_item.splits if_splits)

lemma stream_timeout_keeps:
  assumes "stream_timeout now st r = (zs, Go_on st', r')"
  shows "queue_items r' = queue_items r" "delta_queues r' = delta_queues r"
    "active_run_id r' = active_run_id r" "seen_same_run r' = seen_same_run r"
    "st_key st' = st_key st" "st_queue st' = st_queue st"
  using assms by (auto simp: stream_timeout_def mark_status_def Let_def split: if_splits)

definition stream_inv ::
  "string \<Rightarrow> nat \<Rightarrow> string \<Rightarrow> dict list \<Rightarrow> queue_item list \<Rightarrow> yielded list \<Rightarrow> relay \<Rightarrow> bool" where
  "stream_inv key q run ms c ys r \<longleftrightarrow>
     queue_story key run ms (c @ queue_items r q) \<and> progress_items c \<and>
     (owns_queue r key q \<and> active_run_id r key = Some run \<and>
        (get_or (seen_same_run r) key False \<longrightarrow> (\<exists>m \<in> set ms. \<exists>words. assistant_message m key run words)) \<or>
      (\<forall>k. delta_queues r k \<noteq> Some q)) \<and>
     (\<forall>c' w later. c = c' @ [Q_text w] \<longrightarrow> queue_items r q = Q_close # later \<longrightarrow>
        (\<exists>ys'. ys = ys' @ [Y_text w] \<or> ys = ys' @ [Y_text (newline @ w)]))"

lemma hd_progress: "progress_items new \<Longrightarrow> new \<noteq> Q_close # later"
  by (auto simp: progress_items_def)

lemma stream_inv_event:
  assumes "stream_inv key q run ms c ys r" "handle_event m r = Inr r'" "run \<noteq> []" "run \<noteq> pending_run_id"
  shows "stream_inv key q run (ms @ [m]) c ys r'"
proof -
  note keep = event_keeps [OF assms(2)]
  have inv: "queue_story key run ms (c @ queue_items r q)" "progress_items c"
    "queue_items r q = Q_close # later \<Longrightarrow> c = c' @ [Q_text w] \<Longrightarrow>
       \<exists>ys'. ys = ys' @ [Y_text w] \<or> ys = ys' @ [Y_text (newline @ w)]" for later c' w
    using assms(1) unfolding stream_inv_def by blast+
  have close: "\<exists>ys'. ys = ys' @ [Y_text w] \<or> ys = ys' @ [Y_text (newline @ w)]"
    if "c = c' @ [Q_text w]" "queue_items r' q = Q_close # later" "queue_items r' q = queue_items r q @ new"
      "new \<noteq> Q_close # later" for c' w later new
    using that inv(3) by (cases "queue_items r q") auto
  show ?thesis
  proof (cases "\<forall>k. delta_queues r k \<noteq> Some q")
    case True
    then obtain new where new: "queue_items r' q = queue_items r q @ new" "progress_items new"
      using unowned_event [OF assms(2), of q] by (auto simp: progress_items_def)
    have "queue_story key run (ms @ [m]) (c @ queue_items r' q)"
    proof (cases "progress_items (c @ queue_items r q)")
      case True
      with new show ?thesis by (simp add: queue_story_def)
    next
      case False
      from queue_story_append [OF inv(1) False, of "[m]" new] new show ?thesis by simp
    qed
    with True inv(2) keep(1) close [OF _ _ new(1) hd_progress [OF new(2)]] show ?thesis
      unfolding stream_inv_def by simp
  next
    case False
    then have own: "owns_queue r key q" "active_run_id r key = Some run"
      "get_or (seen_same_run r) key False \<longrightarrow> (\<exists>m \<in> set ms. \<exists>words. assistant_message m key run words)"
      using assms(1) unfolding stream_inv_def by blast+
    note story = queue_story_event [OF assms(2) own(1,2) assms(3,4) refl inv(1) own(3)]
    obtain new where new: "queue_items r' q = queue_items r q @ new"
      "progress_items new \<or> (\<exists>words. new = [Q_text (of_ascii words), Q_close])"
      and seen: "get_or (seen_same_run r') key False \<longrightarrow>
        get_or (seen_same_run r) key False \<or> (\<exists>words. assistant_message m key run words)"
      using event_step [OF assms(2) own(1,2) assms(3,4)] by blast
    have "new \<noteq> Q_close # later" for later using new(2) hd_progress by auto
    note close = close [OF _ _ new(1) this]
    have "get_or (seen_same_run r') key False \<longrightarrow>
        (\<exists>m' \<in> set (ms @ [m]). \<exists>words. assistant_message m' key run words)"
      using seen own(3) by auto
    moreover have "owns_queue r' key q" "active_run_id r' key = Some run"
      using own(1,2) keep(1,2) by (simp_all add: owns_queue_def)
    ultimately show ?thesis
      unfolding stream_inv_def using story inv(2) close by blast
  qed
qed

lemma stream_inv_reach:
  assumes "stream_runs r0 st0 t0 ms c ys r st t" "st_key st0 = key" "st_queue st0 = q"
    "stream_inv key q run [] [] [] r0" "run \<noteq> []" "run \<noteq> pending_run_id"
  shows "stream_inv key q run ms c ys r \<and> st_key st = key \<and> st_queue st = q"
  using assms(1)
proof (induction rule: stream_runs.induct)
  case acked
  show ?case using assms(2-4) by simp
next
  case (event ms c ys r st t m r')
  then show ?case using stream_inv_event assms(5,6) by blast
next
  case (others ms c ys r st t r')
  have "queue_items r' q = queue_items r q" "owns_queue r' key q = owns_queue r key q"
    "active_run_id r' key = active_run_id r key" "seen_same_run r' key = seen_same_run r key"
    "(\<forall>k. delta_queues r' k \<noteq> Some q) = (\<forall>k. delta_queues r k \<noteq> Some q)"
    using others.hyps(2) others.IH by (simp_all add: same_session_def owns_queue_def)
  with others.IH show ?case by (simp add: stream_inv_def get_or_def)
next
  case (lost ms c ys r st t)
  let ?r = "relay_reset r"
  have inv: "queue_story key run ms (c @ queue_items r q)" "progress_items c" using lost.IH by (simp_all add: stream_inv_def)
  have items: "queue_items ?r q = queue_items r q @ (if q \<in> ran (delta_queues r) then [Q_error disconnected] else [])"
    "\<forall>k. delta_queues ?r k \<noteq> Some q"
    by (simp_all add: relay_reset_def new_relay_def)
  have "queue_story key run ms (c @ queue_items ?r q)"
  proof (cases "progress_items (c @ queue_items r q)")
    case True
    then show ?thesis using queue_story_error [OF True, of key run ms disconnected] inv(1) items(1) by auto
  next
    case False
    from queue_story_append [OF inv(1) False, of "[]"] items(1) show ?thesis by simp
  qed
  moreover have "\<exists>ys'. ys = ys' @ [Y_text w] \<or> ys = ys' @ [Y_text (newline @ w)]"
    if "c = c' @ [Q_text w]" "queue_items ?r q = Q_close # later" for c' w later
    using that items(1) lost.IH by (cases "queue_items r q") (auto simp: stream_inv_def split: if_splits)
  ultimately show ?case using inv(2) items(2) lost.IH unfolding stream_inv_def by blast
next
  case (item ms c ys r st t x xs t' zs st' r')
  have q: "st_queue st = q" "st_key st = key" "queue_items r q = x # xs"
    using item.IH item.hyps(3) by simp_all
  note keep = stream_item_keeps [OF item.hyps(5) [unfolded q(1)]]
  have "(c @ [x]) @ queue_items r' q = c @ queue_items r q" using keep(1) q(3) by simp
  moreover have "\<exists>ys'. ys @ zs = ys' @ [Y_text w] \<or> ys @ zs = ys' @ [Y_text (newline @ w)]"
    if "c @ [x] = c' @ [Q_text w]" for c' w
    using that keep(8) [of w] by auto
  ultimately show ?case
    using item.IH keep(2-7) q(1,2) by (simp add: stream_inv_def owns_queue_def)
next
  case (silence ms c ys r st t t' zs st' r')
  note keep = stream_timeout_keeps [OF silence.hyps(5)]
  have "queue_items r q = []" using silence.IH silence.hyps(3) by simp
  with silence.IH keep show ?case by (simp add: stream_inv_def owns_queue_def)
qed simp

lemma first_end:
  assumes "a @ x # xs = b @ y # ys" "progress_items a" "progress_items b" "\<not> progress_items [x]" "\<not> progress_items [y]"
  shows "a = b \<and> x = y"
  using assms
proof (induction a arbitrary: b)
  case Nil
  then show ?case by (cases b) (auto simp: progress_items_def)
next
  case (Cons u a)
  show ?case
  proof (cases b)
    case Nil
    with Cons.prems show ?thesis by (auto simp: progress_items_def)
  next
    case (Cons v b')
    with Cons.prems Cons.IH [of b'] show ?thesis by (auto simp: progress_items_def)
  qed
qed

lemma stream_ends_with_own_reply:
  assumes "stream_runs r0 (stream_start key q frames deadline t0) t0 ms c ys r st t"
    "owns_queue r0 key q" "active_run_id r0 key = Some run" "run \<noteq> []" "run \<noteq> pending_run_id"
    "seen_same_run r0 key = Some False" "progress_items (queue_items r0 q)"
    "queue_items r q = Q_close # rest"
  shows "\<exists>ys' words pre m post.
    (ys = ys' @ [Y_text (of_ascii words)] \<or> ys = ys' @ [Y_text (newline @ of_ascii words)]) \<and>
    ms = pre @ m # post \<and>
    (assistant_message m key run words \<or>
     assistant_message m key [] words \<and> transcript_message m \<and>
       (\<exists>m' \<in> set pre. \<exists>words'. assistant_message m' key run words'))"
proof -
  have "stream_inv key q run [] [] [] r0"
    using assms(2,3,6,7) by (simp add: stream_inv_def queue_story_def get_or_def progress_items_def)
  from stream_inv_reach [OF assms(1) _ _ this assms(4,5)]
  have inv: "stream_inv key q run ms c ys r" by (simp add: stream_start_def)
  then have c: "progress_items c" and story: "queue_story key run ms (c @ Q_close # rest)"
    using assms(8) by (simp_all add: stream_inv_def)
  have "\<not> progress_items (c @ Q_close # rest)" by (simp add: progress_items_def)
  moreover have "\<not> (c @ Q_close # rest = before @ Q_error e # later \<and> progress_items before)" for before e later
    using first_end [of c Q_close rest before "Q_error e" later] c by (auto simp: progress_items_def)
  ultimately have "replied key run ms (c @ Q_close # rest)" using story unfolding queue_story_def by blast
  then obtain before words later pre m post where
    b: "c @ Q_close # rest = before @ Q_text (of_ascii words) # Q_close # later" "progress_items before"
    and m: "ms = pre @ m # post" "assistant_message m key run words \<or>
        assistant_message m key [] words \<and> transcript_message m \<and>
           (\<exists>m' \<in> set pre. \<exists>words'. assistant_message m' key run words')"
    unfolding replied_def by blast
  have "c @ Q_close # rest = (before @ [Q_text (of_ascii words)]) @ Q_close # later" using b(1) by simp
  with c b(2) have "c = before @ [Q_text (of_ascii words)]"
    using first_end [of c Q_close rest "before @ [Q_text (of_ascii words)]" Q_close later]
    by (auto simp: progress_items_def)
  then obtain ys' where "ys = ys' @ [Y_text (of_ascii words)] \<or> ys = ys' @ [Y_text (newline @ of_ascii words)]"
    using inv assms(8) unfolding stream_inv_def by blast
  with m show ?thesis by blast
qed

subsection \<open>From the first byte of a turn to the last\<close>

definition fresh_address :: "relay \<Rightarrow> bool" where
  "fresh_address r \<longleftrightarrow> (\<forall>k q. delta_queues r k = Some q \<longrightarrow> q < next_address r)"

lemma quiet_take_replayed: "quiet r (take_replayed key r)"
proof -
  have "quiet r (r\<lparr>replay_pending := m\<rparr>)" for m by (auto simp: quiet_update)
  from this quiet_trans [OF this quiet_push_approval] show ?thesis
    by (simp add: take_replayed_def Let_def)
qed

lemma stream_install_ready:
  assumes "stream_install key frames r = (q, r1)" "fresh_address r"
  shows "owns_queue r1 key q" "active_run_id r1 key = Some pending_run_id"
    "seen_same_run r1 key = Some False" "progress_items (queue_items r1 q)"
proof -
  let ?s = "new_stream_fields key frames r"
  have s12: "r1 = take_replayed key ?s" "q = next_address r"
    using assms(1) by (simp_all add: stream_install_def)
  have s: "delta_queues ?s = (delta_queues r)(key \<mapsto> next_address r)" "active_run_id ?s key = Some pending_run_id"
    "seen_same_run ?s key = Some False" "queue_items ?s (next_address r) = []"
    by (simp_all add: new_stream_fields_def clear_turn_def Let_def)
  have "quiet ?s r1" unfolding s12(1) by (rule quiet_take_replayed)
  then have r1: "delta_queues r1 = delta_queues ?s" "active_run_id r1 = active_run_id ?s"
    "seen_same_run r1 = seen_same_run ?s" "\<exists>new. queue_items r1 q = queue_items ?s q @ new \<and> progress_items new"
    unfolding quiet_def by blast+
  with s(2-4) s12(2) show "active_run_id r1 key = Some pending_run_id" "seen_same_run r1 key = Some False"
    "progress_items (queue_items r1 q)" by auto
  show "owns_queue r1 key q"
    using r1(1) s(1) s12(2) assms(2) by (auto simp: owns_queue_def fresh_address_def)
qed

lemma ack_ready:
  assumes "finish_send req_id key True (Inr payload) r3 = r0" "payload = JObj d"
    "str_or_empty (dget_or d ''runId'' (JStr [])) = run" "run \<noteq> []"
  shows "active_run_id r0 key = Some run" "delta_queues r0 = delta_queues r3"
    "seen_same_run r0 = seen_same_run r3" "queue_items r0 = queue_items r3"
  using assms by (auto simp: finish_send_def Let_def)

text \<open>The steps of \<open>_stream_turn_locked\<close> up to the acknowledgement, events before it included.\<close>

definition turn_acked ::
  "string \<Rightarrow> bool \<Rightarrow> string \<Rightarrow> dict list \<Rightarrow> dict \<Rightarrow> string \<Rightarrow> relay \<Rightarrow> nat \<Rightarrow> relay \<Rightarrow> bool" where
  "turn_acked key frames req_id early msg run r q r0 \<longleftrightarrow>
     (\<exists>r1 r2 r3 d. stream_install key frames r = (q, r1) \<and>
        handle_events early (begin_send req_id key r1) = Inr r2 \<and>
        handle_response msg r2 = (True, r3) \<and> futures r3 req_id = Some (Answered (JObj d)) \<and>
        str_or_empty (dget_or d ''runId'' (JStr [])) = run \<and>
        finish_send req_id key True (Inr (JObj d)) r3 = r0)"

lemma handle_response_streams:
  assumes "handle_response msg r = (c, r')"
  shows "delta_queues r' = delta_queues r" "seen_same_run r' = seen_same_run r" "queue_items r' = queue_items r"
  by (subst handle_response_keeps [OF assms], simp)+

lemma turn_acked_ready:
  assumes "turn_acked key frames req_id early msg run r q r0" "fresh_address r" "run \<noteq> []"
    "\<forall>m \<in> set early. \<forall>words. \<not> assistant_message m key pending_run_id words"
  shows "owns_queue r0 key q \<and> active_run_id r0 key = Some run \<and> seen_same_run r0 key = Some False \<and>
    progress_items (queue_items r0 q)"
proof -
  from assms(1) obtain r1 r2 r3 d where
    s: "stream_install key frames r = (q, r1)" "handle_events early (begin_send req_id key r1) = Inr r2"
    "handle_response msg r2 = (True, r3)" "str_or_empty (dget_or d ''runId'' (JStr [])) = run"
    "finish_send req_id key True (Inr (JObj d)) r3 = r0"
    unfolding turn_acked_def by (elim exE conjE) (rule that)
  let ?b = "begin_send req_id key r1"
  note ready = stream_install_ready [OF s(1) assms(2)]
  have "owns_queue ?b key q" "active_run_id ?b key = Some pending_run_id" "seen_same_run ?b key = Some False"
    "progress_items (queue_items ?b q)"
    using ready by (simp_all add: begin_send_def prepare_pending_def owns_queue_def Let_def)
  from pending_events [OF s(2) this(1,2) assms(4) this(4)] this(3)
  have "progress_items (queue_items r2 q)" "seen_same_run r2 key = Some False" "owns_queue r2 key q" by simp_all
  with handle_response_streams [OF s(3)] ack_ready [OF s(5) refl s(4) assms(3)]
  show ?thesis by (simp add: owns_queue_def)
qed


subsection \<open>One turn, played\<close>

definition chat_event :: "string \<Rightarrow> string \<Rightarrow> dict" where
  "chat_event run words =
     [(''event'', JStr ''chat''), (''payload'', JObj [(''sessionKey'', JStr ''k''), (''role'', JStr ''assistant''),
        (''runId'', JStr run), (''state'', JStr ''final''), (''message'', JStr words)])]"

definition sample_ack :: dict where
  "sample_ack = [(''id'', JStr ''q1''), (''ok'', JBool True), (''payload'', JObj [(''runId'', JStr ''r1'')])]"

text \<open>A trailer of the run before arrives first, then the acknowledgement, then the reply.\<close>

definition sample_r2 :: relay where
  "sample_r2 = projr (handle_events [chat_event ''r0'' ''old''] (begin_send ''q1'' ''k'' (snd (stream_install ''k'' False new_relay))))"

definition sample_r0 :: relay where
  "sample_r0 = finish_send ''q1'' ''k'' True (Inr (JObj [(''runId'', JStr ''r1'')])) (snd (handle_response sample_ack sample_r2))"

definition sample_r4 :: relay where
  "sample_r4 = projr (handle_event (chat_event ''r1'' ''Hello'') sample_r0)"

lemma sample_acked: "turn_acked ''k'' False ''q1'' [chat_event ''r0'' ''old''] sample_ack ''r1'' new_relay 0 sample_r0"
proof -
  let ?r1 = "snd (stream_install ''k'' False new_relay)"
  have 1: "stream_install ''k'' False new_relay = (0, ?r1)" by (simp add: stream_install_def new_relay_def)
  have "\<not> isl (handle_events [chat_event ''r0'' ''old''] (begin_send ''q1'' ''k'' ?r1))" by code_simp
  then have 2: "handle_events [chat_event ''r0'' ''old''] (begin_send ''q1'' ''k'' ?r1) = Inr sample_r2"
    by (simp add: sample_r2_def)
  have "fst (handle_response sample_ack sample_r2)" by code_simp
  then have 3: "handle_response sample_ack sample_r2 = (True, snd (handle_response sample_ack sample_r2))"
    by (metis prod.collapse)
  have 4: "futures (snd (handle_response sample_ack sample_r2)) ''q1'' = Some (Answered (JObj [(''runId'', JStr ''r1'')]))"
    by code_simp
  have 5: "str_or_empty (dget_or [(''runId'', JStr ''r1'')] ''runId'' (JStr [])) = ''r1''" by simp
  show ?thesis unfolding turn_acked_def
    by (intro exI conjI, rule 1, rule 2, rule 3, rule 4, rule 5) (simp add: sample_r0_def)
qed

definition sample_st :: stream where
  "sample_st = stream_start ''k'' 0 False 180 0"

lemma sample_event: "handle_event (chat_event ''r1'' ''Hello'') sample_r0 = Inr sample_r4"
proof -
  have "\<not> isl (handle_event (chat_event ''r1'' ''Hello'') sample_r0)" by code_simp
  then show ?thesis by (simp add: sample_r4_def)
qed

lemma sample_stream_runs:
  "\<exists>r' st. stream_runs sample_r0 sample_st 0 [chat_event ''r1'' ''Hello''] [Q_text (of_ascii ''Hello'')]
     [Y_text (of_ascii ''Hello'')] r' st 1 \<and> queue_items r' 0 = [Q_close]"
proof -
  have items: "queue_items sample_r4 0 = [Q_text (of_ascii ''Hello''), Q_close]" by code_simp
  have flag: "get_or (text_status_open sample_r4) ''k'' False = False" by code_simp
  have st: "st_key sample_st = ''k''" "st_queue sample_st = 0" "st_deadline sample_st = 180"
    by (simp_all add: sample_st_def stream_start_def)
  let ?i = "stream_item 1 (Q_text (of_ascii ''Hello'')) sample_st (pop_queue 0 sample_r4)"
  obtain st' r' where i: "?i = ([Y_text (of_ascii ''Hello'')], Go_on st', r')" "queue_items r' 0 = [Q_close]"
    using items flag by (simp add: stream_item_def st pop_queue_def Let_def)
  have "stream_runs sample_r0 sample_st 0 [chat_event ''r1'' ''Hello''] [] [] sample_r4 sample_st 0"
    using stream_runs.event [OF stream_runs.acked sample_event] by simp
  from stream_runs.item [OF this, of "Q_text (of_ascii ''Hello'')" "[Q_close]" 1] i items
  show ?thesis by (auto simp: st)
qed


theorem stream_never_silent_witness:
  "\<exists>r' st. wait_budget 1 st \<le> 15 \<and> wait_budget 1 st \<le> max (180 - 1) (1 / 1000) \<and>
     length (fst (stream_timeout 9 st r')) = 1"
proof -
  obtain r' st where runs: "stream_runs sample_r0 (stream_start ''k'' 0 False 180 0) 0 [chat_event ''r1'' ''Hello'']
      [Q_text (of_ascii ''Hello'')] [Y_text (of_ascii ''Hello'')] r' st 1"
    using sample_stream_runs unfolding sample_st_def by blast
  obtain zs nxt r'' where "stream_timeout 9 st r' = (zs, nxt, r'')" by (cases "stream_timeout 9 st r'")
  moreover note silent = stream_never_silent [OF runs]
  from silent have "\<forall>now zs nxt s. stream_timeout now st r' = (zs, nxt, s) \<longrightarrow>
      (if now \<ge> 180 then zs = [] \<and> nxt = Finished else length zs = 1)" by blast
  from this [rule_format, of 9] calculation have "length zs = 1" by simp
  with calculation silent show ?thesis by (intro exI [of _ r'] exI [of _ st]) simp
qed

end
