(* ===== verification/Gateway_Invoke.thy ===== *)
theory Gateway_Invoke
  imports Dispatcher Turn_Registry
begin

text \<open>
  A command that arrives from the gateway (\<open>gateway_ws.py\<close>): decoding and bounding its parameters, the
  principal it runs for, the dispatch, and the one result frame that answers it. \<open>json.loads\<close> is the
  argument \<open>loads\<close>; request ids are arguments.
\<close>

subsection \<open>Bounds\<close>

definition max_params_json_bytes :: nat where "max_params_json_bytes = 512 * 1024"
definition max_params_depth :: nat where "max_params_depth = 64"
definition max_params_members :: nat where "max_params_members = 4096"
definition max_invoke_result_bytes :: nat where "max_invoke_result_bytes = 24 * 1024 * 1024"

subsection \<open>The shape of the parameters\<close>

fun children :: "jval \<Rightarrow> jval list option" where
  "children (JObj d) = Some (map snd d)"
| "children (JList xs) = Some xs"
| "children _ = None"

text \<open>The loop of \<open>_check_params_shape\<close>: the stack, top first, and the members counted so far.\<close>

definition stack_size :: "(jval \<times> nat) list \<Rightarrow> nat" where
  "stack_size st = sum_list (map (\<lambda>(v, _). Suc (size v)) st)"

lemma stack_size_simps [simp]:
  "stack_size [] = 0" "stack_size ((v, n) # st) = Suc (size v) + stack_size st"
  "stack_size (xs @ ys) = stack_size xs + stack_size ys" "stack_size (rev xs) = stack_size xs"
  by (simp_all add: stack_size_def rev_map [symmetric] sum_list_rev)

lemma children_size: "children v = Some cs \<Longrightarrow> stack_size (map (\<lambda>c. (c, n)) cs) < Suc (size v)"
proof (cases v)
  case (JObj d)
  have "stack_size (map (\<lambda>c. (c, n)) (map snd d)) \<le> size_list (size_prod (\<lambda>_. 0) size) d"
    by (induction d) auto
  then show "children v = Some cs \<Longrightarrow> ?thesis" using JObj by (auto simp: less_Suc_eq_le)
next
  case (JList xs)
  have "stack_size (map (\<lambda>c. (c, n)) xs) = size_list size xs"
    by (induction xs) auto
  then show "children v = Some cs \<Longrightarrow> ?thesis" using JList by auto
qed auto

function shape_loop :: "(jval \<times> nat) list \<Rightarrow> nat \<Rightarrow> string option" where
  "shape_loop [] members = None"
| "shape_loop ((node, depth) # stack) members =
     (case children node of
        None \<Rightarrow> shape_loop stack members
      | Some cs \<Rightarrow>
          if depth > max_params_depth then Some ''paramsJSON nesting exceeds limit''
          else if members + length cs > max_params_members then Some ''paramsJSON member count exceeds limit''
          else shape_loop (rev (map (\<lambda>c. (c, Suc depth)) cs) @ stack) (members + length cs))"
  by pat_completeness auto
termination
proof (relation "measure (\<lambda>(stack, _). stack_size stack)", goal_cases)
  case (3 node depth stack members cs)
  then show ?case using children_size [of node cs "Suc depth"] by simp
qed auto

declare shape_loop.simps(2) [simp del]

definition check_params_shape :: "jval \<Rightarrow> string option" where
  "check_params_shape decoded = shape_loop [(decoded, 1)] 0"

text \<open>What the loop measures: the levels of containers, and the members of all of them.\<close>

fun levels :: "jval \<Rightarrow> nat" where
  "levels (JObj d) = Suc (foldr (\<lambda>(k, v) n. max (levels v) n) d 0)"
| "levels (JList xs) = Suc (foldr (\<lambda>v n. max (levels v) n) xs 0)"
| "levels _ = 0"

fun members_of :: "jval \<Rightarrow> nat" where
  "members_of (JObj d) = length d + sum_list (map (\<lambda>(k, v). members_of v) d)"
| "members_of (JList xs) = length xs + sum_list (map members_of xs)"
| "members_of _ = 0"

lemma children_None: "children v = None \<Longrightarrow> levels v = 0 \<and> members_of v = 0"
  by (cases v) auto

lemma foldr_max_le: "foldr (\<lambda>v n. max (f v) n) xs 0 \<le> m \<longleftrightarrow> (\<forall>v \<in> set xs. f v \<le> m)" for m :: nat
  by (induction xs) auto

lemma children_levels:
  assumes "children v = Some cs"
  shows "levels v \<le> Suc m \<longleftrightarrow> (\<forall>c \<in> set cs. levels c \<le> m)"
proof (cases v)
  case (JObj d)
  have "foldr (\<lambda>(k, v) n. max (levels v) n) d 0 = foldr (\<lambda>v n. max (levels v) n) (map snd d) 0"
    by (induction d) auto
  with JObj assms show ?thesis by (auto simp: foldr_max_le)
qed (use assms in \<open>auto simp: foldr_max_le\<close>)

lemma children_members:
  "children v = Some cs \<Longrightarrow> members_of v = length cs + sum_list (map members_of cs)"
  by (cases v) (auto simp: o_def case_prod_unfold)

lemma levels_pos: "children v = Some cs \<Longrightarrow> levels v \<noteq> 0"
  by (cases v) auto

definition stack_fits :: "(jval \<times> nat) list \<Rightarrow> bool" where
  "stack_fits st \<longleftrightarrow> (\<forall>(v, d) \<in> set st. levels v = 0 \<or> d + levels v \<le> Suc max_params_depth)"

lemma children_fit:
  assumes "children v = Some cs" "d \<le> max_params_depth"
  shows "d + levels v \<le> Suc max_params_depth \<longleftrightarrow>
    (\<forall>c \<in> set cs. levels c = 0 \<or> Suc d + levels c \<le> Suc max_params_depth)"
proof -
  have "d + levels v \<le> Suc max_params_depth \<longleftrightarrow> levels v \<le> Suc (max_params_depth - d)"
    using assms(2) by auto
  also have "\<dots> \<longleftrightarrow> (\<forall>c \<in> set cs. levels c \<le> max_params_depth - d)"
    by (rule children_levels [OF assms(1)])
  also have "\<dots> \<longleftrightarrow> (\<forall>c \<in> set cs. levels c = 0 \<or> Suc d + levels c \<le> Suc max_params_depth)"
    using assms(2) by (intro ball_cong refl) auto
  finally show ?thesis .
qed

definition stack_members :: "(jval \<times> nat) list \<Rightarrow> nat" where
  "stack_members st = sum_list (map (\<lambda>(v, d). members_of v) st)"

lemma stack_members_simps [simp]:
  "stack_members [] = 0" "stack_members ((v, d) # st) = members_of v + stack_members st"
  "stack_members (xs @ ys) = stack_members xs + stack_members ys"
  "stack_members (rev (map (\<lambda>c. (c, d)) cs)) = sum_list (map members_of cs)"
  by (simp_all add: stack_members_def rev_map [symmetric] sum_list_rev o_def)

lemma stack_fits_simps [simp]:
  "stack_fits []"
  "stack_fits ((v, d) # st) \<longleftrightarrow> (levels v = 0 \<or> d + levels v \<le> Suc max_params_depth) \<and> stack_fits st"
  "stack_fits (xs @ ys) \<longleftrightarrow> stack_fits xs \<and> stack_fits ys"
  "stack_fits (rev (map (\<lambda>c. (c, d)) cs)) \<longleftrightarrow> (\<forall>c \<in> set cs. levels c = 0 \<or> d + levels c \<le> Suc max_params_depth)"
  by (auto simp: stack_fits_def)

lemma shape_loop_None:
  "members \<le> max_params_members \<Longrightarrow> shape_loop st members = None \<longleftrightarrow>
     stack_fits st \<and> members + stack_members st \<le> max_params_members"
proof (induction st members rule: shape_loop.induct)
  case (1 members)
  then show ?case by simp
next
  case (2 node depth stack members)
  show ?case
  proof (cases "children node")
    case None
    with 2 children_None [OF None] show ?thesis by (simp add: shape_loop.simps(2))
  next
    case (Some cs)
    show ?thesis
    proof (cases "depth > max_params_depth \<or> members + length cs > max_params_members")
      case True
      with Some show ?thesis
        using levels_pos [OF Some] by (auto simp: shape_loop.simps(2) children_members [OF Some])
    next
      case False
      then have "shape_loop ((node, depth) # stack) members =
          shape_loop (rev (map (\<lambda>c. (c, Suc depth)) cs) @ stack) (members + length cs)"
        by (simp add: shape_loop.simps(2) Some)
      moreover have "shape_loop (rev (map (\<lambda>c. (c, Suc depth)) cs) @ stack) (members + length cs) = None \<longleftrightarrow>
          stack_fits (rev (map (\<lambda>c. (c, Suc depth)) cs) @ stack) \<and>
          members + length cs + stack_members (rev (map (\<lambda>c. (c, Suc depth)) cs) @ stack) \<le> max_params_members"
        using 2(2) [OF Some] False by simp
      moreover have "depth \<le> max_params_depth" using False by simp
      ultimately show ?thesis
        using children_fit [OF Some] levels_pos [OF Some] by (simp add: children_members [OF Some] add.assoc)
    qed
  qed
qed

lemma check_params_shape_iff:
  "check_params_shape v = None \<longleftrightarrow> levels v \<le> max_params_depth \<and> members_of v \<le> max_params_members"
  using shape_loop_None [of 0 "[(v, 1)]"] by (auto simp: check_params_shape_def)

subsection \<open>Decoding\<close>

datatype json_loads = Parsed jval | Json_decode_error | Recursion_error

text \<open>The error carries its gateway code.\<close>

definition decode_invoke_params :: "(string \<Rightarrow> json_loads) \<Rightarrow> dict \<Rightarrow> string + dict" where
  "decode_invoke_params loads payload = (case dget payload ''paramsJSON'' of
     JStr raw \<Rightarrow>
       if raw = [] then Inl ''INVALID_PARAMS''
       else if length (utf8_text raw) > max_params_json_bytes then Inl ''REQUEST_TOO_LARGE''
       else (case loads raw of
           Recursion_error \<Rightarrow> Inl ''REQUEST_TOO_LARGE''
         | Json_decode_error \<Rightarrow> Inl ''INVALID_PARAMS''
         | Parsed (JObj d) \<Rightarrow> if check_params_shape (JObj d) = None then Inr d else Inl ''REQUEST_TOO_LARGE''
         | Parsed _ \<Rightarrow> Inl ''INVALID_PARAMS'')
   | _ \<Rightarrow> Inl ''INVALID_PARAMS'')"

lemma decoded_params_bounded:
  "decode_invoke_params loads payload = Inr d \<Longrightarrow>
     levels (JObj d) \<le> max_params_depth \<and> members_of (JObj d) \<le> max_params_members"
  unfolding check_params_shape_iff [symmetric]
  by (auto simp: decode_invoke_params_def split: json.splits json_loads.splits if_splits)

subsection \<open>The principal\<close>

definition caller_param :: string where
  "caller_param = ''_openclaw_caller''"

record caller_refused =
  cr_code :: string
  cr_message :: string

definition hint_session :: "jval \<Rightarrow> string option" where
  "hint_session hint = (case hint of
     JObj d \<Rightarrow> (case dget d ''sessionKey'' of JStr s \<Rightarrow> if strip s \<noteq> [] then Some s else None | _ \<Rightarrow> None)
   | _ \<Rightarrow> None)"

definition pop_caller_hint :: "dict \<Rightarrow> (caller_refused + string option) \<times> dict" where
  "pop_caller_hint params =
     (if \<not> has_key params caller_param then (Inr None, params)
      else ((case hint_session (dget params caller_param) of
               None \<Rightarrow> Inl \<lparr>cr_code = ''INVALID_PARAMS'', cr_message = ''Malformed invoke params''\<rparr>
             | Some s \<Rightarrow> Inr (Some s)),
            AList.delete caller_param params))"

definition invoke_caller :: caller where
  "invoke_caller = operator_caller ''gateway-invoke''"

definition resolve_invoke_caller ::
  "rat \<Rightarrow> relay option \<Rightarrow> dict \<Rightarrow> (caller_refused + caller) \<times> dict \<times> relay option" where
  "resolve_invoke_caller now relay params =
     (case pop_caller_hint params of
        (Inl e, rest) \<Rightarrow> (Inl e, rest, relay)
      | (Inr None, rest) \<Rightarrow> (Inr invoke_caller, rest, relay)
      | (Inr (Some session), rest) \<Rightarrow>
          (case relay of
             None \<Rightarrow> (Inl \<lparr>cr_code = ''PERMISSION_DENIED'', cr_message = ''No active Assist turn for caller''\<rparr>, rest, None)
           | Some r \<Rightarrow>
               (case active_caller session r of
                  Some c \<Rightarrow> (Inr c, rest, relay)
                | None \<Rightarrow>
                    (case recently_ended session now r of
                       (True, r') \<Rightarrow> (Inl \<lparr>cr_code = ''REQUEST_EXPIRED'',
                           cr_message = ''That request expired because the Assist turn has ended. Ask again.''\<rparr>, rest, Some r')
                     | (False, r') \<Rightarrow> (Inl \<lparr>cr_code = ''PERMISSION_DENIED'',
                           cr_message = ''No active Assist turn for caller''\<rparr>, rest, Some r')))))"

lemma caller_hint_removed: "\<not> has_key (snd (pop_caller_hint params)) caller_param"
  by (auto simp: pop_caller_hint_def has_key_def in_delete)

lemma resolve_rest:
  "resolve_invoke_caller now relay params = (c, rest, relay') \<Longrightarrow> rest = snd (pop_caller_hint params)"
  by (auto simp: resolve_invoke_caller_def split: prod.splits sum.splits option.splits bool.splits)

subsection \<open>Frames\<close>

text \<open>\<open>json.dumps\<close>, which writes ASCII only, so characters are bytes.\<close>

definition json_float :: "pyfloat \<Rightarrow> string" where
  "json_float f = (case f of
     FFin r _ \<Rightarrow> r | FInf neg \<Rightarrow> (if neg then ''-Infinity'' else ''Infinity'') | FNaN \<Rightarrow> ''NaN'')"

fun json_dumps :: "jval \<Rightarrow> string"
  and json_dumps_items :: "jval list \<Rightarrow> string list"
  and json_dumps_entries :: "dict \<Rightarrow> string list"
where
  "json_dumps JNull = ''null''"
| "json_dumps (JBool b) = json_bool b"
| "json_dumps (JInt i) = int_str i"
| "json_dumps (JFloat f) = json_float f"
| "json_dumps (JStr s) = json_dumps_str s"
| "json_dumps (JList xs) = ''['' @ join '', '' (json_dumps_items xs) @ '']''"
| "json_dumps (JObj d) = ''{'' @ join '', '' (json_dumps_entries d) @ ''}''"
| "json_dumps_items [] = []"
| "json_dumps_items (x # xs) = json_dumps x # json_dumps_items xs"
| "json_dumps_entries [] = []"
| "json_dumps_entries ((k, v) # d) = (json_dumps_str k @ '': '' @ json_dumps v) # json_dumps_entries d"

definition make_req :: "string \<Rightarrow> string \<Rightarrow> jval \<Rightarrow> jval" where
  "make_req req_id method params =
     JObj [(''type'', JStr ''req''), (''id'', JStr req_id), (''method'', JStr method), (''params'', params)]"

definition invoke_base :: "dict \<Rightarrow> dict" where
  "invoke_base payload =
     [(''id'', JStr (str_field payload ''id'')), (''nodeId'', JStr (str_field payload ''nodeId''))]"

definition invoke_error :: "dict \<Rightarrow> string \<Rightarrow> jval \<Rightarrow> jval" where
  "invoke_error base code message =
     JObj (base @ [(''ok'', JBool False), (''error'', JObj [(''code'', JStr code), (''message'', message)])])"

definition result_frame :: "string \<Rightarrow> jval \<Rightarrow> jval" where
  "result_frame req_id params = make_req req_id ''node.invoke.result'' params"

text \<open>An answer over the budget is replaced; the second id is that of the replacement.\<close>

definition send_invoke_result :: "string \<Rightarrow> string \<Rightarrow> dict \<Rightarrow> jval \<Rightarrow> jval" where
  "send_invoke_result req_id req_id' base params =
     (if length (json_dumps (result_frame req_id params)) > max_invoke_result_bytes
      then result_frame req_id' (invoke_error base ''RESULT_TOO_LARGE''
        (JStr ''Command ran but its result exceeds the size limit''))
      else result_frame req_id params)"

definition nonempty_or :: "jval \<Rightarrow> string \<Rightarrow> string" where
  "nonempty_or v s = (case v of JStr t \<Rightarrow> if t \<noteq> [] then t else s | _ \<Rightarrow> s)"

definition command_error :: "dict \<Rightarrow> jval" where
  "command_error base = invoke_error base ''COMMAND_ERROR'' (JStr ''Internal command error'')"

definition result_params :: "dict \<Rightarrow> jval \<Rightarrow> jval" where
  "result_params base result = (case result of
     JObj d \<Rightarrow>
       (let succeeded = (dget_or d ''ok'' (JBool True) = JBool True) in
        JObj (base @ [(''ok'', JBool succeeded), (''payload'', result)] @
          (if succeeded then []
           else [(''error'', JObj
             [(''code'', JStr (nonempty_or (dget d ''error'') ''COMMAND_ERROR'')),
              (''message'', JStr (nonempty_or (dget d ''message'') ''Node command failed''))])])))
   | _ \<Rightarrow> command_error base)"

definition invoke_response :: "dict \<Rightarrow> 'e dispatch_result \<Rightarrow> jval" where
  "invoke_response base res = (case res of
     Result v \<Rightarrow> result_params base v
   | Unknown_command name \<Rightarrow> invoke_error base ''UNKNOWN_COMMAND'' name
   | _ \<Rightarrow> command_error base)"

definition handle_invoke ::
  "('e, 's) handlers \<Rightarrow> (string \<Rightarrow> json_loads) \<Rightarrow> rat \<Rightarrow> string \<Rightarrow> string \<Rightarrow> dict \<Rightarrow> relay option \<Rightarrow>
   's node_state \<Rightarrow> jval list \<times> relay option \<times> 's node_state" where
  "handle_invoke handlers loads now req_id req_id' payload relay st =
     (let command = str_field payload ''command''; base = invoke_base payload in
      case decode_invoke_params loads payload of
        Inl code \<Rightarrow>
          ([send_invoke_result req_id req_id' base (invoke_error base code (JStr ''Malformed invoke params''))], relay, st)
      | Inr params \<Rightarrow>
          (case resolve_invoke_caller now relay params of
             (Inl e, rest, relay') \<Rightarrow>
               ([result_frame req_id (invoke_error base (cr_code e) (JStr (cr_message e)))], relay', st)
           | (Inr c, rest, relay') \<Rightarrow>
               (case dispatch_async handlers command rest c st of
                  (res, st') \<Rightarrow> ([send_invoke_result req_id req_id' base (invoke_response base res)], relay', st'))))"

subsection \<open>Every invoke is answered once\<close>

definition answers :: "jval \<Rightarrow> dict \<Rightarrow> bool \<Rightarrow> bool" where
  "answers sent payload ok \<longleftrightarrow>
     (\<exists>req_id d. sent = result_frame req_id (JObj d) \<and>
        dget d ''id'' = JStr (str_field payload ''id'') \<and> dget d ''nodeId'' = JStr (str_field payload ''nodeId'') \<and>
        dget d ''ok'' = JBool ok \<and> (ok \<longleftrightarrow> \<not> has_key d ''error''))"

lemma answers_error [simp]: "answers (result_frame rid (invoke_error (invoke_base payload) code m)) payload False"
  unfolding answers_def invoke_error_def by (intro exI conjI, rule refl) (simp_all add: invoke_base_def)

lemma answers_response:
  "\<exists>d. invoke_response (invoke_base payload) res = JObj d \<and>
     dget d ''id'' = JStr (str_field payload ''id'') \<and> dget d ''nodeId'' = JStr (str_field payload ''nodeId'') \<and>
     (\<exists>ok. dget d ''ok'' = JBool ok \<and> (ok \<longleftrightarrow> \<not> has_key d ''error'') \<and>
        (ok \<longrightarrow> (\<exists>v. res = Result (JObj v) \<and> dget_or v ''ok'' (JBool True) = JBool True \<and> dget d ''payload'' = JObj v)))"
  by (auto simp: invoke_response_def result_params_def command_error_def invoke_error_def invoke_base_def
      Let_def split: dispatch_result.splits json.splits)

lemma invoke_answer:
  assumes "handle_invoke handlers loads now req_id req_id' payload relay st = (sent, relay', st')"
  shows "\<exists>f ok. sent = [f] \<and> answers f payload ok \<and>
    (ok \<longrightarrow> length (json_dumps f) \<le> max_invoke_result_bytes \<and>
       (\<exists>params c rest v. decode_invoke_params loads payload = Inr params \<and>
          resolve_invoke_caller now relay params = (Inr c, rest, relay') \<and>
          dispatch_async handlers (str_field payload ''command'') rest c st = (Result (JObj v), st') \<and>
          dget_or v ''ok'' (JBool True) = JBool True)) \<and>
    (st' \<noteq> st \<longrightarrow>
       (\<exists>params c rest res. decode_invoke_params loads payload = Inr params \<and>
          resolve_invoke_caller now relay params = (Inr c, rest, relay') \<and>
          dispatch_async handlers (str_field payload ''command'') rest c st = (res, st')))"
proof -
  let ?base = "invoke_base payload"
  show ?thesis
  proof (cases "decode_invoke_params loads payload")
    case (Inl code)
    then show ?thesis
      using assms by (auto simp: handle_invoke_def send_invoke_result_def Let_def intro!: exI [of _ False])
  next
    case (Inr params)
    obtain who rest rel where r: "resolve_invoke_caller now relay params = (who, rest, rel)"
      by (metis prod_cases3)
    show ?thesis
    proof (cases who)
      case (Inl e)
      then show ?thesis
        using assms Inr r by (auto simp: handle_invoke_def Let_def intro!: exI [of _ False])
    next
      case c: (Inr c)
      obtain res st2 where d: "dispatch_async handlers (str_field payload ''command'') rest c st = (res, st2)"
        by (cases "dispatch_async handlers (str_field payload ''command'') rest c st")
      have out: "sent = [send_invoke_result req_id req_id' ?base (invoke_response ?base res)]" "relay' = rel" "st' = st2"
        using assms Inr r c d by (simp_all add: handle_invoke_def Let_def)
      from answers_response [of payload res] obtain p ok where p:
        "invoke_response ?base res = JObj p" "dget p ''id'' = JStr (str_field payload ''id'')"
        "dget p ''nodeId'' = JStr (str_field payload ''nodeId'')" "dget p ''ok'' = JBool ok" "ok \<longleftrightarrow> \<not> has_key p ''error''"
        "ok \<longrightarrow> (\<exists>v. res = Result (JObj v) \<and> dget_or v ''ok'' (JBool True) = JBool True)"
        by blast
      show ?thesis
      proof (cases "length (json_dumps (result_frame req_id (JObj p))) > max_invoke_result_bytes")
        case True
        then show ?thesis
          using out p(1) Inr r c d by (auto simp: send_invoke_result_def intro!: exI [of _ False])
      next
        case False
        have "answers (result_frame req_id (JObj p)) payload ok"
          unfolding answers_def using p(2-5) by (intro exI [of _ req_id] exI [of _ p]) simp
        with False out p(1,6) Inr r c d show ?thesis
          by (auto simp: send_invoke_result_def intro!: exI [of _ ok])
      qed
    qed
  qed
qed

subsection \<open>The hint is a lookup key, never a claim\<close>

lemma handlers_never_see_the_hint:
  assumes "\<And>command params st. \<not> has_key params caller_param \<Longrightarrow> h command params st = h' command params st"
  shows "handle_invoke h loads now req_id req_id' payload relay st =
    handle_invoke h' loads now req_id req_id' payload relay st"
proof -
  have "dispatch_async h command rest c st = dispatch_async h' command rest c st"
    if "\<not> has_key rest caller_param" for command rest c st
  proof -
    have "h command rest = h' command rest" using assms [OF that] by blast
    then show ?thesis by (simp only: dispatch_async_def)
  qed
  moreover have "\<not> has_key rest caller_param"
    if "resolve_invoke_caller now relay params = (c, rest, relay')" for params c rest relay'
    using resolve_rest [OF that] caller_hint_removed by simp
  ultimately show ?thesis
    by (auto simp: handle_invoke_def Let_def split: sum.splits prod.splits)
qed

lemma resolved_caller:
  assumes "resolve_invoke_caller now relay params = (Inr c, rest, relay')"
  shows "(\<not> has_key params caller_param \<and> c = invoke_caller \<and> rest = params) \<or>
    (\<exists>session r. hint_session (dget params caller_param) = Some session \<and> relay = Some r \<and>
       active_caller session r = Some c \<and> has_key params caller_param \<and> rest = AList.delete caller_param params)"
  using assms
  by (auto simp: resolve_invoke_caller_def pop_caller_hint_def split: option.splits prod.splits sum.splits
      bool.splits if_splits)

text \<open>
  C4. An invoke that carries the caller hint acts with the principal of the one turn the hint names. However
  the turns of a connection interleave, an invoke with the hint that changed anything was dispatched as
  the caller of the only running turn whose key the hint names, without the hint in the parameters; if
  that turn is a household one, its role allows the command.
\<close>

theorem hinted_invoke_runs_for_its_turn:
  assumes "turns_reach False r W F"
    "handle_invoke handlers loads now req_id req_id' payload (Some r) st = (sent, relay', st')" "st' \<noteq> st"
    "decode_invoke_params loads payload = Inr params" "has_key params caller_param"
  shows "\<exists>session t. hint_session (dget params caller_param) = Some session \<and>
    filter (\<lambda>t. names_key r session (t_raw t)) F = [t] \<and>
    snd (dispatch_async handlers (str_field payload ''command'') (AList.delete caller_param params) (t_caller t) st) = st' \<and>
    (caller_role (t_caller t) = Turn User \<longrightarrow>
       str_field payload ''command'' \<in> set user_allowed_commands \<and>
       \<not> is_forbidden (forbidden (t_caller t)) (str_field payload ''command'') (AList.delete caller_param params))"
proof -
  from invoke_answer [OF assms(2)] assms(3,4) obtain c rest res where
    run: "resolve_invoke_caller now (Some r) params = (Inr c, rest, relay')"
    "dispatch_async handlers (str_field payload ''command'') rest c st = (res, st')"
    by auto
  from resolved_caller [OF run(1)] assms(5) obtain session where
    s: "hint_session (dget params caller_param) = Some session" "active_caller session r = Some c"
    "rest = AList.delete caller_param params"
    by auto
  from s(2) active_caller_iff [OF assms(1)] obtain t where
    t: "filter (\<lambda>t. names_key r session (t_raw t)) F = [t]" "t_caller t = c" by blast
  have "snd (dispatch_async handlers (str_field payload ''command'') rest c st) \<noteq> st"
    using run(2) assms(3) by simp
  note confined = household_dispatch_reach [OF _ this]
  show ?thesis
    using s(1,3) t run(2) confined by (intro exI [of _ session] exI [of _ t]) auto
qed

subsection \<open>An invoke for a turn in flight\<close>

definition sample_loads :: "string \<Rightarrow> json_loads" where
  "sample_loads raw = (if raw = ''hint''
     then Parsed (JObj [(''_openclaw_caller'', JObj [(''sessionKey'', JStr ''HA-assist:B'')])]) else Json_decode_error)"

definition sample_payload :: dict where
  "sample_payload = [(''id'', JStr ''i1''), (''nodeId'', JStr ''n''), (''command'', JStr ''ping''), (''paramsJSON'', JStr ''hint'')]"

lemma sample_decoded:
  "decode_invoke_params sample_loads sample_payload =
     Inr [(''_openclaw_caller'', JObj [(''sessionKey'', JStr ''HA-assist:B'')])]"
  by code_simp

theorem hinted_invoke_runs_for_its_turn_witness:
  "\<exists>r sent relay' st t. turns_reach False r []
       [sample_turn ''ha-assist:a'' None 0, sample_turn ''ha-assist:b'' (Some sample_authz) 1] \<and>
     handle_invoke sample_handlers sample_loads 0 ''q'' ''q2'' sample_payload (Some r)
       \<lparr>current_caller = None, world = 0\<rparr> = (sent, relay', \<lparr>current_caller = None, world = 1\<rparr>) \<and>
     filter (\<lambda>t. names_key r ''HA-assist:B'' (t_raw t))
       [sample_turn ''ha-assist:a'' None 0, sample_turn ''ha-assist:b'' (Some sample_authz) 1] = [t] \<and>
     snd (dispatch_async sample_handlers ''ping'' [] (t_caller t) \<lparr>current_caller = None, world = 0\<rparr>) =
       \<lparr>current_caller = None, world = 1\<rparr>"
proof -
  let ?F = "[sample_turn ''ha-assist:a'' None 0, sample_turn ''ha-assist:b'' (Some sample_authz) 1]"
  let ?p = "[(''_openclaw_caller'', JObj [(''sessionKey'', JStr ''HA-assist:B'')])] :: dict"
  let ?c = "caller_of_authz (Some sample_authz)"
  let ?st = "\<lparr>current_caller = None, world = 0 :: nat\<rparr>" and ?st' = "\<lparr>current_caller = None, world = 1 :: nat\<rparr>"
  obtain r where r: "turns_reach False r [] ?F" "canonical_by_raw r = Map.empty"
    using sample_turns by blast
  have keys: "lower (strip ''HA-assist:B'') = ''ha-assist:b''" "lower ''ha-assist:a'' = ''ha-assist:a''"
    "lower ''ha-assist:b'' = ''ha-assist:b''" "strip ''HA-assist:B'' = ''HA-assist:B''" by code_simp+
  have one: "filter (\<lambda>t. names_key r ''HA-assist:B'' (t_raw t)) ?F = [sample_turn ''ha-assist:b'' (Some sample_authz) 1]"
    using r(2) keys by (simp add: names_key_def get_or_def sample_turn_def)
  then have "active_caller ''HA-assist:B'' r = Some ?c"
    using active_caller_iff [OF r(1), of "''HA-assist:B''" ?c] by (simp add: sample_turn_def)
  then have who: "resolve_invoke_caller 0 (Some r) ?p = (Inr ?c, [], Some r)"
    using keys by (simp add: resolve_invoke_caller_def pop_caller_hint_def hint_session_def caller_param_def)
  have "check ?c ''ping'' [] = None" "''ping'' \<in> set registry" "str_field sample_payload ''command'' = ''ping''"
    by code_simp+
  then have "\<exists>sent. handle_invoke sample_handlers sample_loads 0 ''q'' ''q2'' sample_payload (Some r) ?st = (sent, Some r, ?st')"
    using who by (simp add: handle_invoke_def sample_decoded dispatch_async_def with_caller_def awaited_def
        sample_handlers_def Let_def)
  then obtain sent where run:
    "handle_invoke sample_handlers sample_loads 0 ''q'' ''q2'' sample_payload (Some r) ?st = (sent, Some r, ?st')" by blast
  have "has_key ?p caller_param" "hint_session (dget ?p caller_param) = Some ''HA-assist:B''"
    "AList.delete caller_param ?p = []" "str_field sample_payload ''command'' = ''ping''" by code_simp+
  with hinted_invoke_runs_for_its_turn [OF r(1) run _ sample_decoded] one
  have "snd (dispatch_async sample_handlers ''ping'' [] ?c ?st) = ?st'" by (auto simp: sample_turn_def)
  then have "snd (dispatch_async sample_handlers ''ping'' [] (t_caller (sample_turn ''ha-assist:b'' (Some sample_authz) 1)) ?st) = ?st'"
    by (simp add: sample_turn_def)
  with r(1) run one show ?thesis by blast
qed

text \<open>
  C17. The walk over the parameters accepts exactly the values of at most 64 levels of containers with at
  most 4096 members together.
\<close>

theorem check_params_shape_exact:
  "check_params_shape v = None \<longleftrightarrow> levels v \<le> 64 \<and> members_of v \<le> 4096"
  using check_params_shape_iff by (simp add: max_params_depth_def max_params_members_def)

end
