(* ===== verification/Gateway_Session.thy ===== *)
theory Gateway_Session
  imports Gateway_Invoke Relay_Events
begin

text \<open>
  The connection to the gateway (\<open>gateway_ws.py\<close>, \<open>pairing.py\<close>): pairing state, device tokens, the wait
  before a reconnect, responses found among events, the drain of queued invokes, the event loop. A
  frame is the dictionary it parses to.
\<close>

subsection \<open>Pairing\<close>

datatype pairing_state = Unknown | Pending | Paired | Error

text \<open>
  \<open>float(retryAfterMs)\<close>: a number of milliseconds, or one of the floats that is none. Rationals stand
  for doubles; rounding is left out.
\<close>

datatype retry = No_retry | After rat | After_inf | After_nan

record pairing_error =
  pe_code :: string
  pe_message :: string
  pe_retry :: retry

definition on_connect_response ::
  "bool \<Rightarrow> jval \<Rightarrow> string \<Rightarrow> string \<Rightarrow> retry \<Rightarrow> pairing_state \<Rightarrow> pairing_error option \<times> pairing_state" where
  "on_connect_response ok payload error message retry_after s =
     (if ok then (None, Paired)
      else let code = (if error \<noteq> [] then error else ''UNKNOWN_ERROR'') in
        if code = ''PAIRING_REQUIRED'' then (None, Pending)
        else (Some \<lparr>pe_code = code,
                    pe_message = (if message \<noteq> [] then message else str_or_empty payload),
                    pe_retry = retry_after\<rparr>, Error))"

definition on_reconnect :: "pairing_state \<Rightarrow> pairing_state" where
  "on_reconnect s = (if s = Error then Error else Unknown)"

subsection \<open>The error of a response\<close>

definition decode_error_code :: "jval \<Rightarrow> string option" where
  "decode_error_code raw = (case raw of
     JObj d \<Rightarrow> (case dget d ''code'' of JStr s \<Rightarrow> Some s | _ \<Rightarrow> None) | _ \<Rightarrow> None)"

definition decode_error_message :: "jval \<Rightarrow> string" where
  "decode_error_message raw = (case raw of
     JObj d \<Rightarrow>
       join '' | ''
         ((case dget d ''message'' of JStr m \<Rightarrow> if m \<noteq> [] then [m] else [] | _ \<Rightarrow> []) @
          (if truthy (dget d ''details'') then [''details='' @ py_repr (dget d ''details'')] else []))
   | v \<Rightarrow> (if truthy v then py_str v else []))"

text \<open>Exceptions that end a connection.\<close>

datatype conn_error =
    Value_error string | Attribute_error | Type_exn | Overflow_error | Os_error
  | Pairing_failed pairing_error | Connection_error

definition float_limit :: int where
  "float_limit = 2 ^ 1024 - 2 ^ 970"

definition to_retry :: "jval \<Rightarrow> conn_error + retry" where
  "to_retry v = (case v of
     JInt i \<Rightarrow> if i < 0 then Inr No_retry else if i \<ge> float_limit then Inl Overflow_error else Inr (After (of_int i))
   | JBool b \<Rightarrow> Inr (After (if b then 1 else 0))
   | JFloat (FFin _ r) \<Rightarrow> Inr (if fst r < 0 then No_retry else After (of_int (fst r) / of_int (snd r)))
   | JFloat (FInf neg) \<Rightarrow> Inr (if neg then No_retry else After_inf)
   | JFloat FNaN \<Rightarrow> Inr After_nan
   | _ \<Rightarrow> Inr No_retry)"

definition decode_error_retry_after_ms :: "jval \<Rightarrow> conn_error + retry" where
  "decode_error_retry_after_ms raw = (case raw of
     JObj d \<Rightarrow>
       (case dget d ''retryAfterMs'' of
          JNull \<Rightarrow> (case dget d ''details'' of JObj e \<Rightarrow> to_retry (dget e ''retryAfterMs'') | _ \<Rightarrow> Inr No_retry)
        | v \<Rightarrow> to_retry v)
   | _ \<Rightarrow> Inr No_retry)"

subsection \<open>The wait before a reconnect\<close>

definition reconnect_delay_s :: rat where "reconnect_delay_s = 5"
definition rate_limited_backoff_base_s :: rat where "rate_limited_backoff_base_s = 30"
definition rate_limited_backoff_max_s :: rat where "rate_limited_backoff_max_s = 300"
definition rate_limited_backoff_factor :: rat where "rate_limited_backoff_factor = 2"

text \<open>An exception as the reconnect logic sees it: the retry delay of a pairing error, and its \<open>repr\<close>.\<close>

record failure =
  f_retry :: retry
  f_repr :: string

datatype delay = Seconds rat | Delay_inf | Delay_nan

definition rate_limited :: "failure \<Rightarrow> bool" where
  "rate_limited f \<longleftrightarrow> occurs ''AUTH_RATE_LIMITED'' (f_repr f) \<or> occurs ''wait_then_retry'' (f_repr f)"

definition next_reconnect_delay :: "failure \<Rightarrow> rat \<Rightarrow> delay \<times> rat" where
  "next_reconnect_delay f backoff = (case f_retry f of
     After ms \<Rightarrow> (Seconds (ms / 1000), 0)
   | After_inf \<Rightarrow> (Delay_inf, 0)
   | After_nan \<Rightarrow> (Delay_nan, 0)
   | No_retry \<Rightarrow>
       if \<not> rate_limited f then (Seconds reconnect_delay_s, 0)
       else let b = (if backoff \<le> 0 then rate_limited_backoff_base_s
                     else min (backoff * rate_limited_backoff_factor) rate_limited_backoff_max_s)
            in (Seconds b, b))"

text \<open>
  \<open>_format_retry_at_utc\<close> runs on the delay before the sleep: it raises for a time after the year 9999
  or an infinite delay, and the sleep raises for NaN. An exception there leaves \<open>run\<close>.
\<close>

definition year_10000 :: rat where "year_10000 = 253402300800"

definition delay_survives :: "rat \<Rightarrow> delay \<Rightarrow> bool" where
  "delay_survives now d = (case d of Seconds s \<Rightarrow> now + max 0 s < year_10000 | _ \<Rightarrow> False)"

text \<open>The backoff after a history of failures; a successful connect starts a new history.\<close>

definition backoff_of :: "failure list \<Rightarrow> rat" where
  "backoff_of fs = foldl (\<lambda>b f. snd (next_reconnect_delay f b)) 0 fs"

text \<open>The rate limited failures at the end of a history, without one that named its own delay.\<close>

definition streak :: "failure list \<Rightarrow> nat" where
  "streak fs = length (takeWhile (\<lambda>f. rate_limited f \<and> f_retry f = No_retry) (rev fs))"

definition backoff_after :: "nat \<Rightarrow> rat" where
  "backoff_after k = (if k = 0 then 0 else min (30 * 2 ^ (k - 1)) 300)"

lemma backoff_after_Suc:
  "(if backoff_after k \<le> 0 then 30 else min (backoff_after k * 2) 300) = backoff_after (Suc k)"
proof (cases k)
  case (Suc j)
  have "(1 :: rat) \<le> 2 ^ j" "\<not> (2 :: rat) ^ j \<le> 0" by (simp_all add: not_le)
  with Suc show ?thesis by (auto simp: backoff_after_def min_def)
qed (simp add: backoff_after_def)

lemma backoff_of_streak: "backoff_of fs = backoff_after (streak fs)"
proof (induction fs rule: rev_induct)
  case Nil
  show ?case by (simp add: backoff_of_def streak_def backoff_after_def)
next
  case (snoc f fs)
  have "backoff_of (fs @ [f]) = snd (next_reconnect_delay f (backoff_after (streak fs)))"
    using snoc by (simp add: backoff_of_def)
  moreover have "streak (fs @ [f]) = (if rate_limited f \<and> f_retry f = No_retry then Suc (streak fs) else 0)"
    by (simp add: streak_def)
  ultimately show ?case
    using backoff_after_Suc [of "streak fs"]
    by (auto simp: next_reconnect_delay_def Let_def rate_limited_backoff_base_s_def rate_limited_backoff_factor_def
        rate_limited_backoff_max_s_def backoff_after_def [of 0] split: retry.splits)
qed

text \<open>
  The wait before a reconnect after any history of failures: what the gateway asked for if it named a
  delay, otherwise 5 seconds, or, when rate limited, 30 seconds doubled with every rate limited
  failure in a row and at most 300 seconds.
\<close>

theorem reconnect_delay_exact:
  "fst (next_reconnect_delay f (backoff_of fs)) =
     (case f_retry f of
        No_retry \<Rightarrow> if rate_limited f then Seconds (min (30 * 2 ^ streak fs) 300) else Seconds 5
      | After ms \<Rightarrow> Seconds (ms / 1000)
      | After_inf \<Rightarrow> Delay_inf
      | After_nan \<Rightarrow> Delay_nan)"
  using backoff_after_Suc [of "streak fs"]
  by (auto simp: next_reconnect_delay_def backoff_of_streak Let_def reconnect_delay_s_def
      rate_limited_backoff_base_s_def rate_limited_backoff_factor_def rate_limited_backoff_max_s_def
      backoff_after_def [of "Suc _"] split: retry.splits)

subsection \<open>Device tokens\<close>

text \<open>
  The token files by their paths; \<open>path_for role\<close> is \<open>device_token_path_for\<close>. \<open>ok\<close> says which writes
  succeed; a failed write leaves the old file, since the new one is renamed over it.
\<close>

record gateway_config =
  gc_role :: string
  gc_own_path :: string
  gc_fallback :: bool
  gc_pairing_token :: string

record gateway =
  g_pairing :: pairing_state
  g_token :: string
  g_backoff :: rat

type_synonym token_files = "string \<rightharpoonup> string"

definition persistable_sibling_roles :: "string list" where
  "persistable_sibling_roles = [''node'', ''operator'']"

fun str_entry :: "jval \<times> jval \<Rightarrow> (string \<times> string) list" where
  "str_entry (JStr role, JStr tok) = (if role \<noteq> [] \<and> tok \<noteq> [] then [(role, tok)] else [])"
| "str_entry _ = []"

definition token_entries :: "jval \<Rightarrow> (string \<times> string) list" where
  "token_entries tokens = (case tokens of
     JObj d \<Rightarrow> concat (map (\<lambda>(k, v). str_entry (JStr k, v)) d)
   | JList xs \<Rightarrow> concat (map (\<lambda>x. case x of
         JObj d \<Rightarrow> str_entry (dget d ''role'', dget d ''token'') | _ \<Rightarrow> []) xs)
   | _ \<Rightarrow> [])"

definition atomic_write_token :: "(string \<Rightarrow> bool) \<Rightarrow> string \<Rightarrow> string \<Rightarrow> token_files \<Rightarrow> bool \<times> token_files" where
  "atomic_write_token ok path tok files = (if ok path then (True, files(path \<mapsto> tok)) else (False, files))"

definition persist_dual_role_tokens ::
  "(string \<Rightarrow> string) \<Rightarrow> (string \<Rightarrow> bool) \<Rightarrow> gateway_config \<Rightarrow> jval \<Rightarrow> token_files \<Rightarrow> token_files" where
  "persist_dual_role_tokens path_for ok cfg tokens files =
     fold (\<lambda>(role, tok) fs.
         if role = gc_role cfg \<or> role \<notin> set persistable_sibling_roles then fs
         else snd (atomic_write_token ok (path_for role) tok fs))
       (token_entries tokens) files"

text \<open>The tail of \<open>_recv_connect_response\<close> after an accepted connect.\<close>

definition adopt_tokens ::
  "(string \<Rightarrow> string) \<Rightarrow> (string \<Rightarrow> bool) \<Rightarrow> gateway_config \<Rightarrow> jval \<Rightarrow> gateway \<Rightarrow> token_files \<Rightarrow>
   conn_error option \<times> gateway \<times> token_files" where
  "adopt_tokens path_for ok cfg payload g files = (case payload of
     JNull \<Rightarrow> (None, g, files)
   | JObj p \<Rightarrow>
       (case py_or (dget p ''auth'') (JObj []) of
          JObj auth \<Rightarrow>
            (let tokens = dget auth ''deviceTokens'' in
             case dget auth ''deviceToken'' of
               JStr issued \<Rightarrow>
                 if issued \<noteq> [] \<and> issued \<noteq> g_token g then
                   (let g' = g\<lparr>g_token := issued\<rparr> in
                    case atomic_write_token ok (gc_own_path cfg) issued files of
                      (False, fs) \<Rightarrow> (Some Os_error, g', fs)
                    | (True, fs) \<Rightarrow> (None, g', persist_dual_role_tokens path_for ok cfg tokens fs))
                 else (None, g, persist_dual_role_tokens path_for ok cfg tokens files)
             | _ \<Rightarrow> (None, g, persist_dual_role_tokens path_for ok cfg tokens files))
        | _ \<Rightarrow> (Some Attribute_error, g, files))
   | _ \<Rightarrow> (Some Attribute_error, g, files))"

definition recv_connect_response ::
  "(string \<Rightarrow> string) \<Rightarrow> (string \<Rightarrow> bool) \<Rightarrow> gateway_config \<Rightarrow> string \<Rightarrow> dict \<Rightarrow> gateway \<Rightarrow> token_files \<Rightarrow>
   conn_error option \<times> gateway \<times> token_files" where
  "recv_connect_response path_for ok cfg req_id msg g files =
     (if dget msg ''type'' \<noteq> JStr ''res'' then
        (Some (Value_error (''Expected res frame, got type='' @ py_repr (dget msg ''type''))), g, files)
      else if dget msg ''id'' \<noteq> JStr req_id then
        (Some (Value_error (''Connect response id mismatch: expected '' @ py_repr_str req_id @ '', got '' @
           py_repr (dget msg ''id''))), g, files)
      else if truthy (dget msg ''ok'') then
        adopt_tokens path_for ok cfg (dget msg ''payload'') (g\<lparr>g_pairing := Paired, g_backoff := 0\<rparr>) files
      else
        let raw = dget msg ''error'' in
        case decode_error_retry_after_ms raw of
          Inl e \<Rightarrow> (Some e, g, files)
        | Inr retry_after \<Rightarrow>
            (case on_connect_response False JNull
                (case decode_error_code raw of None \<Rightarrow> [] | Some c \<Rightarrow> c) (decode_error_message raw) retry_after (g_pairing g) of
               (None, s) \<Rightarrow> (None, g\<lparr>g_pairing := s\<rparr>, files)
             | (Some e, s) \<Rightarrow> (Some (Pairing_failed e), g\<lparr>g_pairing := s\<rparr>, files)))"

definition reload_device_token :: "string option \<Rightarrow> gateway \<Rightarrow> gateway" where
  "reload_device_token content g = (case content of
     None \<Rightarrow> g | Some content \<Rightarrow> if strip content \<noteq> [] then g\<lparr>g_token := strip content\<rparr> else g)"

definition token_triggers :: "string list" where
  "token_triggers = [''NOT_PAIRED'', ''PAIRING_REQUIRED'', ''AUTH_TOKEN_MISMATCH'', ''token_mismatch'']"

text \<open>\<open>safe\<close>: the token path resolves inside the data directory and is no symlink; \<open>unlinked\<close>: the unlink succeeds.\<close>

definition maybe_drop_invalid_device_token ::
  "gateway_config \<Rightarrow> bool \<Rightarrow> bool \<Rightarrow> failure \<Rightarrow> gateway \<Rightarrow> token_files \<Rightarrow> gateway \<times> token_files" where
  "maybe_drop_invalid_device_token cfg safe unlinked f g files =
     (if \<not> gc_fallback cfg then (g, files)
      else if \<not> list_ex (\<lambda>t. occurs t (f_repr f)) token_triggers then (g, files)
      else if g_token g = [] then (g, files)
      else if g_token g = gc_pairing_token cfg then (g, files)
      else (g\<lparr>g_token := gc_pairing_token cfg\<rparr>,
            if safe \<and> unlinked then files(gc_own_path cfg := None) else files))"

lemma dual_role_paths:
  "persist_dual_role_tokens path_for ok cfg tokens files p \<noteq> files p \<Longrightarrow>
     \<exists>role \<in> set persistable_sibling_roles. role \<noteq> gc_role cfg \<and> p = path_for role"
proof -
  have "fold (\<lambda>(role, tok) fs. if role = gc_role cfg \<or> role \<notin> set persistable_sibling_roles then fs
         else snd (atomic_write_token ok (path_for role) tok fs)) es files p \<noteq> files p \<Longrightarrow>
     \<exists>role \<in> set persistable_sibling_roles. role \<noteq> gc_role cfg \<and> p = path_for role" for es
  proof (induction es arbitrary: files)
    case (Cons e es)
    obtain role tok where e: "e = (role, tok)" by (cases e)
    let ?fs = "if role = gc_role cfg \<or> role \<notin> set persistable_sibling_roles then files
         else snd (atomic_write_token ok (path_for role) tok files)"
    show ?case
    proof (cases "?fs p = files p")
      case True
      then show ?thesis using Cons.IH [of ?fs] Cons.prems by (simp add: e)
    next
      case False
      then show ?thesis by (auto simp: atomic_write_token_def split: if_splits)
    qed
  qed simp
  then show "persist_dual_role_tokens path_for ok cfg tokens files p \<noteq> files p \<Longrightarrow> ?thesis"
    by (simp add: persist_dual_role_tokens_def)
qed

text \<open>
  C14. A connect response changes token files only when it accepts this very request, and then only the
  file of the own role, when the token is a new one, and the files of the two known sibling roles: a role
  name in the response never names another path.
\<close>

theorem tokens_written_confined:
  assumes "recv_connect_response path_for ok cfg req_id msg g files = (err, g', files')" "files' p \<noteq> files p"
  shows "truthy (dget msg ''ok'') \<and> dget msg ''id'' = JStr req_id \<and>
    (p = gc_own_path cfg \<and> g_token g' \<noteq> g_token g \<or>
     p = path_for ''node'' \<and> gc_role cfg \<noteq> ''node'' \<or> p = path_for ''operator'' \<and> gc_role cfg \<noteq> ''operator'')"
proof -
  let ?g = "g\<lparr>g_pairing := Paired, g_backoff := 0\<rparr>"
  have sibling: "p = path_for ''node'' \<and> gc_role cfg \<noteq> ''node'' \<or> p = path_for ''operator'' \<and> gc_role cfg \<noteq> ''operator''"
    if "persist_dual_role_tokens path_for ok cfg tokens fs p \<noteq> fs p" for tokens fs
    using dual_role_paths [OF that] by (auto simp: persistable_sibling_roles_def)
  have ok: "truthy (dget msg ''ok'') \<and> dget msg ''id'' = JStr req_id \<and>
    adopt_tokens path_for ok cfg (dget msg ''payload'') ?g files = (err, g', files')"
    using assms by (auto simp: recv_connect_response_def Let_def split: if_splits sum.splits prod.splits option.splits)
  then have "p = gc_own_path cfg \<and> g_token g' \<noteq> g_token g \<or>
      (\<exists>tokens fs. persist_dual_role_tokens path_for ok cfg tokens fs p \<noteq> fs p)"
    using assms(2)
    by (auto simp: adopt_tokens_def atomic_write_token_def Let_def split: json.splits if_splits prod.splits)
  with ok sibling show ?thesis by blast
qed

text \<open>
  C23. After a rejected token the pairing token is used, but what the next connect uses is what the token file
  holds: without a successful unlink the reload brings the rejected token back.
\<close>

theorem rejected_token_replaced:
  assumes "gc_fallback cfg" "list_ex (\<lambda>t. occurs t (f_repr f)) token_triggers" "g_token g \<noteq> []"
    "g_token g \<noteq> gc_pairing_token cfg"
    "maybe_drop_invalid_device_token cfg safe unlinked f g files = (g', files')"
  shows "g_token g' = gc_pairing_token cfg \<and>
    g_token (reload_device_token (files' (gc_own_path cfg)) g') =
      (if safe \<and> unlinked \<or> files (gc_own_path cfg) = None then gc_pairing_token cfg
       else if strip (the (files (gc_own_path cfg))) = [] then gc_pairing_token cfg
       else strip (the (files (gc_own_path cfg))))"
proof -
  have "g' = g\<lparr>g_token := gc_pairing_token cfg\<rparr>"
    "files' = (if safe \<and> unlinked then files(gc_own_path cfg := None) else files)"
    using assms by (simp_all add: maybe_drop_invalid_device_token_def)
  then show ?thesis
    by (cases "files (gc_own_path cfg)") (simp_all add: reload_device_token_def)
qed

subsection \<open>A response among events\<close>

datatype incoming = Frame dict | Timeout | Closed

text \<open>
  \<open>_await_res\<close>: \<open>n\<close> frames may still be read; no more input is silence until the timeout. A closed
  connection raises.
\<close>

definition res_correlation_max_frames :: nat where
  "res_correlation_max_frames = 256"

fun await_res :: "nat \<Rightarrow> string \<Rightarrow> incoming list \<Rightarrow> (conn_error + dict option) \<times> incoming list" where
  "await_res n req_id [] = (Inr None, [])"
| "await_res n req_id (x # xs) =
     (if n = 0 then (Inr None, x # xs)
      else case x of
        Timeout \<Rightarrow> (Inr None, xs)
      | Closed \<Rightarrow> (Inl Connection_error, xs)
      | Frame msg \<Rightarrow>
          if dget msg ''type'' = JStr ''res'' then
            (if dget msg ''id'' = JStr req_id then (Inr (Some msg), xs) else await_res (n - 1) req_id xs)
          else if dget msg ''type'' = JStr ''event'' then await_res (n - 1) req_id xs
          else (Inr (Some msg), xs))"

definition answers_req :: "string \<Rightarrow> dict \<Rightarrow> bool" where
  "answers_req req_id msg \<longleftrightarrow>
     (dget msg ''type'' = JStr ''res'' \<longrightarrow> dget msg ''id'' = JStr req_id) \<and> dget msg ''type'' \<noteq> JStr ''event''"

lemma await_res_frame:
  "await_res (Suc n) req_id (Frame msg # xs) =
     (if answers_req req_id msg then (Inr (Some msg), xs) else await_res n req_id xs)"
  by (auto simp: answers_req_def)

lemma await_res_bounded:
  "await_res n req_id xs = (r, ys) \<Longrightarrow>
     \<exists>used. xs = used @ ys \<and> length used \<le> n \<and>
       (\<forall>msg. r = Inr (Some msg) \<longrightarrow> Frame msg \<in> set used \<and> answers_req req_id msg)"
proof (induction xs arbitrary: n)
  case (Cons x xs)
  show ?case
  proof (cases n)
    case 0
    with Cons.prems show ?thesis by (intro exI [of _ "[]"]) auto
  next
    case (Suc m)
    show ?thesis
    proof (cases x)
      case (Frame msg)
      show ?thesis
      proof (cases "answers_req req_id msg")
        case True
        with Cons.prems Suc Frame have "r = Inr (Some msg)" "ys = xs" by (auto simp: await_res_frame simp del: await_res.simps)
        with True Frame Suc show ?thesis by (intro exI [of _ "[Frame msg]"]) simp
      next
        case False
        with Cons.prems Suc Frame have "await_res m req_id xs = (r, ys)" by (simp add: await_res_frame del: await_res.simps)
        from Cons.IH [OF this] obtain used where "xs = used @ ys" "length used \<le> m"
          "\<forall>msg. r = Inr (Some msg) \<longrightarrow> Frame msg \<in> set used \<and> answers_req req_id msg"
          by (elim exE conjE) (rule that)
        with Frame Suc show ?thesis by (intro exI [of _ "Frame msg # used"]) simp
      qed
    qed (use Cons.prems Suc in \<open>auto intro: exI [of _ "[x]"]\<close>)
  qed
qed auto

subsection \<open>The drain of queued invokes\<close>

text \<open>What a loop over a JSON value visits; a number or \<open>True\<close> raises.\<close>

definition iterated :: "jval \<Rightarrow> jval list option" where
  "iterated v = (case v of
     JList xs \<Rightarrow> Some xs
   | JObj d \<Rightarrow> Some (map (\<lambda>(k, _). JStr k) d)
   | JStr s \<Rightarrow> Some (map (\<lambda>c. JStr [c]) s)
   | v \<Rightarrow> if truthy v then None else Some [])"

definition pulled_actions :: "dict \<Rightarrow> jval list option" where
  "pulled_actions payload =
     iterated (case dget payload ''actions'' of
       JNull \<Rightarrow> dget_or payload ''items'' (JList []) | v \<Rightarrow> v)"

fun well_formed_action :: "jval \<Rightarrow> bool" where
  "well_formed_action (JObj a) = (is_nonempty_str (dget a ''id'') \<and> is_nonempty_str (dget a ''command''))"
| "well_formed_action _ = False"

fun action_id :: "jval \<Rightarrow> string" where
  "action_id (JObj a) = (case dget a ''id'' of JStr s \<Rightarrow> s | _ \<Rightarrow> [])"
| "action_id _ = []"

text \<open>Absent parameters are empty ones.\<close>

fun action_payload :: "jval \<Rightarrow> dict" where
  "action_payload (JObj a) =
     (if dget a ''paramsJSON'' \<in> {JNull, JStr []} then AList.update ''paramsJSON'' (JStr ''{}'') a else a)"
| "action_payload _ = []"

definition ack_frame :: "string \<Rightarrow> string \<Rightarrow> jval" where
  "ack_frame req_id aid = make_req req_id ''node.pending.ack'' (JObj [(''ids'', JList [JStr aid])])"

text \<open>\<open>_ack_pending\<close> reads one frame, or waits in vain, or finds the connection closed; all are only logged.\<close>

definition after_ack :: "incoming list \<Rightarrow> incoming list" where
  "after_ack xs = tl xs"

text \<open>
  The loop of \<open>_pull_pending\<close>: \<open>ids\<close> supplies the request ids, three for each action; \<open>clock\<close> the time
  at which the action with a given number is handled.
\<close>

fun drain_actions ::
  "('e, 's) handlers \<Rightarrow> (string \<Rightarrow> json_loads) \<Rightarrow> (nat \<Rightarrow> rat) \<Rightarrow> (nat \<Rightarrow> string) \<Rightarrow> nat \<Rightarrow> jval list \<Rightarrow>
   incoming list \<Rightarrow> relay option \<Rightarrow> 's node_state \<Rightarrow> jval list \<times> incoming list \<times> relay option \<times> 's node_state" where
  "drain_actions handlers loads clock ids k [] xs relay st = ([], xs, relay, st)"
| "drain_actions handlers loads clock ids k (a # acts) xs relay st =
     (if \<not> well_formed_action a then drain_actions handlers loads clock ids (Suc k) acts xs relay st
      else case handle_invoke handlers loads (clock k) (ids (3 * k)) (ids (3 * k + 1)) (action_payload a) relay st of
        (sent, relay', st') \<Rightarrow>
          (case drain_actions handlers loads clock ids (Suc k) acts (after_ack xs) relay' st' of
             (tail, ys, relay'', st'') \<Rightarrow>
               (sent @ ack_frame (ids (3 * k + 2)) (action_id a) # tail, ys, relay'', st'')))"

definition pull_pending ::
  "('e, 's) handlers \<Rightarrow> (string \<Rightarrow> json_loads) \<Rightarrow> (nat \<Rightarrow> rat) \<Rightarrow> (nat \<Rightarrow> string) \<Rightarrow> string \<Rightarrow>
   incoming list \<Rightarrow> relay option \<Rightarrow> 's node_state \<Rightarrow>
   conn_error option \<times> jval list \<times> incoming list \<times> relay option \<times> 's node_state" where
  "pull_pending handlers loads clock ids req_id xs relay st =
     (let pull = make_req req_id ''node.pending.pull'' (JObj []) in
      case await_res res_correlation_max_frames req_id xs of
        (Inl e, ys) \<Rightarrow> (Some e, [pull], ys, relay, st)
      | (Inr None, ys) \<Rightarrow> (None, [pull], ys, relay, st)
      | (Inr (Some msg), ys) \<Rightarrow>
          if \<not> truthy (dget msg ''ok'') then (None, [pull], ys, relay, st)
          else (case dget msg ''payload'' of
              JObj payload \<Rightarrow>
                (case pulled_actions payload of
                   None \<Rightarrow> (Some Type_exn, [pull], ys, relay, st)
                 | Some acts \<Rightarrow>
                     (case drain_actions handlers loads clock ids 0 acts ys relay st of
                        (sent, zs, relay', st') \<Rightarrow> (None, pull # sent, zs, relay', st')))
            | _ \<Rightarrow> (None, [pull], ys, relay, st)))"

lemma well_formed_id:
  "well_formed_action a \<Longrightarrow> str_field (action_payload a) ''id'' = action_id a \<and> action_id a \<noteq> []"
  by (cases a) (auto simp: str_field_def dget_def dget_or_def is_nonempty_str_iff update_conv' split: option.splits)

text \<open>One answer and one acknowledgement for an action, in this order.\<close>

definition answered_and_acked :: "jval \<Rightarrow> jval list \<Rightarrow> bool" where
  "answered_and_acked a out \<longleftrightarrow>
     (\<exists>f ok req_id. out = [f, ack_frame req_id (action_id a)] \<and> answers f (action_payload a) ok)"

lemma drain_actions_answers:
  "drain_actions handlers loads clock ids k acts xs relay st = (sent, ys, relay', st') \<Longrightarrow>
     \<exists>outs. sent = concat outs \<and> list_all2 answered_and_acked (filter well_formed_action acts) outs"
proof (induction acts arbitrary: k xs relay st sent ys relay' st')
  case Nil
  then show ?case by (intro exI [of _ "[]"]) simp
next
  case (Cons a acts)
  show ?case
  proof (cases "well_formed_action a")
    case False
    with Cons show ?thesis by simp
  next
    case True
    obtain out rel s where h:
      "handle_invoke handlers loads (clock k) (ids (3 * k)) (ids (3 * k + 1)) (action_payload a) relay st = (out, rel, s)"
      by (metis prod_cases3)
    obtain tail zs rel' s' where d:
      "drain_actions handlers loads clock ids (Suc k) acts (after_ack xs) rel s = (tail, zs, rel', s')"
      by (metis prod_cases4)
    from Cons.IH [OF d] obtain outs where outs: "tail = concat outs"
      "list_all2 answered_and_acked (filter well_formed_action acts) outs" by blast
    from invoke_answer [OF h] obtain f ok where f: "out = [f]" "answers f (action_payload a) ok" by blast
    have "answered_and_acked a [f, ack_frame (ids (3 * k + 2)) (action_id a)]"
      unfolding answered_and_acked_def using f(2) by blast
    moreover have "sent = concat ([f, ack_frame (ids (3 * k + 2)) (action_id a)] # outs)"
      using Cons.prems True h d f(1) outs(1) by simp
    ultimately show ?thesis
      using outs(2) True
      by (intro exI [of _ "[f, ack_frame (ids (3 * k + 2)) (action_id a)] # outs"]) simp
  qed
qed


text \<open>\<open>_await_approval\<close>; input that ends before the approval raises.\<close>

fun await_approval :: "incoming list \<Rightarrow> gateway \<Rightarrow> conn_error option \<times> gateway \<times> incoming list" where
  "await_approval [] g = (Some Connection_error, g, [])"
| "await_approval (Closed # xs) g = (Some Connection_error, g, xs)"
| "await_approval (Timeout # xs) g = await_approval xs g"
| "await_approval (Frame msg # xs) g =
     (if dget msg ''event'' = JStr ''connect.approved''
      then (None, g\<lparr>g_pairing := snd (on_connect_response True (dget msg ''payload'') [] [] No_retry (g_pairing g))\<rparr>, xs)
      else await_approval xs g)"

subsection \<open>The event loop\<close>

text \<open>
  One frame of \<open>_event_loop\<close>. \<open>relay\<close> is the relay of the runtime; \<open>own\<close> says that this connection
  feeds it, \<open>enabled\<close> that it dispatches invokes.
\<close>

definition loop_frame ::
  "('e, 's) handlers \<Rightarrow> (string \<Rightarrow> json_loads) \<Rightarrow> rat \<Rightarrow> string \<Rightarrow> string \<Rightarrow> bool \<Rightarrow> bool \<Rightarrow> dict \<Rightarrow>
   relay option \<Rightarrow> 's node_state \<Rightarrow> conn_error + jval list \<times> relay option \<times> 's node_state" where
  "loop_frame handlers loads now req_id req_id' own enabled msg relay st =
     (let mine = (if own then relay else None);
          event = dget_or msg ''event'' (JStr [])
      in case (dget msg ''type'' = JStr ''res'', mine) of
           (True, Some r) \<Rightarrow> Inr ([], Some (snd (handle_response msg r)), st)
         | _ \<Rightarrow>
             if dget msg ''type'' \<noteq> JStr ''event'' then Inr ([], relay, st)
             else if event = JStr ''node.invoke.request'' \<and> enabled then
               (case dget_or msg ''payload'' (JObj []) of
                  JObj payload \<Rightarrow> Inr (handle_invoke handlers loads now req_id req_id' payload relay st)
                | _ \<Rightarrow> Inl Attribute_error)
             else (case (mine, event) of
                 (Some r, JStr e) \<Rightarrow>
                   if starts_with e ''session.'' \<or> starts_with e ''chat'' \<or> e = ''agent''
                   then (case handle_event msg r of Inl _ \<Rightarrow> Inl Type_exn | Inr r' \<Rightarrow> Inr ([], Some r', st))
                   else Inr ([], relay, st)
               | _ \<Rightarrow> Inr ([], relay, st)))"

fun event_loop ::
  "('e, 's) handlers \<Rightarrow> (string \<Rightarrow> json_loads) \<Rightarrow> (nat \<Rightarrow> rat) \<Rightarrow> (nat \<Rightarrow> string) \<Rightarrow> bool \<Rightarrow> bool \<Rightarrow> nat \<Rightarrow> dict list \<Rightarrow>
   relay option \<Rightarrow> 's node_state \<Rightarrow> conn_error + jval list \<times> relay option \<times> 's node_state" where
  "event_loop handlers loads clock ids own enabled k [] relay st = Inr ([], relay, st)"
| "event_loop handlers loads clock ids own enabled k (msg # msgs) relay st =
     sum_bind (loop_frame handlers loads (clock k) (ids (2 * k)) (ids (2 * k + 1)) own enabled msg relay st)
       (\<lambda>(sent, relay', st').
          sum_bind (event_loop handlers loads clock ids own enabled (Suc k) msgs relay' st')
            (\<lambda>(sent', relay'', st''). Inr (sent @ sent', relay'', st'')))"

text \<open>An invoke event of the loop gets one answer; every other frame gets none.\<close>

definition invoke_payload :: "dict \<Rightarrow> dict option" where
  "invoke_payload msg =
     (if dget msg ''type'' = JStr ''event'' \<and> dget_or msg ''event'' (JStr []) = JStr ''node.invoke.request''
      then (case dget_or msg ''payload'' (JObj []) of JObj p \<Rightarrow> Some p | _ \<Rightarrow> None) else None)"

lemma loop_frame_answers:
  assumes "loop_frame handlers loads now req_id req_id' own True msg relay st = Inr (sent, relay', st')"
  shows "case invoke_payload msg of
      None \<Rightarrow> sent = [] \<and> st' = st
    | Some p \<Rightarrow> \<exists>f ok. sent = [f] \<and> answers f p ok"
proof (cases "invoke_payload msg")
  case None
  with assms show ?thesis
    by (auto simp: loop_frame_def invoke_payload_def Let_def split: if_splits option.splits json.splits sum.splits bool.splits)
next
  case (Some p)
  then have "handle_invoke handlers loads now req_id req_id' p relay st = (sent, relay', st')"
    using assms by (auto simp: loop_frame_def invoke_payload_def Let_def
        split: if_splits option.splits json.splits bool.splits)
  from invoke_answer [OF this] Some show ?thesis by auto
qed

lemma event_loop_answers:
  "event_loop handlers loads clock ids own True k msgs relay st = Inr (sent, relay', st') \<Longrightarrow>
     list_all2 (\<lambda>p f. \<exists>ok. answers f p ok) (List.map_filter invoke_payload msgs) sent"
proof (induction msgs arbitrary: k relay st sent)
  case (Cons msg msgs)
  then obtain out rel s out' where
    f: "loop_frame handlers loads (clock k) (ids (2 * k)) (ids (2 * k + 1)) own True msg relay st = Inr (out, rel, s)"
    and l: "event_loop handlers loads clock ids own True (Suc k) msgs rel s = Inr (out', relay', st')"
    and sent: "sent = out @ out'"
    by (auto simp: sum_bind_Inr)
  from loop_frame_answers [OF f] Cons.IH [OF l] sent show ?case
    by (auto simp: List.map_filter_simps split: option.splits)
qed (simp add: List.map_filter_simps)

subsection \<open>After a lost connection\<close>

text \<open>
  The handler of \<open>run\<close>: what is slept, and the state of the next attempt; \<open>None\<close> when the delay cannot
  be slept, which ends \<open>run\<close> with an exception.
\<close>

definition after_failure ::
  "gateway_config \<Rightarrow> rat \<Rightarrow> bool \<Rightarrow> bool \<Rightarrow> failure \<Rightarrow> gateway \<Rightarrow> token_files \<Rightarrow> (rat \<times> gateway \<times> token_files) option" where
  "after_failure cfg now safe unlinked f g files =
     (case next_reconnect_delay f (g_backoff g) of
        (d, b) \<Rightarrow>
          (case d of
             Seconds s \<Rightarrow>
               if delay_survives now d then
                 (case maybe_drop_invalid_device_token cfg safe unlinked f (g\<lparr>g_backoff := b\<rparr>) files of
                    (g', files') \<Rightarrow> Some (s, g'\<lparr>g_pairing := on_reconnect (g_pairing g')\<rparr>, files'))
               else None
           | _ \<Rightarrow> None))"

subsection \<open>Instances\<close>

definition sample_config :: gateway_config where
  "sample_config = \<lparr>gc_role = ''node'', gc_own_path = ''device-token.node'', gc_fallback = True, gc_pairing_token = ''boot''\<rparr>"

definition sample_path_for :: "string \<Rightarrow> string" where
  "sample_path_for role = ''device-token.'' @ role"

definition sample_hello :: dict where
  "sample_hello = [(''type'', JStr ''res''), (''id'', JStr ''c1''), (''ok'', JBool True),
     (''payload'', JObj [(''auth'', JObj [(''deviceToken'', JStr ''t1''),
        (''deviceTokens'', JObj [(''operator'', JStr ''t2''), (''../node-key.json'', JStr ''x'')])])])]"

theorem tokens_written_confined_witness:
  "case recv_connect_response sample_path_for (\<lambda>_. True) sample_config ''c1'' sample_hello
        \<lparr>g_pairing = Unknown, g_token = ''boot'', g_backoff = 0\<rparr> Map.empty of
     (err, g', files') \<Rightarrow> err = None \<and> g_pairing g' = Paired \<and> g_token g' = ''t1'' \<and>
       files' ''device-token.node'' = Some ''t1'' \<and> files' ''device-token.operator'' = Some ''t2'' \<and>
       files' (sample_path_for ''../node-key.json'') = None"
proof -
  obtain err g' files' where run: "recv_connect_response sample_path_for (\<lambda>_. True) sample_config ''c1'' sample_hello
        \<lparr>g_pairing = Unknown, g_token = ''boot'', g_backoff = 0\<rparr> Map.empty = (err, g', files')"
    by (metis prod_cases3)
  have "fst (recv_connect_response sample_path_for (\<lambda>_. True) sample_config ''c1'' sample_hello
        \<lparr>g_pairing = Unknown, g_token = ''boot'', g_backoff = 0\<rparr> Map.empty) = None \<and>
     (case snd (recv_connect_response sample_path_for (\<lambda>_. True) sample_config ''c1'' sample_hello
        \<lparr>g_pairing = Unknown, g_token = ''boot'', g_backoff = 0\<rparr> Map.empty) of (g', files') \<Rightarrow>
       g_pairing g' = Paired \<and> g_token g' = ''t1'' \<and>
       files' ''device-token.node'' = Some ''t1'' \<and> files' ''device-token.operator'' = Some ''t2'')"
    by code_simp
  moreover have "files' (sample_path_for ''../node-key.json'') = None"
    using tokens_written_confined [OF run, of "sample_path_for ''../node-key.json''"]
    by (cases "files' (sample_path_for ''../node-key.json'')") (auto simp: sample_path_for_def sample_config_def)
  ultimately show ?thesis using run by simp
qed

theorem rejected_token_replaced_witness:
  "\<exists>g' files'. maybe_drop_invalid_device_token sample_config True True
       \<lparr>f_retry = No_retry, f_repr = ''PairingError('NOT_PAIRED: unknown device')''\<rparr>
       \<lparr>g_pairing = Error, g_token = ''stale'', g_backoff = 0\<rparr> [''device-token.node'' \<mapsto> ''stale''] = (g', files') \<and>
     g_token (reload_device_token (files' ''device-token.node'') g') = ''boot''"
proof -
  let ?f = "\<lparr>f_retry = No_retry, f_repr = ''PairingError('NOT_PAIRED: unknown device')''\<rparr>"
  let ?g = "\<lparr>g_pairing = Error, g_token = ''stale'', g_backoff = 0\<rparr>"
  obtain g' files' where run: "maybe_drop_invalid_device_token sample_config True True ?f ?g
      [''device-token.node'' \<mapsto> ''stale''] = (g', files')"
    by (metis surj_pair)
  have "list_ex (\<lambda>t. occurs t (f_repr ?f)) token_triggers" by code_simp
  with rejected_token_replaced [OF _ this _ _ run] run show ?thesis by (auto simp: sample_config_def)
qed

definition sample_pull :: dict where
  "sample_pull = [(''type'', JStr ''res''), (''id'', JStr ''p1''), (''ok'', JBool True), (''payload'', JObj [(''actions'',
     JList [JObj [(''id'', JStr ''a1''), (''command'', JStr ''ping''), (''paramsJSON'', JNull)],
            JObj [(''id'', JStr ''a2'')], JStr ''junk'',
            JObj [(''id'', JStr ''a3''), (''command'', JStr ''nope''), (''paramsJSON'', JStr ''[]'')]])])]"

definition sample_ids :: "nat \<Rightarrow> string" where
  "sample_ids k = ''q'' @ nat_str k"


end
