(* ===== verification/Ha_Requests.thy ===== *)
theory Ha_Requests
  imports Backup_Store Approval_Gate Simple_Commands Py_Case
begin

text \<open>
  What the handlers of \<open>commands/ha.py\<close> and \<open>commands/ha_config_*.py\<close> run on: requests to Home Assistant
  and the Supervisor, with answers that may depend on everything asked before; the encoding of caller
  text in request paths; and when all requests of a handler satisfy a policy.
\<close>

subsection \<open>Requests and answers\<close>

text \<open>One constructor for each function of \<open>ha_client.py\<close>; a body is \<open>None\<close> or a dictionary.\<close>

datatype ha_request =
    Ha_get string
  | Ha_post string "dict option"
  | Ha_delete string
  | Ha_ws string dict
  | Supervisor_json string
  | Supervisor_text string nat
  | Supervisor_post string

text \<open>
  Exceptions: \<open>HAClientError\<close> with its code and message, a bare \<open>TimeoutError\<close>, the exceptions of
  handler code, and whatever else a client may raise.
\<close>

datatype ha_exn =
    Client_error string string
  | Timed_out
  | Attribute_error
  | Type_error
  | Overflow_error
  | Other_error string

record ha_world =
  sent :: "ha_request list"
  approvals :: used_ids

text \<open>
  The surroundings of a handler: the answers (text for \<open>supervisor_get_text\<close>, JSON for the rest), the
  digest and the clock of the approval check, the caller, and the environment's lifecycle denylist.
\<close>

record ha_env =
  he_json :: "ha_request list \<Rightarrow> ha_request \<Rightarrow> ha_exn + jval"
  he_text :: "ha_request list \<Rightarrow> ha_request \<Rightarrow> ha_exn + string"
  he_digest :: "nat list \<Rightarrow> string"
  he_now :: rat
  he_caller :: "caller option"
  he_denylist :: "string list"

type_synonym 'a ha = "ha_world \<Rightarrow> (ha_exn + 'a) \<times> ha_world"

definition ha_return :: "'a \<Rightarrow> 'a ha" where
  "ha_return a w = (Inr a, w)"

definition ha_raise :: "ha_exn \<Rightarrow> 'a ha" where
  "ha_raise e w = (Inl e, w)"

definition ha_bind :: "'a ha \<Rightarrow> ('a \<Rightarrow> 'b ha) \<Rightarrow> 'b ha" where
  "ha_bind m f w = (case m w of (Inl e, w') \<Rightarrow> (Inl e, w') | (Inr a, w') \<Rightarrow> f a w')"

definition ask :: "ha_env \<Rightarrow> ha_request \<Rightarrow> jval ha" where
  "ask env q w = (he_json env (sent w) q, w\<lparr>sent := sent w @ [q]\<rparr>)"

definition ask_text :: "ha_env \<Rightarrow> string \<Rightarrow> nat \<Rightarrow> string ha" where
  "ask_text env path n w =
     (he_text env (sent w) (Supervisor_text path n), w\<lparr>sent := sent w @ [Supervisor_text path n]\<rparr>)"

text \<open>\<open>try: ... except HAClientError as exc: return _to_error(exc)\<close>, and what follows with the answer.\<close>

definition or_error :: "'a ha \<Rightarrow> ('a \<Rightarrow> jval ha) \<Rightarrow> jval ha" where
  "or_error m k w = (case m w of
     (Inl (Client_error code message), w') \<Rightarrow> (Inr (err_reply code message), w')
   | (Inl e, w') \<Rightarrow> (Inl e, w')
   | (Inr a, w') \<Rightarrow> k a w')"

text \<open>\<open>if invalid is not None: return invalid\<close>.\<close>

definition unless :: "jval option \<Rightarrow> jval ha \<Rightarrow> jval ha" where
  "unless refused k = (case refused of Some r \<Rightarrow> ha_return r | None \<Rightarrow> k)"

text \<open>Outcomes of reads that are gathered; a read that is not done in time counts as a failure.\<close>

fun read_all :: "ha_env \<Rightarrow> string list \<Rightarrow> ha_world \<Rightarrow> (ha_exn + jval) list \<times> ha_world" where
  "read_all env [] w = ([], w)"
| "read_all env (path # paths) w =
     (case ask env (Ha_get path) w of (r, w') \<Rightarrow>
        (case read_all env paths w' of (rs, w'') \<Rightarrow> (r # rs, w'')))"

text \<open>The approval check of a command, with an action where it has one.\<close>

definition consume_marker :: "ha_env \<Rightarrow> string \<Rightarrow> string \<Rightarrow> dict \<Rightarrow> (jval option \<times> dict) ha" where
  "consume_marker env command action params w =
     (case consume_approval_marker (he_digest env) (he_now env)
         \<lparr>gc_caller = he_caller env, gc_command = command, gc_action = action, gc_params = params\<rparr> (approvals w) of
        (r, used) \<Rightarrow> (Inr r, w\<lparr>approvals := used\<rparr>))"

subsection \<open>Caller text in paths\<close>

definition dot_segments :: "string list" where
  "dot_segments = [''.'', ''..'']"

text \<open>\<open>urllib.parse.quote(s, safe)\<close>, by bytes.\<close>

definition quote_piece :: "string \<Rightarrow> nat \<Rightarrow> string" where
  "quote_piece safe b = (if b \<in> set (map of_char safe) then [char_of b] else quote_byte b)"

definition quote_keeping :: "string \<Rightarrow> string \<Rightarrow> string" where
  "quote_keeping safe s = concat (map (quote_piece safe) (utf8_text s))"

definition encode_path_segment :: "string \<Rightarrow> string option" where
  "encode_path_segment v = (if v \<in> set dot_segments then None else Some (quote_keeping '':+.'' v))"

definition encode_query_value :: "string \<Rightarrow> string" where
  "encode_query_value v = quote_keeping '':,'' v"

text \<open>The characters that encoding leaves.\<close>

definition encoded_char :: "string \<Rightarrow> char \<Rightarrow> bool" where
  "encoded_char safe c \<longleftrightarrow> c \<in> set safe \<or> c = CHR ''%'' \<or> unreserved (of_char c)"

lemma unreserved_small: "unreserved b \<Longrightarrow> b < 256"
  by (auto simp: unreserved_def)

lemma hex_upper_unreserved: "n < 16 \<Longrightarrow> unreserved (of_char (hex_upper n))"
  by (auto simp: hex_upper_def unreserved_def)

lemma quote_byte_chars:
  assumes "b < 256" "c \<in> set (quote_byte b)"
  shows "c = CHR ''%'' \<or> unreserved (of_char c)"
proof -
  have "b div 16 < 16" "b mod 16 < 16" using assms(1) by auto
  then have "unreserved (of_char (hex_upper (b div 16)))" "unreserved (of_char (hex_upper (b mod 16)))"
    using hex_upper_unreserved by blast+
  with assms(2) show ?thesis
    by (auto simp: quote_byte_def unreserved_small take_bit_eq_mod split: if_splits)
qed

lemma quote_piece_chars: "b < 256 \<Longrightarrow> c \<in> set (quote_piece safe b) \<Longrightarrow> encoded_char safe c"
  using quote_byte_chars [of b c] by (auto simp: quote_piece_def encoded_char_def split: if_splits)

lemma quote_keeping_chars: "c \<in> set (quote_keeping safe s) \<Longrightarrow> encoded_char safe c"
  using quote_piece_chars [OF utf8_text_bytes [of _ s]] by (auto simp: quote_keeping_def)

lemma unquote_piece:
  assumes "b < 256" "CHR ''%'' \<notin> set safe"
  shows "unquote (quote_piece safe b @ r) = Some (b, r)"
proof (cases "b \<in> set (map of_char safe)")
  case True
  then obtain c where "b = of_char c" "c \<in> set safe" by auto
  with assms(2) show ?thesis by (auto simp: quote_piece_def unquote_def)
next
  case False
  then show ?thesis using unquote_quote [OF assms(1)] by (simp add: quote_piece_def)
qed

lemma quote_piece_nonempty: "quote_piece safe b \<noteq> []"
  by (simp add: quote_piece_def quote_byte_nonempty)

lemma pieces_inj:
  assumes "concat (map (quote_piece safe) bs) = concat (map (quote_piece safe) cs)"
    "CHR ''%'' \<notin> set safe" "\<forall>b \<in> set bs. b < 256" "\<forall>c \<in> set cs. c < 256"
  shows "bs = cs"
  using assms
proof (induction bs arbitrary: cs)
  case Nil
  then show ?case using quote_piece_nonempty by (cases cs) auto
next
  case (Cons b bs)
  then obtain c ds where cs: "cs = c # ds" using quote_piece_nonempty by (cases cs) auto
  have "unquote (quote_piece safe b @ concat (map (quote_piece safe) bs)) =
      unquote (quote_piece safe c @ concat (map (quote_piece safe) ds))"
    using Cons.prems(1) cs by simp
  then show ?case using Cons cs by (simp add: unquote_piece)
qed

lemma quote_keeping_inj: "CHR ''%'' \<notin> set safe \<Longrightarrow> quote_keeping safe s = quote_keeping safe t \<Longrightarrow> s = t"
  unfolding quote_keeping_def
  by (rule utf8_text_inj) (rule pieces_inj, auto simp: utf8_text_bytes)

lemma quote_dots: "quote_keeping '':+.'' ''.'' = ''.''" "quote_keeping '':+.'' ''..'' = ''..''"
  by code_simp+

text \<open>A path segment: no separator, no query, no fragment, and not a relative reference.\<close>

definition path_segment :: "string \<Rightarrow> bool" where
  "path_segment s \<longleftrightarrow> set s \<inter> {CHR ''/'', CHR ''?'', CHR ''#'', CHR '' ''} = {} \<and> s \<notin> set dot_segments"

lemma encoded_segment:
  assumes "encode_path_segment v = Some s"
  shows "path_segment s"
proof -
  have s: "s = quote_keeping '':+.'' v" "v \<notin> set dot_segments"
    using assms by (auto simp: encode_path_segment_def split: if_splits)
  have "\<not> encoded_char '':+.'' c" if "c \<in> {CHR ''/'', CHR ''?'', CHR ''#'', CHR '' ''}" for c
    using that by (auto simp: encoded_char_def unreserved_def)
  then have "set s \<inter> {CHR ''/'', CHR ''?'', CHR ''#'', CHR '' ''} = {}"
    using quote_keeping_chars [of _ "'':+.''" v] s(1) by blast
  moreover have "s \<notin> set dot_segments"
    using s quote_keeping_inj [of "'':+.''" v "''.''"] quote_keeping_inj [of "'':+.''" v "''..''"]
    by (auto simp: dot_segments_def quote_dots)
  ultimately show ?thesis by (simp add: path_segment_def)
qed

lemma encoded_segment_inj: "encode_path_segment v = Some s \<Longrightarrow> encode_path_segment v' = Some s \<Longrightarrow> v = v'"
  by (auto simp: encode_path_segment_def dest: quote_keeping_inj [rotated] split: if_splits)

subsection \<open>Policies on requests\<close>

text \<open>
  A computation \<open>m\<close> only adds requests that satisfy \<open>P\<close>, whatever is answered. The rules follow the
  constructors of handlers.
\<close>

definition sends_only :: "(ha_request \<Rightarrow> bool) \<Rightarrow> 'a ha \<Rightarrow> bool" where
  "sends_only P m \<longleftrightarrow> (\<forall>w. \<exists>new. sent (snd (m w)) = sent w @ new \<and> list_all P new)"

named_theorems sends_rules \<open>introduction rules for policies on requests\<close>

lemma sends_onlyI: "(\<And>w. \<exists>new. sent (snd (m w)) = sent w @ new \<and> list_all P new) \<Longrightarrow> sends_only P m"
  by (simp add: sends_only_def)

lemma sends_onlyE:
  assumes "sends_only P m" "m w = (r, w')"
  obtains new where "sent w' = sent w @ new" "list_all P new"
  using assms unfolding sends_only_def by (metis snd_conv)

lemma sends_return [sends_rules]: "sends_only P (ha_return a)"
  by (simp add: sends_only_def ha_return_def)

lemma sends_raise [sends_rules]: "sends_only P (ha_raise e)"
  by (simp add: sends_only_def ha_raise_def)

lemma sends_ask [sends_rules]: "P q \<Longrightarrow> sends_only P (ask env q)"
  by (simp add: sends_only_def ask_def)

lemma sends_ask_text [sends_rules]: "P (Supervisor_text path n) \<Longrightarrow> sends_only P (ask_text env path n)"
  by (simp add: sends_only_def ask_text_def)

lemma sends_bind [sends_rules]:
  assumes "sends_only P m" "\<And>a. sends_only P (f a)"
  shows "sends_only P (ha_bind m f)"
proof (rule sends_onlyI)
  fix w
  obtain r w' where m: "m w = (r, w')" by fastforce
  obtain new where new: "sent w' = sent w @ new" "list_all P new" by (rule sends_onlyE [OF assms(1) m])
  show "\<exists>new. sent (snd (ha_bind m f w)) = sent w @ new \<and> list_all P new"
  proof (cases r)
    case (Inl e)
    with m new show ?thesis by (simp add: ha_bind_def)
  next
    case (Inr a)
    obtain s w'' where f: "f a w' = (s, w'')" by fastforce
    obtain new' where "sent w'' = sent w' @ new'" "list_all P new'" by (rule sends_onlyE [OF assms(2) f])
    with m new f Inr show ?thesis by (simp add: ha_bind_def)
  qed
qed

lemma or_error_bind:
  "or_error m k w = (case m w of
     (Inl (Client_error code message), w') \<Rightarrow> (Inr (err_reply code message), w') | _ \<Rightarrow> ha_bind m k w)"
  by (auto simp: or_error_def ha_bind_def split: prod.splits sum.splits ha_exn.splits)

lemma sends_or_error [sends_rules]:
  assumes "sends_only P m" "\<And>a. sends_only P (k a)"
  shows "sends_only P (or_error m k)"
proof (rule sends_onlyI)
  fix w
  have "\<exists>new. sent (snd (ha_bind m k w)) = sent w @ new \<and> list_all P new"
    "\<exists>new. sent (snd (m w)) = sent w @ new \<and> list_all P new"
    using sends_bind [OF assms] assms(1) by (simp_all add: sends_only_def)
  then show "\<exists>new. sent (snd (or_error m k w)) = sent w @ new \<and> list_all P new"
    by (auto simp: or_error_bind split: prod.splits sum.splits ha_exn.splits)
qed

lemma sends_unless [sends_rules]: "sends_only P k \<Longrightarrow> sends_only P (unless refused k)"
  by (simp add: unless_def sends_return split: option.split)

lemma sends_if [sends_rules]: "sends_only P m \<Longrightarrow> sends_only P m' \<Longrightarrow> sends_only P (if b then m else m')"
  by simp

lemma sends_marker [sends_rules]: "sends_only P (consume_marker env command action params)"
  by (simp add: sends_only_def consume_marker_def split: prod.split)

lemma read_all_sends:
  "read_all env paths w = (rs, w') \<Longrightarrow> sent w' = sent w @ map Ha_get paths \<and> approvals w' = approvals w \<and>
     length rs = length paths"
  by (induction paths arbitrary: w rs w') (auto simp: ask_def split: prod.splits)

end
