(* ===== verification/Ha_Reads.thy ===== *)
theory Ha_Reads
  imports Ha_Requests Fnmatch
begin

text \<open>
  The reading commands of \<open>commands/ha.py\<close>: their parameters, the request they make, the filters on what
  comes back, and the replies.
\<close>

subsection \<open>Filters\<close>

definition entity_registry_filters :: "string list" where
  "entity_registry_filters = [''domain'', ''platform'', ''area_id'', ''device_id'']"

definition device_registry_filters :: "string list" where
  "device_registry_filters = [''area_id'', ''config_entry_id'']"

definition list_states_filters :: "string list" where
  "list_states_filters = [''domain'', ''entity_filter'']"

definition logbook_params :: "string list" where
  "logbook_params = [''start_time'', ''end_time'', ''entity_id'']"

definition history_time_params :: "string list" where
  "history_time_params = [''start_time'', ''end_time'']"

definition history_extra_params :: "string list" where
  "history_extra_params = [''entity_ids'', ''minimal_response'', ''no_attributes'', ''significant_changes_only'']"

fun filter_value :: "jval \<Rightarrow> string" where
  "filter_value (JStr s) = strip s"
| "filter_value _ = []"

text \<open>A filter that is given must be text that is not blank.\<close>

definition usable :: "dict \<Rightarrow> string \<Rightarrow> bool" where
  "usable params name \<longleftrightarrow> \<not> has_key params name \<or> filter_value (dget params name) \<noteq> []"

definition filter_param_error :: "dict \<Rightarrow> string list \<Rightarrow> string list \<Rightarrow> jval option" where
  "filter_param_error params names extra =
     (let unknown = sorted_set (filter (\<lambda>k. k \<notin> set names \<and> k \<notin> set extra) (map fst params)) in
      if unknown \<noteq> [] then
        Some (err_reply ''INVALID_PARAM''
          (''unknown parameter(s): '' @ join '', '' unknown @ ''; allowed: '' @
           join '', '' (sorted_set (names @ extra))))
      else (case filter (\<lambda>name. \<not> usable params name) names of
              [] \<Rightarrow> None
            | name # _ \<Rightarrow>
                Some (err_reply ''INVALID_PARAM'' (name @ '' must be a non-empty string when supplied''))))"

text \<open>\<open>not wanted or entry.get(field) == wanted\<close>.\<close>

definition field_is :: "dict \<Rightarrow> string \<Rightarrow> string \<Rightarrow> bool" where
  "field_is entry field wanted \<longleftrightarrow> wanted = [] \<or> dget entry field = JStr wanted"

definition under_domain :: "string \<Rightarrow> jval \<Rightarrow> bool" where
  "under_domain pre v = (case v of JStr e \<Rightarrow> starts_with e pre | _ \<Rightarrow> False)"

definition filter_entity_registry :: "jval list \<Rightarrow> dict \<Rightarrow> jval list" where
  "filter_entity_registry entries params =
     (let domain = filter_value (dget params ''domain'');
          platform = filter_value (dget params ''platform'');
          area = filter_value (dget params ''area_id'');
          device = filter_value (dget params ''device_id'');
          pre = (if domain \<noteq> [] then domain @ ''.'' else [])
      in if pre = [] \<and> platform = [] \<and> area = [] \<and> device = [] then entries
         else filter (\<lambda>entry. case entry of
               JObj e \<Rightarrow> (pre = [] \<or> under_domain pre (dget e ''entity_id'')) \<and>
                 field_is e ''platform'' platform \<and> field_is e ''area_id'' area \<and> field_is e ''device_id'' device
             | _ \<Rightarrow> False) entries)"

definition filter_device_registry :: "jval list \<Rightarrow> dict \<Rightarrow> jval list" where
  "filter_device_registry devices params =
     (let area = filter_value (dget params ''area_id'');
          entry_id = filter_value (dget params ''config_entry_id'')
      in if area = [] \<and> entry_id = [] then devices
         else filter (\<lambda>device. case device of
               JObj d \<Rightarrow> field_is d ''area_id'' area \<and>
                 (entry_id = [] \<or> (case dget d ''config_entries'' of
                    JList owning \<Rightarrow> JStr entry_id \<in> set owning | _ \<Rightarrow> False))
             | _ \<Rightarrow> False) devices)"

definition filter_by_domain :: "jval list \<Rightarrow> dict \<Rightarrow> jval list" where
  "filter_by_domain records params =
     (let domain = filter_value (dget params ''domain'') in
      if domain = [] then records
      else filter (\<lambda>r. case r of JObj d \<Rightarrow> dget d ''domain'' = JStr domain | _ \<Rightarrow> False) records)"

text \<open>The filters of \<open>ha.list_states\<close> read a field of every element; an element that has none raises.\<close>

fun keep_states :: "(string \<Rightarrow> bool) \<Rightarrow> jval list \<Rightarrow> ha_exn + jval list" where
  "keep_states p [] = Inr []"
| "keep_states p (JObj d # xs) =
     sum_bind (keep_states p xs) (\<lambda>r. Inr (case dget d ''entity_id'' of
       JStr e \<Rightarrow> if p e then JObj d # r else r | _ \<Rightarrow> r))"
| "keep_states p (_ # xs) = Inl Attribute_error"

subsection \<open>Answers\<close>

definition ha_lift :: "(ha_exn + 'a) \<Rightarrow> 'a ha" where
  "ha_lift r w = (r, w)"

definition bad_response :: "string \<Rightarrow> jval" where
  "bad_response message = err_reply ''HA_BAD_RESPONSE'' message"

definition expect_list :: "string \<Rightarrow> (jval list \<Rightarrow> jval ha) \<Rightarrow> jval \<Rightarrow> jval ha" where
  "expect_list message k raw = (case raw of JList xs \<Rightarrow> k xs | _ \<Rightarrow> ha_return (bad_response message))"

definition expect_dict :: "string \<Rightarrow> (dict \<Rightarrow> jval ha) \<Rightarrow> jval \<Rightarrow> jval ha" where
  "expect_dict message k raw = (case raw of JObj d \<Rightarrow> k d | _ \<Rightarrow> ha_return (bad_response message))"

definition ok_reply :: "dict \<Rightarrow> jval" where
  "ok_reply parts = JObj ((''ok'', JBool True) # parts)"

definition counted :: "string \<Rightarrow> jval list \<Rightarrow> jval" where
  "counted name xs = ok_reply [(''count'', JInt (int (length xs))), (name, JList xs)]"

lemma sends_lift [sends_rules]: "sends_only P (ha_lift r)"
  by (simp add: sends_only_def ha_lift_def)

lemma sends_expect [sends_rules]:
  "(\<And>xs. sends_only P (k xs)) \<Longrightarrow> sends_only P (expect_list message k raw)"
  "(\<And>d. sends_only P (k' d)) \<Longrightarrow> sends_only P (expect_dict message k' raw)"
  by (simp_all add: expect_list_def expect_dict_def sends_return split: json.split)

subsection \<open>States, registries, configuration\<close>

definition handle_ha_list_states :: "ha_env \<Rightarrow> dict \<Rightarrow> jval ha" where
  "handle_ha_list_states env params =
     unless (filter_param_error params list_states_filters [])
       (or_error (ask env (Ha_get ''/api/states''))
         (expect_list ''Expected list from /api/states'' (\<lambda>raw.
            ha_bind (ha_lift (case dget params ''domain'' of
                JStr domain \<Rightarrow> keep_states (\<lambda>e. starts_with e (domain @ ''.'')) raw | _ \<Rightarrow> Inr raw)) (\<lambda>states.
            ha_bind (ha_lift (case dget params ''entity_filter'' of
                JStr pattern \<Rightarrow> keep_states (\<lambda>e. fnmatchcase e pattern) states | _ \<Rightarrow> Inr states)) (\<lambda>states'.
            ha_return (counted ''states'' states'))))))"

definition state_path :: "string \<Rightarrow> string" where
  "state_path segment = ''/api/states/'' @ segment"

definition handle_ha_get_state :: "ha_env \<Rightarrow> dict \<Rightarrow> jval ha" where
  "handle_ha_get_state env params =
     unless (strict_keys_error params [''entity_id''] [])
       (let entity_id = py_str (dget_or params ''entity_id'' (JStr [])) in
        if entity_id = [] then ha_return (err_reply ''MISSING_PARAM'' ''entity_id is required'')
        else case encode_path_segment entity_id of
          None \<Rightarrow> ha_return (err_reply ''INVALID_PARAM'' ''entity_id must not be a bare '.' or '..' path segment'')
        | Some encoded \<Rightarrow>
            or_error (ask env (Ha_get (state_path encoded)))
              (expect_dict ''Expected dict from /api/states/<entity_id>''
                (\<lambda>state. ha_return (ok_reply [(''state'', JObj state)]))))"

definition handle_ha_list_areas :: "ha_env \<Rightarrow> dict \<Rightarrow> jval ha" where
  "handle_ha_list_areas env params =
     unless (strict_keys_error params [] [])
       (or_error (ask env (Ha_ws ''config/area_registry/list'' []))
         (expect_list ''Expected list from area_registry/list'' (\<lambda>xs. ha_return (counted ''areas'' xs))))"

definition handle_ha_list_devices :: "ha_env \<Rightarrow> dict \<Rightarrow> jval ha" where
  "handle_ha_list_devices env params =
     unless (filter_param_error params device_registry_filters [])
       (or_error (ask env (Ha_ws ''config/device_registry/list'' []))
         (expect_list ''Expected list from device_registry/list''
           (\<lambda>xs. ha_return (counted ''devices'' (filter_device_registry xs params)))))"

definition handle_ha_list_services :: "ha_env \<Rightarrow> dict \<Rightarrow> jval ha" where
  "handle_ha_list_services env params =
     unless (filter_param_error params [''domain''] [])
       (or_error (ask env (Ha_get ''/api/services''))
         (expect_list ''Expected list from /api/services''
           (\<lambda>xs. ha_return (counted ''services'' (filter_by_domain xs params)))))"

definition handle_ha_get_config :: "ha_env \<Rightarrow> dict \<Rightarrow> jval ha" where
  "handle_ha_get_config env params =
     unless (strict_keys_error params [] [])
       (or_error (ask env (Ha_get ''/api/config''))
         (expect_dict ''Expected dict from /api/config'' (\<lambda>d. ha_return (ok_reply [(''config'', JObj d)]))))"

definition handle_ha_list_events :: "ha_env \<Rightarrow> dict \<Rightarrow> jval ha" where
  "handle_ha_list_events env params =
     unless (strict_keys_error params [] [])
       (or_error (ask env (Ha_get ''/api/events''))
         (expect_list ''Expected list from /api/events'' (\<lambda>xs. ha_return (counted ''events'' xs))))"

definition handle_ha_list_config_entries :: "ha_env \<Rightarrow> dict \<Rightarrow> jval ha" where
  "handle_ha_list_config_entries env params =
     unless (filter_param_error params [''domain''] [])
       (or_error (ask env (Ha_get ''/api/config/config_entries/entry''))
         (expect_list ''Expected list from /api/config/config_entries/entry''
           (\<lambda>xs. ha_return (counted ''entries'' (filter_by_domain xs params)))))"

definition handle_ha_list_entity_registry :: "ha_env \<Rightarrow> dict \<Rightarrow> jval ha" where
  "handle_ha_list_entity_registry env params =
     unless (filter_param_error params entity_registry_filters [])
       (or_error (ask env (Ha_ws ''config/entity_registry/list'' []))
         (expect_list ''Expected list from entity_registry/list''
           (\<lambda>xs. ha_return (counted ''entities'' (filter_entity_registry xs params)))))"

definition handle_ha_check_config :: "ha_env \<Rightarrow> dict \<Rightarrow> jval ha" where
  "handle_ha_check_config env params =
     unless (strict_keys_error params [] [])
       (or_error (ask env (Ha_post ''/api/config/core/check_config'' None))
         (expect_dict ''Expected dict from /api/config/core/check_config''
           (\<lambda>d. ha_return (ok_reply [(''result'', dget_or d ''result'' (JStr ''unknown'')),
                (''errors'', dget d ''errors''), (''warnings'', dget d ''warnings'')]))))"

subsection \<open>Logs\<close>

text \<open>\<open>str.splitlines\<close> below U+0100; after a carriage return a line feed belongs to it.\<close>

definition line_break :: "char \<Rightarrow> bool" where
  "line_break c \<longleftrightarrow> of_char c \<in> set [10, 11, 12, 13, 28, 29, 30, 133 :: nat]"

fun split_lines_from :: "string \<Rightarrow> bool \<Rightarrow> string \<Rightarrow> string list" where
  "split_lines_from line after_cr [] = (if line = [] then [] else [rev line])"
| "split_lines_from line after_cr (c # s) =
     (if after_cr \<and> c = char_of (10 :: nat) then split_lines_from line False s
      else if line_break c then rev line # split_lines_from [] (c = char_of (13 :: nat)) s
      else split_lines_from (c # line) False s)"

definition split_lines :: "string \<Rightarrow> string list" where
  "split_lines s = split_lines_from [] False s"

text \<open>\<open>xs[-n:]\<close> for positive \<open>n\<close>, and the limits of the number of lines.\<close>

definition last_lines :: "nat \<Rightarrow> string list \<Rightarrow> string list" where
  "last_lines n xs = drop (length xs - n) xs"

definition clamp_lines :: "int \<Rightarrow> nat" where
  "clamp_lines n = nat (max 1 (min n 5000))"

definition log_reply :: "dict \<Rightarrow> string list \<Rightarrow> jval" where
  "log_reply parts xs =
     ok_reply (parts @ [(''lines'', JInt (int (length xs))), (''log'', JStr (join [char_of (10 :: nat)] xs))])"

definition supervisor_text_max_bytes :: nat where
  "supervisor_text_max_bytes = 1048576"

definition handle_ha_core_logs :: "ha_env \<Rightarrow> dict \<Rightarrow> jval ha" where
  "handle_ha_core_logs env params =
     unless (strict_keys_error params [''lines''] [])
       (case dget_or params ''lines'' (JInt 200) of
          JInt n \<Rightarrow>
            or_error (ask_text env ''/core/logs'' supervisor_text_max_bytes)
              (\<lambda>body. ha_return (log_reply [] (last_lines (clamp_lines n) (split_lines body))))
        | _ \<Rightarrow> ha_return (err_reply ''INVALID_PARAM'' ''lines must be an integer''))"

subsection \<open>Logbook and history\<close>

definition max_entity_state_fetches :: nat where
  "max_entity_state_fetches = 10"

definition invalid_start :: jval where
  "invalid_start = err_reply ''INVALID_PARAM'' ''start_time must not be a bare '.' or '..' path segment''"

text \<open>\<open>base/<start_time>\<close> when a start is given; \<open>None\<close> for a dot segment.\<close>

definition timed_path :: "string \<Rightarrow> dict \<Rightarrow> string option" where
  "timed_path base params =
     (let start = py_str (dget_or params ''start_time'' (JStr [])) in
      if start = [] then Some base else map_option (\<lambda>s. base @ ''/'' @ s) (encode_path_segment start))"

definition query_part :: "string \<Rightarrow> string \<Rightarrow> string" where
  "query_part name v = name @ ''='' @ encode_query_value v"

definition end_query :: "dict \<Rightarrow> string list" where
  "end_query params =
     (let t = py_str (dget_or params ''end_time'' (JStr [])) in
      if t = [] then [] else [query_part ''end_time'' t])"

definition with_query :: "string \<Rightarrow> string list \<Rightarrow> string" where
  "with_query path parts = (if parts = [] then path else path @ ''?'' @ join ''&'' parts)"

definition handle_ha_logbook :: "ha_env \<Rightarrow> dict \<Rightarrow> jval ha" where
  "handle_ha_logbook env params =
     unless (filter_param_error params logbook_params [])
       (case timed_path ''/api/logbook'' params of
          None \<Rightarrow> ha_return invalid_start
        | Some path \<Rightarrow>
            (let entity = py_str (dget_or params ''entity_id'' (JStr []));
                 parts = end_query params @ (if entity = [] then [] else [query_part ''entity'' entity])
             in or_error (ask env (Ha_get (with_query path parts)))
                  (expect_list ''Expected list from /api/logbook'' (\<lambda>xs. ha_return (counted ''entries'' xs)))))"

definition history_ids :: "dict \<Rightarrow> jval + string list" where
  "history_ids params =
     (if \<not> has_key params ''entity_ids'' then Inr []
      else case dget params ''entity_ids'' of
        JList xs \<Rightarrow>
          if xs \<noteq> [] \<and> list_all (\<lambda>x. filter_value x \<noteq> []) xs
          then Inr (map (\<lambda>x. case x of JStr e \<Rightarrow> e | _ \<Rightarrow> []) xs)
          else Inl (err_reply ''INVALID_PARAM'' ''entity_ids must be a non-empty list of non-empty strings'')
      | _ \<Rightarrow> Inl (err_reply ''INVALID_PARAM'' ''entity_ids must be a non-empty list of non-empty strings''))"

definition ids_query :: "string list \<Rightarrow> string list" where
  "ids_query ids = (if ids = [] then [] else [query_part ''filter_entity_id'' (join '','' ids)])"

text \<open>The flags in their order; one that is no boolean ends the call.\<close>

fun history_flags :: "string list \<Rightarrow> dict \<Rightarrow> jval + string list" where
  "history_flags [] params = Inr []"
| "history_flags (flag # flags) params =
     (if has_key params flag \<and> \<not> is_bool (dget params flag) then
        Inl (err_reply ''INVALID_PARAM'' (flag @ '' must be a boolean''))
      else sum_bind (history_flags flags params)
        (\<lambda>rest. Inr ((if truthy (dget params flag) then [flag] else []) @ rest)))"

text \<open>The requested ids that Home Assistant answers 404 for, among the first ten that can be encoded.\<close>

definition probes :: "string list \<Rightarrow> (string \<times> string) list" where
  "probes ids =
     concat (map (\<lambda>e. case encode_path_segment e of None \<Rightarrow> [] | Some s \<Rightarrow> [(e, state_path s)])
       (take max_entity_state_fetches ids))"

definition not_found :: "ha_exn + jval \<Rightarrow> bool" where
  "not_found r = (case r of Inl (Client_error code _) \<Rightarrow> code = ''HA_NOT_FOUND'' | _ \<Rightarrow> False)"

definition missing_entity_ids :: "ha_env \<Rightarrow> string list \<Rightarrow> string list ha" where
  "missing_entity_ids env ids w =
     (case read_all env (map snd (probes ids)) w of
        (rs, w') \<Rightarrow> (Inr (map fst (filter (\<lambda>(e, r). not_found r) (zip (map fst (probes ids)) rs))), w'))"

definition history_answer :: "ha_env \<Rightarrow> string list \<Rightarrow> jval list \<Rightarrow> jval ha" where
  "history_answer env ids raw =
     (if raw = [] \<and> ids \<noteq> [] then
        ha_bind (missing_entity_ids env ids) (\<lambda>missing.
          ha_return (if missing \<noteq> [] then err_reply ''HA_NOT_FOUND'' (''unknown entity_id(s): '' @ join '', '' missing)
                     else counted ''history'' raw))
      else ha_return (counted ''history'' raw))"

definition handle_ha_history :: "ha_env \<Rightarrow> dict \<Rightarrow> jval ha" where
  "handle_ha_history env params =
     unless (filter_param_error params history_time_params history_extra_params)
       (case timed_path ''/api/history/period'' params of
          None \<Rightarrow> ha_return invalid_start
        | Some path \<Rightarrow>
            (case history_ids params of
               Inl e \<Rightarrow> ha_return e
             | Inr ids \<Rightarrow>
                 (case history_flags [''minimal_response'', ''no_attributes'', ''significant_changes_only''] params of
                    Inl e \<Rightarrow> ha_return e
                  | Inr flags \<Rightarrow>
                      (let parts = end_query params @
                         ids_query ids @ flags
                       in or_error (ask env (Ha_get (with_query path parts)))
                            (expect_list ''Expected list from /api/history/period'' (history_answer env ids))))))"

subsection \<open>Automations\<close>

definition max_automation_filter_length :: nat where
  "max_automation_filter_length = 256"

text \<open>A filter of \<open>ha.list_automations\<close>: absent (\<open>[]\<close>), or text within the limit.\<close>

definition entity_filter_error :: "jval \<Rightarrow> jval option" where
  "entity_filter_error v = (case v of
     JNull \<Rightarrow> None
   | JStr f \<Rightarrow>
       if f = [] then Some (err_reply ''INVALID_PARAM'' ''entity_filter must be a non-empty string'')
       else if \<not> starts_with f ''automation.'' then
         Some (err_reply ''INVALID_PARAM'' ''entity_filter must be scoped to the 'automation.' domain'')
       else if length f > max_automation_filter_length then
         Some (err_reply ''INVALID_PARAM'' ''entity_filter exceeds 256 chars'')
       else None
   | _ \<Rightarrow> Some (err_reply ''INVALID_PARAM'' ''entity_filter must be a non-empty string''))"

definition state_filter_error :: "jval \<Rightarrow> jval option" where
  "state_filter_error v = (case v of
     JNull \<Rightarrow> None
   | JStr f \<Rightarrow>
       if f = [] then Some (err_reply ''INVALID_PARAM'' ''state_filter must be a non-empty string'')
       else if length f > max_automation_filter_length then
         Some (err_reply ''INVALID_PARAM'' ''state_filter exceeds 256 chars'')
       else None
   | _ \<Rightarrow> Some (err_reply ''INVALID_PARAM'' ''state_filter must be a non-empty string''))"

definition selected_automation :: "jval \<Rightarrow> jval \<Rightarrow> jval \<Rightarrow> bool" where
  "selected_automation entity_filter state_filter state = (case state of
     JObj d \<Rightarrow>
       (case dget d ''entity_id'' of
          JStr e \<Rightarrow>
            starts_with e ''automation.'' \<and>
            (case entity_filter of JStr f \<Rightarrow> fnmatchcase e f | _ \<Rightarrow> True) \<and>
            (state_filter = JNull \<or> dget d ''state'' = state_filter)
        | _ \<Rightarrow> False)
   | _ \<Rightarrow> False)"

text \<open>\<open>(auto.get("attributes") or {}).get("id")\<close>; attributes that are no dictionary raise.\<close>

definition automation_id :: "dict \<Rightarrow> ha_exn + jval" where
  "automation_id auto = (case dget auto ''attributes'' of
     JObj a \<Rightarrow> Inr (dget a ''id'')
   | v \<Rightarrow> if truthy v then Inl Attribute_error else Inr JNull)"

fun traces_of :: "ha_exn + jval \<Rightarrow> ha_exn + jval" where
  "traces_of (Inl (Client_error _ _)) = Inr (JList [])"
| "traces_of (Inl e) = Inl e"
| "traces_of (Inr (JList xs)) = Inr (JList xs)"
| "traces_of (Inr _) = Inr (JList [])"

definition trace_list :: "ha_env \<Rightarrow> jval \<Rightarrow> jval ha" where
  "trace_list env aid w =
     (if \<not> truthy aid then (Inr (JList []), w)
      else case ask env (Ha_ws ''trace/list'' [(''domain'', JStr ''automation''), (''item_id'', JStr (py_str aid))]) w of
        (r, w') \<Rightarrow> (traces_of r, w'))"

fun add_traces :: "ha_env \<Rightarrow> jval list \<Rightarrow> jval list ha" where
  "add_traces env [] = ha_return []"
| "add_traces env (state # states) =
     (case state of
        JObj auto \<Rightarrow>
          ha_bind (ha_lift (automation_id auto)) (\<lambda>aid.
          ha_bind (trace_list env aid) (\<lambda>traces.
          ha_bind (add_traces env states) (\<lambda>rest.
          ha_return (JObj (AList.update ''traces'' traces auto) # rest))))
      | _ \<Rightarrow> ha_raise Attribute_error)"

definition handle_ha_list_automations :: "ha_env \<Rightarrow> dict \<Rightarrow> jval ha" where
  "handle_ha_list_automations env params =
     unless (strict_keys_error params [''include_traces'', ''entity_filter'', ''state_filter''] [])
       (case dget_or params ''include_traces'' (JBool False) of
          JBool include_traces \<Rightarrow>
            unless (entity_filter_error (dget params ''entity_filter''))
            (unless (state_filter_error (dget params ''state_filter''))
              (or_error (ask env (Ha_get ''/api/states''))
                (expect_list ''Expected list from /api/states'' (\<lambda>raw.
                   let states = filter (selected_automation (dget params ''entity_filter'')
                         (dget params ''state_filter'')) raw
                   in ha_bind (if include_traces then add_traces env states else ha_return states)
                        (\<lambda>xs. ha_return (counted ''automations'' xs))))))
        | _ \<Rightarrow> ha_return (err_reply ''INVALID_PARAM'' ''include_traces must be a bool''))"

subsection \<open>Calendars\<close>

definition calendar_ids :: "jval \<Rightarrow> bool" where
  "calendar_ids v = (case v of
     JStr s \<Rightarrow> s \<noteq> [] | JList xs \<Rightarrow> xs \<noteq> [] \<and> list_all is_nonempty_str xs | _ \<Rightarrow> False)"

definition handle_ha_calendar_get_events :: "ha_env \<Rightarrow> dict \<Rightarrow> jval ha" where
  "handle_ha_calendar_get_events env params =
     unless (strict_keys_error params [''entity_id'', ''start_date_time'', ''end_date_time''] [])
       (if \<not> calendar_ids (dget params ''entity_id'') then
          ha_return (err_reply ''INVALID_PARAM'' ''entity_id must be a non-empty string or list of strings'')
        else if \<not> is_nonempty_str (dget params ''start_date_time'') then
          ha_return (err_reply ''MISSING_PARAM'' ''start_date_time is required'')
        else if \<not> is_nonempty_str (dget params ''end_date_time'') then
          ha_return (err_reply ''MISSING_PARAM'' ''end_date_time is required'')
        else or_error (ask env (Ha_post ''/api/services/calendar/get_events?return_response''
            (Some [(''entity_id'', dget params ''entity_id''), (''start_date_time'', dget params ''start_date_time''),
                   (''end_date_time'', dget params ''end_date_time'')])))
          (expect_dict ''Expected dict from calendar.get_events'' (\<lambda>d. ha_return (ok_reply [(''response'', JObj d)]))))"

end
