(* ===== verification/Ha_Services.thy ===== *)
theory Ha_Services
  imports Ha_Reads Effect_Policy Code_Masking
begin

text \<open>
  The service calls of \<open>commands/ha.py\<close>: \<open>ha.call_service\<close>, the two light commands, the reload of the
  core configuration and the installation of updates. The strings of the model can all be encoded, so
  \<open>_unencodable_target\<close> has no case in it.
\<close>

subsection \<open>Parameters of a service call\<close>

definition call_service_params :: "string list" where
  "call_service_params = [''domain'', ''service'', ''target'', ''data'', ''service_data'']"

definition call_service_target_params :: "string list" where
  "call_service_target_params = [''entity_id'', ''area_id'', ''device_id'']"

text \<open>\<open>left == right\<close> for values that are not both dictionaries or both lists.\<close>

fun scalar_eq :: "jval \<Rightarrow> jval \<Rightarrow> bool" where
  "scalar_eq JNull JNull = True"
| "scalar_eq (JBool a) (JBool b) = (a = b)"
| "scalar_eq (JStr a) (JStr b) = (a = b)"
| "scalar_eq (JFloat (FInf a)) (JFloat (FInf b)) = (a = b)"
| "scalar_eq a b = num_eq a b"

fun service_data_equal :: "jval \<Rightarrow> jval \<Rightarrow> bool"
  and service_data_equal_list :: "jval list \<Rightarrow> jval list \<Rightarrow> bool"
  and service_data_equal_dict :: "dict \<Rightarrow> dict \<Rightarrow> bool"
where
  "service_data_equal (JObj d) (JObj e) = (set (map fst d) = set (map fst e) \<and> service_data_equal_dict d e)"
| "service_data_equal (JList xs) (JList ys) = (length xs = length ys \<and> service_data_equal_list xs ys)"
| "service_data_equal a b = (is_bool a = is_bool b \<and> scalar_eq a b)"
| "service_data_equal_list (x # xs) (y # ys) = (service_data_equal x y \<and> service_data_equal_list xs ys)"
| "service_data_equal_list _ _ = True"
| "service_data_equal_dict [] e = True"
| "service_data_equal_dict ((k, v) # d) e = (service_data_equal v (dget e k) \<and> service_data_equal_dict d e)"

definition canonical_service_component :: "dict \<Rightarrow> string \<Rightarrow> string option" where
  "canonical_service_component params key = (case dget params key of
     JStr raw \<Rightarrow> if service_name (strip raw) then Some (strip raw) else None
   | _ \<Rightarrow> None)"

lemma canonical_component: "canonical_service_component params key = service_part params key"
  by (auto simp: canonical_service_component_def service_part_def service_name_def Let_def split: json.split)

definition target_error :: "jval \<Rightarrow> jval option" where
  "target_error target = (case target of
     JNull \<Rightarrow> None
   | JObj t \<Rightarrow>
       (let unknown = sorted_set (filter (\<lambda>k. k \<notin> set call_service_target_params) (map fst t));
            nulls = sort (map fst (filter (\<lambda>(k, v). v = JNull) t))
        in if unknown \<noteq> [] then Some (err_reply ''INVALID_PARAM'' (''unknown target parameter(s): '' @ join '', '' unknown))
           else if nulls \<noteq> [] then Some (err_reply ''INVALID_PARAM''
             (''target parameter(s) must not be null; omit instead: '' @ join '', '' nulls))
           else (case dget t ''entity_id'' of
                JList xs \<Rightarrow> if list_all is_nonempty_str xs then None
                  else Some (err_reply ''INVALID_PARAM'' ''entity_id list members must be non-empty strings'')
              | _ \<Rightarrow> None))
   | _ \<Rightarrow> Some (err_reply ''INVALID_PARAM'' ''target must be a dict''))"

definition data_error :: "dict \<Rightarrow> jval option" where
  "data_error params =
     (case filter (\<lambda>k. has_key params k \<and> \<not> is_dict (dget params k)) [''data'', ''service_data''] of
        k # _ \<Rightarrow> Some (err_reply ''INVALID_PARAM'' (k @ '' must be a dict''))
      | [] \<Rightarrow>
          if has_key params ''data'' \<and> has_key params ''service_data'' \<and>
             \<not> service_data_equal (dget params ''data'') (dget params ''service_data'')
          then Some (err_reply ''INVALID_PARAM'' ''data and service_data must agree when both are supplied'')
          else None)"

text \<open>\<open>body.update(d)\<close>, for a dictionary that is not empty.\<close>

definition merged :: "dict \<Rightarrow> jval \<Rightarrow> dict" where
  "merged body v = (case v of JObj d \<Rightarrow> fold (\<lambda>(k, x). AList.update k x) d body | _ \<Rightarrow> body)"

definition or_none :: "dict \<Rightarrow> dict option" where
  "or_none body = (if body = [] then None else Some body)"

subsection \<open>States after a call\<close>

definition state_paths :: "string list \<Rightarrow> string list" where
  "state_paths ids = map snd (probes ids)"

definition fetch_entity_states :: "ha_env \<Rightarrow> string list \<Rightarrow> jval list ha" where
  "fetch_entity_states env ids w =
     (case read_all env (state_paths ids) w of
        (rs, w') \<Rightarrow> (Inr (concat (map (\<lambda>r. case r of Inr (JObj d) \<Rightarrow> [JObj d] | _ \<Rightarrow> []) rs)), w'))"

definition target_ids :: "dict \<Rightarrow> string list" where
  "target_ids target = (case dget target ''entity_id'' of
     JStr e \<Rightarrow> if e \<noteq> [] then [e] else []
   | JList xs \<Rightarrow> concat (map (\<lambda>x. case x of JStr e \<Rightarrow> if e \<noteq> [] then [e] else [] | _ \<Rightarrow> []) xs)
   | _ \<Rightarrow> [])"

definition observed_reply :: "jval list \<Rightarrow> bool \<Rightarrow> nat \<Rightarrow> jval" where
  "observed_reply states full count =
     ok_reply [(''changed_states'', JList states), (''changed_states_complete'', JBool full),
       (''targeted_entity_count'', JInt (int count))]"

definition with_observed_states :: "ha_env \<Rightarrow> jval list \<Rightarrow> dict \<Rightarrow> jval ha" where
  "with_observed_states env changed target =
     (if changed \<noteq> [] then ha_return (ok_reply [(''changed_states'', JList changed)])
      else
        let ids = target_ids target; count = length ids in
        if ids = [] then ha_return (observed_reply [] False 0)
        else ha_bind (fetch_entity_states env ids) (\<lambda>states.
          let composite = truthy (dget target ''area_id'') \<or> truthy (dget target ''device_id'') in
          ha_return (observed_reply states
            (length states = count \<and> count \<le> max_entity_state_fetches \<and> \<not> composite) count)))"

subsection \<open>\<open>ha.call_service\<close>\<close>

definition service_path :: "string \<Rightarrow> string \<Rightarrow> string" where
  "service_path domain service = ''/api/services/'' @ domain @ ''/'' @ service"

definition target_of :: "dict \<Rightarrow> dict" where
  "target_of params = (case dget params ''target'' of JObj t \<Rightarrow> t | _ \<Rightarrow> [])"

definition call_service_refusal :: "dict \<Rightarrow> jval option" where
  "call_service_refusal params =
     (case strict_keys_error params call_service_params [] of
        Some e \<Rightarrow> Some e
      | None \<Rightarrow>
          if dget_or params ''domain'' (JStr []) = JStr [] then Some (err_reply ''MISSING_PARAM'' ''domain is required'')
          else if dget_or params ''service'' (JStr []) = JStr [] then Some (err_reply ''MISSING_PARAM'' ''service is required'')
          else if canonical_service_component params ''domain'' = None \<or> canonical_service_component params ''service'' = None
          then Some (err_reply ''INVALID_PARAM'' ''domain and service must be lowercase [a-z0-9_]+ names'')
          else (case target_error (dget params ''target'') of
                  Some e \<Rightarrow> Some e
                | None \<Rightarrow> data_error params))"

definition service_body :: "dict \<Rightarrow> dict" where
  "service_body params =
     merged (merged [] (dget_or params ''data'' (dget params ''service_data''))) (dget params ''target'')"

definition handle_ha_call_service :: "ha_env \<Rightarrow> dict \<Rightarrow> jval ha" where
  "handle_ha_call_service env params =
     unless (call_service_refusal params)
       (let domain = the (canonical_service_component params ''domain'');
            service = the (canonical_service_component params ''service'')
        in case interim_service_denial domain service of
             Some denial \<Rightarrow>
               ha_return (err_reply ''SERVICE_DENIED''
                 (''ha.call_service denies '' @ domain @ ''.'' @ service @ '': '' @ denial))
           | None \<Rightarrow>
               (case normalise_service_code domain (service_body params) of
                  None \<Rightarrow> ha_return (err_reply ''INVALID_PARAM'' ''code must be a string or a finite number'')
                | Some body \<Rightarrow>
                    or_error (ask env (Ha_post (service_path domain service) (or_none body)))
                      (expect_list ''Expected changed-state list from service call''
                        (\<lambda>changed. with_observed_states env changed (target_of params)))))"

subsection \<open>Lights\<close>

definition light_target_keys :: "string list" where
  "light_target_keys = [''entity_id'', ''area_id'', ''device_id'']"

definition light_on_keys :: "string list" where
  "light_on_keys = light_target_keys @ [''brightness'', ''brightness_pct'', ''color_temp_kelvin'', ''rgb_color'', ''transition'']"

definition light_off_keys :: "string list" where
  "light_off_keys = light_target_keys @ [''transition'']"

definition build_light_target :: "dict \<Rightarrow> string + dict" where
  "build_light_target params =
     (let e = dget params ''entity_id''; a = dget params ''area_id''; d = dget params ''device_id'';
          entity = (if e = JNull then [] else [(''entity_id'', e)]);
          area = (if a = JNull then [] else [(''area_id'', a)]);
          device = (if d = JNull then [] else [(''device_id'', d)])
      in if e = JNull \<and> a = JNull \<and> d = JNull then Inl ''one of entity_id, area_id, or device_id is required''
         else if e \<noteq> JNull \<and> \<not> is_str e \<and> \<not> is_list e then Inl ''entity_id must be a string or list of strings''
         else (case e of
                 JList xs \<Rightarrow>
                   if list_all is_nonempty_str xs then Inr (entity @ area @ device)
                   else Inl ''entity_id list members must be non-empty strings''
               | _ \<Rightarrow> Inr (entity @ area @ device)))"

text \<open>The given ones among some parameters, in a fixed order, and the target over them.\<close>

definition light_body :: "string list \<Rightarrow> dict \<Rightarrow> dict \<Rightarrow> dict" where
  "light_body keys params target =
     merged (map (\<lambda>k. (k, dget params k)) (filter (has_key params) keys)) (JObj target)"

definition light_call :: "ha_env \<Rightarrow> string \<Rightarrow> string list \<Rightarrow> string list \<Rightarrow> dict \<Rightarrow> jval ha" where
  "light_call env service allowed keys params =
     unless (strict_keys_error params allowed [])
       (case build_light_target params of
          Inl message \<Rightarrow> ha_return (err_reply ''MISSING_PARAM'' message)
        | Inr target \<Rightarrow>
            or_error (ask env (Ha_post (service_path ''light'' service) (or_none (light_body keys params target))))
              (\<lambda>result. with_observed_states env (case result of JList xs \<Rightarrow> xs | _ \<Rightarrow> []) target))"

definition handle_ha_light_turn_on :: "ha_env \<Rightarrow> dict \<Rightarrow> jval ha" where
  "handle_ha_light_turn_on env =
     light_call env ''turn_on'' light_on_keys
       [''brightness'', ''brightness_pct'', ''color_temp_kelvin'', ''rgb_color'', ''transition'']"

definition handle_ha_light_turn_off :: "ha_env \<Rightarrow> dict \<Rightarrow> jval ha" where
  "handle_ha_light_turn_off env = light_call env ''turn_off'' light_off_keys [''transition'']"

subsection \<open>Reload and updates\<close>

definition reload_core_domain :: string where
  "reload_core_domain = ''core''"

definition reload_domain_error :: "jval \<Rightarrow> jval option" where
  "reload_domain_error v = (case v of
     JNull \<Rightarrow> None
   | JStr raw \<Rightarrow>
       (let requested = strip raw in
        if requested \<noteq> [] \<and> requested \<noteq> reload_core_domain then
          Some (err_reply ''UNSUPPORTED''
            (''ha.reload_config only reloads core config; domain='' @ py_repr_str requested @
             '' is not implemented. Supply domain='' @ py_repr_str reload_core_domain @ '' or omit it.''))
        else None)
   | _ \<Rightarrow> Some (err_reply ''INVALID_PARAM'' ''domain must be a string when supplied''))"

definition handle_ha_reload_config :: "ha_env \<Rightarrow> dict \<Rightarrow> jval ha" where
  "handle_ha_reload_config env params =
     unless (strict_keys_error params [''domain'', approval_param] [])
     (unless (reload_domain_error (dget params ''domain''))
       (ha_bind (consume_marker env ''ha.reload_config'' [] params) (\<lambda>(denied, rest).
          unless denied
            (or_error (ask env (Ha_post ''/api/services/homeassistant/reload_core_config'' None))
              (\<lambda>_. ha_return (ok_reply [(''domain'', JStr reload_core_domain)]))))))"

definition update_outcome_unknown :: jval where
  "update_outcome_unknown = err_reply ''OUTCOME_UNKNOWN''
     (''ha.update_install timed out waiting for Home Assistant; the update may '' @
      ''still be running. Check the update entity's state (in_progress, '' @
      ''installed_version) with a read-only command. Do not retry.'')"

text \<open>\<open>except TimeoutError\<close> around a request.\<close>

definition or_timeout :: "jval \<Rightarrow> jval ha \<Rightarrow> jval ha" where
  "or_timeout r m w = (case m w of (Inl Timed_out, w') \<Rightarrow> (Inr r, w') | other \<Rightarrow> other)"

definition update_data :: "string \<Rightarrow> dict \<Rightarrow> dict" where
  "update_data entity params =
     [(''entity_id'', JStr entity)] @
     (if dget params ''backup'' = JNull then [] else [(''backup'', dget params ''backup'')]) @
     (if dget params ''version'' = JNull then [] else [(''version'', JStr (py_str (dget params ''version'')))])"

definition update_refusal :: "dict \<Rightarrow> jval option" where
  "update_refusal params =
     (case strict_keys_error params [''entity_id'', ''backup'', ''version'', approval_param] [] of
        Some e \<Rightarrow> Some e
      | None \<Rightarrow>
          (let entity = strip (py_str (dget_or params ''entity_id'' (JStr []))) in
           if entity = [] then Some (err_reply ''MISSING_PARAM'' ''entity_id is required'')
           else if \<not> starts_with entity ''update.'' then
             Some (err_reply ''INVALID_PARAM'' (''entity_id must be in the update.* domain, got: '' @ py_repr_str entity))
           else if dget params ''backup'' \<noteq> JNull \<and> \<not> is_bool (dget params ''backup'') then
             Some (err_reply ''INVALID_PARAM'' ''backup must be a boolean'')
           else None))"

definition handle_ha_update_install :: "ha_env \<Rightarrow> dict \<Rightarrow> jval ha" where
  "handle_ha_update_install env params =
     unless (update_refusal params)
       (let entity = strip (py_str (dget_or params ''entity_id'' (JStr []))) in
        ha_bind (consume_marker env ''ha.update_install'' [] params) (\<lambda>(denied, rest).
          unless denied
            (or_timeout update_outcome_unknown
              (or_error (ask env (Ha_post (service_path ''update'' ''install'') (Some (update_data entity params))))
                (\<lambda>result. ha_return (ok_reply [(''entity_id'', JStr entity),
                   (''changed_states'', JList (case result of JList xs \<Rightarrow> xs | _ \<Rightarrow> []))]))))))"

lemma sends_or_timeout [sends_rules]: "sends_only P m \<Longrightarrow> sends_only P (or_timeout r m)"
  unfolding sends_only_def or_timeout_def
  by (auto split: prod.splits sum.splits ha_exn.splits) (metis snd_conv)+

end
