(* ===== verification/Ha_Addons.thy ===== *)
theory Ha_Addons
  imports Ha_Services Fs_Write
begin

text \<open>The Supervisor commands of \<open>commands/ha.py\<close>: add-on data, logs and texts, and the lifecycle of add-ons.\<close>

subsection \<open>Slugs\<close>

definition addon_slug_max_len :: nat where
  "addon_slug_max_len = 128"

definition slug_head :: "char \<Rightarrow> bool" where
  "slug_head c \<longleftrightarrow> c \<in> set ''abcdefghijklmnopqrstuvwxyz0123456789''"

definition slug_char :: "char \<Rightarrow> bool" where
  "slug_char c \<longleftrightarrow> slug_head c \<or> c = CHR ''_'' \<or> c = CHR ''-''"

text \<open>\<open>^[a-z0-9][a-z0-9_-]*$\<close>; the dollar also matches before a line feed at the end.\<close>

definition slug_re :: "string \<Rightarrow> bool" where
  "slug_re s \<longleftrightarrow>
     (let t = (if s \<noteq> [] \<and> last s = char_of (10 :: nat) then butlast s else s) in
      t \<noteq> [] \<and> slug_head (hd t) \<and> list_all slug_char (tl t))"

definition valid_addon_slug :: "string \<Rightarrow> bool" where
  "valid_addon_slug slug \<longleftrightarrow> slug \<noteq> [] \<and> length slug \<le> addon_slug_max_len \<and> slug_re slug"

definition core_addon_prefix :: string where
  "core_addon_prefix = ''core_''"

definition default_lifecycle_denylist :: "string list" where
  "default_lifecycle_denylist = [''homeassistant'', ''supervisor'']"

definition addon_lifecycle_policy_error :: "ha_env \<Rightarrow> string \<Rightarrow> jval option" where
  "addon_lifecycle_policy_error env slug =
     (if starts_with slug core_addon_prefix then
        Some (err_reply ''PERMISSION_DENIED'' (''addon lifecycle denied for core slug: '' @ slug))
      else if casefold slug \<in> set default_lifecycle_denylist \<union> set (map casefold (he_denylist env)) then
        Some (err_reply ''PERMISSION_DENIED'' (''addon lifecycle denied for slug: '' @ slug))
      else None)"

definition slug_of :: "dict \<Rightarrow> string" where
  "slug_of params = strip (py_str (dget_or params ''slug'' (JStr [])))"

definition slug_error :: "string \<Rightarrow> jval option" where
  "slug_error slug =
     (if slug = [] then Some (err_reply ''MISSING_PARAM'' ''slug is required'')
      else if \<not> valid_addon_slug slug then
        Some (err_reply ''INVALID_PARAM'' (''invalid addon slug: '' @ py_repr_str slug))
      else None)"

definition addon_path :: "string \<Rightarrow> string \<Rightarrow> string" where
  "addon_path slug what = ''/addons/'' @ slug @ ''/'' @ what"

subsection \<open>Lifecycle\<close>

definition addon_state :: "ha_env \<Rightarrow> string \<Rightarrow> string ha" where
  "addon_state env slug =
     ha_bind (ask env (Supervisor_json (addon_path slug ''info''))) (\<lambda>raw.
       ha_return (case reply_field (reply_field raw ''data'') ''state'' of JStr s \<Rightarrow> s | _ \<Rightarrow> []))"

definition outcome_unknown :: "string \<Rightarrow> jval" where
  "outcome_unknown command = err_reply ''OUTCOME_UNKNOWN''
     (command @ '' timed out waiting for Supervisor; the action may or may not '' @
      ''have happened. Do not retry automatically. ha.addon_info reports a '' @
      ''current snapshot, not action history: after a restart it cannot '' @
      ''distinguish completed from not, and after an update only a changed '' @
      ''version shows it completed.'')"

definition lifecycle_reply :: "string \<Rightarrow> string \<Rightarrow> bool \<Rightarrow> jval" where
  "lifecycle_reply slug state changed =
     ok_reply [(''slug'', JStr slug), (''state'', JStr state), (''changed'', JBool changed)]"

definition lifecycle_action :: "ha_env \<Rightarrow> string \<Rightarrow> string \<Rightarrow> string \<Rightarrow> string option \<Rightarrow> jval ha" where
  "lifecycle_action env command action slug desired =
     or_error (addon_state env slug) (\<lambda>before.
       if desired = Some before then ha_return (lifecycle_reply slug before False)
       else or_timeout (outcome_unknown command)
         (or_error (ha_bind (ask env (Supervisor_post (addon_path slug action))) (\<lambda>_. addon_state env slug))
           (\<lambda>after. ha_return (lifecycle_reply slug after True))))"

definition handle_addon_lifecycle :: "ha_env \<Rightarrow> string \<Rightarrow> string \<Rightarrow> string option \<Rightarrow> dict \<Rightarrow> jval ha" where
  "handle_addon_lifecycle env command action desired params =
     (let slug = slug_of params in
      unless (slug_error slug)
      (unless (addon_lifecycle_policy_error env slug)
      (unless (strict_keys_error params [''slug'', approval_param] [])
        (ha_bind (consume_marker env command [] params) (\<lambda>(denied, rest).
           unless denied (lifecycle_action env command action slug desired))))))"

definition handle_ha_addon_start :: "ha_env \<Rightarrow> dict \<Rightarrow> jval ha" where
  "handle_ha_addon_start env = handle_addon_lifecycle env ''ha.addon_start'' ''start'' (Some ''started'')"

definition handle_ha_addon_stop :: "ha_env \<Rightarrow> dict \<Rightarrow> jval ha" where
  "handle_ha_addon_stop env = handle_addon_lifecycle env ''ha.addon_stop'' ''stop'' (Some ''stopped'')"

definition handle_ha_addon_restart :: "ha_env \<Rightarrow> dict \<Rightarrow> jval ha" where
  "handle_ha_addon_restart env = handle_addon_lifecycle env ''ha.addon_restart'' ''restart'' None"

definition handle_ha_addon_update :: "ha_env \<Rightarrow> dict \<Rightarrow> jval ha" where
  "handle_ha_addon_update env = handle_addon_lifecycle env ''ha.addon_update'' ''update'' None"

subsection \<open>Logs and texts\<close>

definition addon_logs_max_bytes :: nat where
  "addon_logs_max_bytes = 1048576"

definition addon_doc_max_bytes :: nat where
  "addon_doc_max_bytes = 1048576"

text \<open>\<open>int(lines)\<close>: an infinite float raises \<open>OverflowError\<close>, which the handler does not expect.\<close>

definition handle_ha_addon_logs :: "ha_env \<Rightarrow> dict \<Rightarrow> jval ha" where
  "handle_ha_addon_logs env params =
     unless (strict_keys_error params [''slug'', ''lines''] [])
       (let slug = slug_of params in
        unless (slug_error slug)
          (case py_int (dget_or params ''lines'' (JInt 200)) of
             Int_overflow \<Rightarrow> ha_raise Overflow_error
           | Int_value n \<Rightarrow>
               or_error (ask_text env (addon_path slug ''logs'') addon_logs_max_bytes)
                 (\<lambda>body. ha_return (log_reply [(''slug'', JStr slug)] (last_lines (clamp_lines n) (split_lines body))))
           | _ \<Rightarrow> ha_return (err_reply ''INVALID_PARAM'' ''lines must be an integer'')))"

definition addon_text :: "ha_env \<Rightarrow> string \<Rightarrow> dict \<Rightarrow> jval ha" where
  "addon_text env what params =
     unless (strict_keys_error params [''slug''] [])
       (let slug = slug_of params in
        unless (slug_error slug)
          (or_error (ask_text env (addon_path slug what) addon_doc_max_bytes)
            (\<lambda>body. ha_return (ok_reply [(''slug'', JStr slug), (what, JStr body)]))))"

definition handle_ha_addon_changelog :: "ha_env \<Rightarrow> dict \<Rightarrow> jval ha" where
  "handle_ha_addon_changelog env = addon_text env ''changelog''"

definition handle_ha_addon_documentation :: "ha_env \<Rightarrow> dict \<Rightarrow> jval ha" where
  "handle_ha_addon_documentation env = addon_text env ''documentation''"

subsection \<open>Selected fields\<close>

definition addon_field_names :: "string list" where
  "addon_field_names = [''slug'', ''name'', ''state'', ''version'', ''version_latest'', ''update_available'']"

definition addon_info_field_names :: "string list" where
  "addon_info_field_names = [''slug'', ''name'', ''state'', ''description'', ''version'', ''version_latest'',
     ''update_available'', ''boot'', ''startup'', ''stage'', ''arch'', ''machine'', ''ingress'', ''ingress_port'']"

definition addon_stats_field_names :: "string list" where
  "addon_stats_field_names = [''cpu_percent'', ''memory_usage'', ''memory_limit'', ''memory_percent'',
     ''network_rx'', ''network_tx'', ''blk_read'', ''blk_write'']"

definition supervisor_info_field_names :: "string list" where
  "supervisor_info_field_names = [''arch'', ''machine'', ''supervisor'', ''homeassistant'', ''hassos'',
     ''operating_system'', ''docker'', ''channel'']"

definition supervisor_info_max_value_len :: nat where
  "supervisor_info_max_value_len = 128"

definition selected :: "string list \<Rightarrow> dict \<Rightarrow> jval" where
  "selected names d = JObj (map (\<lambda>n. (n, dget d n)) names)"

definition supervisor_info_value :: "jval \<Rightarrow> jval" where
  "supervisor_info_value v = (case v of
     JStr s \<Rightarrow> if length s \<le> supervisor_info_max_value_len then v else JNull | _ \<Rightarrow> JNull)"

definition missing_data :: "string \<Rightarrow> string" where
  "missing_data what = ''Supervisor '' @ what @ '' response missing 'data'' @ [CHR 0x27]"

text \<open>The \<open>data\<close> of a Supervisor answer, with the messages of its two refusals.\<close>

definition expect_data :: "string \<Rightarrow> string \<Rightarrow> (dict \<Rightarrow> jval ha) \<Rightarrow> jval \<Rightarrow> jval ha" where
  "expect_data no_dict no_data k =
     expect_dict no_dict (\<lambda>d. case dget d ''data'' of JObj data \<Rightarrow> k data | _ \<Rightarrow> ha_return (bad_response no_data))"

definition handle_ha_list_addons :: "ha_env \<Rightarrow> dict \<Rightarrow> jval ha" where
  "handle_ha_list_addons env params =
     unless (strict_keys_error params [] [])
       (or_error (ask env (Supervisor_json ''/addons''))
         (expect_data ''Expected dict from Supervisor /addons'' (missing_data ''/addons'')
           (\<lambda>data. expect_list ''Supervisor /addons 'data.addons' is not a list''
              (\<lambda>xs. ha_return (counted ''addons''
                 (concat (map (\<lambda>x. case x of JObj e \<Rightarrow> [selected addon_field_names e] | _ \<Rightarrow> []) xs))))
              (dget data ''addons''))))"

definition addon_data :: "ha_env \<Rightarrow> string \<Rightarrow> string \<Rightarrow> string list \<Rightarrow> dict \<Rightarrow> jval ha" where
  "addon_data env what name names params =
     unless (strict_keys_error params [''slug''] [])
       (let slug = slug_of params in
        unless (slug_error slug)
          (or_error (ask env (Supervisor_json (addon_path slug what)))
            (expect_data (''Expected dict from Supervisor /addons/<slug>/'' @ what)
              (missing_data (''/addons/<slug>/'' @ what))
              (\<lambda>data. ha_return (ok_reply [(''slug'', JStr slug), (name, selected names data)])))))"

definition handle_ha_addon_info :: "ha_env \<Rightarrow> dict \<Rightarrow> jval ha" where
  "handle_ha_addon_info env = addon_data env ''info'' ''info'' addon_info_field_names"

definition handle_ha_addon_stats :: "ha_env \<Rightarrow> dict \<Rightarrow> jval ha" where
  "handle_ha_addon_stats env = addon_data env ''stats'' ''stats'' addon_stats_field_names"

text \<open>The message of an upstream error is replaced, its code is not.\<close>

definition supervisor_info_answer :: "(ha_exn + jval) \<Rightarrow> ha_exn + jval" where
  "supervisor_info_answer r = (case r of
     Inl (Client_error code _) \<Rightarrow> Inl (Client_error code ''Supervisor /info request failed'') | _ \<Rightarrow> r)"

definition ask_info :: "ha_env \<Rightarrow> jval ha" where
  "ask_info env w = (case ask env (Supervisor_json ''/info'') w of (r, w') \<Rightarrow> (supervisor_info_answer r, w'))"

definition handle_ha_supervisor_info :: "ha_env \<Rightarrow> dict \<Rightarrow> jval ha" where
  "handle_ha_supervisor_info env params =
     unless (strict_keys_error params [] [])
       (or_error (ask_info env)
         (expect_data ''Expected dict from Supervisor /info'' (missing_data ''/info'')
           (\<lambda>data. ha_return (ok_reply [(''info'',
              JObj (map (\<lambda>n. (n, supervisor_info_value (dget data n))) supervisor_info_field_names))]))))"

lemma sends_expect_data [sends_rules]:
  "(\<And>d. sends_only P (k d)) \<Longrightarrow> sends_only P (expect_data a b k raw)"
  by (auto simp: expect_data_def expect_dict_def sends_return split: json.split)

lemma sends_ask_info [sends_rules]: "P (Supervisor_json ''/info'') \<Longrightarrow> sends_only P (ask_info env)"
  by (simp add: sends_only_def ask_info_def ask_def)

end
