(* ===== verification/Ha_Config.thy ===== *)
theory Ha_Config
  imports Ha_Addons
begin

text \<open>
  The configuration commands \<open>commands/ha_config_*.py\<close>: automations, scripts and scenes, helpers, dashboards,
  the registries, and config entries. Each has an \<open>action\<close>; what changes something passes the approval check.
\<close>

subsection \<open>Actions and required parameters\<close>

definition action_of :: "string list \<Rightarrow> dict \<Rightarrow> jval + string" where
  "action_of actions params = (case dget params ''action'' of
     JStr raw \<Rightarrow>
       (let action = strip raw in
        if action = [] then Inl (err_reply ''INVALID_PARAM'' ''action is required'')
        else if action \<notin> set actions then
          Inl (err_reply ''INVALID_PARAM'' (''action must be one of '' @ py_repr (JList (map JStr (sorted_set actions))) @
            '', got '' @ py_repr_str action))
        else Inr action)
   | _ \<Rightarrow> Inl (err_reply ''INVALID_PARAM'' ''action is required''))"

type_synonym action_keys = "(string \<times> string list) list"

definition keys_of :: "action_keys \<Rightarrow> string \<Rightarrow> string list" where
  "keys_of table action = (case map_of table action of Some ks \<Rightarrow> ks | None \<Rightarrow> [])"

text \<open>The way of every configuration command to its action; \<open>more_keys\<close> is empty but for helpers.\<close>

definition by_action ::
  "action_keys \<Rightarrow> (string \<Rightarrow> string list) \<Rightarrow> string list \<Rightarrow> dict \<Rightarrow> (string \<Rightarrow> jval ha) \<Rightarrow> jval ha" where
  "by_action table more_keys nullable_keys params run =
     (case action_of (map fst table) params of
        Inl e \<Rightarrow> ha_return e
      | Inr action \<Rightarrow> unless (strict_keys_error params (keys_of table action @ more_keys action) nullable_keys) (run action))"

definition need_text :: "string \<Rightarrow> dict \<Rightarrow> (string \<Rightarrow> jval ha) \<Rightarrow> jval ha" where
  "need_text name params k = (case dget params name of
     JStr raw \<Rightarrow>
       if strip raw = [] then ha_return (err_reply ''MISSING_PARAM'' (name @ '' must be a non-empty string''))
       else k (strip raw)
   | _ \<Rightarrow> ha_return (err_reply ''MISSING_PARAM'' (name @ '' must be a string and is required'')))"

definition need_dict :: "string \<Rightarrow> dict \<Rightarrow> (dict \<Rightarrow> jval ha) \<Rightarrow> jval ha" where
  "need_dict name params k = (case dget params name of
     JObj d \<Rightarrow> k d | _ \<Rightarrow> ha_return (err_reply ''MISSING_PARAM'' (name @ '' must be a dict and is required'')))"

text \<open>The approval check of an action, which takes the marker out of the parameters.\<close>

definition approved_action :: "ha_env \<Rightarrow> string \<Rightarrow> string \<Rightarrow> dict \<Rightarrow> (dict \<Rightarrow> jval ha) \<Rightarrow> jval ha" where
  "approved_action env command action params k =
     ha_bind (consume_marker env command action params) (\<lambda>(denied, rest). unless denied (k rest))"

subsection \<open>Automations, scripts and scenes\<close>

definition entity_config_keys :: action_keys where
  "entity_config_keys = [
     (''get'', [''action'', ''id'']),
     (''save'', [''action'', ''id'', ''config'', ''proposal_id'', approval_param]),
     (''delete'', [''action'', ''id'', ''proposal_id'', approval_param])]"

text \<open>\<open>^[a-z0-9_]+$\<close>; the dollar also matches before a line feed at the end.\<close>

definition id_re :: "string \<Rightarrow> bool" where
  "id_re s \<longleftrightarrow>
     (let t = (if s \<noteq> [] \<and> last s = char_of (10 :: nat) then butlast s else s) in t \<noteq> [] \<and> list_all service_char t)"

definition need_id :: "dict \<Rightarrow> (string \<Rightarrow> jval ha) \<Rightarrow> jval ha" where
  "need_id params k = need_text ''id'' params (\<lambda>i.
     if \<not> id_re i then
       ha_return (err_reply ''INVALID_PARAM'' ''id must be an HA slug (lowercase letters, digits, underscores)'')
     else k i)"

definition config_path :: "string \<Rightarrow> string \<Rightarrow> string" where
  "config_path kind i = ''/api/config/'' @ kind @ ''/config/'' @ i"

definition config_get :: "ha_env \<Rightarrow> string \<Rightarrow> dict \<Rightarrow> jval ha" where
  "config_get env kind params = need_id params (\<lambda>i.
     or_error (ask env (Ha_get (config_path kind i)))
       (expect_dict (''Expected dict from /api/config/'' @ kind @ ''/config/<id>'')
         (\<lambda>d. ha_return (ok_reply [(''id'', JStr i), (''config'', JObj d)]))))"

definition config_save :: "ha_env \<Rightarrow> string \<Rightarrow> dict \<Rightarrow> jval ha" where
  "config_save env kind params = approved_action env (''ha.config.'' @ kind) ''save'' params (\<lambda>rest.
     need_id rest (\<lambda>i. need_dict ''config'' rest (\<lambda>config.
       or_error (ask env (Ha_post (config_path kind i) (Some config))) (\<lambda>_. ha_return (ok_reply [(''id'', JStr i)])))))"

definition config_delete :: "ha_env \<Rightarrow> string \<Rightarrow> dict \<Rightarrow> jval ha" where
  "config_delete env kind params = approved_action env (''ha.config.'' @ kind) ''delete'' params (\<lambda>rest.
     need_id rest (\<lambda>i.
       or_error (ask env (Ha_delete (config_path kind i))) (\<lambda>_. ha_return (ok_reply [(''id'', JStr i)]))))"

definition entity_config :: "string \<Rightarrow> ha_env \<Rightarrow> dict \<Rightarrow> jval ha" where
  "entity_config kind env params =
     by_action entity_config_keys (\<lambda>_. []) [] params (\<lambda>action.
       if action = ''get'' then config_get env kind params
       else if action = ''save'' then config_save env kind params
       else config_delete env kind params)"

definition handle_ha_config_automation :: "ha_env \<Rightarrow> dict \<Rightarrow> jval ha" where
  "handle_ha_config_automation = entity_config ''automation''"

definition handle_ha_config_script :: "ha_env \<Rightarrow> dict \<Rightarrow> jval ha" where
  "handle_ha_config_script = entity_config ''script''"

definition handle_ha_config_scene :: "ha_env \<Rightarrow> dict \<Rightarrow> jval ha" where
  "handle_ha_config_scene = entity_config ''scene''"

subsection \<open>Helpers\<close>

definition helper_types :: "string list" where
  "helper_types = [''input_boolean'', ''input_text'', ''input_number'', ''input_select'', ''input_datetime'',
     ''counter'', ''timer'', ''schedule'']"

definition helpers_keys :: action_keys where
  "helpers_keys = [
     (''list'', [''action'', ''helper_type'']),
     (''create'', [''action'', ''helper_type'', ''attrs'', ''proposal_id'', approval_param]),
     (''update'', [''action'', ''helper_type'', ''attrs'', ''proposal_id'', approval_param]),
     (''delete'', [''action'', ''helper_type'', ''proposal_id'', approval_param])]"

definition item_key :: "string \<Rightarrow> string" where
  "item_key ht = ht @ ''_id''"

text \<open>The item id of an update or delete is named after the helper type.\<close>

definition helper_more_keys :: "dict \<Rightarrow> string \<Rightarrow> string list" where
  "helper_more_keys params action = (case dget params ''helper_type'' of
     JStr ht \<Rightarrow> if action = ''update'' \<or> action = ''delete'' then [item_key (strip ht)] else []
   | _ \<Rightarrow> [])"

definition need_helper_type :: "dict \<Rightarrow> (string \<Rightarrow> jval ha) \<Rightarrow> jval ha" where
  "need_helper_type params k = need_text ''helper_type'' params (\<lambda>ht.
     if ht \<notin> set helper_types then
       ha_return (err_reply ''INVALID_PARAM'' (''helper_type must be one of '' @
         py_repr (JList (map JStr (sorted_set helper_types))) @ '', got '' @ py_repr_str ht))
     else k ht)"

definition helpers_list :: "ha_env \<Rightarrow> dict \<Rightarrow> jval ha" where
  "helpers_list env params = need_helper_type params (\<lambda>ht.
     or_error (ask env (Ha_ws (ht @ ''/list'') []))
       (expect_list (''Expected list from '' @ ht @ ''/list'') (\<lambda>xs. ha_return (ok_reply [(''helper_type'', JStr ht),
          (''count'', JInt (int (length xs))), (''helpers'', JList xs)]))))"

definition helpers_create :: "ha_env \<Rightarrow> dict \<Rightarrow> jval ha" where
  "helpers_create env params = approved_action env ''ha.config.helpers'' ''create'' params (\<lambda>rest.
     need_helper_type rest (\<lambda>ht. need_dict ''attrs'' rest (\<lambda>attrs.
       or_error (ask env (Ha_ws (ht @ ''/create'') attrs))
         (\<lambda>result. ha_return (ok_reply [(''helper_type'', JStr ht), (''helper'', result)])))))"

definition helpers_update :: "ha_env \<Rightarrow> dict \<Rightarrow> jval ha" where
  "helpers_update env params = approved_action env ''ha.config.helpers'' ''update'' params (\<lambda>rest.
     need_helper_type rest (\<lambda>ht. need_text (item_key ht) rest (\<lambda>item. need_dict ''attrs'' rest (\<lambda>attrs.
       if has_key attrs (item_key ht) then
         ha_return (err_reply ''INVALID_PARAM''
           (''attrs must not contain '' @ py_repr_str (item_key ht) @ ''; pass it as the top-level param''))
       else or_error (ask env (Ha_ws (ht @ ''/update'') (AList.update (item_key ht) (JStr item) attrs)))
         (\<lambda>result. ha_return (ok_reply [(''helper_type'', JStr ht), (item_key ht, JStr item), (''helper'', result)]))))))"

definition helpers_delete :: "ha_env \<Rightarrow> dict \<Rightarrow> jval ha" where
  "helpers_delete env params = approved_action env ''ha.config.helpers'' ''delete'' params (\<lambda>rest.
     need_helper_type rest (\<lambda>ht. need_text (item_key ht) rest (\<lambda>item.
       or_error (ask env (Ha_ws (ht @ ''/delete'') [(item_key ht, JStr item)]))
         (\<lambda>_. ha_return (ok_reply [(''helper_type'', JStr ht), (item_key ht, JStr item)])))))"

definition handle_ha_config_helpers :: "ha_env \<Rightarrow> dict \<Rightarrow> jval ha" where
  "handle_ha_config_helpers env params =
     by_action helpers_keys (helper_more_keys params) [] params (\<lambda>action.
       if action = ''list'' then helpers_list env params
       else if action = ''create'' then helpers_create env params
       else if action = ''update'' then helpers_update env params
       else helpers_delete env params)"

subsection \<open>Dashboards\<close>

definition lovelace_resource_types :: "string list" where
  "lovelace_resource_types = [''module'', ''css'', ''js'', ''html'']"

definition lovelace_keys :: action_keys where
  "lovelace_keys = [
     (''get'', [''action'', ''url_path'']),
     (''save'', [''action'', ''url_path'', ''config'', ''proposal_id'', approval_param]),
     (''dashboards_list'', [''action'']),
     (''resources_list'', [''action'']),
     (''resources_create'', [''action'', ''url'', ''res_type'', ''proposal_id'', approval_param])]"

text \<open>\<open>None\<close> when no path is given, or a blank one.\<close>

definition optional_url_path :: "dict \<Rightarrow> (string option \<Rightarrow> jval ha) \<Rightarrow> jval ha" where
  "optional_url_path params k = (case dget params ''url_path'' of
     JNull \<Rightarrow> k None
   | JStr raw \<Rightarrow> k (if strip raw = [] then None else Some (strip raw))
   | _ \<Rightarrow> ha_return (err_reply ''INVALID_PARAM'' ''url_path must be a string''))"

definition url_path_json :: "string option \<Rightarrow> jval" where
  "url_path_json u = (case u of None \<Rightarrow> JNull | Some p \<Rightarrow> JStr p)"

definition url_path_part :: "string option \<Rightarrow> dict" where
  "url_path_part u = (case u of None \<Rightarrow> [] | Some p \<Rightarrow> [(''url_path'', JStr p)])"

definition lovelace_get :: "ha_env \<Rightarrow> dict \<Rightarrow> jval ha" where
  "lovelace_get env params = optional_url_path params (\<lambda>u.
     or_error (ask env (Ha_ws ''lovelace/config'' (url_path_part u)))
       (expect_dict ''Expected dict from lovelace/config''
         (\<lambda>d. ha_return (ok_reply [(''url_path'', url_path_json u), (''config'', JObj d)]))))"

definition lovelace_save :: "ha_env \<Rightarrow> dict \<Rightarrow> jval ha" where
  "lovelace_save env params = approved_action env ''ha.config.lovelace'' ''save'' params (\<lambda>rest.
     need_dict ''config'' rest (\<lambda>config. optional_url_path rest (\<lambda>u.
       or_error (ask env (Ha_ws ''lovelace/config/save'' ((''config'', JObj config) # url_path_part u)))
         (\<lambda>_. ha_return (ok_reply [(''url_path'', url_path_json u)])))))"

definition lovelace_resources_create :: "ha_env \<Rightarrow> dict \<Rightarrow> jval ha" where
  "lovelace_resources_create env params = approved_action env ''ha.config.lovelace'' ''resources_create'' params (\<lambda>rest.
     if filter_value (dget rest ''url'') = [] then ha_return (err_reply ''MISSING_PARAM'' ''url is required'')
     else if filter_value (dget rest ''res_type'') = [] then ha_return (err_reply ''MISSING_PARAM'' ''res_type is required'')
     else (let res_type = (case dget rest ''res_type'' of JStr t \<Rightarrow> t | _ \<Rightarrow> []) in
       if res_type \<notin> set lovelace_resource_types then
         ha_return (err_reply ''INVALID_PARAM'' (''res_type must be one of '' @
           py_repr (JList (map JStr (sorted_set lovelace_resource_types))) @ '', got '' @ py_repr_str res_type))
       else or_error (ask env (Ha_ws ''lovelace/resources/create''
             [(''url'', JStr (filter_value (dget rest ''url''))), (''res_type'', JStr res_type)]))
         (\<lambda>result. ha_return (ok_reply [(''resource'', result)]))))"

definition ws_list :: "ha_env \<Rightarrow> string \<Rightarrow> string \<Rightarrow> jval ha" where
  "ws_list env t name =
     or_error (ask env (Ha_ws t [])) (expect_list (''Expected list from '' @ t) (\<lambda>xs. ha_return (counted name xs)))"

definition handle_ha_config_lovelace :: "ha_env \<Rightarrow> dict \<Rightarrow> jval ha" where
  "handle_ha_config_lovelace env params =
     by_action lovelace_keys (\<lambda>_. []) [''url_path''] params (\<lambda>action.
       if action = ''get'' then lovelace_get env params
       else if action = ''save'' then lovelace_save env params
       else if action = ''dashboards_list'' then ws_list env ''lovelace/dashboards/list'' ''dashboards''
       else if action = ''resources_list'' then ws_list env ''lovelace/resources'' ''resources''
       else lovelace_resources_create env params)"

subsection \<open>Registries\<close>

definition area_registry_keys :: action_keys where
  "area_registry_keys = [
     (''list'', [''action'']),
     (''create'', [''action'', ''name'', ''attrs'', ''proposal_id'', approval_param]),
     (''update'', [''action'', ''area_id'', ''attrs'', ''proposal_id'', approval_param]),
     (''delete'', [''action'', ''area_id'', ''proposal_id'', approval_param])]"

definition area_create :: "ha_env \<Rightarrow> dict \<Rightarrow> jval ha" where
  "area_create env rest = need_text ''name'' rest (\<lambda>name.
     or_error (ask env (Ha_ws ''config/area_registry/create'' (merged [(''name'', JStr name)] (dget rest ''attrs''))))
       (\<lambda>result. ha_return (ok_reply [(''area'', result)])))"

text \<open>An update merges the attributes over the id, so they may replace it.\<close>

definition registry_update :: "ha_env \<Rightarrow> string \<Rightarrow> string \<Rightarrow> string \<Rightarrow> dict \<Rightarrow> string \<Rightarrow> jval ha" where
  "registry_update env t id_key name rest i = need_dict ''attrs'' rest (\<lambda>attrs.
     or_error (ask env (Ha_ws t (merged [(id_key, JStr i)] (JObj attrs))))
       (\<lambda>result. ha_return (ok_reply [(id_key, JStr i), (name, result)])))"

definition registry_remove :: "ha_env \<Rightarrow> string \<Rightarrow> string \<Rightarrow> string \<Rightarrow> jval ha" where
  "registry_remove env t id_key i =
     or_error (ask env (Ha_ws t [(id_key, JStr i)])) (\<lambda>_. ha_return (ok_reply [(id_key, JStr i)]))"

definition handle_ha_config_area_registry :: "ha_env \<Rightarrow> dict \<Rightarrow> jval ha" where
  "handle_ha_config_area_registry env params =
     by_action area_registry_keys (\<lambda>_. []) [] params (\<lambda>action.
       if action = ''list'' then ws_list env ''config/area_registry/list'' ''areas''
       else approved_action env ''ha.config.area_registry'' action params (\<lambda>rest.
         if action = ''create'' then area_create env rest
         else need_text ''area_id'' rest (\<lambda>i.
           if action = ''update'' then registry_update env ''config/area_registry/update'' ''area_id'' ''area'' rest i
           else registry_remove env ''config/area_registry/delete'' ''area_id'' i)))"

definition device_registry_keys :: action_keys where
  "device_registry_keys = [
     (''list'', ''action'' # device_registry_filters),
     (''update'', [''action'', ''device_id'', ''attrs'', ''proposal_id'', approval_param])]"

definition handle_ha_config_device_registry :: "ha_env \<Rightarrow> dict \<Rightarrow> jval ha" where
  "handle_ha_config_device_registry env params =
     by_action device_registry_keys (\<lambda>_. []) [] params (\<lambda>action.
       if action = ''list'' then
         unless (filter_param_error params device_registry_filters [''action''])
           (or_error (ask env (Ha_ws ''config/device_registry/list'' []))
             (expect_list ''Expected list from config/device_registry/list'' (\<lambda>xs. ha_return (counted ''devices''
                (filter_device_registry xs (map (\<lambda>k. (k, dget params k)) device_registry_filters))))))
       else approved_action env ''ha.config.device_registry'' action params (\<lambda>rest.
         if filter_value (dget rest ''device_id'') = [] then
           ha_return (err_reply ''MISSING_PARAM'' ''device_id must be a non-empty string'')
         else registry_update env ''config/device_registry/update'' ''device_id'' ''device'' rest
           (filter_value (dget rest ''device_id''))))"

definition entity_registry_keys :: action_keys where
  "entity_registry_keys = [
     (''list'', ''action'' # entity_registry_filters),
     (''get'', [''action'', ''entity_id'']),
     (''update'', [''action'', ''entity_id'', ''attrs'', ''proposal_id'', approval_param]),
     (''remove'', [''action'', ''entity_id'', ''proposal_id'', approval_param])]"

definition registry_get :: "ha_env \<Rightarrow> string \<Rightarrow> string \<Rightarrow> string \<Rightarrow> dict \<Rightarrow> jval ha" where
  "registry_get env t id_key name params = need_text id_key params (\<lambda>i.
     or_error (ask env (Ha_ws t [(id_key, JStr i)]))
       (expect_dict (''Expected dict from '' @ t) (\<lambda>d. ha_return (ok_reply [(id_key, JStr i), (name, JObj d)]))))"

definition handle_ha_config_entity_registry :: "ha_env \<Rightarrow> dict \<Rightarrow> jval ha" where
  "handle_ha_config_entity_registry env params =
     by_action entity_registry_keys (\<lambda>_. []) [] params (\<lambda>action.
       if action = ''list'' then
         unless (filter_param_error params entity_registry_filters [''action''])
           (or_error (ask env (Ha_ws ''config/entity_registry/list'' []))
             (expect_list ''Expected list from config/entity_registry/list'' (\<lambda>xs. ha_return (counted ''entities''
                (filter_entity_registry xs (map (\<lambda>k. (k, dget params k)) entity_registry_filters))))))
       else if action = ''get'' then registry_get env ''config/entity_registry/get'' ''entity_id'' ''entity'' params
       else approved_action env ''ha.config.entity_registry'' action params (\<lambda>rest.
         need_text ''entity_id'' rest (\<lambda>i.
           if action = ''update'' then registry_update env ''config/entity_registry/update'' ''entity_id'' ''entity'' rest i
           else registry_remove env ''config/entity_registry/remove'' ''entity_id'' i)))"

subsection \<open>Config entries\<close>

definition config_entries_keys :: action_keys where
  "config_entries_keys = [
     (''get'', [''action'', ''entry_id'']),
     (''disable'', [''action'', ''entry_id'', ''proposal_id'', approval_param]),
     (''enable'', [''action'', ''entry_id'', ''proposal_id'', approval_param])]"

definition handle_ha_config_config_entries :: "ha_env \<Rightarrow> dict \<Rightarrow> jval ha" where
  "handle_ha_config_config_entries env params =
     by_action config_entries_keys (\<lambda>_. []) [] params (\<lambda>action.
       if action = ''get'' then registry_get env ''config_entries/get_single'' ''entry_id'' ''entry'' params
       else approved_action env ''ha.config.config_entries'' action params (\<lambda>rest.
         need_text ''entry_id'' rest (\<lambda>i.
           or_error (ask env (Ha_ws ''config_entries/disable''
               [(''entry_id'', JStr i), (''disabled_by'', if action = ''disable'' then JStr ''user'' else JNull)]))
             (\<lambda>result. ha_return (ok_reply [(''entry_id'', JStr i), (''result'', result)])))))"

subsection \<open>One request at most\<close>

text \<open>A computation that adds at most one request, and one that satisfies \<open>P\<close>.\<close>

definition at_most_one :: "(ha_request \<Rightarrow> bool) \<Rightarrow> 'a ha \<Rightarrow> bool" where
  "at_most_one P m \<longleftrightarrow> (\<forall>w. \<exists>new. sent (snd (m w)) = sent w @ new \<and> length new \<le> 1 \<and> list_all P new)"

named_theorems one_rules \<open>introduction rules for computations with at most one request\<close>

lemma one_silent: "sends_only (\<lambda>_. False) m \<Longrightarrow> at_most_one P m"
proof -
  assume "sends_only (\<lambda>_. False) m"
  then have "sent (snd (m w)) = sent w" for w
    unfolding sends_only_def by (metis append.right_neutral list.pred_inject(2) list.exhaust)
  then show ?thesis by (simp add: at_most_one_def)
qed

lemma one_return [one_rules]: "at_most_one P (ha_return a)"
  by (intro one_silent sends_rules)

lemma one_if [one_rules]: "(b \<Longrightarrow> at_most_one P m) \<Longrightarrow> (\<not> b \<Longrightarrow> at_most_one P m') \<Longrightarrow> at_most_one P (if b then m else m')"
  by simp

lemma one_unless [one_rules]: "at_most_one P m \<Longrightarrow> at_most_one P (unless refused m)"
  by (simp add: unless_def one_return split: option.split)

lemma one_ask [one_rules]:
  assumes "P q" "\<And>a. sends_only (\<lambda>_. False) (k a)"
  shows "at_most_one P (or_error (ask env q) k)"
  unfolding at_most_one_def
proof
  fix w :: ha_world
  let ?w = "w\<lparr>sent := sent w @ [q]\<rparr>"
  have "sent (snd (k a ?w)) = sent ?w" for a
    using assms(2) unfolding sends_only_def
    by (metis append.right_neutral list.pred_inject(2) list.exhaust)
  then have "sent (snd (or_error (ask env q) k w)) = sent w @ [q]"
    by (auto simp: or_error_def ask_def split: sum.split ha_exn.split)
  with assms(1) show "\<exists>new. sent (snd (or_error (ask env q) k w)) = sent w @ new \<and> length new \<le> 1 \<and> list_all P new"
    by (intro exI [of _ "[q]"]) simp
qed

lemma one_need [one_rules]:
  "(\<And>s. at_most_one P (k s)) \<Longrightarrow> at_most_one P (need_text name params k)"
  "(\<And>d. at_most_one P (k' d)) \<Longrightarrow> at_most_one P (need_dict name params k')"
  "(\<And>u. at_most_one P (k'' u)) \<Longrightarrow> at_most_one P (optional_url_path params k'')"
  by (auto simp: need_text_def need_dict_def optional_url_path_def one_return split: json.split)

definition id_text :: "string \<Rightarrow> bool" where
  "id_text i \<longleftrightarrow> i \<noteq> [] \<and> list_all service_char i"

lemma strip_last: "strip s \<noteq> [] \<Longrightarrow> \<not> py_space (last (strip s))"
  unfolding strip_def by (metis hd_dropWhile last_rev rev_is_Nil_conv)

lemma stripped_id: "id_re (strip raw) \<Longrightarrow> strip raw \<noteq> [] \<Longrightarrow> id_text (strip raw)"
  using strip_last [of raw] by (auto simp: id_re_def id_text_def py_space_def Let_def split: if_splits)

lemma one_need_id [one_rules]:
  assumes "\<And>i. id_text i \<Longrightarrow> at_most_one P (k i)"
  shows "at_most_one P (need_id params k)"
  using assms by (auto simp: need_id_def need_text_def one_return stripped_id split: json.split)

lemma one_need_helper [one_rules]:
  "(\<And>ht. ht \<in> set helper_types \<Longrightarrow> at_most_one P (k ht)) \<Longrightarrow> at_most_one P (need_helper_type params k)"
  unfolding need_helper_type_def by (intro one_rules) simp_all

subsection \<open>What passes the approval check\<close>

definition config_read_types :: "string list" where
  "config_read_types = map (\<lambda>ht. ht @ ''/list'') helper_types @
     [''lovelace/config'', ''lovelace/dashboards/list'', ''lovelace/resources'', ''config/area_registry/list'',
      ''config/device_registry/list'', ''config/entity_registry/list'', ''config/entity_registry/get'',
      ''config_entries/get_single'']"

text \<open>A read: of a known kind, with a payload that leaves the kind of the message alone.\<close>

definition config_read :: "ha_request \<Rightarrow> bool" where
  "config_read q = (case q of
     Ha_get p \<Rightarrow> (\<exists>kind \<in> {''automation'', ''script'', ''scene''}. \<exists>i. id_text i \<and> p = config_path kind i)
   | Ha_ws t d \<Rightarrow> t \<in> set config_read_types \<and> \<not> has_key d ''type''
   | _ \<Rightarrow> False)"

definition marker_check :: "ha_env \<Rightarrow> string \<Rightarrow> string \<Rightarrow> dict \<Rightarrow> used_ids \<Rightarrow> (jval option \<times> dict) \<times> used_ids" where
  "marker_check env command action params =
     consume_approval_marker (he_digest env) (he_now env)
       \<lparr>gc_caller = he_caller env, gc_command = command, gc_action = action, gc_params = params\<rparr>"

definition action_param :: "dict \<Rightarrow> string" where
  "action_param params = filter_value (dget params ''action'')"

definition config_gated :: "ha_env \<Rightarrow> string \<Rightarrow> dict \<Rightarrow> jval ha \<Rightarrow> bool" where
  "config_gated env command params m \<longleftrightarrow> (\<forall>w. \<exists>new. sent (snd (m w)) = sent w @ new \<and> length new \<le> 1 \<and>
     (list_all config_read new \<or> authorised (marker_check env command (action_param params) params (approvals w))))"

named_theorems gated_rules \<open>introduction rules for commands behind the approval check\<close>

lemma gated_read: "at_most_one config_read m \<Longrightarrow> config_gated env command params m"
  unfolding at_most_one_def config_gated_def by blast

lemma gated_if [gated_rules]:
  "(b \<Longrightarrow> config_gated env command params m) \<Longrightarrow> (\<not> b \<Longrightarrow> config_gated env command params m') \<Longrightarrow>
     config_gated env command params (if b then m else m')"
  by simp

lemma gated_return: "config_gated env command params (ha_return a)"
  by (intro gated_read one_return)

lemma gated_approved [gated_rules]:
  assumes "\<And>rest. at_most_one (\<lambda>_. True) (k rest)" "action = action_param params"
  shows "config_gated env command params (approved_action env command action params k)"
  unfolding config_gated_def
proof
  fix w :: ha_world
  obtain r rest used where c: "marker_check env command action params (approvals w) = ((r, rest), used)"
    by (metis prod.exhaust)
  obtain new where n: "sent (snd (k rest (w\<lparr>approvals := used\<rparr>))) = sent w @ new" "length new \<le> 1"
    using assms(1) [of rest] unfolding at_most_one_def
    by (metis ha_world.select_convs(1) ha_world.surjective ha_world.update_convs(2))
  show "\<exists>new. sent (snd (approved_action env command action params k w)) = sent w @ new \<and> length new \<le> 1 \<and>
      (list_all config_read new \<or> authorised (marker_check env command (action_param params) params (approvals w)))"
  proof (cases r)
    case None
    with c n assms(2) show ?thesis
      by (intro exI [of _ new]) (simp add: approved_action_def ha_bind_def consume_marker_def marker_check_def
          authorised_def unless_def)
  next
    case (Some e)
    with c show ?thesis
      by (intro exI [of _ "[]"]) (simp add: approved_action_def ha_bind_def consume_marker_def marker_check_def
          unless_def ha_return_def)
  qed
qed

lemma action_of_param: "action_of actions params = Inr a \<Longrightarrow> a = action_param params \<and> a \<in> set actions"
  by (auto simp: action_of_def action_param_def Let_def split: json.splits if_splits)

lemma gated_by_action:
  assumes "\<And>action. action = action_param params \<Longrightarrow> action \<in> set (map fst table) \<Longrightarrow>
    config_gated env command params (run action)"
  shows "config_gated env command params (by_action table more_keys nullable_keys params run)"
proof (cases "action_of (map fst table) params")
  case (Inl e)
  then show ?thesis by (simp add: by_action_def gated_read one_return)
next
  case (Inr action)
  with assms [of action] action_of_param [OF Inr] show ?thesis
    by (auto simp: by_action_def unless_def gated_return split: option.split)
qed

lemma config_reads:
  "id_text i \<Longrightarrow> kind \<in> {''automation'', ''script'', ''scene''} \<Longrightarrow> config_read (Ha_get (config_path kind i))"
  "ht \<in> set helper_types \<Longrightarrow> config_read (Ha_ws (ht @ ''/list'') [])"
  "config_read (Ha_ws ''lovelace/config'' (url_path_part u))"
  "config_read (Ha_ws ''lovelace/dashboards/list'' [])"
  "config_read (Ha_ws ''lovelace/resources'' [])"
  "config_read (Ha_ws ''config/area_registry/list'' [])"
  "config_read (Ha_ws ''config/device_registry/list'' [])"
  "config_read (Ha_ws ''config/entity_registry/list'' [])"
  "config_read (Ha_ws ''config/entity_registry/get'' [(''entity_id'', v)])"
  "config_read (Ha_ws ''config_entries/get_single'' [(''entry_id'', v)])"
  by (auto simp: config_read_def config_read_types_def url_path_part_def split: option.split)

lemma one_ws_list: "config_read (Ha_ws t []) \<Longrightarrow> at_most_one config_read (ws_list env t name)"
  unfolding ws_list_def by (intro one_rules sends_rules)

lemma one_registry [one_rules]:
  "at_most_one (\<lambda>_. True) (registry_update env t id_key name rest i)"
  "at_most_one (\<lambda>_. True) (registry_remove env t id_key i)"
  "at_most_one (\<lambda>_. True) (area_create env rest)"
  unfolding registry_update_def registry_remove_def area_create_def by (intro one_rules sends_rules TrueI)+

lemma one_registry_get:
  "(\<And>v. config_read (Ha_ws t [(id_key, v)])) \<Longrightarrow> at_most_one config_read (registry_get env t id_key name params)"
  unfolding registry_get_def by (intro one_rules sends_rules)

lemma entity_config_gated:
  assumes "kind \<in> {''automation'', ''script'', ''scene''}" "command = ''ha.config.'' @ kind"
  shows "config_gated env command params (entity_config kind env params)"
  unfolding entity_config_def assms(2)
proof (intro gated_by_action gated_if)
  show "config_gated env (''ha.config.'' @ kind) params (config_get env kind params)"
    unfolding config_get_def by (intro gated_read one_rules sends_rules config_reads assms(1))
next
  fix action
  assume "action = action_param params" "action = ''save''"
  then show "config_gated env (''ha.config.'' @ kind) params (config_save env kind params)"
    unfolding config_save_def by (intro gated_approved one_rules sends_rules TrueI) simp
next
  fix action
  assume "action = action_param params" "action \<in> set (map fst entity_config_keys)" "action \<noteq> ''get''" "action \<noteq> ''save''"
  then have "''delete'' = action_param params" by (simp add: entity_config_keys_def)
  then show "config_gated env (''ha.config.'' @ kind) params (config_delete env kind params)"
    unfolding config_delete_def by (intro gated_approved one_rules sends_rules TrueI)
qed

lemma helpers_gated: "config_gated env ''ha.config.helpers'' params (handle_ha_config_helpers env params)"
  unfolding handle_ha_config_helpers_def
proof (intro gated_by_action gated_if)
  show "config_gated env ''ha.config.helpers'' params (helpers_list env params)"
    unfolding helpers_list_def by (intro gated_read one_rules sends_rules config_reads)
next
  fix action
  assume "action = action_param params" "action = ''create''"
  then show "config_gated env ''ha.config.helpers'' params (helpers_create env params)"
    unfolding helpers_create_def by (intro gated_approved one_rules sends_rules TrueI) simp
next
  fix action
  assume "action = action_param params" "action = ''update''"
  then show "config_gated env ''ha.config.helpers'' params (helpers_update env params)"
    unfolding helpers_update_def by (intro gated_approved one_rules sends_rules TrueI) simp
next
  fix action
  assume "action = action_param params" "action \<in> set (map fst helpers_keys)" "action \<noteq> ''list''" "action \<noteq> ''create''"
    "action \<noteq> ''update''"
  then have "''delete'' = action_param params" by (simp add: helpers_keys_def)
  then show "config_gated env ''ha.config.helpers'' params (helpers_delete env params)"
    unfolding helpers_delete_def by (intro gated_approved one_rules sends_rules TrueI)
qed

lemma lovelace_gated: "config_gated env ''ha.config.lovelace'' params (handle_ha_config_lovelace env params)"
  unfolding handle_ha_config_lovelace_def
proof (intro gated_by_action gated_if)
  show "config_gated env ''ha.config.lovelace'' params (lovelace_get env params)"
    unfolding lovelace_get_def by (intro gated_read one_rules sends_rules config_reads)
  show "config_gated env ''ha.config.lovelace'' params (ws_list env ''lovelace/dashboards/list'' ''dashboards'')"
    "config_gated env ''ha.config.lovelace'' params (ws_list env ''lovelace/resources'' ''resources'')"
    by (intro gated_read one_ws_list config_reads)+
next
  fix action
  assume "action = action_param params" "action = ''save''"
  then show "config_gated env ''ha.config.lovelace'' params (lovelace_save env params)"
    unfolding lovelace_save_def by (intro gated_approved one_rules sends_rules TrueI) simp
next
  fix action
  assume "action = action_param params" "action \<in> set (map fst lovelace_keys)" "action \<noteq> ''get''" "action \<noteq> ''save''"
    "action \<noteq> ''dashboards_list''" "action \<noteq> ''resources_list''"
  then have "''resources_create'' = action_param params" by (simp add: lovelace_keys_def)
  then show "config_gated env ''ha.config.lovelace'' params (lovelace_resources_create env params)"
    unfolding lovelace_resources_create_def Let_def by (intro gated_approved one_rules sends_rules TrueI)
qed

lemma area_registry_gated: "config_gated env ''ha.config.area_registry'' params (handle_ha_config_area_registry env params)"
  unfolding handle_ha_config_area_registry_def
  by (intro gated_by_action gated_if gated_approved)
    (assumption | intro gated_read one_ws_list one_registry_get config_reads one_rules sends_rules TrueI)+

lemma device_registry_gated: "config_gated env ''ha.config.device_registry'' params (handle_ha_config_device_registry env params)"
  unfolding handle_ha_config_device_registry_def
  by (intro gated_by_action gated_if gated_approved)
    (assumption | intro gated_read one_ws_list one_registry_get config_reads one_rules sends_rules TrueI)+

lemma entity_registry_gated: "config_gated env ''ha.config.entity_registry'' params (handle_ha_config_entity_registry env params)"
  unfolding handle_ha_config_entity_registry_def
  by (intro gated_by_action gated_if gated_approved)
    (assumption | intro gated_read one_ws_list one_registry_get config_reads one_rules sends_rules TrueI)+

lemma config_entries_gated: "config_gated env ''ha.config.config_entries'' params (handle_ha_config_config_entries env params)"
  unfolding handle_ha_config_config_entries_def
  by (intro gated_by_action gated_if gated_approved)
    (assumption | intro gated_read one_ws_list one_registry_get config_reads one_rules sends_rules TrueI)+

lemmas registries_gated = area_registry_gated device_registry_gated entity_registry_gated config_entries_gated

definition ha_config_commands :: "(string \<times> (ha_env \<Rightarrow> dict \<Rightarrow> jval ha)) list" where
  "ha_config_commands = [
     (''ha.config.lovelace'', handle_ha_config_lovelace), (''ha.config.automation'', handle_ha_config_automation),
     (''ha.config.script'', handle_ha_config_script), (''ha.config.scene'', handle_ha_config_scene),
     (''ha.config.helpers'', handle_ha_config_helpers), (''ha.config.area_registry'', handle_ha_config_area_registry),
     (''ha.config.device_registry'', handle_ha_config_device_registry),
     (''ha.config.entity_registry'', handle_ha_config_entity_registry),
     (''ha.config.config_entries'', handle_ha_config_config_entries)]"

lemma config_commands_gated:
  assumes "(command, h) \<in> set ha_config_commands"
  shows "config_gated env command params (h env params)"
proof -
  have "config_gated env ''ha.config.automation'' params (handle_ha_config_automation env params)"
    "config_gated env ''ha.config.script'' params (handle_ha_config_script env params)"
    "config_gated env ''ha.config.scene'' params (handle_ha_config_scene env params)"
    unfolding handle_ha_config_automation_def handle_ha_config_script_def handle_ha_config_scene_def
    by (rule entity_config_gated; simp)+
  with assms show ?thesis
    unfolding ha_config_commands_def
    by (auto simp only: list.set insert_iff prod.inject empty_iff intro: helpers_gated lovelace_gated registries_gated)
qed

end
