(* ===== verification/Ha_Commands.thy ===== *)
theory Ha_Commands
  imports Ha_Config Dispatcher
begin

text \<open>
  The Home Assistant commands behind the dispatcher, and what each of them can ask for: the requests that
  read, the services a principal is granted, and what needs an approval.
\<close>

subsection \<open>Requests that read\<close>

definition slug_text :: "string \<Rightarrow> bool" where
  "slug_text s \<longleftrightarrow> s \<noteq> [] \<and> list_all slug_char s"

text \<open>A query holds no second question mark, no fragment and no space.\<close>

definition plain_query :: "string \<Rightarrow> bool" where
  "plain_query q \<longleftrightarrow> q = [] \<or> (\<exists>r. q = ''?'' @ r \<and> set r \<inter> {CHR ''?'', CHR ''#'', CHR '' ''} = {})"

definition timed_get :: "string \<Rightarrow> string \<Rightarrow> bool" where
  "timed_get base p \<longleftrightarrow>
     (\<exists>q. plain_query q \<and> (p = base @ q \<or> (\<exists>seg. path_segment seg \<and> p = base @ ''/'' @ seg @ q)))"

definition read_path :: "string \<Rightarrow> bool" where
  "read_path p \<longleftrightarrow>
     p \<in> {''/api/states'', ''/api/services'', ''/api/config'', ''/api/events'', ''/api/config/config_entries/entry''} \<or>
     (\<exists>seg. path_segment seg \<and> p = state_path seg) \<or>
     timed_get ''/api/logbook'' p \<or> timed_get ''/api/history/period'' p"

definition addon_read :: "string list \<Rightarrow> string \<Rightarrow> bool" where
  "addon_read whats p \<longleftrightarrow> (\<exists>slug what. slug_text slug \<and> what \<in> set whats \<and> p = addon_path slug what)"

definition read_request :: "ha_request \<Rightarrow> bool" where
  "read_request q = (case q of
     Ha_get p \<Rightarrow> read_path p
   | Ha_ws t _ \<Rightarrow> t \<in> {''config/area_registry/list'', ''config/device_registry/list'', ''config/entity_registry/list'', ''trace/list''}
   | Ha_post p _ \<Rightarrow> p \<in> {''/api/config/core/check_config'', ''/api/services/calendar/get_events?return_response''}
   | Supervisor_json p \<Rightarrow> p \<in> {''/addons'', ''/info''} \<or> addon_read [''info'', ''stats''] p
   | Supervisor_text p _ \<Rightarrow> p = ''/core/logs'' \<or> addon_read [''logs'', ''changelog'', ''documentation''] p
   | _ \<Rightarrow> False)"

lemma slug_ok: "slug_error (slug_of params) = None \<Longrightarrow> slug_text (slug_of params)"
proof -
  let ?s = "slug_of params"
  assume "slug_error ?s = None"
  then have v: "?s \<noteq> []" "slug_re ?s" by (auto simp: slug_error_def valid_addon_slug_def split: if_splits)
  have "last ?s \<noteq> char_of (10 :: nat)"
    using strip_last [of "py_str (dget_or params ''slug'' (JStr []))"] v(1)
    by (auto simp: slug_of_def py_space_def)
  with v have "slug_head (hd ?s)" "list_all slug_char (tl ?s)" by (auto simp: slug_re_def Let_def)
  with v(1) show "slug_text ?s" by (cases ?s) (auto simp: slug_text_def slug_char_def)
qed

lemma set_join: "set (join sep xs) \<subseteq> set sep \<union> \<Union> (set ` set xs)"
  by (induction sep xs rule: join.induct) auto

definition query_text :: "string \<Rightarrow> bool" where
  "query_text s \<longleftrightarrow> set s \<inter> {CHR ''?'', CHR ''#'', CHR '' ''} = {}"

lemma query_text_append [simp]: "query_text (a @ b) \<longleftrightarrow> query_text a \<and> query_text b"
  by (auto simp: query_text_def)

lemma query_text_value [simp]: "query_text (encode_query_value v)"
proof -
  have "\<not> encoded_char '':,'' c" if "c \<in> {CHR ''?'', CHR ''#'', CHR '' ''}" for c
    using that by (auto simp: encoded_char_def unreserved_def)
  with quote_keeping_chars [of _ "'':,''" v] show ?thesis
    unfolding query_text_def encode_query_value_def by blast
qed

lemma query_text_Cons [simp]: "query_text (c # s) \<longleftrightarrow> c \<notin> {CHR ''?'', CHR ''#'', CHR '' ''} \<and> query_text s"
  by (auto simp: query_text_def)

lemma query_text_Nil [simp]: "query_text []"
  by (simp add: query_text_def)

lemma query_text_part [simp]: "query_text name \<Longrightarrow> query_text (query_part name v)"
  by (simp add: query_part_def)

lemma with_query_plain:
  assumes "list_all query_text parts"
  shows "\<exists>q. plain_query q \<and> with_query path parts = path @ q"
proof (cases "parts = []")
  case False
  have "query_text (join ''&'' parts)"
    using assms set_join [of "''&''" parts] by (fastforce simp: query_text_def list_all_iff)
  then have "plain_query (''?'' @ join ''&'' parts)"
    unfolding plain_query_def query_text_def by blast
  with False show ?thesis by (auto simp: with_query_def)
qed (simp add: with_query_def plain_query_def)

lemma timed_get_query:
  assumes "timed_path base params = Some path" "list_all query_text parts"
  shows "timed_get base (with_query path parts)"
proof -
  obtain q where q: "plain_query q" "with_query path parts = path @ q"
    using with_query_plain [OF assms(2)] by blast
  from assms(1) have "path = base \<or> (\<exists>seg. path_segment seg \<and> path = base @ ''/'' @ seg)"
    by (auto simp: timed_path_def Let_def dest: encoded_segment split: if_splits)
  with q show ?thesis unfolding timed_get_def by auto
qed

lemma end_query_text: "list_all query_text (end_query params)"
  by (simp add: end_query_def Let_def)

lemma history_flags_text:
  "history_flags flags params = Inr xs \<Longrightarrow> list_all query_text flags \<Longrightarrow> list_all query_text xs"
  by (induction flags arbitrary: xs) (auto simp: sum_bind_Inr split: if_splits)

lemma probes_read: "(e, p) \<in> set (probes ids) \<Longrightarrow> \<exists>seg. path_segment seg \<and> p = state_path seg"
  by (auto simp: probes_def split: option.splits) (metis encoded_segment)

lemma read_states: "read_path ''/api/states''" "path_segment seg \<Longrightarrow> read_path (state_path seg)"
  by (auto simp: read_path_def)

subsection \<open>What a command may ask for\<close>

text \<open>A policy that grants all reads, and calls of some services.\<close>

locale request_policy =
  fixes allowed :: "ha_request \<Rightarrow> bool" and granted :: "string \<Rightarrow> string \<Rightarrow> bool"
  assumes reads: "read_request q \<Longrightarrow> allowed q"
    and services: "granted domain service \<Longrightarrow> allowed (Ha_post (service_path domain service) body)"
begin

lemma read_get: "read_path p \<Longrightarrow> allowed (Ha_get p)"
  by (rule reads) (simp add: read_request_def)

lemma read_ws: "read_request (Ha_ws t d) \<Longrightarrow> allowed (Ha_ws t d)"
  by (rule reads)

lemma sends_read_all:
  assumes "\<And>p. p \<in> set paths \<Longrightarrow> read_path p" "read_all env paths w = (rs, w')"
  shows "\<exists>new. sent w' = sent w @ new \<and> list_all allowed new"
  using read_all_sends [OF assms(2)] assms(1) by (auto simp: list_all_iff intro: read_get)

lemma sends_fetch: "sends_only allowed (fetch_entity_states env ids)"
proof (rule sends_onlyI)
  fix w
  obtain rs w' where r: "read_all env (state_paths ids) w = (rs, w')" by fastforce
  have "\<exists>new. sent w' = sent w @ new \<and> list_all allowed new"
    by (rule sends_read_all [OF _ r]) (auto simp: state_paths_def intro: read_states dest!: probes_read)
  with r show "\<exists>new. sent (snd (fetch_entity_states env ids w)) = sent w @ new \<and> list_all allowed new"
    by (simp add: fetch_entity_states_def)
qed

lemma sends_missing: "sends_only allowed (missing_entity_ids env ids)"
proof (rule sends_onlyI)
  fix w
  obtain rs w' where r: "read_all env (map snd (probes ids)) w = (rs, w')" by fastforce
  have "\<exists>new. sent w' = sent w @ new \<and> list_all allowed new"
    by (rule sends_read_all [OF _ r]) (auto intro: read_states dest!: probes_read)
  with r show "\<exists>new. sent (snd (missing_entity_ids env ids w)) = sent w @ new \<and> list_all allowed new"
    by (simp add: missing_entity_ids_def)
qed

lemma sends_observed: "sends_only allowed (with_observed_states env changed target)"
  by (auto simp: with_observed_states_def Let_def intro!: sends_rules sends_fetch)

lemma sends_trace_list: "sends_only allowed (trace_list env aid)"
  by (auto simp: sends_only_def trace_list_def ask_def read_request_def intro!: reads)

lemma sends_add_traces: "sends_only allowed (add_traces env states)"
  by (induction states) (auto intro!: sends_rules sends_trace_list split: json.split)

lemma sends_get_state: "sends_only allowed (handle_ha_get_state env params)"
  by (auto simp: handle_ha_get_state_def Let_def intro!: sends_rules read_get read_states
      dest!: encoded_segment split: option.split)

lemma timed_get_allowed:
  assumes "timed_path base params = Some path" "base \<in> {''/api/logbook'', ''/api/history/period''}"
    "list_all query_text parts"
  shows "allowed (Ha_get (with_query path (end_query params @ parts)))"
  using timed_get_query [OF assms(1), of "end_query params @ parts"] assms(2,3) end_query_text [of params]
  by (auto intro!: read_get simp: read_path_def)

lemma sends_logbook: "sends_only allowed (handle_ha_logbook env params)"
proof -
  let ?entity = "py_str (dget_or params ''entity_id'' (JStr []))"
  let ?parts = "if ?entity = [] then [] else [query_part ''entity'' ?entity]"
  have "allowed (Ha_get (with_query path (end_query params @ ?parts)))"
    if "timed_path ''/api/logbook'' params = Some path" for path
    by (rule timed_get_allowed [OF that]) simp_all
  then show ?thesis
    unfolding handle_ha_logbook_def Let_def by (auto intro!: sends_rules split: option.split)
qed

lemma sends_history_answer: "sends_only allowed (history_answer env ids raw)"
  by (auto simp: history_answer_def intro!: sends_rules sends_missing)

lemma sends_history: "sends_only allowed (handle_ha_history env params)"
proof -
  let ?flags = "[''minimal_response'', ''no_attributes'', ''significant_changes_only'']"
  have ok: "allowed (Ha_get (with_query path (end_query params @ ids_query ids @ flags)))"
    if "timed_path ''/api/history/period'' params = Some path" "history_flags ?flags params = Inr flags"
    for path ids flags
  proof (rule timed_get_allowed [OF that(1)])
    have "list_all query_text flags" by (rule history_flags_text [OF that(2)]) simp
    then show "list_all query_text (ids_query ids @ flags)" by (simp add: ids_query_def)
  qed simp
  show ?thesis
    unfolding handle_ha_history_def Let_def
    by (auto intro!: sends_rules sends_history_answer ok simp del: history_flags.simps split: option.split sum.split)
qed

lemma sends_automations: "sends_only allowed (handle_ha_list_automations env params)"
  by (auto simp: handle_ha_list_automations_def Let_def intro!: sends_rules sends_add_traces read_get read_states
      split: json.split)

lemma sends_plain_reads:
  "sends_only allowed (handle_ha_list_states env params)"
  "sends_only allowed (handle_ha_list_areas env params)"
  "sends_only allowed (handle_ha_list_devices env params)"
  "sends_only allowed (handle_ha_list_services env params)"
  "sends_only allowed (handle_ha_get_config env params)"
  "sends_only allowed (handle_ha_list_events env params)"
  "sends_only allowed (handle_ha_list_config_entries env params)"
  "sends_only allowed (handle_ha_list_entity_registry env params)"
  "sends_only allowed (handle_ha_check_config env params)"
  "sends_only allowed (handle_ha_core_logs env params)"
  "sends_only allowed (handle_ha_calendar_get_events env params)"
  by (simp_all add: handle_ha_list_states_def handle_ha_list_areas_def handle_ha_list_devices_def
      handle_ha_list_services_def handle_ha_get_config_def handle_ha_list_events_def
      handle_ha_list_config_entries_def handle_ha_list_entity_registry_def handle_ha_check_config_def
      handle_ha_core_logs_def handle_ha_calendar_get_events_def reads read_request_def read_path_def
      sends_rules split: json.split)

lemma sends_if_slug:
  "(slug_text (slug_of params) \<Longrightarrow> sends_only allowed k) \<Longrightarrow> sends_only allowed (unless (slug_error (slug_of params)) k)"
  using slug_ok [of params] by (simp add: unless_def sends_return split: option.split)

lemma read_addon:
  "slug_text slug \<Longrightarrow> what \<in> {''info'', ''stats''} \<Longrightarrow> allowed (Supervisor_json (addon_path slug what))"
  "slug_text slug \<Longrightarrow> what \<in> {''logs'', ''changelog'', ''documentation''} \<Longrightarrow>
     allowed (Supervisor_text (addon_path slug what) n)"
  by (rule reads, force simp: read_request_def addon_read_def)+

lemma sends_supervisor_reads:
  "sends_only allowed (handle_ha_addon_logs env params)"
  "sends_only allowed (handle_ha_addon_changelog env params)"
  "sends_only allowed (handle_ha_addon_documentation env params)"
  "sends_only allowed (handle_ha_list_addons env params)"
  "sends_only allowed (handle_ha_addon_info env params)"
  "sends_only allowed (handle_ha_addon_stats env params)"
  "sends_only allowed (handle_ha_supervisor_info env params)"
  by (simp_all add: handle_ha_addon_logs_def handle_ha_addon_changelog_def handle_ha_addon_documentation_def
      handle_ha_list_addons_def handle_ha_addon_info_def handle_ha_addon_stats_def handle_ha_supervisor_info_def
      addon_text_def addon_data_def Let_def reads read_request_def sends_rules sends_if_slug read_addon
      split: int_result.split)

lemma sends_service:
  assumes "granted domain service" "\<And>a. sends_only allowed (k a)"
  shows "sends_only allowed (or_error (ask env (Ha_post (service_path domain service) body)) k)"
  by (intro sends_rules services assms)

lemma sends_lights:
  "granted ''light'' ''turn_on'' \<Longrightarrow> sends_only allowed (handle_ha_light_turn_on env params)"
  "granted ''light'' ''turn_off'' \<Longrightarrow> sends_only allowed (handle_ha_light_turn_off env params)"
  by (auto simp: handle_ha_light_turn_on_def handle_ha_light_turn_off_def light_call_def Let_def
      intro!: sends_rules sends_service sends_observed split: sum.split)

lemma sends_call_service:
  assumes "\<And>d s. service_part params ''domain'' = Some d \<Longrightarrow> service_part params ''service'' = Some s \<Longrightarrow> granted d s"
  shows "sends_only allowed (handle_ha_call_service env params)"
proof (cases "call_service_refusal params")
  case (Some e)
  then show ?thesis by (simp add: handle_ha_call_service_def unless_def sends_return)
next
  case None
  then obtain d s where d: "service_part params ''domain'' = Some d" and s: "service_part params ''service'' = Some s"
    by (auto simp: call_service_refusal_def canonical_component split: option.splits if_splits)
  with assms [OF d s] show ?thesis
    by (auto simp: handle_ha_call_service_def canonical_component Let_def
        intro!: sends_rules sends_service sends_observed split: option.split)
qed

end

text \<open>The policy of the reading commands, and the one of a call of one service.\<close>

interpretation reading: request_policy read_request "\<lambda>_ _. False"
  by unfold_locales simp_all

definition service_request :: "string \<Rightarrow> string \<Rightarrow> ha_request \<Rightarrow> bool" where
  "service_request domain service q \<longleftrightarrow>
     read_request q \<or> (\<exists>body. q = Ha_post (service_path domain service) body)"

interpretation calling: request_policy "service_request d s" "\<lambda>d' s'. d' = d \<and> s' = s" for d s
  by unfold_locales (auto simp: service_request_def)

subsection \<open>The commands\<close>

type_synonym ha_handler = "ha_env \<Rightarrow> dict \<Rightarrow> jval ha"

definition ha_reading_commands :: "(string \<times> ha_handler) list" where
  "ha_reading_commands = [
     (''ha.list_states'', handle_ha_list_states), (''ha.get_state'', handle_ha_get_state),
     (''ha.list_areas'', handle_ha_list_areas), (''ha.list_devices'', handle_ha_list_devices),
     (''ha.list_services'', handle_ha_list_services), (''ha.get_config'', handle_ha_get_config),
     (''ha.list_events'', handle_ha_list_events), (''ha.list_config_entries'', handle_ha_list_config_entries),
     (''ha.core_logs'', handle_ha_core_logs), (''ha.calendar_get_events'', handle_ha_calendar_get_events),
     (''ha.list_entity_registry'', handle_ha_list_entity_registry), (''ha.logbook'', handle_ha_logbook),
     (''ha.history'', handle_ha_history), (''ha.list_automations'', handle_ha_list_automations),
     (''ha.check_config'', handle_ha_check_config), (''ha.addon_logs'', handle_ha_addon_logs),
     (''ha.list_addons'', handle_ha_list_addons), (''ha.addon_info'', handle_ha_addon_info),
     (''ha.addon_stats'', handle_ha_addon_stats), (''ha.addon_changelog'', handle_ha_addon_changelog),
     (''ha.addon_documentation'', handle_ha_addon_documentation), (''ha.supervisor_info'', handle_ha_supervisor_info)]"

definition ha_service_commands :: "(string \<times> ha_handler) list" where
  "ha_service_commands = [
     (''ha.call_service'', handle_ha_call_service), (''ha.light_turn_on'', handle_ha_light_turn_on),
     (''ha.light_turn_off'', handle_ha_light_turn_off)]"

definition ha_approved_commands :: "(string \<times> ha_handler) list" where
  "ha_approved_commands = [
     (''ha.reload_config'', handle_ha_reload_config), (''ha.addon_start'', handle_ha_addon_start),
     (''ha.addon_stop'', handle_ha_addon_stop), (''ha.addon_restart'', handle_ha_addon_restart),
     (''ha.addon_update'', handle_ha_addon_update), (''ha.update_install'', handle_ha_update_install)]"

definition ha_commands :: "(string \<times> ha_handler) list" where
  "ha_commands = ha_reading_commands @ ha_service_commands @ ha_approved_commands @ ha_config_commands"

text \<open>
  The registry's handlers: those of \<open>commands/ha.py\<close> and \<open>commands/ha_config_*.py\<close> are coroutines, which read \<open>CURRENT_CALLER\<close> when
  they are awaited; the others are a parameter, over the whole state.
\<close>

definition run_ha :: "ha_env \<Rightarrow> ha_handler \<Rightarrow> dict \<Rightarrow> (ha_world \<times> 'o) node_state \<Rightarrow>
    ha_exn handler_end \<times> (ha_world \<times> 'o) node_state" where
  "run_ha env h params st =
     (case h (env\<lparr>he_caller := current_caller st\<rparr>) params (fst (world st)) of
        (r, w) \<Rightarrow> ((case r of Inl e \<Rightarrow> Raised e | Inr v \<Rightarrow> Returned v), st\<lparr>world := (w, snd (world st))\<rparr>))"

definition ha_handlers :: "ha_env \<Rightarrow> (ha_exn, ha_world \<times> 'o) handlers \<Rightarrow> (ha_exn, ha_world \<times> 'o) handlers" where
  "ha_handlers env others command params st =
     (case map_of ha_commands command of
        Some h \<Rightarrow> (Coroutine (run_ha env h params), st)
      | None \<Rightarrow> others command params st)"

lemma reading_commands: "(command, h) \<in> set ha_reading_commands \<Longrightarrow> sends_only read_request (h env params)"
  by (auto simp: ha_reading_commands_def reading.sends_plain_reads reading.sends_supervisor_reads
      reading.sends_get_state reading.sends_logbook reading.sends_history reading.sends_automations)

subsection \<open>What an approval pays for\<close>

text \<open>The requests of a command behind the approval check, in their order.\<close>

definition lifecycle_plan :: "string \<Rightarrow> dict \<Rightarrow> ha_request list" where
  "lifecycle_plan action params =
     (let info = Supervisor_json (addon_path (slug_of params) ''info'') in
      [info, Supervisor_post (addon_path (slug_of params) action), info])"

definition approved_plan :: "string \<Rightarrow> dict \<Rightarrow> ha_request list" where
  "approved_plan command params =
     (if command = ''ha.reload_config'' then [Ha_post ''/api/services/homeassistant/reload_core_config'' None]
      else if command = ''ha.update_install'' then
        [Ha_post (service_path ''update'' ''install'')
           (Some (update_data (strip (py_str (dget_or params ''entity_id'' (JStr [])))) params))]
      else if command = ''ha.addon_start'' then lifecycle_plan ''start'' params
      else if command = ''ha.addon_stop'' then lifecycle_plan ''stop'' params
      else if command = ''ha.addon_restart'' then lifecycle_plan ''restart'' params
      else if command = ''ha.addon_update'' then lifecycle_plan ''update'' params
      else [])"

text \<open>
  A computation that follows a plan as far as the answers let it, and only when the approval check
  accepts the call.
\<close>

definition follows :: "ha_request list \<Rightarrow> 'a ha \<Rightarrow> bool" where
  "follows plan m \<longleftrightarrow> (\<forall>w. \<exists>new. sent (snd (m w)) = sent w @ new \<and> prefix new plan)"

definition pays :: "ha_env \<Rightarrow> string \<Rightarrow> dict \<Rightarrow> ha_request list \<Rightarrow> jval ha \<Rightarrow> bool" where
  "pays env command params plan m \<longleftrightarrow> (\<forall>w. \<exists>new. sent (snd (m w)) = sent w @ new \<and> prefix new plan \<and>
     (new \<noteq> [] \<longrightarrow> authorised (marker_check env command [] params (approvals w))))"

lemma follows_silent: "(\<And>w. sent (snd (m w)) = sent w) \<Longrightarrow> follows plan m"
  by (simp add: follows_def)

lemma pays_silent: "(\<And>w. sent (snd (m w)) = sent w) \<Longrightarrow> pays env command params plan m"
  by (simp add: pays_def)

lemma pays_unless: "pays env command params plan m \<Longrightarrow> pays env command params plan (unless refused m)"
  by (auto simp: unless_def ha_return_def intro: pays_silent split: option.split)

lemma follows_from: "follows plan m \<Longrightarrow> sent w = before \<Longrightarrow> \<exists>new. sent (snd (m w)) = before @ new \<and> prefix new plan"
  by (auto simp: follows_def)

lemma follows_if: "follows plan m \<Longrightarrow> follows plan m' \<Longrightarrow> follows plan (if b then m else m')"
  by simp

lemma follows_return: "follows plan (ha_return a)"
  by (simp add: follows_silent ha_return_def)

lemma follows_timeout: "follows plan m \<Longrightarrow> follows plan (or_timeout r m)"
  unfolding follows_def or_timeout_def
  by (auto split: prod.splits sum.splits ha_exn.splits) (metis snd_conv)+

lemma pays_marker:
  assumes "follows plan m"
  shows "pays env command params plan
    (ha_bind (consume_marker env command [] params) (\<lambda>(denied, rest). unless denied m))"
  unfolding pays_def
proof
  fix w :: ha_world
  obtain r rest used where c: "marker_check env command [] params (approvals w) = ((r, rest), used)"
    by (metis prod.exhaust)
  show "\<exists>new. sent (snd (ha_bind (consume_marker env command [] params) (\<lambda>(denied, rest). unless denied m) w)) =
      sent w @ new \<and> prefix new plan \<and> (new \<noteq> [] \<longrightarrow> authorised (marker_check env command [] params (approvals w)))"
    using c follows_from [OF assms, of "w\<lparr>approvals := used\<rparr>" "sent w"]
    by (cases r) (auto simp: ha_bind_def consume_marker_def marker_check_def authorised_def unless_def ha_return_def)
qed

lemma follows_ask:
  assumes "\<And>a. follows plan (k a)"
  shows "follows (q # plan) (or_error (ask env q) k)"
  unfolding follows_def
proof
  fix w :: ha_world
  let ?w = "w\<lparr>sent := sent w @ [q]\<rparr>"
  show "\<exists>new. sent (snd (or_error (ask env q) k w)) = sent w @ new \<and> prefix new (q # plan)"
  proof (cases "he_json env (sent w) q")
    case (Inl e)
    then have "sent (snd (or_error (ask env q) k w)) = sent w @ [q]"
      by (auto simp: or_error_def ask_def split: ha_exn.split)
    then show ?thesis by auto
  next
    case (Inr a)
    obtain new where "sent (snd (k a ?w)) = sent ?w @ new" "prefix new plan"
      using assms [of a] unfolding follows_def by blast
    with Inr have "sent (snd (or_error (ask env q) k w)) = sent w @ (q # new)" "prefix (q # new) (q # plan)"
      by (simp_all add: or_error_def ask_def)
    then show ?thesis by blast
  qed
qed

lemma or_error_assoc: "or_error (ha_bind m f) k = or_error m (\<lambda>a. or_error (f a) k)"
  by (rule ext) (auto simp: or_error_def ha_bind_def split: prod.splits sum.splits ha_exn.splits)

lemma or_error_return: "or_error (ha_return a) k = k a"
  by (rule ext) (simp add: or_error_def ha_return_def)

lemma follows_lifecycle:
  "follows (lifecycle_plan action params) (lifecycle_action env command action (slug_of params) desired)"
  unfolding lifecycle_action_def addon_state_def lifecycle_plan_def or_error_assoc or_error_return Let_def
  by (intro follows_ask follows_if follows_return follows_timeout)

lemma lifecycle_pays:
  "pays env command params (lifecycle_plan action params) (handle_addon_lifecycle env command action desired params)"
  unfolding handle_addon_lifecycle_def Let_def by (intro pays_unless pays_marker follows_lifecycle)

lemma approved_plans:
  "approved_plan ''ha.reload_config'' params = [Ha_post ''/api/services/homeassistant/reload_core_config'' None]"
  "approved_plan ''ha.update_install'' params = [Ha_post (service_path ''update'' ''install'')
     (Some (update_data (strip (py_str (dget_or params ''entity_id'' (JStr [])))) params))]"
  "approved_plan ''ha.addon_start'' params = lifecycle_plan ''start'' params"
  "approved_plan ''ha.addon_stop'' params = lifecycle_plan ''stop'' params"
  "approved_plan ''ha.addon_restart'' params = lifecycle_plan ''restart'' params"
  "approved_plan ''ha.addon_update'' params = lifecycle_plan ''update'' params"
  by (simp_all add: approved_plan_def)

lemma reload_pays:
  "pays env ''ha.reload_config'' params (approved_plan ''ha.reload_config'' params) (handle_ha_reload_config env params)"
  unfolding handle_ha_reload_config_def approved_plans
  by (intro pays_unless pays_marker follows_ask follows_return)

lemma update_pays:
  "pays env ''ha.update_install'' params (approved_plan ''ha.update_install'' params) (handle_ha_update_install env params)"
  unfolding handle_ha_update_install_def Let_def approved_plans
  by (intro pays_unless pays_marker follows_timeout follows_ask follows_return)

lemma lifecycle_commands_pay:
  "pays env ''ha.addon_start'' params (approved_plan ''ha.addon_start'' params) (handle_ha_addon_start env params)"
  "pays env ''ha.addon_stop'' params (approved_plan ''ha.addon_stop'' params) (handle_ha_addon_stop env params)"
  "pays env ''ha.addon_restart'' params (approved_plan ''ha.addon_restart'' params) (handle_ha_addon_restart env params)"
  "pays env ''ha.addon_update'' params (approved_plan ''ha.addon_update'' params) (handle_ha_addon_update env params)"
  unfolding approved_plans handle_ha_addon_start_def handle_ha_addon_stop_def
    handle_ha_addon_restart_def handle_ha_addon_update_def
  by (rule lifecycle_pays)+

lemma approved_pays:
  assumes "(command, h) \<in> set ha_approved_commands"
  shows "pays env command params (approved_plan command params) (h env params)"
  using assms unfolding ha_approved_commands_def
  by (auto simp only: list.set insert_iff prod.inject empty_iff
      intro: reload_pays update_pays lifecycle_commands_pay)

lemma lifecycle_slug:
  assumes "sent (snd (handle_addon_lifecycle env command action desired params w)) \<noteq> sent w"
  shows "slug_text (slug_of params) \<and> addon_lifecycle_policy_error env (slug_of params) = None"
  using assms slug_ok [of params]
  by (auto simp: handle_addon_lifecycle_def Let_def unless_def ha_return_def split: option.splits)

subsection \<open>Service calls\<close>

lemma call_service_undenied:
  assumes "sent (snd (handle_ha_call_service env params w)) \<noteq> sent w"
  obtains d s where "service_part params ''domain'' = Some d" "service_part params ''service'' = Some s"
    "interim_service_denial d s = None"
proof -
  from assms have "call_service_refusal params = None"
    by (auto simp: handle_ha_call_service_def unless_def ha_return_def split: option.splits)
  then obtain d s where ds: "service_part params ''domain'' = Some d" "service_part params ''service'' = Some s"
    by (auto simp: call_service_refusal_def canonical_component split: option.splits if_splits)
  moreover have "interim_service_denial d s = None"
    using assms ds by (cases "interim_service_denial d s")
      (auto simp: handle_ha_call_service_def canonical_component unless_def ha_return_def split: option.splits)
  ultimately show ?thesis using that by blast
qed

text \<open>A service command only reads, and calls the service that the policies check.\<close>

lemma service_commands:
  assumes "(command, h) \<in> set ha_service_commands"
    "sent (snd (h env params w)) \<noteq> sent w"
  obtains d s new where "service_for_command command params = Some (d @ ''.'' @ s)"
    "interim_service_denial d s = None" "service_name d"
    "sent (snd (h env params w)) = sent w @ new" "list_all (service_request d s) new"
proof -
  have light: "interim_service_denial ''light'' ''turn_on'' = None" "interim_service_denial ''light'' ''turn_off'' = None"
    "service_name ''light''"
    by code_simp+
  consider "command = ''ha.call_service''" "h = handle_ha_call_service"
    | "command = ''ha.light_turn_on''" "h = handle_ha_light_turn_on"
    | "command = ''ha.light_turn_off''" "h = handle_ha_light_turn_off"
    using assms(1) by (auto simp: ha_service_commands_def)
  then show ?thesis
  proof cases
    case 1
    obtain d s where ds: "service_part params ''domain'' = Some d" "service_part params ''service'' = Some s"
      "interim_service_denial d s = None"
      using call_service_undenied assms(2) 1 by metis
    have "sends_only (service_request d s) (h env params)"
      unfolding 1 by (rule calling.sends_call_service) (use ds in auto)
    moreover have "service_name d" using ds(1) by (auto simp: service_part_def Let_def split: if_splits)
    ultimately show ?thesis
      using that [of d s] ds 1 unfolding sends_only_def
      by (auto simp: service_for_command_def wrapper_services_def)
  next
    case 2
    have "sends_only (service_request ''light'' ''turn_on'') (h env params)"
      unfolding 2 by (rule calling.sends_lights) simp_all
    then show ?thesis
      using that [of "''light''" "''turn_on''"] 2 light unfolding sends_only_def
      by (auto simp: service_for_command_def wrapper_services_def)
  next
    case 3
    have "sends_only (service_request ''light'' ''turn_off'') (h env params)"
      unfolding 3 by (rule calling.sends_lights) simp_all
    then show ?thesis
      using that [of "''light''" "''turn_off''"] 3 light unfolding sends_only_def
      by (auto simp: service_for_command_def wrapper_services_def)
  qed
qed

subsection \<open>Behind the gate\<close>

definition ha_sent :: "(ha_world \<times> 'o) node_state \<Rightarrow> ha_request list" where
  "ha_sent st = sent (fst (world st))"

lemma dispatched:
  assumes "map_of ha_commands command = Some h"
  obtains "ha_sent (snd (dispatch_async (ha_handlers env others) command params c st)) = ha_sent st"
  | "check c command params = None"
    "ha_sent (snd (dispatch_async (ha_handlers env others) command params c st)) =
       sent (snd (h (env\<lparr>he_caller := Some c\<rparr>) params (fst (world st))))"
proof (cases "command \<in> set registry \<and> check c command params = None")
  case True
  then show ?thesis
    using assms that(2)
    by (simp add: dispatch_async_def with_caller_def awaited_def ha_handlers_def run_ha_def ha_sent_def Let_def
        split: prod.split)
next
  case False
  then show ?thesis
    using that(1) by (auto simp: dispatch_async_def Let_def split: option.split)
qed

lemma ha_command_kinds:
  assumes "map_of ha_commands command = Some h"
  shows "(command, h) \<in> set ha_reading_commands \<or> (command, h) \<in> set ha_service_commands \<or>
    (command, h) \<in> set ha_approved_commands \<or> (command, h) \<in> set ha_config_commands"
  using map_of_SomeD [OF assms] by (auto simp: ha_commands_def)

lemma lifecycle_posts:
  assumes "(command, h) \<in> set ha_approved_commands" "sent (snd (h env params w)) \<noteq> sent w"
    "Supervisor_post p \<in> set (approved_plan command params)"
  shows "slug_text (slug_of params) \<and> addon_lifecycle_policy_error env (slug_of params) = None \<and>
    (\<exists>action. p = addon_path (slug_of params) action)"
proof -
  consider "command = ''ha.reload_config''" | "command = ''ha.update_install''"
    | action desired where "h = (\<lambda>env. handle_addon_lifecycle env command action desired)"
        "approved_plan command params = lifecycle_plan action params"
    using assms(1) unfolding ha_approved_commands_def
    by (auto simp only: list.set insert_iff prod.inject empty_iff approved_plans
        handle_ha_addon_start_def [abs_def] handle_ha_addon_stop_def [abs_def]
        handle_ha_addon_restart_def [abs_def] handle_ha_addon_update_def [abs_def])
  then show ?thesis
  proof cases
    case (3 action desired)
    then show ?thesis using assms(2,3) lifecycle_slug by (auto simp: lifecycle_plan_def Let_def)
  qed (use assms(3) in \<open>simp_all add: approved_plans\<close>)
qed

lemma allowed_by_check:
  assumes "check c command params = None" "service_for_command command params = Some s"
  shows "caller_role c = Operator \<or> service_allowed s"
  using assms classify_Some [of s]
  by (cases "classify (Some s)") (auto simp: check_def Let_def simp del: classify_Some split: if_splits)

text \<open>What a call of a command may have asked for.\<close>

definition asked_for :: "ha_env \<Rightarrow> caller \<Rightarrow> string \<Rightarrow> dict \<Rightarrow> used_ids \<Rightarrow> ha_request list \<Rightarrow> bool" where
  "asked_for env c command params used new \<longleftrightarrow>
     list_all read_request new \<or>
     (\<exists>d s. service_for_command command params = Some (d @ ''.'' @ s) \<and> service_name d \<and>
        interim_service_denial d s = None \<and>
        (caller_role c = Operator \<or> service_allowed (d @ ''.'' @ s)) \<and> list_all (service_request d s) new) \<or>
     (command \<in> set (map fst ha_approved_commands) \<and> prefix new (approved_plan command params) \<and>
      authorised (marker_check (env\<lparr>he_caller := Some c\<rparr>) command [] params used) \<and>
      (\<forall>p. Supervisor_post p \<in> set new \<longrightarrow> slug_text (slug_of params) \<and>
         addon_lifecycle_policy_error env (slug_of params) = None \<and> (\<exists>action. p = addon_path (slug_of params) action))) \<or>
     (command \<in> set (map fst ha_config_commands) \<and> length new \<le> 1 \<and>
      (list_all config_read new \<or>
       authorised (marker_check (env\<lparr>he_caller := Some c\<rparr>) command (action_param params) params used)))"

lemma policy_error_caller: "addon_lifecycle_policy_error (env\<lparr>he_caller := x\<rparr>) = addon_lifecycle_policy_error env"
  by (rule ext) (simp add: addon_lifecycle_policy_error_def)

lemma handler_asks:
  assumes "map_of ha_commands command = Some h" "check c command params = None"
  shows "\<exists>new. sent (snd (h (env\<lparr>he_caller := Some c\<rparr>) params w)) = sent w @ new \<and>
    asked_for env c command params (approvals w) new"
proof -
  let ?run = "h (env\<lparr>he_caller := Some c\<rparr>) params"
  consider "sent (snd (?run w)) = sent w" | "(command, h) \<in> set ha_reading_commands"
    | "(command, h) \<in> set ha_service_commands" "sent (snd (?run w)) \<noteq> sent w"
    | "(command, h) \<in> set ha_approved_commands" "sent (snd (?run w)) \<noteq> sent w"
    | "(command, h) \<in> set ha_config_commands"
    using ha_command_kinds [OF assms(1)] by blast
  then show ?thesis
  proof cases
    case 1
    then show ?thesis by (simp add: asked_for_def)
  next
    case 2
    then have "sends_only read_request ?run" by (rule reading_commands)
    then show ?thesis unfolding sends_only_def asked_for_def by blast
  next
    case 3
    obtain d s new where f: "service_for_command command params = Some (d @ ''.'' @ s)"
      "interim_service_denial d s = None" "service_name d"
      "sent (snd (?run w)) = sent w @ new" "list_all (service_request d s) new"
      by (rule service_commands [OF 3])
    with allowed_by_check [OF assms(2) f(1)] show ?thesis unfolding asked_for_def by blast
  next
    case 4
    obtain new where n: "sent (snd (?run w)) = sent w @ new" "prefix new (approved_plan command params)"
      "new \<noteq> [] \<longrightarrow> authorised (marker_check (env\<lparr>he_caller := Some c\<rparr>) command [] params (approvals w))"
      using approved_pays [OF 4(1)] unfolding pays_def by blast
    have "new \<noteq> []" using n(1) 4(2) by auto
    moreover have "Supervisor_post p \<in> set new \<Longrightarrow> Supervisor_post p \<in> set (approved_plan command params)" for p
      using set_mono_prefix [OF n(2)] by blast
    moreover have "command \<in> set (map fst ha_approved_commands)" using 4(1) by (force simp: rev_image_eqI)
    ultimately show ?thesis
      using n lifecycle_posts [OF 4] unfolding asked_for_def policy_error_caller by blast
  next
    case 5
    have "command \<in> set (map fst ha_config_commands)" using 5 by (force simp: rev_image_eqI)
    with config_commands_gated [OF 5] show ?thesis unfolding config_gated_def asked_for_def by blast
  qed
qed

lemma dispatch_asks:
  assumes "command \<in> set (map fst ha_commands)"
    and "dispatch_async (ha_handlers env others) command params c st = (r, st')"
  shows "\<exists>new. ha_sent st' = ha_sent st @ new \<and>
    asked_for env c command params (approvals (fst (world st))) new"
proof -
  obtain h where h: "map_of ha_commands command = Some h"
    using assms(1) by (metis map_of_eq_None_iff not_Some_eq set_map)
  have st': "st' = snd (dispatch_async (ha_handlers env others) command params c st)"
    using assms(2) by simp
  show ?thesis
  proof (rule dispatched [OF h, where env = env and others = others and params = params and c = c and st = st])
    assume "ha_sent (snd (dispatch_async (ha_handlers env others) command params c st)) = ha_sent st"
    then show ?thesis by (simp add: st' asked_for_def)
  next
    assume "check c command params = None"
      "ha_sent (snd (dispatch_async (ha_handlers env others) command params c st)) =
         sent (snd (h (env\<lparr>he_caller := Some c\<rparr>) params (fst (world st))))"
    with handler_asks [OF h, where w = "fst (world st)"] show ?thesis unfolding st' by (simp add: ha_sent_def)
  qed
qed


definition household_request :: "ha_request \<Rightarrow> bool" where
  "household_request q \<longleftrightarrow>
     read_request q \<or> (\<exists>(d, ns) \<in> set household_allowed_services. \<exists>n \<in> set ns. \<exists>body. q = Ha_post (service_path d n) body)"

lemma approved_names:
  "map fst ha_approved_commands = [''ha.reload_config'', ''ha.addon_start'', ''ha.addon_stop'', ''ha.addon_restart'',
     ''ha.addon_update'', ''ha.update_install'']"
  by (simp only: ha_approved_commands_def list.map fst_conv)

lemma config_names:
  "map fst ha_config_commands = map (\<lambda>n. ''ha.config.'' @ n) [''lovelace'', ''automation'', ''script'', ''scene'',
     ''helpers'', ''area_registry'', ''device_registry'', ''entity_registry'', ''config_entries'']"
  by (simp only: ha_config_commands_def list.map fst_conv append.simps)

lemma approved_not_household:
  "list_all (\<lambda>c. c \<notin> set user_allowed_commands) (map fst ha_approved_commands @ map fst ha_config_commands)"
  unfolding approved_names config_names by code_simp

lemma household_domains: "list_all (\<lambda>(d, ns). CHR ''.'' \<notin> set d) household_allowed_services"
  by code_simp

lemma service_name_plain: "service_name d \<Longrightarrow> CHR ''.'' \<notin> set d"
proof -
  have "\<not> service_char (CHR ''.'')" by code_simp
  then show "service_name d \<Longrightarrow> CHR ''.'' \<notin> set d" by (auto simp: service_name_def list_all_iff)
qed

lemma dot_split: "d @ ''.'' @ s = d' @ ''.'' @ s' \<Longrightarrow> CHR ''.'' \<notin> set d \<Longrightarrow> CHR ''.'' \<notin> set d' \<Longrightarrow> d = d' \<and> s = s'"
  by (induction d arbitrary: d') (auto simp: Cons_eq_append_conv)

lemma household_service:
  assumes "service_allowed (d @ ''.'' @ s)" "service_name d"
  obtains ns where "(d, ns) \<in> set household_allowed_services" "s \<in> set ns"
proof -
  obtain d' ns n where p: "d @ ''.'' @ s = d' @ ''.'' @ n" "(d', ns) \<in> set household_allowed_services" "n \<in> set ns"
    by (rule service_allowed_split [OF assms(1)])
  have "CHR ''.'' \<notin> set d'" using household_domains p(2) by (auto simp: list_all_iff)
  with dot_split [OF p(1) service_name_plain [OF assms(2)]] p(2,3) that show ?thesis by blast
qed

lemma asked_by_household:
  assumes "asked_for env c command params used new" "caller_role c = Turn User" "command \<in> set user_allowed_commands"
  shows "list_all household_request new"
proof -
  have "command \<notin> set (map fst ha_approved_commands)" "command \<notin> set (map fst ha_config_commands)"
    using approved_not_household assms(3) unfolding list_all_iff set_append by blast+
  with assms(1,2) consider "list_all read_request new"
    | d s where "service_name d" "service_allowed (d @ ''.'' @ s)" "list_all (service_request d s) new"
    unfolding asked_for_def by auto
  then show ?thesis
  proof cases
    case 1
    then show ?thesis by (simp add: list_all_iff household_request_def)
  next
    case (2 d s)
    obtain ns where "(d, ns) \<in> set household_allowed_services" "s \<in> set ns"
      by (rule household_service [OF 2(2,1)])
    with 2(3) show ?thesis by (fastforce simp: list_all_iff household_request_def service_request_def)
  qed
qed

text \<open>
  C1. A household turn reaches Home Assistant only through reads and the services of the household table: a
  dispatch for it of a Home Assistant command adds only requests that read, and posts to the path of a
  service of the table.
\<close>

theorem household_requests_confined:
  assumes "caller_role c = Turn User" "command \<in> set (map fst ha_commands)"
    and "dispatch_async (ha_handlers env others) command params c st = (r, st')"
  shows "\<exists>new. ha_sent st' = ha_sent st @ new \<and> list_all household_request new"
proof (cases "st' = st")
  case True
  then show ?thesis by simp
next
  case False
  then have "command \<in> set user_allowed_commands"
    using household_dispatch_reach [OF assms(1)] assms(3) by (metis snd_conv)
  with dispatch_asks [OF assms(2,3)] asked_by_household [OF _ assms(1)] show ?thesis by blast
qed

subsection \<open>Truthful replies\<close>

definition entity_state :: "(ha_exn + jval) \<Rightarrow> jval option" where
  "entity_state r = (case r of Inr (JObj d) \<Rightarrow> Some (JObj d) | _ \<Rightarrow> None)"

lemma fetched_states:
  "fetch_entity_states env ids w = (Inr (map the (filter (\<lambda>x. x \<noteq> None) (map entity_state (fst (read_all env (state_paths ids) w))))),
     snd (read_all env (state_paths ids) w))"
proof -
  have "concat (map (\<lambda>r. case r of Inr (JObj d) \<Rightarrow> [JObj d] | _ \<Rightarrow> []) rs) =
      map the (filter (\<lambda>x. x \<noteq> None) (map entity_state rs))" for rs :: "(ha_exn + jval) list"
    by (induction rs) (auto simp: entity_state_def split: sum.split json.split)
  then show ?thesis by (simp add: fetch_entity_states_def split: prod.split)
qed

lemma probes_few: "length (probes ids) \<le> min (length ids) 10"
proof -
  have "length (concat (map (\<lambda>e. case encode_path_segment e of None \<Rightarrow> [] | Some s \<Rightarrow> [(e, state_path s)]) xs)) \<le> length xs"
    for xs
    by (induction xs) (auto split: option.split)
  from this [of "take max_entity_state_fetches ids"] show ?thesis
    by (simp add: probes_def max_entity_state_fetches_def)
qed

lemma entity_state_Some: "entity_state r = Some x \<Longrightarrow> r = Inr x"
  by (auto simp: entity_state_def split: sum.splits json.splits)

lemma entity_states_all:
  assumes "length (filter (\<lambda>x. x \<noteq> None) (map entity_state rs)) = length rs"
  shows "map Inr (map the (filter (\<lambda>x. x \<noteq> None) (map entity_state rs))) = rs"
proof -
  have all: "\<forall>x \<in> set (map entity_state rs). x \<noteq> None"
    using assms length_filter_less [of _ "map entity_state rs" "\<lambda>x. x \<noteq> None"]
    by (metis length_map less_irrefl)
  then have "filter (\<lambda>x. x \<noteq> None) (map entity_state rs) = map entity_state rs" by (simp add: filter_id_conv)
  moreover have "Inr (the (entity_state r)) = r" if "r \<in> set rs" for r
    using all that entity_state_Some [of r] by fastforce
  ultimately show ?thesis by (simp add: map_idI)
qed

lemma read_all_length: "length (fst (read_all env paths w)) = length paths"
  by (metis prod.collapse read_all_sends)

lemma all_probed:
  assumes "length (probes ids) = length ids"
  shows "list_all2 (\<lambda>e p. \<exists>seg. encode_path_segment e = Some seg \<and> p = state_path seg) ids (state_paths ids)"
proof -
  have few: "length (concat (map (\<lambda>e. case encode_path_segment e of None \<Rightarrow> [] | Some s \<Rightarrow> [(e, state_path s)]) xs)) \<le> length xs"
    for xs by (induction xs) (auto split: option.split)
  have "length (concat (map (\<lambda>e. case encode_path_segment e of None \<Rightarrow> [] | Some s \<Rightarrow> [(e, state_path s)]) xs)) = length xs \<Longrightarrow>
    list_all2 (\<lambda>e p. \<exists>seg. encode_path_segment e = Some seg \<and> p = state_path seg) xs
      (map snd (concat (map (\<lambda>e. case encode_path_segment e of None \<Rightarrow> [] | Some s \<Rightarrow> [(e, state_path s)]) xs)))" for xs
  proof (induction xs)
    case (Cons x xs)
    with few [of xs] show ?case by (auto split: option.splits)
  qed simp
  moreover have "take max_entity_state_fetches ids = ids"
    using assms probes_few [of ids] by (simp add: max_entity_state_fetches_def)
  ultimately show ?thesis using assms by (simp add: probes_def state_paths_def)
qed

definition complete_claim :: "jval \<Rightarrow> bool" where
  "complete_claim reply \<longleftrightarrow> reply_field reply ''changed_states_complete'' = JBool True"

lemma no_claim:
  "\<not> complete_claim (err_reply code message)"
  "\<not> complete_claim (ok_reply [(''changed_states'', v)])"
  "complete_claim (observed_reply states b n) = b"
  by (simp_all add: complete_claim_def err_reply_def ok_reply_def observed_reply_def dget_def)

text \<open>What a claim of completeness means: every target was read, in order, after the call.\<close>

definition all_read :: "ha_env \<Rightarrow> dict \<Rightarrow> ha_world \<Rightarrow> jval \<Rightarrow> bool" where
  "all_read env target w reply \<longleftrightarrow>
     (\<exists>states. reply = observed_reply states True (length (target_ids target)) \<and>
        map Inr states = fst (read_all env (state_paths (target_ids target)) w) \<and>
        list_all2 (\<lambda>e p. \<exists>seg. encode_path_segment e = Some seg \<and> p = state_path seg)
          (target_ids target) (state_paths (target_ids target)) \<and>
        \<not> truthy (dget target ''area_id'') \<and> \<not> truthy (dget target ''device_id''))"

lemma observed_truthful:
  assumes "with_observed_states env changed target w = (r, w')"
  shows "\<exists>reads. sent w' = sent w @ map Ha_get reads \<and> length reads \<le> 10 \<and>
    (\<forall>reply. r = Inr reply \<longrightarrow> complete_claim reply \<longrightarrow> all_read env target w reply)"
proof (cases "changed \<noteq> [] \<or> target_ids target = []")
  case True
  with assms show ?thesis
    by (auto simp: with_observed_states_def Let_def ha_return_def no_claim intro!: exI [of _ "[]"] split: if_splits)
next
  case False
  let ?ids = "target_ids target"
  obtain rs u where reads: "read_all env (state_paths ?ids) w = (rs, u)" by fastforce
  let ?states = "map the (filter (\<lambda>x. x \<noteq> None) (map entity_state rs))"
  let ?full = "length ?states = length ?ids \<and> length ?ids \<le> max_entity_state_fetches \<and>
    \<not> (truthy (dget target ''area_id'') \<or> truthy (dget target ''device_id''))"
  from assms False have out: "w' = u" "r = Inr (observed_reply ?states ?full (length ?ids))"
    by (simp_all add: with_observed_states_def Let_def ha_return_def ha_bind_def fetched_states reads)
  have len: "length rs = length (probes ?ids)"
    using read_all_length [of env "state_paths ?ids" w] reads by (simp add: state_paths_def)
  have sent: "sent w' = sent w @ map Ha_get (state_paths ?ids)" "length (state_paths ?ids) \<le> 10"
    using read_all_sends [OF reads] out(1) probes_few [of ?ids] by (simp_all add: state_paths_def)
  have "all_read env target w (observed_reply ?states ?full (length ?ids))" if "?full"
  proof -
    have "length ?states \<le> length rs" by (metis length_filter_le length_map)
    with that len probes_few [of ?ids] have eq: "length ?states = length rs" "length (probes ?ids) = length ?ids"
      by simp_all
    then have "map Inr ?states = rs" using entity_states_all [of rs] by simp
    with that eq(2) reads show ?thesis
      unfolding all_read_def by (intro exI [of _ ?states]) (simp add: all_probed)
  qed
  with sent out(2) show ?thesis by (auto simp: no_claim)
qed

definition is_error :: "jval option \<Rightarrow> bool" where
  "is_error r \<longleftrightarrow> (\<forall>e. r = Some e \<longrightarrow> (\<exists>code message. e = err_reply code message))"

lemma is_error_simps [simp]: "is_error None" "is_error (Some (err_reply code message))"
  by (auto simp: is_error_def)

lemma is_error_cases:
  "is_error a \<Longrightarrow> is_error b \<Longrightarrow> is_error (case a of Some e \<Rightarrow> Some e | None \<Rightarrow> b)"
  "is_error b \<Longrightarrow> is_error (case xs of [] \<Rightarrow> b | x # _ \<Rightarrow> Some (err_reply (code x) (message x)))"
  "is_error b \<Longrightarrow> is_error (case xs of x # _ \<Rightarrow> Some (err_reply (code x) (message x)) | [] \<Rightarrow> b)"
  "is_error a \<Longrightarrow> is_error b \<Longrightarrow> is_error (if c then a else b)"
  by (auto split: option.split list.split)

lemma is_error_strict: "is_error (strict_keys_error params keys extra)"
  unfolding strict_keys_error_def Let_def by (intro is_error_cases is_error_simps)

lemma is_error_target: "is_error (target_error target)"
  unfolding target_error_def Let_def by (simp split: json.split if_split)

lemma is_error_data: "is_error (data_error params)"
  unfolding data_error_def by (intro is_error_cases is_error_simps)

lemma is_error_refusal: "is_error (call_service_refusal params)"
  unfolding call_service_refusal_def
  by (intro is_error_cases is_error_simps is_error_strict is_error_target is_error_data)

lemma service_call_steps:
  assumes "handle_ha_call_service env params w = (r, w')"
  obtains "sent w' = sent w" "\<And>reply. r = Inr reply \<Longrightarrow> \<not> complete_claim reply"
  | d s body where "service_part params ''domain'' = Some d" "service_part params ''service'' = Some s"
      "sent w' = sent w @ [Ha_post (service_path d s) body]" "\<And>reply. r = Inr reply \<Longrightarrow> \<not> complete_claim reply"
  | d s body changed where "service_part params ''domain'' = Some d" "service_part params ''service'' = Some s"
      "with_observed_states env changed (target_of params) (w\<lparr>sent := sent w @ [Ha_post (service_path d s) body]\<rparr>) = (r, w')"
proof (cases "call_service_refusal params")
  case (Some e)
  have "\<not> complete_claim e"
    using is_error_refusal [of params] Some no_claim(1) unfolding is_error_def by blast
  moreover have "r = Inr e" "w' = w"
    using assms Some by (simp_all add: handle_ha_call_service_def unless_def ha_return_def)
  ultimately show ?thesis using that(1) by simp
next
  case None
  then obtain d s where ds: "service_part params ''domain'' = Some d" "service_part params ''service'' = Some s"
    by (auto simp: call_service_refusal_def canonical_component split: option.splits if_splits)
  show ?thesis
  proof (cases "interim_service_denial d s = None \<and> normalise_service_code d (service_body params) \<noteq> None")
    case False
    with assms None ds that(1) show ?thesis
      by (auto simp: handle_ha_call_service_def canonical_component unless_def ha_return_def no_claim split: option.splits)
  next
    case True
    then obtain body where b: "normalise_service_code d (service_body params) = Some body" by blast
    let ?post = "Ha_post (service_path d s) (or_none body)"
    have run: "or_error (ask env ?post) (expect_list ''Expected changed-state list from service call''
        (\<lambda>changed. with_observed_states env changed (target_of params))) w = (r, w')"
      using assms None ds True b by (simp add: handle_ha_call_service_def canonical_component unless_def)
    show ?thesis
    proof (cases "\<exists>xs. he_json env (sent w) ?post = Inr (JList xs)")
      case True
      with run that(3) [OF ds] show ?thesis by (auto simp: or_error_def ask_def expect_list_def)
    next
      case False
      with run have "sent w' = sent w @ [?post] \<and> (\<forall>reply. r = Inr reply \<longrightarrow> \<not> complete_claim reply)"
        by (cases "he_json env (sent w) ?post") (auto simp: or_error_def ask_def expect_list_def ha_return_def
            bad_response_def no_claim split: ha_exn.splits json.splits)
      with that(2) [OF ds] show ?thesis by blast
    qed
  qed
qed

text \<open>
  C16. A service call asks for little and says what it saw: a run of \<open>ha.call_service\<close> adds nothing, or one
  post to the requested service and then at most ten reads of states; and when its reply claims that the
  changed states are complete, they are the answers of Home Assistant, after the call, for exactly the
  entities of the target in their order, and the target names no area and no device.
\<close>

theorem call_service_truthful:
  assumes "handle_ha_call_service env params w = (r, w')"
  shows "sent w' = sent w \<and> (\<forall>reply. r = Inr reply \<longrightarrow> \<not> complete_claim reply) \<or>
    (\<exists>d s body reads. service_part params ''domain'' = Some d \<and> service_part params ''service'' = Some s \<and>
       sent w' = sent w @ Ha_post (service_path d s) body # map Ha_get reads \<and> length reads \<le> 10 \<and>
       (\<forall>reply. r = Inr reply \<longrightarrow> complete_claim reply \<longrightarrow>
          all_read env (target_of params) (w\<lparr>sent := sent w @ [Ha_post (service_path d s) body]\<rparr>) reply))"
proof (cases rule: service_call_steps [OF assms])
  case (2 d s body)
  then show ?thesis by (intro disjI2 exI [of _ d] exI [of _ s] exI [of _ body] exI [of _ "[]"]) simp
next
  case (3 d s body changed)
  from observed_truthful [OF 3(3)] 3(1,2) show ?thesis by fastforce
qed simp

subsection \<open>What the Supervisor's information shows\<close>

text \<open>The bounded strings under the allowed names, and the codes of the errors.\<close>

definition shown_value :: "jval \<Rightarrow> string option" where
  "shown_value v = (case v of JStr s \<Rightarrow> if length s \<le> 128 then Some s else None | _ \<Rightarrow> None)"

definition shown_info :: "(ha_exn + jval) \<Rightarrow> (ha_exn + string option list option option)" where
  "shown_info r = (case r of
     Inl (Client_error code _) \<Rightarrow> Inl (Client_error code [])
   | Inl e \<Rightarrow> Inl e
   | Inr (JObj d) \<Rightarrow> (case dget d ''data'' of
        JObj data \<Rightarrow> Inr (Some (Some (map (\<lambda>n. shown_value (dget data n)) supervisor_info_field_names)))
      | _ \<Rightarrow> Inr (Some None))
   | Inr _ \<Rightarrow> Inr None)"

lemma supervisor_info_value_shown:
  "supervisor_info_value v = (case shown_value v of Some s \<Rightarrow> JStr s | None \<Rightarrow> JNull)"
  by (auto simp: supervisor_info_value_def shown_value_def supervisor_info_max_value_len_def split: json.split)

definition info_reply :: "(ha_exn + string option list option option) \<Rightarrow> ha_exn + jval" where
  "info_reply s = (case s of
     Inl (Client_error code _) \<Rightarrow> Inr (err_reply code ''Supervisor /info request failed'')
   | Inl e \<Rightarrow> Inl e
   | Inr None \<Rightarrow> Inr (bad_response ''Expected dict from Supervisor /info'')
   | Inr (Some None) \<Rightarrow> Inr (bad_response (missing_data ''/info''))
   | Inr (Some (Some vs)) \<Rightarrow> Inr (ok_reply [(''info'', JObj (zip supervisor_info_field_names
        (map (\<lambda>v. case v of Some s \<Rightarrow> JStr s | None \<Rightarrow> JNull) vs)))]))"

lemma zip_map_self: "zip xs (map f xs) = map (\<lambda>x. (x, f x)) xs"
  by (induction xs) simp_all

lemma supervisor_info_runs:
  assumes "strict_keys_error params [] [] = None"
  shows "fst (handle_ha_supervisor_info env params w) =
    info_reply (shown_info (he_json env (sent w) (Supervisor_json ''/info'')))"
proof (cases "he_json env (sent w) (Supervisor_json ''/info'')")
  case (Inl e)
  with assms show ?thesis
    by (cases e) (simp_all add: handle_ha_supervisor_info_def unless_def or_error_def ask_info_def ask_def
        supervisor_info_answer_def shown_info_def info_reply_def)
next
  case (Inr a)
  note run = Inr assms handle_ha_supervisor_info_def unless_def or_error_def ask_info_def ask_def
    supervisor_info_answer_def shown_info_def info_reply_def expect_data_def expect_dict_def ha_return_def
  show ?thesis
  proof (cases a)
    case (JObj d)
    then show ?thesis
      by (cases "dget d ''data''") (simp_all add: run zip_map_self supervisor_info_value_shown comp_def)
  qed (simp_all add: run)
qed

text \<open>
  C5. Of the Supervisor's answer a caller learns only the allowed fields, each as a string of at most
  128 characters, and the code of an error: two worlds that agree on these give the same reply.
\<close>

theorem supervisor_info_noninterference:
  assumes "shown_info (he_json env (sent w) (Supervisor_json ''/info'')) =
    shown_info (he_json env' (sent w') (Supervisor_json ''/info''))"
  shows "fst (handle_ha_supervisor_info env params w) = fst (handle_ha_supervisor_info env' params w')"
proof (cases "strict_keys_error params [] []")
  case None
  then show ?thesis by (simp only: supervisor_info_runs assms)
qed (simp add: handle_ha_supervisor_info_def unless_def ha_return_def)

subsection \<open>Sample runs\<close>

definition sample_ha :: ha_env where
  "sample_ha = \<lparr>he_json = \<lambda>before q. (case q of
       Ha_post _ _ \<Rightarrow> Inr (JList [])
     | Ha_get _ \<Rightarrow> Inr (JObj [(''state'', JStr ''on'')])
     | Supervisor_post _ \<Rightarrow> Inr JNull
     | Supervisor_json _ \<Rightarrow> Inr (JObj [(''data'', JObj [(''state'', JStr ''started''), (''arch'', JStr ''amd64'')])])
     | _ \<Rightarrow> Inl Timed_out),
     he_text = \<lambda>before q. Inl Timed_out, he_digest = \<lambda>_. ''d'', he_now = 0, he_caller = None, he_denylist = []\<rparr>"

definition no_others :: "(ha_exn, ha_world \<times> unit) handlers" where
  "no_others command params st = (Ended (Returned JNull), st)"

definition fresh_node :: "(ha_world \<times> unit) node_state" where
  "fresh_node = \<lparr>current_caller = None, world = (\<lparr>sent = [], approvals = []\<rparr>, ())\<rparr>"

definition lamp_params :: dict where
  "lamp_params = [(''domain'', JStr ''light''), (''service'', JStr ''turn_on''),
     (''target'', JObj [(''entity_id'', JStr ''light.a'')])]"

definition lamp_post :: ha_request where
  "lamp_post = Ha_post ''/api/services/light/turn_on'' (Some [(''entity_id'', JStr ''light.a'')])"

definition admin_caller :: caller where
  "admin_caller = \<lparr>caller_role = Turn Admin, actor_id = ''a1'', forbidden = []\<rparr>"

lemma sample_restart:
  "dispatch_async (ha_handlers sample_ha no_others) ''ha.addon_restart'' [(''slug'', JStr ''mqtt'')] admin_caller fresh_node =
     (Result (lifecycle_reply ''mqtt'' ''started'' True),
      \<lparr>current_caller = None, world = (\<lparr>sent = lifecycle_plan ''restart'' [(''slug'', JStr ''mqtt'')], approvals = []\<rparr>, ())\<rparr>)"
  by code_simp

lemma sample_lamp:
  "snd (dispatch_async (ha_handlers sample_ha no_others) ''ha.call_service'' lamp_params sample_caller fresh_node) =
      \<lparr>current_caller = None, world = (\<lparr>sent = [lamp_post, Ha_get ''/api/states/light.a''], approvals = []\<rparr>, ())\<rparr>"
  by code_simp

lemma sample_call:
  "handle_ha_call_service sample_ha lamp_params \<lparr>sent = [], approvals = []\<rparr> =
     (Inr (observed_reply [JObj [(''state'', JStr ''on'')]] True 1),
      \<lparr>sent = [lamp_post, Ha_get ''/api/states/light.a''], approvals = []\<rparr>)"
  by code_simp


theorem household_requests_confined_witness:
  "list_all household_request [lamp_post, Ha_get ''/api/states/light.a'']"
proof -
  have r: "caller_role sample_caller = Turn User" by (simp add: sample_caller_def)
  have c: "''ha.call_service'' \<in> set (map fst ha_commands)"
    by (simp add: ha_commands_def ha_service_commands_def)
  obtain res where run: "dispatch_async (ha_handlers sample_ha no_others) ''ha.call_service'' lamp_params sample_caller fresh_node =
      (res, \<lparr>current_caller = None, world = (\<lparr>sent = [lamp_post, Ha_get ''/api/states/light.a''], approvals = []\<rparr>, ())\<rparr>)"
    using sample_lamp by (metis prod.collapse)
  from household_requests_confined [OF r c run] show ?thesis by (simp add: ha_sent_def fresh_node_def)
qed

theorem call_service_truthful_witness:
  "\<exists>post. all_read sample_ha (target_of lamp_params) \<lparr>sent = [post], approvals = []\<rparr>
     (observed_reply [JObj [(''state'', JStr ''on'')]] True 1)"
  using call_service_truthful [OF sample_call] no_claim(3) by auto

theorem supervisor_info_noninterference_witness:
  "fst (handle_ha_supervisor_info (sample_ha\<lparr>he_json := \<lambda>_ _. Inr (JObj [(''data'', JObj [(''token'', JStr ''a'')])])\<rparr>) []
      \<lparr>sent = [], approvals = []\<rparr>) =
   fst (handle_ha_supervisor_info (sample_ha\<lparr>he_json := \<lambda>_ _. Inr (JObj [(''data'', JObj [(''token'', JStr ''b'')])])\<rparr>) []
      \<lparr>sent = [], approvals = []\<rparr>)"
  by (rule supervisor_info_noninterference) (simp, code_simp)

end
