(* ===== verification/Ha_Client.thy ===== *)
theory Ha_Client
  imports Ha_Config Py_Case
begin

text \<open>
  \<open>ha_client.py\<close>: the address and the token of Home Assistant, the calls over HTTP and over the socket, and
  the bounded reads from the Supervisor. The transport is a parameter: what a request, a connection or a
  receive gives. Every call returns what it sent beside its result.
\<close>

subsection \<open>Where Home Assistant is\<close>

record client_env =
  environ :: "string \<rightharpoonup> string"
  data_writable :: bool

definition env_text :: "client_env \<Rightarrow> string \<Rightarrow> string \<Rightarrow> string" where
  "env_text e name other = (case environ e name of Some v \<Rightarrow> v | None \<Rightarrow> other)"

definition supervisor_token :: "client_env \<Rightarrow> string" where
  "supervisor_token e = env_text e ''SUPERVISOR_TOKEN'' []"

definition is_addon_mode :: "client_env \<Rightarrow> bool" where
  "is_addon_mode e \<longleftrightarrow> supervisor_token e \<noteq> [] \<or> data_writable e"

definition ha_url :: "client_env \<Rightarrow> ha_exn + string" where
  "ha_url e =
     (if supervisor_token e \<noteq> [] then Inr ''http://supervisor/core''
      else if is_addon_mode e then Inr (env_text e ''HASS_URL'' ''http://homeassistant'')
      else let url = env_text e ''HASS_URL'' [] in
        if url = [] then Inl (Client_error ''HA_NOT_CONFIGURED'' ''HASS_URL is not set'') else Inr url)"

definition ha_token :: "client_env \<Rightarrow> ha_exn + string" where
  "ha_token e =
     (let token = (if supervisor_token e \<noteq> [] then supervisor_token e else env_text e ''HASS_TOKEN'' []) in
      if token \<noteq> [] then Inr token
      else if is_addon_mode e then Inl (Client_error ''HA_NOT_CONFIGURED''
        (''Running in add-on mode but SUPERVISOR_TOKEN is missing and '' @
         ''HASS_TOKEN is not set. Set HASS_TOKEN or check add-on config '' @
         ''flags (hassio_api/homeassistant_api/auth_api).''))
      else Inl (Client_error ''HA_NOT_CONFIGURED'' ''No HA token configured''))"

definition rstrip_slash :: "string \<Rightarrow> string" where
  "rstrip_slash s = rev (dropWhile (\<lambda>c. c = CHR ''/'') (rev s))"

subsection \<open>Requests, responses, failures\<close>

text \<open>\<open>aiohttp.ClientError\<close> with its text, a time-out, anything else.\<close>

datatype transport_exn = Network string | Timeout_exn | Other_exn string

record http_request =
  rq_method :: string
  rq_url :: string
  rq_token :: string
  rq_body :: "dict option"

text \<open>
  A response: the status, the path of its address, the type and the two readings of its body, and the chunks
  of the body with what ends them when they end early.
\<close>

record http_response =
  rs_status :: int
  rs_path :: string
  rs_content_type :: string
  rs_text :: "transport_exn + string"
  rs_json :: "transport_exn + jval"
  rs_chunks :: "nat list list"
  rs_broken :: "transport_exn option"

datatype decoded = Decoded jval | Not_json | Decoder_failed string

record client =
  cl_http :: "http_request \<Rightarrow> transport_exn + http_response"
  cl_connect :: "string \<Rightarrow> transport_exn option"
  cl_receive :: "jval list \<Rightarrow> transport_exn + jval"
  cl_loads :: "nat list \<Rightarrow> decoded"
  cl_decode_text :: "nat list \<Rightarrow> string"

datatype client_event = Http http_request | Ws_connect string | Ws_send jval

text \<open>\<open>except aiohttp.ClientError\<close>: a network failure gets a code, the rest leaves as it is.\<close>

definition network :: "string \<Rightarrow> transport_exn \<Rightarrow> ha_exn" where
  "network message x = (case x of
     Network m \<Rightarrow> Client_error ''HA_NETWORK'' (message @ m) | Timeout_exn \<Rightarrow> Timed_out | Other_exn m \<Rightarrow> Other_error m)"

definition http_error_message :: "string \<Rightarrow> int \<Rightarrow> string \<Rightarrow> string" where
  "http_error_message service status body =
     (let snippet = strip (take 512 body); returned = service @ '' returned '' @ int_str status in
      if occurs ''<html'' (lower snippet) \<or> occurs ''<!doctype html'' (lower snippet)
      then returned @ '' (HTML error page suppressed)''
      else if snippet = [] then returned
      else returned @ '': '' @ snippet)"

definition lift_net :: "string \<Rightarrow> transport_exn + 'a \<Rightarrow> ha_exn + 'a" where
  "lift_net message r = (case r of Inl x \<Rightarrow> Inl (network message x) | Inr a \<Rightarrow> Inr a)"

text \<open>The refusals by status that the Supervisor calls and \<open>_decode\<close> share; \<open>None\<close> for a good response.\<close>

definition status_error :: "string \<Rightarrow> string \<Rightarrow> string \<Rightarrow> string \<Rightarrow> http_response \<Rightarrow> ha_exn option" where
  "status_error message service rejected path resp =
     (if rs_status resp = 401 then Some (Client_error ''HA_AUTH'' (service @ '' rejected the '' @ rejected @ '' (401)''))
      else if rs_status resp = 404 then Some (Client_error ''HA_NOT_FOUND'' (service @ '' returned 404 for '' @ path))
      else if rs_status resp \<ge> 400 then Some (case lift_net message (rs_text resp) of
        Inl e \<Rightarrow> e | Inr body \<Rightarrow> Client_error ''HA_HTTP_ERROR'' (http_error_message service (rs_status resp) body))
      else None)"

definition ha_contact :: string where
  "ha_contact = ''Network error contacting HA: ''"

definition decode_response :: "http_response \<Rightarrow> ha_exn + jval" where
  "decode_response resp = (case status_error ha_contact ''HA'' ''bearer token'' (rs_path resp) resp of
     Some e \<Rightarrow> Inl e
   | None \<Rightarrow>
       if occurs ''json'' (rs_content_type resp) then lift_net ha_contact (rs_json resp)
       else map_sum id JStr (lift_net ha_contact (rs_text resp)))"

subsection \<open>Home Assistant over HTTP\<close>

definition ha_rest :: "client_env \<Rightarrow> client \<Rightarrow> string \<Rightarrow> string \<Rightarrow> dict option \<Rightarrow> client_event list \<times> (ha_exn + jval)" where
  "ha_rest e cl verb path body = (case ha_url e of
     Inl x \<Rightarrow> ([], Inl x)
   | Inr base \<Rightarrow> (case ha_token e of
        Inl x \<Rightarrow> ([], Inl x)
      | Inr token \<Rightarrow>
          (let q = \<lparr>rq_method = verb, rq_url = rstrip_slash base @ path, rq_token = token, rq_body = body\<rparr>
           in ([Http q], sum_bind (lift_net ha_contact (cl_http cl q)) decode_response))))"

definition ha_get :: "client_env \<Rightarrow> client \<Rightarrow> string \<Rightarrow> client_event list \<times> (ha_exn + jval)" where
  "ha_get e cl path = ha_rest e cl ''GET'' path None"

definition ha_post :: "client_env \<Rightarrow> client \<Rightarrow> string \<Rightarrow> dict option \<Rightarrow> client_event list \<times> (ha_exn + jval)" where
  "ha_post e cl path body = ha_rest e cl ''POST'' path body"

definition ha_delete :: "client_env \<Rightarrow> client \<Rightarrow> string \<Rightarrow> client_event list \<times> (ha_exn + jval)" where
  "ha_delete e cl path = ha_rest e cl ''DELETE'' path None"

lemmas ha_calls = ha_get_def ha_post_def ha_delete_def

subsection \<open>Home Assistant over the socket\<close>

function replace_all :: "string \<Rightarrow> string \<Rightarrow> string \<Rightarrow> string" where
  "replace_all old new [] = []"
| "replace_all old new (c # s) =
     (if old \<noteq> [] \<and> prefix old (c # s) then new @ replace_all old new (drop (length old) (c # s))
      else c # replace_all old new s)"
  by pat_completeness auto
termination by (relation "measure (\<lambda>(old, new, s). length s)") (auto simp: neq_Nil_conv)

definition ws_url :: "string \<Rightarrow> string" where
  "ws_url base = replace_all ''http://'' ''ws://'' (replace_all ''https://'' ''wss://'' (rstrip_slash base)) @ ''/api/websocket''"

definition field_of :: "jval \<Rightarrow> string \<Rightarrow> ha_exn + jval" where
  "field_of v k = (case v of JObj d \<Rightarrow> Inr (dget d k) | _ \<Rightarrow> Inl Attribute_error)"

text \<open>\<open>request = {"id": 1, "type": msg_type}; request.update(payload)\<close>.\<close>

definition ws_frame :: "string \<Rightarrow> dict \<Rightarrow> dict" where
  "ws_frame t payload = merged [(''id'', JInt 1), (''type'', JStr t)] (JObj payload)"

definition auth_frame :: "string \<Rightarrow> jval" where
  "auth_frame token = JObj [(''type'', JStr ''auth''), (''access_token'', JStr token)]"

definition ws_result :: "jval \<Rightarrow> ha_exn + jval" where
  "ws_result resp = sum_bind (field_of resp ''success'') (\<lambda>ok.
     if truthy ok then field_of resp ''result''
     else case resp of
       JObj d \<Rightarrow> (case dget_or d ''error'' (JObj []) of
          JObj err \<Rightarrow> Inl (Client_error (''HA_'' @ py_upper (py_str (dget_or err ''code'' (JStr ''WS_ERROR''))))
            (py_str (dget_or err ''message'' (JStr ''WS call failed''))))
        | _ \<Rightarrow> Inl Attribute_error)
     | _ \<Rightarrow> Inl Attribute_error)"

definition ws_contact :: string where
  "ws_contact = ''WS network error: ''"

definition ws_receive :: "client \<Rightarrow> jval list \<Rightarrow> ha_exn + jval" where
  "ws_receive cl frames = lift_net ws_contact (cl_receive cl frames)"

definition ws_talk :: "client \<Rightarrow> string \<Rightarrow> string \<Rightarrow> dict \<Rightarrow> jval list \<times> (ha_exn + jval)" where
  "ws_talk cl token t payload =
     (case sum_bind (ws_receive cl []) (\<lambda>v. field_of v ''type'') of
        Inl x \<Rightarrow> ([], Inl x)
      | Inr ty \<Rightarrow>
          if ty \<noteq> JStr ''auth_required'' then
            ([], Inl (Client_error ''HA_WS_ERROR'' (''Expected auth_required, got '' @ py_repr ty)))
          else (case sum_bind (ws_receive cl [auth_frame token]) (\<lambda>v. field_of v ''type'') of
             Inl x \<Rightarrow> ([auth_frame token], Inl x)
           | Inr answer \<Rightarrow>
               if answer \<noteq> JStr ''auth_ok'' then
                 ([auth_frame token], Inl (Client_error ''HA_AUTH'' ''WS authentication rejected''))
               else let sent_frames = [auth_frame token, JObj (ws_frame t payload)]
                 in (sent_frames, sum_bind (ws_receive cl sent_frames) ws_result)))"

definition ha_ws_call :: "client_env \<Rightarrow> client \<Rightarrow> string \<Rightarrow> dict \<Rightarrow> client_event list \<times> (ha_exn + jval)" where
  "ha_ws_call e cl t payload = (case ha_url e of
     Inl x \<Rightarrow> ([], Inl x)
   | Inr base \<Rightarrow> (case ha_token e of
        Inl x \<Rightarrow> ([], Inl x)
      | Inr token \<Rightarrow> (case cl_connect cl (ws_url base) of
           Some x \<Rightarrow> ([Ws_connect (ws_url base)], Inl (network ws_contact x))
         | None \<Rightarrow> (case ws_talk cl token t payload of
              (frames, r) \<Rightarrow> (Ws_connect (ws_url base) # map Ws_send frames, r)))))"

subsection \<open>The Supervisor\<close>

definition supervisor_contact :: string where
  "supervisor_contact = ''Network error contacting Supervisor: ''"

definition supervisor_unavailable :: ha_exn where
  "supervisor_unavailable = Client_error ''SUPERVISOR_UNAVAILABLE''
     ''Supervisor API requires SUPERVISOR_TOKEN; not set in this environment.''"

text \<open>The shape of the three calls, which differ in how they read the body of a good response.\<close>

definition supervisor_call ::
  "client_env \<Rightarrow> client \<Rightarrow> string \<Rightarrow> string \<Rightarrow> dict option \<Rightarrow> (http_response \<Rightarrow> ha_exn + 'a) \<Rightarrow>
    client_event list \<times> (ha_exn + 'a)" where
  "supervisor_call e cl verb path body read =
     (let token = supervisor_token e in
      if token = [] then ([], Inl supervisor_unavailable)
      else let q = \<lparr>rq_method = verb, rq_url = ''http://supervisor'' @ path, rq_token = token, rq_body = body\<rparr>
        in ([Http q], sum_bind (lift_net supervisor_contact (cl_http cl q)) (\<lambda>resp.
             case status_error supervisor_contact ''Supervisor'' ''token'' path resp of
               Some x \<Rightarrow> Inl x | None \<Rightarrow> read resp)))"

text \<open>The last bytes of a body that comes in chunks.\<close>

definition keep_last :: "nat \<Rightarrow> nat list \<Rightarrow> nat list" where
  "keep_last n xs = drop (length xs - n) xs"

fun read_tail :: "nat \<Rightarrow> nat list \<Rightarrow> nat list list \<Rightarrow> nat list" where
  "read_tail n tail [] = tail"
| "read_tail n tail (chunk # chunks) =
     (let grown = tail @ chunk in
      read_tail n (if length grown > n then drop (length grown - n) grown else grown) chunks)"

text \<open>A body within the limit, or \<open>None\<close> as soon as it is exceeded.\<close>

fun read_capped :: "nat \<Rightarrow> nat list \<Rightarrow> nat list list \<Rightarrow> nat list option" where
  "read_capped n buf [] = Some buf"
| "read_capped n buf (chunk # chunks) =
     (let grown = buf @ chunk in if length grown > n then None else read_capped n grown chunks)"

definition supervisor_get_text :: "client_env \<Rightarrow> client \<Rightarrow> string \<Rightarrow> nat \<Rightarrow> client_event list \<times> (ha_exn + string)" where
  "supervisor_get_text e cl path max_bytes =
     supervisor_call e cl ''GET'' path None (\<lambda>resp. case rs_broken resp of
       Some x \<Rightarrow> Inl (network supervisor_contact x)
     | None \<Rightarrow> Inr (cl_decode_text cl (read_tail max_bytes [] (rs_chunks resp))))"

definition supervisor_json_max_bytes :: nat where
  "supervisor_json_max_bytes = 1048576"

definition decode_capped :: "client \<Rightarrow> string \<Rightarrow> (nat list \<Rightarrow> jval option) \<Rightarrow> http_response \<Rightarrow> ha_exn + jval" where
  "decode_capped cl path special resp =
     (case read_capped supervisor_json_max_bytes [] (rs_chunks resp) of
        None \<Rightarrow> Inl (Client_error ''HA_RESPONSE_TOO_LARGE''
          (''Supervisor response for '' @ path @ '' exceeded '' @ int_str (int supervisor_json_max_bytes) @ '' bytes''))
      | Some buf \<Rightarrow> (case rs_broken resp of
           Some x \<Rightarrow> Inl (network supervisor_contact x)
         | None \<Rightarrow> (case special buf of
              Some v \<Rightarrow> Inr v
            | None \<Rightarrow> (case cl_loads cl buf of
                 Decoded v \<Rightarrow> Inr v
               | Not_json \<Rightarrow> Inl (Client_error ''HA_BAD_RESPONSE'' (''Supervisor returned non-JSON body for '' @ path))
               | Decoder_failed m \<Rightarrow> Inl (Other_error m)))))"

definition supervisor_get_json :: "client_env \<Rightarrow> client \<Rightarrow> string \<Rightarrow> client_event list \<times> (ha_exn + jval)" where
  "supervisor_get_json e cl path = supervisor_call e cl ''GET'' path None (decode_capped cl path (\<lambda>_. None))"

definition supervisor_post_json :: "client_env \<Rightarrow> client \<Rightarrow> string \<Rightarrow> dict option \<Rightarrow> client_event list \<times> (ha_exn + jval)" where
  "supervisor_post_json e cl path body =
     supervisor_call e cl ''POST'' path body (decode_capped cl path (\<lambda>buf. if buf = [] then Some (JObj []) else None))"

text \<open>The call behind each request of a handler, and the surroundings that the client gives to handlers.\<close>

definition client_call :: "client_env \<Rightarrow> client \<Rightarrow> ha_request \<Rightarrow> client_event list \<times> (ha_exn + jval)" where
  "client_call e cl q = (case q of
     Ha_get p \<Rightarrow> ha_get e cl p
   | Ha_post p body \<Rightarrow> ha_post e cl p body
   | Ha_delete p \<Rightarrow> ha_delete e cl p
   | Ha_ws t d \<Rightarrow> ha_ws_call e cl t d
   | Supervisor_json p \<Rightarrow> supervisor_get_json e cl p
   | Supervisor_post p \<Rightarrow> supervisor_post_json e cl p None
   | Supervisor_text p n \<Rightarrow> map_prod id (map_sum id JStr) (supervisor_get_text e cl p n))"

subsection \<open>Bounded bodies\<close>

lemma keep_last_append: "keep_last n (drop (length g - n) g @ r) = keep_last n (g @ r)"
proof (cases "length g \<le> n")
  case True
  then show ?thesis by simp
next
  case False
  then have len: "length (g @ r) - n = length r + (length g - n)"
    "length (drop (length g - n) g @ r) - n = length r" by simp_all
  have "drop (length g - n) (g @ r) = drop (length g - n) g @ r" using False by simp
  then show ?thesis unfolding keep_last_def len by (metis drop_drop)
qed

lemma read_tail_exact: "length tail \<le> n \<Longrightarrow> read_tail n tail chunks = keep_last n (tail @ concat chunks)"
proof (induction chunks arbitrary: tail)
  case Nil
  then show ?case by (simp add: keep_last_def)
next
  case (Cons chunk chunks)
  let ?g = "tail @ chunk"
  have "read_tail n tail (chunk # chunks) = read_tail n (drop (length ?g - n) ?g) chunks"
    by (simp add: Let_def del: drop_append)
  also have "\<dots> = keep_last n (drop (length ?g - n) ?g @ concat chunks)" by (rule Cons.IH) simp
  also have "\<dots> = keep_last n (?g @ concat chunks)" by (rule keep_last_append)
  finally show ?case by simp
qed

lemma read_capped_exact:
  "length buf \<le> n \<Longrightarrow>
     read_capped n buf chunks = (if length (buf @ concat chunks) \<le> n then Some (buf @ concat chunks) else None)"
proof (induction chunks arbitrary: buf)
  case (Cons chunk chunks)
  then show ?case using Cons.IH [of "buf @ chunk"] by (simp add: Let_def)
qed simp

lemma too_large_exact:
  assumes "rs_broken resp = None"
  shows "(\<exists>m. decode_capped cl path special resp = Inl (Client_error ''HA_RESPONSE_TOO_LARGE'' m)) \<longleftrightarrow>
    length (concat (rs_chunks resp)) > supervisor_json_max_bytes"
  using assms by (auto simp: decode_capped_def read_capped_exact split: decoded.split option.split)

text \<open>
  What the Supervisor sends is bounded however it comes: a text is decoded from the last bytes of the body
  alone, and a body of JSON is refused as too large exactly when the whole of it exceeds the limit; how the
  body is cut into chunks makes no difference.
\<close>

theorem supervisor_bodies_bounded:
  assumes "supervisor_token e \<noteq> []"
    and "cl_http cl \<lparr>rq_method = ''GET'', rq_url = ''http://supervisor'' @ path, rq_token = supervisor_token e,
      rq_body = None\<rparr> = Inr resp"
    and "rs_status resp < 400" "rs_broken resp = None"
  shows "snd (supervisor_get_text e cl path n) = Inr (cl_decode_text cl (keep_last n (concat (rs_chunks resp)))) \<and>
    ((\<exists>m. snd (supervisor_get_json e cl path) = Inl (Client_error ''HA_RESPONSE_TOO_LARGE'' m)) \<longleftrightarrow>
      length (concat (rs_chunks resp)) > supervisor_json_max_bytes)"
  using assms too_large_exact [OF assms(4), of cl path "\<lambda>_. None"]
  by (simp add: supervisor_get_text_def supervisor_get_json_def supervisor_call_def Let_def lift_net_def
      status_error_def read_tail_exact)

subsection \<open>Where the tokens go\<close>

definition request_path :: "ha_request \<Rightarrow> string option" where
  "request_path q = (case q of
     Ha_get p \<Rightarrow> Some p | Ha_post p _ \<Rightarrow> Some p | Ha_delete p \<Rightarrow> Some p | Ha_ws _ _ \<Rightarrow> None
   | Supervisor_json p \<Rightarrow> Some p | Supervisor_text p _ \<Rightarrow> Some p | Supervisor_post p \<Rightarrow> Some p)"

definition rooted :: "ha_request \<Rightarrow> bool" where
  "rooted q \<longleftrightarrow> (case request_path q of Some p \<Rightarrow> starts_with p ''/'' | None \<Rightarrow> True)"

definition goes_to :: "string \<Rightarrow> string \<Rightarrow> string \<Rightarrow> client_event \<Rightarrow> bool" where
  "goes_to http socket token ev = (case ev of
     Http q \<Rightarrow> starts_with (rq_url q) (http @ ''/'') \<and> rq_token q = token
   | Ws_connect u \<Rightarrow> u = socket
   | Ws_send _ \<Rightarrow> True)"

lemma supervisor_urls:
  "rstrip_slash ''http://supervisor/core'' = ''http://supervisor/core''"
  "ws_url ''http://supervisor/core'' = ''ws://supervisor/core/api/websocket''"
  by code_simp+

lemma starts_with_front: "starts_with s (p @ r) \<Longrightarrow> starts_with s p"
proof -
  assume "starts_with s (p @ r)"
  then have "take (length p) (take (length (p @ r)) s) = take (length p) (p @ r)" by (simp only: starts_with_def)
  then show ?thesis by (simp add: starts_with_def min_def)
qed

lemma rest_goes:
  assumes "ha_url e = Inr base" "ha_token e = Inr token" "starts_with p ''/''"
  shows "list_all (goes_to (rstrip_slash base) (ws_url base) token) (fst (ha_rest e cl verb p body))"
  using assms by (auto simp: ha_rest_def goes_to_def Let_def starts_with_def)

lemma ws_goes:
  assumes "ha_url e = Inr base" "ha_token e = Inr token"
  shows "list_all (goes_to (rstrip_slash base) (ws_url base) token) (fst (ha_ws_call e cl t d))"
  using assms by (auto simp: ha_ws_call_def goes_to_def list_all_iff split: option.split prod.split)

lemma supervisor_goes:
  "starts_with p ''/'' \<Longrightarrow> list_all (goes_to ''http://supervisor'' u (supervisor_token e)) (fst (supervisor_call e cl verb p body read))"
  by (auto simp: supervisor_call_def goes_to_def Let_def starts_with_def)

lemma unconfigured_silent:
  "ha_url e = Inl x \<or> ha_token e = Inl x \<Longrightarrow> fst (ha_rest e cl verb p body) = [] \<and> fst (ha_ws_call e cl t d) = []"
  by (auto simp: ha_rest_def ha_ws_call_def split: sum.split)


subsection \<open>The frame of a configuration command\<close>

definition create_params :: "dict \<Rightarrow> dict" where
  "create_params attrs =
     [(''action'', JStr ''create''), (''helper_type'', JStr ''input_boolean''), (''attrs'', JObj attrs)]"

lemma create_passes:
  "action_of (map fst helpers_keys) (create_params attrs) = Inr ''create''"
  "strict_keys_error (create_params attrs) (keys_of helpers_keys ''create'' @ helper_more_keys (create_params attrs) ''create'') [] = None"
  "listed user_directed ''ha.config.helpers'' ''create''"
  "strip ''input_boolean'' = ''input_boolean''" "''input_boolean'' \<in> set helper_types"
proof -
  show "action_of (map fst helpers_keys) (create_params attrs) = Inr ''create''"
    by (simp add: action_of_def create_params_def helpers_keys_def strip_def py_space_def)
  show "strict_keys_error (create_params attrs) (keys_of helpers_keys ''create'' @ helper_more_keys (create_params attrs) ''create'') [] = None"
    by (auto simp: strict_keys_ok_iff create_params_def keys_of_def helpers_keys_def helper_more_keys_def)
  show "listed user_directed ''ha.config.helpers'' ''create''"
    "strip ''input_boolean'' = ''input_boolean''" "''input_boolean'' \<in> set helper_types"
    by code_simp+
qed

text \<open>
  A finding: the attributes of a creation are merged over the message itself, so they may name another kind of
  message. For an administrator's turn, which needs no approval to create a helper, the creation of a
  helper with a \<open>type\<close> among the attributes sends, with no approval spent, the very frame of any other
  message \<open>t\<close> with any payload, those of the actions that always need approval included.
\<close>

theorem created_helper_sends_any_frame:
  assumes "he_caller env = Some c" "caller_role c = Turn Admin" "actor_id c \<noteq> ''<anonymous>''"
  shows "let q = Ha_ws ''input_boolean/create'' ((''type'', JStr t) # payload);
      w' = snd (handle_ha_config_helpers env (create_params ((''type'', JStr t) # payload)) w)
    in sent w' = sent w @ [q] \<and> approvals w' = approvals w \<and>
       ws_frame ''input_boolean/create'' ((''type'', JStr t) # payload) = ws_frame t payload"
proof -
  let ?attrs = "(''type'', JStr t) # payload"
  let ?params = "create_params ?attrs"
  have unmarked: "map_of ?params approval_param = None" by (simp add: create_params_def approval_param_def)
  have exempt: "approval_exempt (Some c) ''ha.config.helpers'' ''create''"
    using assms(2,3) create_passes(3) by (simp add: approval_exempt_def lifecycle_no_approval_def)
  have marker: "consume_marker env ''ha.config.helpers'' ''create'' ?params w = (Inr (None, ?params), w)"
    using assms(1) unmarked exempt by (simp add: consume_marker_def consume_approval_marker_def)
  have run: "handle_ha_config_helpers env ?params = helpers_create env ?params"
    by (simp add: handle_ha_config_helpers_def by_action_def create_passes unless_def)
  have fields: "dget ?params ''helper_type'' = JStr ''input_boolean''" "dget ?params ''attrs'' = JObj ?attrs"
    by (simp_all add: create_params_def)
  have "snd (helpers_create env ?params w) = w\<lparr>sent := sent w @ [Ha_ws ''input_boolean/create'' ?attrs]\<rparr>"
    by (auto simp: helpers_create_def approved_action_def ha_bind_def marker unless_def need_helper_type_def
        need_text_def need_dict_def fields create_passes or_error_def ask_def ha_return_def split: sum.split ha_exn.split)
  then show ?thesis by (simp add: run ws_frame_def merged_def)
qed

subsection \<open>Sample runs\<close>

definition sample_response :: http_response where
  "sample_response = \<lparr>rs_status = 200, rs_path = ''/'', rs_content_type = ''text/plain'', rs_text = Inr [],
     rs_json = Inr JNull, rs_chunks = [[1, 2, 3], [4, 5]], rs_broken = None\<rparr>"

definition sample_client :: client where
  "sample_client = \<lparr>cl_http = \<lambda>q. Inr sample_response, cl_connect = \<lambda>u. None, cl_receive = \<lambda>frames. Inl Timeout_exn,
     cl_loads = \<lambda>bs. Decoded JNull, cl_decode_text = map char_of\<rparr>"

definition sample_environ :: client_env where
  "sample_environ = \<lparr>environ = [''SUPERVISOR_TOKEN'' \<mapsto> ''s3cret'', ''HASS_URL'' \<mapsto> ''http://evil.example/''],
     data_writable = True\<rparr>"

theorem supervisor_bodies_bounded_witness:
  "snd (supervisor_get_text sample_environ sample_client ''/core/logs'' 4) = Inr (map char_of [2, 3, 4, 5 :: nat])"
proof -
  have t: "supervisor_token sample_environ \<noteq> []" by code_simp
  have r: "cl_http sample_client \<lparr>rq_method = ''GET'', rq_url = ''http://supervisor'' @ ''/core/logs'',
      rq_token = supervisor_token sample_environ, rq_body = None\<rparr> = Inr sample_response"
    "rs_status sample_response < 400" "rs_broken sample_response = None"
    by (simp_all add: sample_client_def sample_response_def)
  show ?thesis
    using supervisor_bodies_bounded [OF t r, of 4]
    by (simp add: sample_client_def sample_response_def keep_last_def)
qed


definition admin_env :: ha_env where
  "admin_env = \<lparr>he_json = \<lambda>before q. Inr JNull, he_text = \<lambda>before q. Inl Timed_out, he_digest = \<lambda>_. ''d'',
     he_now = 0, he_caller = Some \<lparr>caller_role = Turn Admin, actor_id = ''a1'', forbidden = []\<rparr>, he_denylist = []\<rparr>"

theorem created_helper_sends_any_frame_witness:
  "\<exists>attrs. sent (snd (handle_ha_config_helpers admin_env (create_params attrs) \<lparr>sent = [], approvals = []\<rparr>)) =
      [Ha_ws ''input_boolean/create'' attrs] \<and>
    ws_frame ''input_boolean/create'' attrs = ws_frame ''config/entity_registry/remove'' [(''entity_id'', JStr ''lock.door'')] \<and>
    ws_frame ''config/entity_registry/remove'' [(''entity_id'', JStr ''lock.door'')] =
      [(''id'', JInt 1), (''type'', JStr ''config/entity_registry/remove''), (''entity_id'', JStr ''lock.door'')]"
proof -
  have c: "he_caller admin_env = Some \<lparr>caller_role = Turn Admin, actor_id = ''a1'', forbidden = []\<rparr>"
    by (simp add: admin_env_def)
  have "ws_frame ''config/entity_registry/remove'' [(''entity_id'', JStr ''lock.door'')] =
      [(''id'', JInt 1), (''type'', JStr ''config/entity_registry/remove''), (''entity_id'', JStr ''lock.door'')]"
    by code_simp
  with created_helper_sends_any_frame [OF c, of "''config/entity_registry/remove''" "[(''entity_id'', JStr ''lock.door'')]"
      "\<lparr>sent = [], approvals = []\<rparr>"] show ?thesis
    unfolding Let_def by auto
qed

end
