(* ===== verification/Http_Base.thy ===== *)
theory Http_Base
  imports Py_Case File_System "HOL-Library.Word"
begin

unbundle bit_operations_syntax

text \<open>
  What the handlers of \<open>http_api.py\<close> share: a request as they read it, their replies, the bearer token of
  a request, and the origin check of the bootstrap endpoint with the address parser it rests on.
\<close>

subsection \<open>Requests and replies\<close>

text \<open>
  The body as \<open>request.json()\<close> gives it: none sent, larger than the application's limit, no JSON, or a
  value; for the image request, which reads it itself, the announced length and the chunks. A missing
  \<open>Authorization\<close> header reads as the empty string.
\<close>

datatype body = No_body | Oversized | Malformed | Json_body jval

record request =
  in_method :: string
  in_path :: string
  in_remote :: "string option"
  in_authorization :: string
  in_body :: body
  in_length :: "nat option"
  in_chunks :: "nat list list"

text \<open>
  A JSON object, another JSON value, a page that aiohttp makes of an exception, or the frames of a stream.
  Headers are left out. A frame stands for one line of the stream: its constructor and arguments are the keys and
  values of the object on it.
\<close>

datatype stream_frame =
    Delta_frame "nat list"
  | Keepalive_frame
  | Progress_frame string string "string option" int
  | Done_frame
  | Error_frame string "string option"

datatype reply = Json nat dict | Json_value nat jval | Page nat string | Frames nat "stream_frame list"

fun status :: "reply \<Rightarrow> nat" where
  "status (Json n _) = n"
| "status (Json_value n _) = n"
| "status (Page n _) = n"
| "status (Frames n _) = n"

definition failed :: "string \<Rightarrow> dict" where
  "failed code = [(''ok'', JBool False), (''error'', JStr code)]"

text \<open>\<open>auth.partition(" ")\<close>; the token is what stands after the first space.\<close>

definition bearer_token :: "string \<Rightarrow> string option" where
  "bearer_token auth =
     (case partition_at (CHR '' '') auth of (scheme, presented) \<Rightarrow>
        if lower scheme \<noteq> ''bearer'' \<or> presented = [] then None else Some presented)"

definition bearer :: "string \<Rightarrow> string" where
  "bearer token = ''Bearer '' @ token"

lemma bearer_token_bearer [simp]: "token \<noteq> [] \<Longrightarrow> bearer_token (bearer token) = Some token"
proof -
  have "lower ''Bearer'' = ''bearer''" by code_simp
  then show "token \<noteq> [] \<Longrightarrow> ?thesis"
    by (simp add: bearer_token_def bearer_def partition_at_def)
qed

text \<open>
  The decision of the bearer middleware for a path that needs a token. Without a configured token nothing
  passes; \<open>hmac.compare_digest\<close> on the encoded texts is equality.
\<close>

definition no_token_configured :: string where
  "no_token_configured =
     ''Local API token is not configured. Set `local_api_token` in the add-on options (or '' @
     ''`OPENCLAW_LOCAL_API_TOKEN` standalone) before calling the local API.''"

definition bearer_refusal :: "string \<Rightarrow> string \<Rightarrow> reply option" where
  "bearer_refusal expected auth =
     (if expected = [] then
        Some (Json 401 (failed ''NO_TOKEN_CONFIGURED'' @ [(''response'', JStr no_token_configured)]))
      else case bearer_token auth of
        None \<Rightarrow> Some (Json 401 (failed ''UNAUTHORIZED''))
      | Some presented \<Rightarrow> if presented \<noteq> expected then Some (Json 403 (failed ''FORBIDDEN'')) else None)"

subsection \<open>Addresses\<close>

text \<open>One octet of a dotted address as \<open>ipaddress\<close> reads it: decimal, no leading zero, at most 255.\<close>

definition ascii_digit :: "char \<Rightarrow> bool" where
  "ascii_digit c \<longleftrightarrow> 48 \<le> (of_char c :: nat) \<and> (of_char c :: nat) \<le> 57"

definition octet_value :: "string \<Rightarrow> nat" where
  "octet_value s = foldl (\<lambda>n c. 10 * n + (of_char c - 48)) 0 s"

definition octet :: "string \<Rightarrow> nat option" where
  "octet s =
     (if s = [] \<or> \<not> list_all ascii_digit s then None
      else if 3 < length s then None
      else if s \<noteq> ''0'' \<and> hd s = CHR ''0'' then None
      else if 255 < octet_value s then None
      else Some (octet_value s))"

text \<open>\<open>IPv4Address\<close>; everything else is an IPv6 address, which is in no IPv4 network, or a \<open>ValueError\<close>.\<close>

definition ipv4_address :: "string \<Rightarrow> 32 word option" where
  "ipv4_address s =
     (case split_on (CHR ''.'') s of
        [a, b, c, d] \<Rightarrow>
          (case (octet a, octet b, octet c, octet d) of
             (Some a, Some b, Some c, Some d) \<Rightarrow>
               Some (of_nat (((a * 256 + b) * 256 + c) * 256 + d))
           | _ \<Rightarrow> None)
      | _ \<Rightarrow> None)"

definition supervisor_network :: "32 word" where
  "supervisor_network = 0xAC1E2000"

definition supervisor_netmask :: "32 word" where
  "supervisor_netmask = 0xFFFFFE00"

definition is_supervisor_network :: "string option \<Rightarrow> bool" where
  "is_supervisor_network remote =
     (case remote of
        None \<Rightarrow> False
      | Some s \<Rightarrow>
          (case ipv4_address s of
             None \<Rightarrow> False
           | Some ip \<Rightarrow> ip AND supervisor_netmask = supervisor_network))"

lemma supervisor_netmask_bits: "supervisor_netmask = NOT (mask 9)"
  by (rule word_eq_numeral_iff_iszero | code_simp)

lemma masked_bits: "x AND supervisor_netmask = push_bit 9 (drop_bit 9 x)"
  unfolding supervisor_netmask_bits by (rule bit_word_eqI) (auto simp: bit_simps)

lemma supervisor_network_bits: "supervisor_network = push_bit 9 (drop_bit 9 supervisor_network)"
  by code_simp

lemma masked_block: "x AND supervisor_netmask = supervisor_network \<longleftrightarrow> unat x div 512 = unat supervisor_network div 512"
proof -
  have dropped: "drop_bit 9 (push_bit 9 (drop_bit 9 z)) = drop_bit 9 z" for z :: "32 word"
    by (rule bit_word_eqI) (auto simp: bit_simps dest: bit_imp_le_length)
  have "x AND supervisor_netmask = supervisor_network \<longleftrightarrow> drop_bit 9 x = drop_bit 9 supervisor_network"
    unfolding masked_bits by (metis dropped supervisor_network_bits)
  also have "\<dots> \<longleftrightarrow> unat x div 512 = unat supervisor_network div 512"
    unfolding word_unat_eq_iff unat_drop_bit_eq by (simp add: drop_bit_eq_div)
  finally show ?thesis .
qed

lemma octet_bound: "octet s = Some n \<Longrightarrow> n < 256"
  by (auto simp: octet_def split: if_splits)

lemma octet_value_snoc: "octet_value (s @ [c]) = 10 * octet_value s + (of_char c - 48)"
  by (simp add: octet_value_def)

lemma digit_char_ascii: "n < 10 \<Longrightarrow> ascii_digit (digit_char n) \<and> of_char (digit_char n) = 48 + n"
  by (simp add: ascii_digit_def digit_char_def)

lemma digit_char_zero: "digit_char 0 = CHR ''0''"
  by code_simp

lemma octet_value_nat_str: "octet_value (nat_str n) = n \<and> list_all ascii_digit (nat_str n)"
proof (induction n rule: nat_digits.induct)
  case (1 n)
  show ?case
  proof (cases "n < 10")
    case True
    then show ?thesis
      by (simp add: nat_str_def nat_digits.simps [of n] octet_value_def digit_char_ascii)
  next
    case False
    then have "nat_str n = nat_str (n div 10) @ [digit_char (n mod 10)]"
      by (simp add: nat_str_def nat_digits.simps [of n])
    with 1 False show ?thesis by (simp add: octet_value_snoc digit_char_ascii)
  qed
qed

lemma nat_str_octet_value:
  "list_all ascii_digit s \<Longrightarrow> s \<noteq> [] \<Longrightarrow> s = ''0'' \<or> hd s \<noteq> CHR ''0'' \<Longrightarrow> nat_str (octet_value s) = s"
proof (induction s rule: rev_induct)
  case (snoc c s)
  have c: "digit_char (of_char c - 48) = c" "of_char c - 48 < (10 :: nat)"
    using snoc.prems(1) by (auto simp: digit_char_def ascii_digit_def)
  show ?case
  proof (cases "s = []")
    case True
    with c show ?thesis
      by (simp add: octet_value_def nat_str_def nat_digits.simps [of "of_char c - 48"])
  next
    case False
    then have hd: "hd s \<noteq> CHR ''0''" using snoc.prems(3) by (cases s) auto
    then have IH: "nat_str (octet_value s) = s" using snoc False by auto
    have "octet_value s \<noteq> 0"
    proof
      assume "octet_value s = 0"
      then have "s = ''0''"
        using IH by (simp add: nat_str_def nat_digits.simps [of 0] digit_char_zero)
      then show False using hd by simp
    qed
    then have "nat_digits (10 * octet_value s + (of_char c - 48)) =
        nat_digits (octet_value s) @ [of_char c - 48]"
      using c(2) by (subst nat_digits.simps) simp
    then show ?thesis using IH c(1) by (simp add: nat_str_def octet_value_snoc)
  qed
qed simp

lemma octet_text:
  assumes "n < 256"
  shows "length (nat_str n) \<le> 3 \<and> nat_str n \<noteq> [] \<and> (nat_str n = ''0'' \<or> hd (nat_str n) \<noteq> CHR ''0'')"
proof -
  have digit: "digit_char m \<noteq> CHR ''0''" if "0 < m" "m < 10" for m
    using that digit_char_ascii [of m] by auto
  consider "n < 10" | "10 \<le> n" "n < 100" | "100 \<le> n" by linarith
  then show ?thesis
  proof cases
    case 1
    then show ?thesis
      using digit [of n] digit_char_zero by (cases "n = 0") (auto simp: nat_str_def nat_digits.simps [of n] nat_digits.simps [of 0])
  next
    case 2
    then show ?thesis
      using digit [of "n div 10"] by (auto simp: nat_str_def nat_digits.simps [of n] nat_digits.simps [of "n div 10"])
  next
    case 3
    then have "0 < n div 10 div 10" "n div 10 div 10 < 10" using assms by linarith+
    with 3 show ?thesis
      using digit [of "n div 10 div 10"]
      by (auto simp: nat_str_def nat_digits.simps [of n] nat_digits.simps [of "n div 10"]
          nat_digits.simps [of "n div 10 div 10"])
  qed
qed

lemma octet_iff: "octet s = Some n \<longleftrightarrow> n < 256 \<and> s = nat_str n"
proof
  assume o: "octet s = Some n"
  then have "s = ''0'' \<or> hd s \<noteq> CHR ''0''" "list_all ascii_digit s" "s \<noteq> []" "octet_value s = n"
    by (auto simp: octet_def split: if_splits)
  then show "n < 256 \<and> s = nat_str n"
    using nat_str_octet_value [of s] octet_bound [OF o] by simp
next
  assume "n < 256 \<and> s = nat_str n"
  then show "octet s = Some n"
    using octet_text [of n] octet_value_nat_str [of n] by (auto simp: octet_def)
qed

lemma split_on_nonempty: "split_on c s \<noteq> []"
  by (induction s) (auto split: list.splits)

lemma split_on_text: "join [c] (split_on c s) = s"
proof (induction s)
  case (Cons x s)
  obtain w vs where "split_on c s = w # vs" using split_on_nonempty by (metis list.exhaust)
  then show ?case using Cons.IH by (cases vs) auto
qed simp

lemma split_on_word: "c \<notin> set w \<Longrightarrow> split_on c w = [w]"
  by (induction w) auto

lemma split_on_step: "c \<notin> set w \<Longrightarrow> split_on c (w @ c # s) = w # split_on c s"
  by (induction w) auto

lemma dot_not_digit: "list_all ascii_digit s \<Longrightarrow> CHR ''.'' \<notin> set s"
  by (auto simp: list_all_iff ascii_digit_def)

lemma ipv4_address_iff:
  "ipv4_address s = Some ip \<longleftrightarrow>
     (\<exists>a b c d. a < 256 \<and> b < 256 \<and> c < 256 \<and> d < 256 \<and>
        s = nat_str a @ ''.'' @ nat_str b @ ''.'' @ nat_str c @ ''.'' @ nat_str d \<and>
        ip = of_nat (((a * 256 + b) * 256 + c) * 256 + d))"
  (is "?l \<longleftrightarrow> ?r")
proof
  assume ?l
  then obtain p q r t a b c d where parts: "split_on (CHR ''.'') s = [p, q, r, t]"
    and o: "octet p = Some a" "octet q = Some b" "octet r = Some c" "octet t = Some d"
    and ip: "ip = of_nat (((a * 256 + b) * 256 + c) * 256 + d)"
    by (auto simp: ipv4_address_def split: list.splits option.splits)
  have "s = p @ ''.'' @ q @ ''.'' @ r @ ''.'' @ t"
    using split_on_text [of "CHR ''.''" s] parts by simp
  then show ?r using o ip unfolding octet_iff by blast
next
  assume ?r
  moreover have "octet (nat_str n) = Some n" if "n < 256" for n using that by (simp add: octet_iff)
  moreover have "CHR ''.'' \<notin> set (nat_str n)" for n using dot_not_digit octet_value_nat_str by blast
  ultimately show ?l by (auto simp: ipv4_address_def split_on_step split_on_word)
qed

text \<open>The addresses of the Supervisor's network, and no others, pass the check.\<close>

lemma supervisor_network_exact:
  "is_supervisor_network remote \<longleftrightarrow>
     (\<exists>c d. c \<in> {32, 33} \<and> d < 256 \<and> remote = Some (''172.30.'' @ nat_str c @ ''.'' @ nat_str d))"
  (is "?l \<longleftrightarrow> ?r")
proof -
  have start: "nat_str 172 = ''172''" "nat_str 30 = ''30''" by code_simp+
  have net: "unat supervisor_network div 512 = 5639952" by code_simp
  have inside: "unat (of_nat (((a * 256 + b) * 256 + c) * 256 + d) :: 32 word) div 512 = 5639952 \<longleftrightarrow>
      a = 172 \<and> b = 30 \<and> c \<in> {32, 33}"
    if "a < 256" "b < 256" "c < 256" "d < 256" for a b c d :: nat
  proof -
    let ?n = "((a * 256 + b) * 256 + c) * 256 + d"
    have "?n < 2 ^ 32" using that by simp
    then have "unat (of_nat ?n :: 32 word) = ?n" unfolding unat_of_nat by simp
    moreover have "?n div 512 = 5639952 \<longleftrightarrow> 5639952 * 512 \<le> ?n \<and> ?n < 5639952 * 512 + 512" by linarith
    moreover have "\<dots> \<longleftrightarrow> a = 172 \<and> b = 30 \<and> (c = 32 \<or> c = 33)" (is "?in \<longleftrightarrow> _")
    proof
      assume ?in
      then have i: "2887655424 \<le> ((a * 256 + b) * 256 + c) * 256 + d" "((a * 256 + b) * 256 + c) * 256 + d < 2887655936"
        by auto
      then have "a \<le> 172" "172 \<le> a" using that by simp_all
      then have a: "a = 172" by simp
      with i that have "b \<le> 30" "30 \<le> b" by simp_all
      then have b: "b = 30" by simp
      with a i that have "c \<le> 33" "32 \<le> c" by simp_all
      with a b show "a = 172 \<and> b = 30 \<and> (c = 32 \<or> c = 33)" by auto
    qed (use that in auto)
    ultimately show ?thesis by simp
  qed
  show ?thesis
  proof
    assume ?l
    then obtain s ip where s: "remote = Some s" "ipv4_address s = Some ip" "ip AND supervisor_netmask = supervisor_network"
      by (auto simp: is_supervisor_network_def split: option.splits)
    then show ?r
      unfolding ipv4_address_iff masked_block net using inside start by fastforce
  next
    assume ?r
    then obtain c d where "c \<in> {32, 33}" "d < 256" "remote = Some (''172.30.'' @ nat_str c @ ''.'' @ nat_str d)"
      by blast
    moreover from this have "c < 256" by auto
    moreover from calculation have "ipv4_address (''172.30.'' @ nat_str c @ ''.'' @ nat_str d) =
        Some (of_nat (((172 * 256 + 30) * 256 + c) * 256 + d))"
      unfolding ipv4_address_iff by (intro exI [of _ 172] exI [of _ 30] exI [of _ c] exI [of _ d]) (auto simp: start)
    ultimately show ?l
      using inside [of 172 30 c d] by (simp add: is_supervisor_network_def masked_block net)
  qed
qed

end
