(* ===== verification/Bootstrap.thy ===== *)
theory Bootstrap
  imports Complex_Main Http_Base
begin

text \<open>
  The local API token: \<open>token_store.py\<close>, the endpoints \<open>/v1/bootstrap\<close> and \<open>/v1/bootstrap/claim\<close> of
  \<open>http_api.py\<close>, and what start-up does to them in \<open>__main__.py\<close>. Neither endpoint awaits anything, so
  each is one step; a run is a list of steps, restarts among them.
\<close>

subsection \<open>The files of the data directory\<close>

text \<open>
  What stands at a path: nothing, a file of readable text, a file that is not UTF-8, or a symlink, whose
  target exists or not.
\<close>

datatype entry = Absent | Text_file string | Not_utf8 | Symlink bool

fun exists :: "entry \<Rightarrow> bool" where
  "exists Absent = False"
| "exists (Symlink target) = target"
| "exists _ = True"

fun is_symlink :: "entry \<Rightarrow> bool" where
  "is_symlink (Symlink _) = True"
| "is_symlink _ = False"

text \<open>
  The hardened write: it may fail before the file is opened, or after the file was cut to nothing, with the
  first so many characters written.
\<close>

datatype write_end = Written | Not_opened | Cut_off nat

definition write_private :: "write_end \<Rightarrow> string \<Rightarrow> entry \<Rightarrow> bool \<times> entry" where
  "write_private w content e =
     (if is_symlink e then (False, e)
      else case w of
        Written \<Rightarrow> (True, Text_file content)
      | Not_opened \<Rightarrow> (False, e)
      | Cut_off n \<Rightarrow> (False, Text_file (take n content)))"

definition line :: "string \<Rightarrow> string" where
  "line s = s @ [CHR 0x0A]"

text \<open>\<open>load_or_generate_local_api_token\<close>: a file that is not UTF-8 raises what nobody catches.\<close>

datatype loaded = Loaded string entry | Write_failed entry | Crashed

definition generate_token :: "write_end \<Rightarrow> string \<Rightarrow> entry \<Rightarrow> loaded" where
  "generate_token w fresh e =
     (case write_private w (line fresh) e of (ok, e') \<Rightarrow> if ok then Loaded fresh e' else Write_failed e')"

definition load_or_generate :: "bool \<Rightarrow> write_end \<Rightarrow> string \<Rightarrow> entry \<Rightarrow> loaded" where
  "load_or_generate readable w fresh e =
     (case e of
        Text_file s \<Rightarrow>
          if readable \<and> strip s \<noteq> [] then Loaded (strip s) e else generate_token w fresh e
      | Not_utf8 \<Rightarrow> if readable then Crashed else generate_token w fresh e
      | _ \<Rightarrow> generate_token w fresh e)"

subsection \<open>The process and its files\<close>

record installation =
  consumed :: entry
  claimed :: entry
  token_file :: entry
  running :: bool
  addon_mode :: bool
  local_api_token :: string
  bootstrap_token :: string
  claim_token :: string
  claimed_token :: string
  startup_time :: rat

definition bootstrap_window_seconds :: nat where
  "bootstrap_window_seconds = 300"

definition token_reply :: "string \<Rightarrow> dict" where
  "token_reply token = [(''ok'', JBool True), (''token'', JStr token)]"

definition refused :: "nat \<Rightarrow> string \<Rightarrow> string \<Rightarrow> reply" where
  "refused code name detail = Json code (failed name @ [(''detail'', JStr detail)])"

subsection \<open>The endpoints\<close>

definition served_reply :: "string \<Rightarrow> reply" where
  "served_reply token = Json 200 (token_reply token @ [(''claim_endpoint'', JStr ''/v1/bootstrap/claim'')])"

definition bootstrap ::
  "rat \<Rightarrow> write_end \<Rightarrow> string \<Rightarrow> string option \<Rightarrow> installation \<Rightarrow> reply \<times> installation" where
  "bootstrap now w stamp remote st =
     (if addon_mode st \<and> \<not> is_supervisor_network remote then (Page 404 ''404: Not Found'', st)
      else if now - startup_time st > of_nat bootstrap_window_seconds then
        (refused 410 ''BOOTSTRAP_EXPIRED''
          (''Bootstrap window ('' @ nat_str bootstrap_window_seconds @
           ''s) has closed. Restart the add-on to open a fresh window.''), st)
      else if is_symlink (consumed st) \<or> exists (consumed st) then
        (refused 410 ''BOOTSTRAP_CONSUMED''
          (''The bootstrap token has already been fetched. '' @
           ''Set reset_bootstrap=true in add-on options and restart to re-open.''), st)
      else if bootstrap_token st = [] then
        (refused 404 ''BOOTSTRAP_DISABLED''
          (''Bootstrap is only available when local_api_token is not '' @
           ''set explicitly. Configure the integration token manually.''), st)
      else (served_reply (bootstrap_token st),
            st\<lparr>consumed := snd (write_private w (line stamp) (consumed st)),
               bootstrap_token := [], claim_token := bootstrap_token st\<rparr>))"

text \<open>The part of the claim after the bearer was accepted.\<close>

definition rotate ::
  "write_end \<Rightarrow> write_end \<Rightarrow> string \<Rightarrow> string \<Rightarrow> installation \<Rightarrow> reply \<times> installation" where
  "rotate wt wm fresh stamp st =
     (if \<not> exists (consumed st) \<or> is_symlink (consumed st) then
        (refused 409 ''BOOTSTRAP_NOT_CONSUMED'' ''Fetch /v1/bootstrap before claiming a rotated token.'', st)
      else if exists (claimed st) \<or> is_symlink (claimed st) then
        (refused 409 ''BOOTSTRAP_ALREADY_CLAIMED'' ''The bootstrap token has already been rotated.'', st)
      else case write_private wt (line fresh) (token_file st) of
        (False, e) \<Rightarrow>
          (refused 500 ''BOOTSTRAP_ROTATION_FAILED'' ''Could not rotate the local API token.'',
           st\<lparr>token_file := e\<rparr>)
      | (True, e) \<Rightarrow>
          (Json 200 (token_reply fresh),
           st\<lparr>token_file := e, local_api_token := fresh, claimed_token := fresh,
              claimed := snd (write_private wm (line stamp) (claimed st))\<rparr>))"

definition bootstrap_claim ::
  "write_end \<Rightarrow> write_end \<Rightarrow> string \<Rightarrow> string \<Rightarrow> string \<Rightarrow> installation \<Rightarrow> reply \<times> installation" where
  "bootstrap_claim wt wm fresh stamp auth st =
     (case bearer_token auth of
        None \<Rightarrow> (Json 401 (failed ''UNAUTHORIZED''), st)
      | Some presented \<Rightarrow>
          if claim_token st \<noteq> [] \<and> presented = claim_token st then
            (if claimed_token st \<noteq> [] then (Json 200 (token_reply (claimed_token st)), st)
             else rotate wt wm fresh stamp st)
          else if presented \<noteq> local_api_token st then (Json 403 (failed ''FORBIDDEN''), st)
          else rotate wt wm fresh stamp st)"

subsection \<open>Start-up\<close>

text \<open>
  What decides a start: the options \<open>local_api_token\<close> and \<open>reset_bootstrap\<close>, the mode, the time, whether a
  marker can be removed and the token file read, the token that would be generated and how its write ends.
\<close>

record launch =
  explicit :: string
  reset :: bool
  in_addon :: bool
  started_at :: rat
  frees_consumed :: bool
  frees_claimed :: bool
  readable :: bool
  generated :: string
  generated_end :: write_end

definition reset_marker :: "bool \<Rightarrow> entry \<Rightarrow> entry" where
  "reset_marker removable e = (if exists e \<and> \<not> is_symlink e \<and> removable then Absent else e)"

definition reset_bootstrap_state :: "launch \<Rightarrow> installation \<Rightarrow> installation" where
  "reset_bootstrap_state l st =
     (if \<not> reset l then st
      else st\<lparr>consumed := reset_marker (frees_consumed l) (consumed st),
             claimed := reset_marker (frees_claimed l) (claimed st)\<rparr>)"

definition fresh_process :: "launch \<Rightarrow> string \<Rightarrow> string \<Rightarrow> installation \<Rightarrow> installation" where
  "fresh_process l token served st =
     st\<lparr>running := True, addon_mode := in_addon l, local_api_token := token, bootstrap_token := served,
        claim_token := [], claimed_token := [], startup_time := started_at l\<rparr>"

definition start :: "launch \<Rightarrow> installation \<Rightarrow> installation" where
  "start l st0 =
     (let st = reset_bootstrap_state l st0 in
      if explicit l \<noteq> [] then fresh_process l (explicit l) [] st
      else case load_or_generate (readable l) (generated_end l) (generated l) (token_file st) of
        Loaded token e \<Rightarrow> fresh_process l token token (st\<lparr>token_file := e\<rparr>)
      | Write_failed e \<Rightarrow> fresh_process l [] [] (st\<lparr>token_file := e\<rparr>)
      | Crashed \<Rightarrow> (fresh_process l [] [] st)\<lparr>running := False\<rparr>)"

subsection \<open>Runs\<close>

datatype op =
    Fetch rat write_end string "string option"
  | Claim write_end write_end string string string
  | Start launch

fun step :: "op \<Rightarrow> installation \<Rightarrow> reply option \<times> installation" where
  "step (Fetch now w stamp remote) st =
     (if running st then map_prod Some id (bootstrap now w stamp remote st) else (None, st))"
| "step (Claim wt wm fresh stamp auth) st =
     (if running st then map_prod Some id (bootstrap_claim wt wm fresh stamp auth st) else (None, st))"
| "step (Start l) st = (None, start l st)"

fun run :: "op list \<Rightarrow> installation \<Rightarrow> installation" where
  "run [] st = st"
| "run (op # ops) st = run ops (snd (step op st))"

definition serves :: "op \<Rightarrow> installation \<Rightarrow> string \<Rightarrow> bool" where
  "serves op st token \<longleftrightarrow> fst (step op st) = Some (served_reply token)"

subsection \<open>A token is served once\<close>

text \<open>The marker stands, or the token is gone from memory: nothing can be served by this process.\<close>

definition spent :: "installation \<Rightarrow> bool" where
  "spent st \<longleftrightarrow> bootstrap_token st = []"

definition marked :: "installation \<Rightarrow> bool" where
  "marked st \<longleftrightarrow> exists (consumed st) \<or> is_symlink (consumed st)"

lemma served_reply_eq [simp]: "served_reply t = served_reply t' \<longleftrightarrow> t = t'"
  by (simp add: served_reply_def token_reply_def)

lemma not_served [simp]:
  "refused n c d \<noteq> served_reply t" "Page n m \<noteq> served_reply t" "Json n (failed c) \<noteq> served_reply t"
  "Json 200 (token_reply u) \<noteq> served_reply t"
  by (auto simp: refused_def failed_def served_reply_def token_reply_def)

lemma claim_not_served [simp]: "fst (bootstrap_claim wt wm fresh stamp auth st) \<noteq> served_reply t"
  by (auto simp: bootstrap_claim_def rotate_def split: option.splits prod.splits bool.splits)

lemma bootstrap_serves:
  "fst (bootstrap now w stamp remote st) = served_reply t \<longleftrightarrow>
     (addon_mode st \<longrightarrow> is_supervisor_network remote) \<and> now - startup_time st \<le> of_nat bootstrap_window_seconds \<and>
     \<not> marked st \<and> \<not> spent st \<and> t = bootstrap_token st"
  by (auto simp: bootstrap_def marked_def spent_def)

lemma servesE:
  assumes "serves op st t"
  obtains now w stamp remote where "op = Fetch now w stamp remote" "running st"
    "fst (bootstrap now w stamp remote st) = served_reply t"
  using assms by (cases op) (auto simp: serves_def split: if_splits)

fun opens_window :: "op \<Rightarrow> bool" where
  "opens_window (Start l) \<longleftrightarrow> explicit l = []"
| "opens_window _ \<longleftrightarrow> False"

fun resets :: "op \<Rightarrow> bool" where
  "resets (Start l) \<longleftrightarrow> reset l"
| "resets _ \<longleftrightarrow> False"

fun leaves_marker :: "op \<Rightarrow> bool" where
  "leaves_marker (Fetch now w stamp remote) \<longleftrightarrow> w \<noteq> Not_opened"
| "leaves_marker _ \<longleftrightarrow> False"

lemma marked_write [simp]:
  "exists (snd (write_private w c e)) \<or> is_symlink (snd (write_private w c e)) \<longleftrightarrow>
     exists e \<or> is_symlink e \<or> w \<noteq> Not_opened"
  by (cases e; cases w) (auto simp: write_private_def)

lemma claim_keeps:
  "consumed (snd (bootstrap_claim wt wm fresh stamp auth st)) = consumed st"
  "bootstrap_token (snd (bootstrap_claim wt wm fresh stamp auth st)) = bootstrap_token st"
  "claim_token (snd (bootstrap_claim wt wm fresh stamp auth st)) = claim_token st"
  "running (snd (bootstrap_claim wt wm fresh stamp auth st)) = running st"
  by (auto simp: bootstrap_claim_def rotate_def split: option.splits prod.splits bool.splits)

lemma claim_spends:
  "spent (snd (bootstrap_claim wt wm fresh stamp auth st)) = spent st"
  "marked (snd (bootstrap_claim wt wm fresh stamp auth st)) = marked st"
  by (simp_all add: spent_def marked_def claim_keeps)

lemma bootstrap_keeps_marked:
  "marked st \<Longrightarrow> marked (snd (bootstrap now w stamp remote st))"
  "spent st \<Longrightarrow> snd (bootstrap now w stamp remote st) = st"
  by (auto simp: bootstrap_def marked_def spent_def)

lemma start_unmarked: "marked st \<Longrightarrow> \<not> reset l \<Longrightarrow> marked (start l st)"
  by (auto simp: start_def reset_bootstrap_state_def marked_def fresh_process_def Let_def split: loaded.splits)

lemma start_spent: "explicit l \<noteq> [] \<Longrightarrow> spent (start l st)"
  by (simp add: start_def fresh_process_def spent_def Let_def)

lemma step_spent: "spent st \<Longrightarrow> \<not> opens_window op \<Longrightarrow> spent (snd (step op st))"
  by (cases op) (auto simp: claim_spends bootstrap_keeps_marked start_spent)

lemma step_marked: "marked st \<Longrightarrow> \<not> resets op \<Longrightarrow> marked (snd (step op st))"
  by (cases op) (auto simp: claim_spends bootstrap_keeps_marked start_unmarked)

lemma run_spent: "spent st \<Longrightarrow> \<forall>op \<in> set ops. \<not> opens_window op \<Longrightarrow> spent (run ops st)"
  by (induction ops arbitrary: st) (simp_all add: step_spent)

lemma run_marked: "marked st \<Longrightarrow> \<forall>op \<in> set ops. \<not> resets op \<Longrightarrow> marked (run ops st)"
  by (induction ops arbitrary: st) (simp_all add: step_marked)

lemma served_then:
  assumes "serves op st t"
  shows "spent (snd (step op st))" "leaves_marker op \<Longrightarrow> marked (snd (step op st))"
    "claim_token (snd (step op st)) = t" "t \<noteq> []" "running (snd (step op st))"
    "local_api_token (snd (step op st)) = local_api_token st" "claimed_token (snd (step op st)) = claimed_token st"
  using assms by (auto elim!: servesE simp: bootstrap_serves) (auto simp: bootstrap_def marked_def spent_def)

lemma served_once:
  assumes first: "serves op st t" and again: "serves op' (run ops (snd (step op st))) t'"
  shows "(\<exists>l. Start l \<in> set ops \<and> explicit l = []) \<and> (leaves_marker op \<longrightarrow> (\<exists>l. Start l \<in> set ops \<and> reset l))"
proof -
  have "\<not> spent (run ops (snd (step op st)))" "\<not> marked (run ops (snd (step op st)))"
    using again by (auto elim!: servesE simp: bootstrap_serves)
  then have "\<exists>op \<in> set ops. opens_window op" "leaves_marker op \<Longrightarrow> \<exists>op \<in> set ops. resets op"
    using run_spent run_marked served_then [OF first] by blast+
  then show ?thesis by (metis opens_window.elims(2) resets.elims(2))
qed

lemma explicit_never_served:
  assumes "explicit l \<noteq> []" "\<forall>op \<in> set ops. \<not> opens_window op"
  shows "\<not> serves op (run ops (start l st)) t"
  using run_spent [OF start_spent] assms by (auto elim!: servesE simp: bootstrap_serves)

text \<open>
  C31. The token is served at most once. Whoever gets it asks within 300 seconds of the start, in add-on mode from
  an address 172.30.32.0/23, while no marker stands; and for it to be served again, whatever happens in between,
  the process must have been started anew without a configured token, and with \<open>reset_bootstrap\<close> if the marker
  of the first time came to be.
\<close>

theorem bootstrap_serves_once:
  assumes "serves op st t"
  shows "(\<exists>now w stamp remote. op = Fetch now w stamp remote \<and> t = bootstrap_token st \<and> \<not> marked st \<and>
      now - startup_time st \<le> 300 \<and>
      (addon_mode st \<longrightarrow> (\<exists>c d. c \<in> {32, 33} \<and> d < 256 \<and>
         remote = Some (''172.30.'' @ nat_str c @ ''.'' @ nat_str d)))) \<and>
    (\<forall>ops op' t'. serves op' (run ops (snd (step op st))) t' \<longrightarrow>
      (\<exists>l. Start l \<in> set ops \<and> explicit l = []) \<and>
      (leaves_marker op \<longrightarrow> (\<exists>l. Start l \<in> set ops \<and> reset l)))"
  using assms served_once [OF assms]
  by (auto elim!: servesE simp: bootstrap_serves supervisor_network_exact bootstrap_window_seconds_def)

subsection \<open>What the announced token is worth\<close>

text \<open>While the process runs: the announced token, and the token it was exchanged for.\<close>

definition coherent :: "installation \<Rightarrow> bool" where
  "coherent st \<longleftrightarrow> claimed_token st = [] \<or> claimed_token st = local_api_token st \<and> marked st"

definition announced :: "string \<Rightarrow> installation \<Rightarrow> bool" where
  "announced t st \<longleftrightarrow> coherent st \<and> running st \<and> spent st \<and> claim_token st = t \<and> t \<noteq> [] \<and> claimed_token st \<noteq> t"

definition exchanged :: "string \<Rightarrow> installation \<Rightarrow> bool" where
  "exchanged t st \<longleftrightarrow> announced t st \<and> claimed_token st \<noteq> []"

text \<open>A step of this process whose generated token is not empty and not the announced one.\<close>

fun new_token :: "string \<Rightarrow> op \<Rightarrow> bool" where
  "new_token t (Claim wt wm fresh stamp auth) \<longleftrightarrow> fresh \<notin> {[], t}"
| "new_token t (Fetch now w stamp remote) \<longleftrightarrow> True"
| "new_token t (Start l) \<longleftrightarrow> False"

definition no_process :: "entry \<Rightarrow> entry \<Rightarrow> entry \<Rightarrow> installation" where
  "no_process c d f =
     \<lparr>consumed = c, claimed = d, token_file = f, running = False, addon_mode = False, local_api_token = [],
      bootstrap_token = [], claim_token = [], claimed_token = [], startup_time = 0\<rparr>"

lemma coherent_claim: "coherent st \<Longrightarrow> coherent (snd (bootstrap_claim wt wm fresh stamp auth st))"
  by (auto simp: coherent_def marked_def bootstrap_claim_def rotate_def split: option.splits prod.splits bool.splits)

lemma coherent_fetch: "coherent st \<Longrightarrow> coherent (snd (bootstrap now w stamp remote st))"
  by (auto simp: coherent_def bootstrap_def marked_def)

lemma coherent_start: "coherent (start l st)"
  by (auto simp: coherent_def start_def fresh_process_def Let_def split: loaded.splits)

lemma coherent_step: "coherent st \<Longrightarrow> coherent (snd (step op st))"
  by (cases op) (simp_all add: coherent_claim coherent_fetch coherent_start)

lemma coherent_run: "coherent st \<Longrightarrow> coherent (run ops st)"
  by (induction ops arbitrary: st) (simp_all add: coherent_step)

lemma claimed_token_claim:
  "claimed_token (snd (bootstrap_claim wt wm fresh stamp auth st)) \<in> {claimed_token st, fresh}"
  by (auto simp: bootstrap_claim_def rotate_def split: option.splits prod.splits bool.splits)

lemma announced_step:
  assumes "announced t st" "new_token t op"
  shows "announced t (snd (step op st))"
proof (cases op)
  case (Claim wt wm fresh stamp auth)
  then show ?thesis
    using assms coherent_step [of st op] claimed_token_claim [of wt wm fresh stamp auth st]
    by (auto simp: announced_def claim_keeps claim_spends)
qed (use assms coherent_step [of st op] in \<open>auto simp: announced_def bootstrap_keeps_marked\<close>)

lemma exchanged_step:
  assumes "exchanged t st" "new_token t op"
  shows "exchanged t (snd (step op st))"
proof (cases op)
  case (Claim wt wm fresh stamp auth)
  then show ?thesis
    using assms announced_step [of t st op] claimed_token_claim [of wt wm fresh stamp auth st]
    by (auto simp: exchanged_def announced_def)
qed (use assms announced_step [of t st op] in \<open>auto simp: exchanged_def announced_def bootstrap_keeps_marked\<close>)

lemma announced_run: "announced t st \<Longrightarrow> list_all (new_token t) ops \<Longrightarrow> announced t (run ops st)"
  by (induction ops arbitrary: st) (simp_all add: announced_step)

lemma exchanged_run: "exchanged t st \<Longrightarrow> list_all (new_token t) ops \<Longrightarrow> exchanged t (run ops st)"
  by (induction ops arbitrary: st) (simp_all add: exchanged_step)

lemma claim_exchanges:
  assumes "announced t st" "fresh \<noteq> []" "status (fst (bootstrap_claim wt wm fresh stamp (bearer t) st)) = 200"
  shows "claimed_token (snd (bootstrap_claim wt wm fresh stamp (bearer t) st)) \<noteq> []"
  using assms
  by (auto simp: announced_def bootstrap_claim_def rotate_def refused_def split: prod.splits bool.splits if_splits)

lemma served_announced:
  assumes "coherent st" "serves op st t"
  shows "announced t (snd (step op st))"
proof -
  have "\<not> marked st" using assms(2) by (auto elim!: servesE simp: bootstrap_serves)
  then have "claimed_token st = []" using assms(1) by (simp add: coherent_def)
  then show ?thesis
    using served_then [OF assms(2)] coherent_step [OF assms(1), of op] by (simp add: announced_def)
qed

text \<open>
  C18. What an announced token is worth. Once a claim with the token that \<open>/v1/bootstrap\<close> served succeeded, that
  token no longer passes the bearer check; but for as long as the process runs, a claim with it still answers
  the current token, without changing anything, and the current token passes the check. Generated tokens are
  taken to be new.
\<close>

theorem announced_token_buys_current:
  assumes st: "st = run before (no_process c d f)"
    and served: "serves op st t"
    and ops: "list_all (new_token t) (between @ [Claim wt wm fresh stamp (bearer t)] @ after)"
    and st1: "st1 = run between (snd (step op st))"
    and claim: "step (Claim wt wm fresh stamp (bearer t)) st1 = (Some (Json 200 r), st2)"
    and st3: "st3 = run after st2"
  shows "bearer_refusal (local_api_token st3) (bearer t) = Some (Json 403 (failed ''FORBIDDEN'')) \<and>
    step (Claim wt' wm' fresh' stamp' (bearer t)) st3 = (Some (Json 200 (token_reply (local_api_token st3))), st3) \<and>
    bearer_refusal (local_api_token st3) (bearer (local_api_token st3)) = None"
proof -
  let ?claim = "Claim wt wm fresh stamp (bearer t)"
  have "coherent st" unfolding st by (rule coherent_run) (simp add: coherent_def no_process_def)
  then have "announced t st1"
    using announced_run [OF served_announced [OF _ served]] ops unfolding st1 by simp
  moreover from this have "status (fst (bootstrap_claim wt wm fresh stamp (bearer t) st1)) = 200"
    "st2 = snd (bootstrap_claim wt wm fresh stamp (bearer t) st1)"
    using claim by (auto simp: announced_def map_prod_def split: prod.splits)
  ultimately have "exchanged t st2"
    using ops announced_step [of t st1 ?claim] claim claim_exchanges [of t st1] by (auto simp: exchanged_def)
  then have "exchanged t st3" using exchanged_run ops unfolding st3 by simp
  then show ?thesis
    by (auto simp: exchanged_def announced_def coherent_def bearer_refusal_def bootstrap_claim_def)
qed

text \<open>A rotated token is the token of the next process.\<close>

lemma strip_line: "list_all (\<lambda>c. \<not> py_space c) s \<Longrightarrow> strip (line s) = s"
proof -
  have newline: "py_space (CHR 0x0A)" by code_simp
  have front: "dropWhile py_space s = s" if "list_all (\<lambda>c. \<not> py_space c) s" for s
    using that by (cases s) auto
  assume s: "list_all (\<lambda>c. \<not> py_space c) s"
  then have "dropWhile py_space (rev s) = rev s" by (intro front) (simp add: list_all_iff)
  moreover have "dropWhile py_space (s @ [CHR 0x0A]) = (if s = [] then [] else s @ [CHR 0x0A])"
    using s newline by (cases s) auto
  ultimately show ?thesis using newline by (simp add: strip_def line_def)
qed

lemma rotate_stores:
  assumes "fst (rotate wt wm fresh stamp st) = Json 200 r"
  shows "token_file (snd (rotate wt wm fresh stamp st)) = Text_file (line fresh)"
  using assms
  by (auto simp: rotate_def refused_def write_private_def split: if_splits write_end.splits)

lemma start_loads:
  assumes "token_file st = Text_file (line token)" "list_all (\<lambda>c. \<not> py_space c) token" "token \<noteq> []"
    and "explicit l = []" "readable l"
  shows "local_api_token (start l st) = token"
proof -
  have "token_file (reset_bootstrap_state l st) = Text_file (line token)"
    using assms(1) by (simp add: reset_bootstrap_state_def)
  then show ?thesis
    using assms(2-) by (simp add: start_def load_or_generate_def strip_line fresh_process_def)
qed

lemma rotated_token_survives:
  assumes "fst (rotate wt wm fresh stamp st) = Json 200 r" "list_all (\<lambda>c. \<not> py_space c) fresh" "fresh \<noteq> []"
    and "explicit l = []" "readable l"
  shows "local_api_token (start l (snd (rotate wt wm fresh stamp st))) = fresh"
  using start_loads [OF rotate_stores] assms by blast

subsection \<open>Examples\<close>

definition plain_launch :: launch where
  "plain_launch = \<lparr>explicit = [], reset = False, in_addon = True, started_at = 0, frees_consumed = True,
     frees_claimed = True, readable = True, generated = ''T0'', generated_end = Written\<rparr>"

definition core_fetch :: "write_end \<Rightarrow> op" where
  "core_fetch w = Fetch 10 w ''now'' (Some ''172.30.32.1'')"

definition first_process :: installation where
  "first_process = start plain_launch (no_process Absent Absent Absent)"

lemma core_inside: "is_supervisor_network (Some ''172.30.32.1'')"
  by code_simp

lemma strip_T0: "strip (line ''T0'') = ''T0''"
  by code_simp

lemmas sample_defs = first_process_def plain_launch_def core_fetch_def no_process_def start_def reset_bootstrap_state_def
  load_or_generate_def generate_token_def write_private_def fresh_process_def bootstrap_def core_inside
  bootstrap_window_seconds_def

lemma core_fetch_serves: "serves (core_fetch w) first_process ''T0''"
  by (simp add: serves_def sample_defs Let_def)

theorem bootstrap_serves_once_witness:
  "serves (core_fetch Written) first_process ''T0'' \<and>
   \<not> serves (core_fetch Written)
     (run [Start plain_launch] (snd (step (core_fetch Written) first_process))) ''T0'' \<and>
   serves (core_fetch Written)
     (run [Start (plain_launch\<lparr>reset := True\<rparr>)] (snd (step (core_fetch Written) first_process))) ''T0''"
proof (intro conjI notI)
  have written: "leaves_marker (core_fetch Written)" by (simp add: core_fetch_def)
  assume "serves (core_fetch Written)
    (run [Start plain_launch] (snd (step (core_fetch Written) first_process))) ''T0''"
  then have "\<exists>l. Start l \<in> set [Start plain_launch] \<and> reset l"
    using bootstrap_serves_once [OF core_fetch_serves [of Written]] written by blast
  then show False by (simp add: plain_launch_def)
next
  show "serves (core_fetch Written)
     (run [Start (plain_launch\<lparr>reset := True\<rparr>)] (snd (step (core_fetch Written) first_process))) ''T0''"
    by (simp add: serves_def sample_defs Let_def reset_marker_def strip_T0)
qed (rule core_fetch_serves)

text \<open>A marker that could not be written does not stop the next process from serving the same token.\<close>

theorem unwritten_marker_serves_again:
  "serves (core_fetch Not_opened) first_process ''T0'' \<and>
   serves (core_fetch Not_opened) (run [Start plain_launch] (snd (step (core_fetch Not_opened) first_process))) ''T0''"
  by (simp add: core_fetch_serves) (simp add: serves_def sample_defs Let_def strip_T0)

theorem announced_token_buys_current_witness:
  "\<exists>st3. fst (step (Claim Written Written ''T2'' ''later'' (bearer ''T0'')) st3) = Some (Json 200 (token_reply ''T1'')) \<and>
     local_api_token st3 = ''T1'' \<and> bearer_refusal (local_api_token st3) (bearer ''T0'') \<noteq> None"
proof -
  let ?claim = "Claim Written Written ''T1'' ''now'' (bearer ''T0'')"
  let ?st1 = "snd (step (core_fetch Written) first_process)"
  have start: "first_process = run [Start plain_launch] (no_process Absent Absent Absent)"
    by (simp add: first_process_def)
  have claim: "step ?claim ?st1 = (Some (Json 200 (token_reply ''T1'')), snd (step ?claim ?st1))"
    and local: "local_api_token (snd (step ?claim ?st1)) = ''T1''"
    by (simp_all add: sample_defs Let_def bootstrap_claim_def rotate_def)
  let ?st3 = "snd (step ?claim ?st1)"
  have "list_all (new_token ''T0'') ([] @ [?claim] @ [])" by simp
  moreover have "?st1 = run [] ?st1" "?st3 = run [] ?st3" by simp_all
  ultimately have "bearer_refusal (local_api_token ?st3) (bearer ''T0'') = Some (Json 403 (failed ''FORBIDDEN'')) \<and>
      step (Claim Written Written ''T2'' ''later'' (bearer ''T0'')) ?st3 =
        (Some (Json 200 (token_reply (local_api_token ?st3))), ?st3) \<and>
      bearer_refusal (local_api_token ?st3) (bearer (local_api_token ?st3)) = None"
    using announced_token_buys_current [OF start core_fetch_serves _ _ claim] by blast
  with local show ?thesis by (intro exI [of _ ?st3]) (simp del: step.simps)
qed

end
