(* ===== verification/Single_Flight.thy ===== *)
theory Single_Flight
  imports Prelude
begin

text \<open>
  \<open>SingleFlight\<close> of \<open>vision.py\<close> as an interleaving of callers, tasks and the event loop. A caller and the task
  it starts have one number. Between two awaits the code runs without interruption, so a step is what happens
  from one await to the next.
\<close>

subsection \<open>State\<close>

text \<open>A task works, was asked to stop, or is done: with a result, an exception, or cancelled.\<close>

datatype 'r task_end = Value 'r | Failure string | Stopped

datatype 'r task = Working | Stopping | Done "'r task_end"

datatype 'r answer = Answer 'r | Exception string | Superseded | Cancelled_error

record 'r flights =
  inflight :: "string \<rightharpoonup> nat"
  superseded :: "nat set"
  tasks :: "nat \<rightharpoonup> 'r task"
  callers :: "nat \<rightharpoonup> string"
  gone :: "nat set"
  answers :: "nat \<rightharpoonup> 'r answer"

definition no_flights :: "'r flights" where
  "no_flights = \<lparr>inflight = Map.empty, superseded = {}, tasks = Map.empty, callers = Map.empty, gone = {},
     answers = Map.empty\<rparr>"

subsection \<open>The code of \<open>run\<close>\<close>

text \<open>Up to \<open>await task\<close>: the task is registered, an unfinished one of the source is marked and cancelled.\<close>

fun is_done :: "'r task \<Rightarrow> bool" where
  "is_done (Done _) = True"
| "is_done _ = False"

definition unfinished :: "'r flights \<Rightarrow> nat \<Rightarrow> bool" where
  "unfinished f t \<longleftrightarrow> (case tasks f t of Some k \<Rightarrow> \<not> is_done k | None \<Rightarrow> False)"

definition begin_run :: "string \<Rightarrow> nat \<Rightarrow> 'r flights \<Rightarrow> 'r flights" where
  "begin_run source t f =
     (let f1 = f\<lparr>inflight := (inflight f)(source \<mapsto> t), tasks := (tasks f)(t \<mapsto> Working),
                callers := (callers f)(t \<mapsto> source)\<rparr> in
      case inflight f source of
        None \<Rightarrow> f1
      | Some previous \<Rightarrow>
          if unfinished f previous
          then f1\<lparr>superseded := insert previous (superseded f1), tasks := (tasks f1)(previous \<mapsto> Stopping)\<rparr>
          else f1)"

text \<open>From \<open>await task\<close> on. A caller that was cancelled itself sees \<open>CancelledError\<close> whatever its task gave.\<close>

definition answer_of :: "nat \<Rightarrow> 'r task_end \<Rightarrow> 'r flights \<Rightarrow> 'r answer" where
  "answer_of t e f =
     (if e = Stopped \<or> t \<in> gone f then (if t \<in> superseded f then Superseded else Cancelled_error)
      else case e of Value r \<Rightarrow> Answer r | Failure x \<Rightarrow> Exception x | Stopped \<Rightarrow> Cancelled_error)"

definition end_run :: "string \<Rightarrow> nat \<Rightarrow> 'r task_end \<Rightarrow> 'r flights \<Rightarrow> 'r flights" where
  "end_run source t e f =
     f\<lparr>answers := (answers f)(t \<mapsto> answer_of t e f), superseded := superseded f - {t},
       inflight := (if inflight f source = Some t then (inflight f)(source := None) else inflight f),
       callers := (callers f)(t := None)\<rparr>"

subsection \<open>Interleavings\<close>

text \<open>
  A task that was asked to stop ends as cancelled: the work only awaits the gateway's reply and does not catch
  the cancellation. A cancelled caller cancels the task it awaits.
\<close>

inductive flies :: "'r flights \<Rightarrow> 'r flights \<Rightarrow> bool" where
  begins: "source \<noteq> [] \<Longrightarrow> tasks f t = None \<Longrightarrow> flies f (begin_run source t f)"
| work_ends: "tasks f t = Some Working \<Longrightarrow> e \<noteq> Stopped \<Longrightarrow> flies f (f\<lparr>tasks := (tasks f)(t \<mapsto> Done e)\<rparr>)"
| work_stops: "tasks f t = Some Stopping \<Longrightarrow> flies f (f\<lparr>tasks := (tasks f)(t \<mapsto> Done Stopped)\<rparr>)"
| caller_leaves: "callers f t = Some source \<Longrightarrow> flies f (f\<lparr>gone := insert t (gone f),
    tasks := (if unfinished f t then (tasks f)(t \<mapsto> Stopping) else tasks f)\<rparr>)"
| caller_ends: "callers f t = Some source \<Longrightarrow> tasks f t = Some (Done e) \<Longrightarrow> flies f (end_run source t e f)"

inductive_cases fliesE: "flies f g"

definition reachable :: "'r flights \<Rightarrow> bool" where
  "reachable f \<longleftrightarrow> flies\<^sup>*\<^sup>* no_flights f"

subsection \<open>Invariants\<close>

text \<open>What holds of a number: unused, a finished caller, or a waiting one.\<close>

definition waits :: "'r flights \<Rightarrow> string \<Rightarrow> nat \<Rightarrow> bool" where
  "waits f s t \<longleftrightarrow> answers f t = None \<and>
     (case tasks f t of
        None \<Rightarrow> False
      | Some Working \<Rightarrow> inflight f s = Some t \<and> t \<notin> superseded f \<and> t \<notin> gone f
      | Some Stopping \<Rightarrow> t \<in> superseded f \<or> t \<in> gone f
      | Some (Done e) \<Rightarrow> (if e = Stopped then t \<in> superseded f \<or> t \<in> gone f else t \<notin> superseded f))"

definition number_ok :: "'r flights \<Rightarrow> nat \<Rightarrow> bool" where
  "number_ok f t \<longleftrightarrow>
     (case callers f t of
        Some s \<Rightarrow> waits f s t
      | None \<Rightarrow> t \<notin> superseded f \<and> (tasks f t = None \<longrightarrow> answers f t = None \<and> t \<notin> gone f))"

definition flights_ok :: "'r flights \<Rightarrow> bool" where
  "flights_ok f \<longleftrightarrow> (\<forall>s t. inflight f s = Some t \<longrightarrow> callers f t = Some s) \<and> (\<forall>t. number_ok f t)"

lemma flights_ok_start: "flights_ok no_flights"
  by (simp add: flights_ok_def no_flights_def number_ok_def)

lemma unused:
  assumes "flights_ok f" "tasks f t = None"
  shows "callers f t = None" "answers f t = None" "t \<notin> gone f" "t \<notin> superseded f" "inflight f s \<noteq> Some t"
proof -
  have "number_ok f t" using assms(1) by (simp add: flights_ok_def)
  then show free: "callers f t = None" "answers f t = None" "t \<notin> gone f" "t \<notin> superseded f"
    using assms(2) by (auto simp: number_ok_def waits_def split: option.splits)
  show "inflight f s \<noteq> Some t" using assms(1) free(1) by (auto simp: flights_ok_def)
qed

lemma begin_ok:
  assumes ok: "flights_ok f" and new: "tasks f t = None"
  shows "flights_ok (begin_run source t f)"
proof -
  note free = unused [OF ok new]
  have fly: "inflight f s = Some u \<Longrightarrow> callers f u = Some s" and num: "number_ok f u" for s u
    using ok by (auto simp: flights_ok_def)
  let ?g = "begin_run source t f"
  have callers: "callers ?g = (callers f)(t \<mapsto> source)" and inflight: "inflight ?g = (inflight f)(source \<mapsto> t)"
    and same: "answers ?g = answers f" "gone ?g = gone f"
    by (auto simp: begin_run_def Let_def split: option.splits)
  have "number_ok ?g u" for u
  proof (cases "u = t")
    case True
    then show ?thesis
      using free by (auto simp: number_ok_def waits_def begin_run_def Let_def split: option.splits)
  next
    case other: False
    show ?thesis
    proof (cases "inflight f source = Some u \<and> unfinished f u")
      case True
      then have "tasks ?g u = Some Stopping" "u \<in> superseded ?g" "callers ?g u = Some source"
        using other fly by (auto simp: begin_run_def Let_def)
      moreover have "answers ?g u = None"
        using num [of u] fly True same by (auto simp: number_ok_def waits_def)
      ultimately show ?thesis by (simp add: number_ok_def waits_def)
    next
      case False
      then have "tasks ?g u = tasks f u" "u \<in> superseded ?g \<longleftrightarrow> u \<in> superseded f"
        using other by (auto simp: begin_run_def Let_def split: option.splits)
      then show ?thesis
        using num [of u] other False fly [of source u] callers inflight same
        by (auto simp: number_ok_def waits_def unfinished_def split: option.splits task.splits)
    qed
  qed
  moreover have "inflight ?g s = Some u \<longrightarrow> callers ?g u = Some s" for s u
    using fly free(5) unfolding callers inflight by auto
  ultimately show ?thesis by (simp add: flights_ok_def)
qed

lemma update_ok:
  assumes ok: "flights_ok f"
    and same: "inflight g = inflight f" "callers g = callers f" "answers g = answers f" "superseded g = superseded f"
    and at: "\<And>u. number_ok f u \<Longrightarrow> number_ok g u"
  shows "flights_ok g"
  using assms by (auto simp: flights_ok_def)

lemma end_ok:
  assumes ok: "flights_ok f" and t: "callers f t = Some source" "tasks f t = Some (Done e)"
  shows "flights_ok (end_run source t e f)"
proof -
  have fly: "inflight f s = Some u \<Longrightarrow> callers f u = Some s" and num: "number_ok f u" for s u
    using ok by (auto simp: flights_ok_def)
  have "number_ok (end_run source t e f) u" for u
  proof (cases "u = t")
    case True
    then show ?thesis using t by (simp add: number_ok_def end_run_def)
  next
    case False
    then show ?thesis
      using num [of u] by (auto simp: number_ok_def waits_def end_run_def split: option.splits task.splits)
  qed
  moreover have "inflight (end_run source t e f) s = Some u \<longrightarrow> callers (end_run source t e f) u = Some s" for s u
    using fly t(1) by (auto simp: end_run_def)
  ultimately show ?thesis by (simp add: flights_ok_def)
qed

lemma flights_ok_step:
  assumes ok: "flights_ok f" and step: "flies f g"
  shows "flights_ok g"
  using step
proof cases
  case (begins source t)
  then show ?thesis using begin_ok ok by blast
next
  case (work_ends t e)
  show ?thesis unfolding work_ends(1)
    by (rule update_ok [OF ok]) (use work_ends(2,3) in \<open>auto simp: number_ok_def waits_def split: option.splits task.splits\<close>)
next
  case (work_stops t)
  show ?thesis unfolding work_stops(1)
    by (rule update_ok [OF ok]) (use work_stops(2) in \<open>auto simp: number_ok_def waits_def split: option.splits task.splits\<close>)
next
  case (caller_leaves t source)
  show ?thesis unfolding caller_leaves(1)
    by (rule update_ok [OF ok])
      (use caller_leaves(2) in \<open>auto simp: number_ok_def waits_def unfinished_def split: option.splits task.splits\<close>)
next
  case (caller_ends t source e)
  then show ?thesis using end_ok ok by blast
qed

lemma reachable_ok: "reachable f \<Longrightarrow> flights_ok f"
  unfolding reachable_def
  by (induction rule: rtranclp_induct) (auto intro: flights_ok_start flights_ok_step)

lemma one_working:
  assumes "flights_ok f" "callers f t = Some s" "tasks f t = Some Working"
  shows "inflight f s = Some t"
proof -
  have "number_ok f t" using assms(1) by (simp add: flights_ok_def)
  then show ?thesis using assms(2,3) by (simp add: number_ok_def waits_def)
qed

lemma nothing_left:
  assumes "flights_ok f" "callers f = Map.empty"
  shows "inflight f = Map.empty" "superseded f = {}"
proof -
  have "inflight f s = None" for s using assms by (cases "inflight f s") (auto simp: flights_ok_def)
  then show "inflight f = Map.empty" by (rule ext)
  have "number_ok f t" for t using assms(1) by (simp add: flights_ok_def)
  then show "superseded f = {}" using assms(2) by (auto simp: number_ok_def)
qed

text \<open>Once replaced, a caller waits for its cancelled task and then gets \<open>SUPERSEDED\<close>, in two steps at most.\<close>

definition replaced :: "nat \<Rightarrow> 'r flights \<Rightarrow> bool" where
  "replaced t f \<longleftrightarrow> flights_ok f \<and> t \<in> superseded f \<or> answers f t = Some Superseded \<and> tasks f t \<noteq> None \<and> callers f t = None"

lemma replaced_waits:
  assumes "flights_ok f" "t \<in> superseded f"
  obtains s where "callers f t = Some s" "tasks f t = Some Stopping \<or> tasks f t = Some (Done Stopped)"
proof -
  have "number_ok f t" using assms(1) by (simp add: flights_ok_def)
  then show thesis
    using assms(2) that by (auto simp: number_ok_def waits_def split: option.splits task.splits if_splits)
qed

lemma superseded_end:
  assumes "flights_ok f" "t \<in> superseded f" "tasks f t = Some (Done e)"
  shows "replaced t (end_run s t e f)"
proof -
  have "e = Stopped" using replaced_waits [OF assms(1,2)] assms(3) by (metis option.inject task.distinct(5) task.inject)
  then show ?thesis using assms by (simp add: replaced_def end_run_def answer_of_def)
qed

lemma begin_keeps:
  "superseded f \<subseteq> superseded (begin_run s u f)" "answers (begin_run s u f) = answers f"
  "t \<noteq> u \<Longrightarrow> callers (begin_run s u f) t = callers f t" "tasks f t \<noteq> None \<Longrightarrow> tasks (begin_run s u f) t \<noteq> None"
  by (auto simp: begin_run_def Let_def split: option.splits)

lemma replaced_step:
  assumes t: "replaced t f" and ok: "flights_ok f" and step: "flies f g"
  shows "replaced t g"
proof (cases "t \<in> superseded f")
  case True
  from step have "t \<in> superseded g \<or> replaced t g"
  proof cases
    case (begins source u)
    then show ?thesis using True begin_keeps(1) by blast
  next
    case (caller_ends u source e)
    then show ?thesis
      using superseded_end [OF ok True] True by (cases "u = t") (auto simp: end_run_def [of source u e f])
  qed (use True in simp_all)
  then show ?thesis using flights_ok_step [OF ok step] by (auto simp: replaced_def)
next
  case False
  then have over: "answers f t = Some Superseded" "tasks f t \<noteq> None" "callers f t = None"
    using t by (auto simp: replaced_def)
  from step have "answers g t = Some Superseded \<and> tasks g t \<noteq> None \<and> callers g t = None"
  proof cases
    case (begins source u)
    then have "t \<noteq> u" using over(2) by auto
    then show ?thesis unfolding begins(1) using over begin_keeps by metis
  qed (use over in \<open>auto simp: end_run_def\<close>)
  then show ?thesis by (simp add: replaced_def)
qed

lemma replaced_stays: "flies\<^sup>*\<^sup>* f g \<Longrightarrow> flights_ok f \<Longrightarrow> replaced t f \<Longrightarrow> replaced t g"
proof (induction rule: rtranclp_induct)
  case (step g h)
  moreover have "flights_ok g" using step.hyps(1) step.prems(1) by (induction rule: rtranclp_induct) (auto intro: flights_ok_step)
  ultimately show ?case using replaced_step by blast
qed

lemma superseded_answered:
  assumes "flights_ok f" "t \<in> superseded f"
  shows "\<exists>g. flies\<^sup>*\<^sup>* f g \<and> answers g t = Some Superseded"
proof -
  obtain s where s: "callers f t = Some s" and t: "tasks f t = Some Stopping \<or> tasks f t = Some (Done Stopped)"
    using replaced_waits [OF assms] .
  let ?f = "f\<lparr>tasks := (tasks f)(t \<mapsto> Done Stopped)\<rparr>"
  have "flies\<^sup>*\<^sup>* f ?f"
  proof (cases "tasks f t = Some Stopping")
    case True
    then show ?thesis by (auto intro: flies.work_stops)
  next
    case False
    with t have "?f = f" by (simp add: map_upd_triv)
    then show ?thesis by simp
  qed
  moreover have "flies ?f (end_run s t Stopped ?f)" by (rule flies.caller_ends) (use s in simp_all)
  moreover have "answers (end_run s t Stopped ?f) t = Some Superseded"
    using assms(2) by (simp add: end_run_def answer_of_def)
  ultimately show ?thesis by (meson rtranclp.rtrancl_into_rtrancl)
qed


text \<open>Two requests for a source: the first is replaced while it works.\<close>

definition two_requests :: "nat flights" where
  "two_requests = begin_run ''door'' 1 (begin_run ''door'' 0 no_flights)"

lemma two_requests_reachable: "reachable two_requests"
proof -
  have "flies no_flights (begin_run ''door'' 0 (no_flights :: nat flights))"
    by (rule flies.begins) (simp_all add: no_flights_def)
  moreover have "flies (begin_run ''door'' 0 no_flights) two_requests"
    unfolding two_requests_def by (rule flies.begins) (simp_all add: no_flights_def begin_run_def)
  ultimately show ?thesis unfolding reachable_def by (meson r_into_rtranclp rtranclp.rtrancl_into_rtrancl)
qed


end
