(* ===== verification/Node_Config.thy ===== *)
theory Node_Config
  imports Vision Authz
begin

text \<open>
  \<open>config.py\<close>: the node's configuration from the environment. The environment maps names to texts; what
  \<open>json.loads\<close>, \<open>float\<close> and the probe of \<open>/data\<close> give are arguments. A \<open>RecursionError\<close> of deeply nested
  JSON, which would stop the start, is left out.
\<close>

subsection \<open>The environment\<close>

text \<open>
  \<open>float(text)\<close> is absent on a \<open>ValueError\<close>; a JSON text is absent when it does not decode.
\<close>

record sys_env =
  variables :: "string \<rightharpoonup> string"
  data_is_writable :: bool
  home_data_dir :: place
  read_float :: "string \<Rightarrow> pyfloat option"
  read_json :: "string \<Rightarrow> jval option"
  read_json_bytes :: "nat list \<Rightarrow> jval option"

definition env_or :: "sys_env \<Rightarrow> string \<Rightarrow> string \<Rightarrow> string" where
  "env_or e name other = (case variables e name of None \<Rightarrow> other | Some v \<Rightarrow> v)"

definition addon_environment :: "sys_env \<Rightarrow> bool" where
  "addon_environment e \<longleftrightarrow> env_or e ''SUPERVISOR_TOKEN'' [] \<noteq> [] \<or> data_is_writable e"

subsection \<open>The pairing token\<close>

text \<open>\<open>base64.urlsafe_b64decode\<close> of the text padded to a multiple of four.\<close>

definition url_alphabet :: "char \<Rightarrow> char" where
  "url_alphabet c = (if c = CHR ''-'' then CHR ''+'' else if c = CHR ''_'' then CHR ''/'' else c)"

definition pad_base64 :: "string \<Rightarrow> string" where
  "pad_base64 s = s @ replicate ((4 - length s mod 4) mod 4) (CHR ''='')"

definition normalize_pairing_token :: "(nat list \<Rightarrow> jval option) \<Rightarrow> string \<Rightarrow> string" where
  "normalize_pairing_token loads raw =
     (let value = strip raw in
      if value = [] then value
      else case b64decode (map url_alphabet (pad_base64 value)) of
        Inl _ \<Rightarrow> value
      | Inr decoded \<Rightarrow>
          (case loads decoded of
             Some (JObj envelope) \<Rightarrow>
               (case dget envelope ''bootstrapToken'' of
                  JStr token \<Rightarrow> if token \<noteq> [] then token else value
                | _ \<Rightarrow> value)
           | _ \<Rightarrow> value))"

subsection \<open>Options that are numbers or words\<close>

definition default_vision_timeout :: rat where "default_vision_timeout = 45"
definition min_vision_timeout :: rat where "min_vision_timeout = 10"
definition max_vision_timeout :: rat where "max_vision_timeout = 120"

definition ratio :: "int \<times> int \<Rightarrow> rat" where
  "ratio q = of_int (fst q) / of_int (snd q)"

definition parse_vision_timeout :: "(string \<Rightarrow> pyfloat option) \<Rightarrow> string \<Rightarrow> rat" where
  "parse_vision_timeout float_of text =
     (let raw = strip text in
      if raw = [] then default_vision_timeout
      else case float_of raw of
        Some (FFin _ q) \<Rightarrow> max min_vision_timeout (min max_vision_timeout (ratio q))
      | _ \<Rightarrow> default_vision_timeout)"

datatype reset_mode = Keep | Wipe_token | Wipe_identity

definition parse_reset_pairing :: "string \<Rightarrow> reset_mode" where
  "parse_reset_pairing text =
     (let raw = casefold (strip text) in
      if raw \<in> set [''1'', ''true'', ''yes'', ''on'', ''y'', ''token''] then Wipe_token
      else if raw \<in> set [''identity'', ''full''] then Wipe_identity
      else Keep)"

definition parse_flag :: "string \<Rightarrow> bool" where
  "parse_flag text \<longleftrightarrow> lower (strip text) \<in> set [''1'', ''true'', ''yes'', ''on'', ''y'']"

subsection \<open>The identity options\<close>

definition parse_json :: "(string \<Rightarrow> jval option) \<Rightarrow> string \<Rightarrow> jval" where
  "parse_json loads text =
     (let raw = strip text in
      if raw = [] then JNull else case loads raw of None \<Rightarrow> JNull | Some v \<Rightarrow> v)"

definition nonempty :: "string list \<Rightarrow> string list" where
  "nonempty = filter (\<lambda>s. s \<noteq> [])"

definition parse_string_list :: "(string \<Rightarrow> jval option) \<Rightarrow> string list \<Rightarrow> string \<Rightarrow> string list" where
  "parse_string_list loads other text =
     (let values =
        (case parse_json loads text of
           JList items \<Rightarrow> map (\<lambda>v. strip (py_str v)) items
         | JNull \<Rightarrow> (let raw = strip text in if raw = [] then [] else map strip (split_on (CHR '','') raw))
         | _ \<Rightarrow> []);
        cleaned = nonempty values
      in if cleaned = [] then other else cleaned)"

text \<open>A later entry of the object with the same stripped key wins, in the place of the first.\<close>

definition parse_string_map :: "(string \<Rightarrow> jval option) \<Rightarrow> string \<Rightarrow> (string \<times> string) list" where
  "parse_string_map loads text =
     (case parse_json loads text of
        JObj entries \<Rightarrow>
          fold (\<lambda>(k, v) m. case v of
              JStr s \<Rightarrow> if strip k \<noteq> [] \<and> strip s \<noteq> [] then AList.update (strip k) (strip s) m else m
            | _ \<Rightarrow> m) entries []
      | _ \<Rightarrow> [])"

fun role_of_name :: "string \<Rightarrow> role option" where
  "role_of_name name =
     (if name = ''user'' then Some User else if name = ''admin'' then Some Admin
      else if name = ''super_admin'' then Some Super_admin else None)"

definition patch_entries :: "jval list \<Rightarrow> string list" where
  "patch_entries items = nonempty (map (\<lambda>v. strip (py_str v)) items)"

definition parse_patch :: "string \<times> jval \<Rightarrow> (role \<times> forbidden_patch) option" where
  "parse_patch entry =
     (case (role_of_name (fst entry), snd entry) of
        (Some r, JObj patch) \<Rightarrow>
          (case (dget_or patch ''add'' (JList []), dget_or patch ''remove'' (JList [])) of
             (JList added, JList removed) \<Rightarrow>
               Some (r, \<lparr>patch_add = patch_entries added, patch_remove = patch_entries removed\<rparr>)
           | _ \<Rightarrow> None)
      | _ \<Rightarrow> None)"

definition parse_forbidden_patches :: "(string \<Rightarrow> jval option) \<Rightarrow> string \<Rightarrow> (role \<times> forbidden_patch) list" where
  "parse_forbidden_patches loads text =
     (case parse_json loads text of
        JObj entries \<Rightarrow> concat (map (\<lambda>entry. case parse_patch entry of None \<Rightarrow> [] | Some p \<Rightarrow> [p]) entries)
      | _ \<Rightarrow> [])"

definition parse_identity :: "sys_env \<Rightarrow> identity_config" where
  "parse_identity e =
     \<lparr>super_admins = parse_string_list (read_json e) [] (env_or e ''OPENCLAW_IDENTITY_SUPER_ADMINS'' []),
      user_agent_map = parse_string_map (read_json e) (env_or e ''OPENCLAW_IDENTITY_USER_AGENT_MAP'' []),
      default_agent_id = strip (env_or e ''OPENCLAW_IDENTITY_DEFAULT_AGENT_ID'' []),
      user_role_agent_id = strip (env_or e ''OPENCLAW_IDENTITY_USER_ROLE_AGENT_ID'' []),
      admin_role_agent_id = strip (env_or e ''OPENCLAW_IDENTITY_ADMIN_ROLE_AGENT_ID'' []),
      forbidden_commands = parse_forbidden_patches (read_json e) (env_or e ''OPENCLAW_IDENTITY_FORBIDDEN_COMMANDS'' []),
      addon_lifecycle_denylist = parse_string_list (read_json e) [''homeassistant'', ''supervisor'']
        (env_or e ''OPENCLAW_ADDON_LIFECYCLE_DENYLIST'' [])\<rparr>"

subsection \<open>The configuration\<close>

record node_config =
  nc_addon_mode :: bool
  nc_gateway_url :: string
  nc_pairing_token :: string
  nc_node_name :: string
  nc_hass_url :: string
  nc_hass_token :: string
  nc_supervisor_token :: string
  nc_data_dir :: place
  nc_local_api_token :: string
  nc_identity :: identity_config
  nc_reset_pairing :: reset_mode
  nc_reset_bootstrap :: bool
  nc_vision_timeout :: rat
  nc_vision_model :: string

definition load_config :: "sys_env \<Rightarrow> node_config" where
  "load_config e =
     (let addon = addon_environment e in
      \<lparr>nc_addon_mode = addon,
       nc_gateway_url = env_or e ''GATEWAY_URL'' ''wss://gateway.example.com/ws'',
       nc_pairing_token = normalize_pairing_token (read_json_bytes e) (env_or e ''PAIRING_TOKEN'' []),
       nc_node_name = env_or e ''NODE_NAME'' [],
       nc_hass_url = (if addon then env_or e ''HASS_URL'' ''http://homeassistant'' else env_or e ''HASS_URL'' []),
       nc_hass_token = (if addon then [] else env_or e ''HASS_TOKEN'' []),
       nc_supervisor_token = (if addon then env_or e ''SUPERVISOR_TOKEN'' [] else []),
       nc_data_dir = (if addon then [''data'', ''openclaw''] else home_data_dir e),
       nc_local_api_token = env_or e ''OPENCLAW_LOCAL_API_TOKEN'' [],
       nc_identity = parse_identity e,
       nc_reset_pairing = parse_reset_pairing (env_or e ''OPENCLAW_RESET_PAIRING'' []),
       nc_reset_bootstrap = parse_flag (env_or e ''OPENCLAW_RESET_BOOTSTRAP'' []),
       nc_vision_timeout = parse_vision_timeout (read_float e) (env_or e ''OPENCLAW_VISION_TIMEOUT_SECONDS'' []),
       nc_vision_model = strip (env_or e ''OPENCLAW_VISION_MODEL'' [])\<rparr>)"

text \<open>The notice about the removed option: whether it is logged.\<close>

definition warn_ignored_legacy_allowlist :: "jval option \<Rightarrow> bool" where
  "warn_ignored_legacy_allowlist options =
     (case options of
        Some (JObj d) \<Rightarrow>
          (case dget d ''addon_lifecycle'' of JObj lifecycle \<Rightarrow> truthy (dget lifecycle ''allowlist'') | _ \<Rightarrow> False)
      | _ \<Rightarrow> False)"

text \<open>The roots of the file commands, at the working directory the process has.\<close>

definition allowed_roots_for_env :: "tree \<Rightarrow> place \<Rightarrow> sys_env \<Rightarrow> place list" where
  "allowed_roots_for_env fs cwd e =
     allowed_roots fs cwd (addon_environment e) (env_or e ''OPENCLAW_ALLOWED_ROOTS'' [])"

subsection \<open>What the configuration guarantees\<close>

theorem vision_budget:
  assumes "\<bar>of_int millis - (nc_vision_timeout (load_config e) - 5) * 1000\<bar> \<le> 1"
  shows "10 \<le> nc_vision_timeout (load_config e) \<and> nc_vision_timeout (load_config e) \<le> 120 \<and>
    1000 \<le> plugin_timeout_ms millis \<and>
    of_int (plugin_timeout_ms millis) < nc_vision_timeout (load_config e) * 1000 - 4000"
proof -
  have "10 \<le> parse_vision_timeout f s \<and> parse_vision_timeout f s \<le> 120" for f s
    by (auto simp: parse_vision_timeout_def default_vision_timeout_def min_vision_timeout_def max_vision_timeout_def
        Let_def split: option.splits pyfloat.splits)
  then have range: "10 \<le> nc_vision_timeout (load_config e)" "nc_vision_timeout (load_config e) \<le> 120"
    by (simp_all add: load_config_def Let_def)
  with plugin_budget_shorter [OF range assms] show ?thesis by simp
qed

text \<open>A setup code, as the command line prints it: base64 in the URL alphabet without padding.\<close>

definition to_url :: "char \<Rightarrow> char" where
  "to_url c = (if c = CHR ''+'' then CHR ''-'' else if c = CHR ''/'' then CHR ''_'' else c)"

definition setup_code :: "nat list \<Rightarrow> string" where
  "setup_code bs = map to_url (rstrip_equals (b64encode bs))"

lemma url_sextet:
  assumes "n < 64"
  shows "url_alphabet (to_url (base64_char n)) = base64_char n \<and> \<not> py_space (to_url (base64_char n))"
proof -
  have "list_all (\<lambda>n. url_alphabet (to_url (base64_char n)) = base64_char n \<and> \<not> py_space (to_url (base64_char n))) [0..<64]"
    by code_simp
  with assms show ?thesis by (simp add: list_all_iff)
qed

lemma b64_sextets:
  "list_all (\<lambda>b. b < 256) bs \<Longrightarrow> set (b64encode bs) \<subseteq> insert (CHR ''='') (base64_char ` {..<64})"
  by (induction bs rule: b64encode.induct) (auto simp: sextets)

lemma pad_count:
  assumes "n + k = 4 * m" "k \<le> (2 :: nat)"
  shows "(4 - n mod 4) mod 4 = k"
proof (cases "k = 0")
  case False
  then obtain j where j: "m = Suc j" using assms(1) by (cases m) auto
  have "k = 1 \<or> k = 2" using False assms(2) by linarith
  then have "n = 4 * j + 3 \<and> k = 1 \<or> n = 4 * j + 2 \<and> k = 2" using assms(1) j by auto
  moreover have "(4 * j + 3) mod 4 = 3" "(4 * j + 2) mod 4 = 2" by (simp_all only: mod_mult_self4) simp_all
  ultimately show ?thesis by (elim disjE conjE) simp_all
qed (use assms in auto)

theorem setup_code_yields_token:
  assumes "list_all (\<lambda>b. b < 256) bs" "bs \<noteq> []"
    and "loads bs = Some (JObj envelope)" "dget envelope ''bootstrapToken'' = JStr token" "token \<noteq> []"
  shows "normalize_pairing_token loads (setup_code bs) = token"
proof -
  obtain s k where s: "b64encode bs = s @ replicate k (CHR ''='')" "CHR ''='' \<notin> set s" "k \<le> 2"
    and len: "length s + k = 4 * ((length bs + 2) div 3)" "length bs + k = 3 * ((length bs + 2) div 3)"
    using b64_shape [OF assms(1)] by blast
  have code: "setup_code bs = map to_url s" using s(1,2) by (simp add: setup_code_def rstrip_padding)
  have chars: "url_alphabet (to_url c) = c \<and> \<not> py_space (to_url c)" if "c \<in> set s" for c
  proof -
    have "c \<in> set (b64encode bs)" "c \<noteq> CHR ''=''" using that s(1,2) by auto
    then obtain n where "n < 64" "c = base64_char n" using b64_sextets [OF assms(1)] by auto
    then show ?thesis using url_sextet by simp
  qed
  have "s \<noteq> []" using len assms(2) s(3) by (cases bs) auto
  then have "strip (map to_url s) = map to_url s" using chars by (intro strip_fixed) (auto simp: hd_map last_map)
  moreover have "(4 - length s mod 4) mod 4 = k" using pad_count [OF len(1) s(3)] .
  then have "map url_alphabet (pad_base64 (map to_url s)) = s @ replicate k (CHR ''='')"
    using chars by (simp add: pad_base64_def map_idI url_alphabet_def)
  ultimately show ?thesis
    using assms \<open>s \<noteq> []\<close> b64_round_trip [OF assms(1)] s(1)
    by (simp add: normalize_pairing_token_def code Let_def)
qed

text \<open>Malformed JSON is not ignored where a list is expected: it is split at its commas.\<close>

theorem malformed_list_used:
  "parse_string_list (\<lambda>_. None) [''homeassistant'', ''supervisor''] ''[\"mqtt\", \"hue\"'' = [''[\"mqtt\"'', ''\"hue\"'']"
  by code_simp

end
