(* ===== verification/Startup.thy ===== *)
theory Startup
  imports Node_Config Bootstrap
begin

text \<open>
  What \<open>__main__.py\<close> does before the connections open: the reset of the pairing files, the migration of the old
  device token, the token each connection starts with, and the user names of Home Assistant in the identity
  options. Files are places of a tree; which removals and writes the system refuses, and how bytes read as
  text, are arguments.
\<close>

subsection \<open>Files of the data directory\<close>

text \<open>
  A path of the data directory \<open>dd\<close>: where it lies, what \<open>lstat\<close> and \<open>exists\<close> say. A path is resolved
  through every symlink; a symlink cycle leads to a link, which does not exist.
\<close>

definition at_path :: "tree \<Rightarrow> place \<Rightarrow> string \<Rightarrow> place" where
  "at_path fs dd name = realpath fs dd @ [name]"

definition link_at :: "tree \<Rightarrow> place \<Rightarrow> string \<Rightarrow> bool" where
  "link_at fs dd name \<longleftrightarrow> (case map_of fs (at_path fs dd name) of Some n \<Rightarrow> is_link n | None \<Rightarrow> False)"

definition target_of :: "tree \<Rightarrow> place \<Rightarrow> string \<Rightarrow> place" where
  "target_of fs dd name = realpath fs (dd @ [name])"

definition exists_at :: "tree \<Rightarrow> place \<Rightarrow> string \<Rightarrow> bool" where
  "exists_at fs dd name \<longleftrightarrow>
     (case map_of fs (target_of fs dd name) of Some n \<Rightarrow> \<not> is_link n | None \<Rightarrow> False)"

text \<open>The text of a file: absent on an \<open>OSError\<close>; bytes that are no text raise what nobody catches.\<close>

datatype text_read = Text string | Unreadable | Undecodable

record system =
  may_remove :: "place \<Rightarrow> bool"
  may_write :: "place \<Rightarrow> bool"
  may_read :: "place \<Rightarrow> bool"
  decode_bytes :: "nat list \<Rightarrow> string option"

definition read_text :: "system \<Rightarrow> tree \<Rightarrow> place \<Rightarrow> string \<Rightarrow> text_read" where
  "read_text sys fs dd name =
     (let p = target_of fs dd name in
      case map_of fs p of
        Some (File bytes) \<Rightarrow>
          if \<not> may_read sys p then Unreadable
          else (case decode_bytes sys bytes of Some s \<Rightarrow> Text s | None \<Rightarrow> Undecodable)
      | _ \<Rightarrow> Unreadable)"

text \<open>\<open>Path.unlink\<close> and \<open>Path.write_text\<close>; the latter follows symlinks.\<close>

definition unlink_at :: "system \<Rightarrow> place \<Rightarrow> string \<Rightarrow> tree \<Rightarrow> bool \<times> tree" where
  "unlink_at sys dd name fs =
     (let p = at_path fs dd name in
      case map_of fs p of
        Some (File _) \<Rightarrow> if may_remove sys p then (True, AList.delete p fs) else (False, fs)
      | Some (Link _) \<Rightarrow> if may_remove sys p then (True, AList.delete p fs) else (False, fs)
      | _ \<Rightarrow> (False, fs))"

definition write_text :: "system \<Rightarrow> place \<Rightarrow> string \<Rightarrow> string \<Rightarrow> tree \<Rightarrow> bool \<times> tree" where
  "write_text sys dd name content fs =
     (let p = target_of fs dd name;
          fits = (case map_of fs p of
            Some (File _) \<Rightarrow> True | Some _ \<Rightarrow> False | None \<Rightarrow> p \<noteq> [] \<and> map_of fs (butlast p) = Some Dir)
      in if fits \<and> may_write sys p then (True, AList.update p (File (utf8_text content)) fs) else (False, fs))"

subsection \<open>The reset of the pairing files\<close>

definition reset_consumed :: string where
  "reset_consumed = ''reset-consumed''"

fun mode_name :: "reset_mode \<Rightarrow> string" where
  "mode_name Keep = ''none''"
| "mode_name Wipe_token = ''token''"
| "mode_name Wipe_identity = ''identity''"

definition token_names :: "string list" where
  "token_names = [''device-token'', ''device-token.node'', ''device-token.operator'']"

fun wipe_targets :: "reset_mode \<Rightarrow> string list" where
  "wipe_targets Keep = []"
| "wipe_targets Wipe_token = token_names"
| "wipe_targets Wipe_identity = token_names @ [''node-key.json'']"

text \<open>\<open>_safe_to_unlink_under\<close>: the path resolves below the resolved data directory and is no symlink.\<close>

definition safe_to_unlink :: "tree \<Rightarrow> place \<Rightarrow> string \<Rightarrow> bool" where
  "safe_to_unlink fs dd name \<longleftrightarrow> prefix (realpath fs dd) (target_of fs dd name) \<and> \<not> link_at fs dd name"

definition wipe_one :: "system \<Rightarrow> place \<Rightarrow> string \<Rightarrow> bool \<times> tree \<Rightarrow> bool \<times> tree" where
  "wipe_one sys dd name r =
     (case r of (all_gone, fs) \<Rightarrow>
        if \<not> safe_to_unlink fs dd name \<or> \<not> exists_at fs dd name then r
        else (case unlink_at sys dd name fs of (gone, fs') \<Rightarrow> (all_gone \<and> gone, fs')))"

definition wipe :: "system \<Rightarrow> place \<Rightarrow> reset_mode \<Rightarrow> tree \<Rightarrow> bool \<times> tree" where
  "wipe sys dd mode fs = fold (wipe_one sys dd) (wipe_targets mode) (True, fs)"

definition wipe_and_mark :: "system \<Rightarrow> place \<Rightarrow> reset_mode \<Rightarrow> tree \<Rightarrow> tree" where
  "wipe_and_mark sys dd mode fs =
     (case wipe sys dd mode fs of (all_gone, fs') \<Rightarrow>
        if all_gone then snd (write_text sys dd reset_consumed (line (mode_name mode)) fs') else fs')"

text \<open>The result is absent when the marker's bytes are no text: then the start fails.\<close>

definition reset_pairing_state :: "system \<Rightarrow> place \<Rightarrow> reset_mode \<Rightarrow> tree \<Rightarrow> tree option" where
  "reset_pairing_state sys dd mode fs =
     (if mode = Keep then
        Some (if exists_at fs dd reset_consumed \<and> \<not> link_at fs dd reset_consumed
              then snd (unlink_at sys dd reset_consumed fs) else fs)
      else if \<not> exists_at fs dd reset_consumed then Some (wipe_and_mark sys dd mode fs)
      else case read_text sys fs dd reset_consumed of
        Undecodable \<Rightarrow> None
      | Unreadable \<Rightarrow> Some (wipe_and_mark sys dd mode fs)
      | Text s \<Rightarrow> Some (if strip s = mode_name mode then fs else wipe_and_mark sys dd mode fs))"

subsection \<open>Device tokens\<close>

text \<open>
  \<open>_atomic_write_token\<close> puts a file in the place of whatever but a directory stands there; a failed write is
  taken to leave nothing behind.
\<close>

definition replace_file_at :: "system \<Rightarrow> place \<Rightarrow> string \<Rightarrow> string \<Rightarrow> tree \<Rightarrow> bool \<times> tree" where
  "replace_file_at sys dd name content fs =
     (let p = at_path fs dd name in
      if may_write sys p \<and> map_of fs p \<noteq> Some Dir \<and> map_of fs (realpath fs dd) = Some Dir
      then (True, AList.update p (File (utf8_text content)) fs) else (False, fs))"

definition migrate_legacy_device_token :: "system \<Rightarrow> place \<Rightarrow> tree \<Rightarrow> tree option" where
  "migrate_legacy_device_token sys dd fs =
     (if \<not> exists_at fs dd ''device-token'' \<or> exists_at fs dd ''device-token.node'' then Some fs
      else if link_at fs dd ''device-token'' then Some fs
      else case read_text sys fs dd ''device-token'' of
        Undecodable \<Rightarrow> None
      | Unreadable \<Rightarrow> Some fs
      | Text s \<Rightarrow>
          (if strip s = [] then Some (snd (unlink_at sys dd ''device-token'' fs))
           else case replace_file_at sys dd ''device-token.node'' (strip s) fs of
             (False, fs') \<Rightarrow> Some fs'
           | (True, fs') \<Rightarrow> Some (snd (unlink_at sys dd ''device-token'' fs'))))"

text \<open>An unreadable token file raises here; the result is absent then.\<close>

definition initial_device_token :: "system \<Rightarrow> place \<Rightarrow> string \<Rightarrow> string \<Rightarrow> tree \<Rightarrow> string option option" where
  "initial_device_token sys dd role pairing_token fs =
     (let name = ''device-token.'' @ role;
          persisted = (if exists_at fs dd name then read_text sys fs dd name else Text [])
      in case persisted of
        Text s \<Rightarrow>
          Some (if strip s \<noteq> [] then Some (strip s) else if pairing_token \<noteq> [] then Some pairing_token else None)
      | _ \<Rightarrow> None)"

subsection \<open>User names\<close>

definition named :: "jval \<Rightarrow> string list" where
  "named v = (case v of JStr s \<Rightarrow> if strip s \<noteq> [] then [strip s] else [] | _ \<Rightarrow> [])"

definition credential_names :: "jval \<Rightarrow> string list" where
  "credential_names v =
     (case v of
        JList cs \<Rightarrow> concat (map (\<lambda>c. case c of
            JObj d \<Rightarrow> (case dget d ''data'' of JObj data \<Rightarrow> named (dget data ''username'') | _ \<Rightarrow> [])
          | _ \<Rightarrow> []) cs)
      | _ \<Rightarrow> [])"

definition ha_user_name_candidates :: "dict \<Rightarrow> string list" where
  "ha_user_name_candidates raw =
     rev (remdups (rev (named (dget raw ''username'') @ credential_names (dget raw ''credentials''))))"

definition add_user :: "jval \<Rightarrow> (string \<times> string) list \<Rightarrow> (string \<times> string) list" where
  "add_user raw users =
     (case raw of
        JObj u \<Rightarrow>
          (case named (dget u ''id'') of
             [i] \<Rightarrow>
               fold (\<lambda>name m. if has_key m (casefold name) then m else m @ [(casefold name, i)])
                 (ha_user_name_candidates u) users
           | _ \<Rightarrow> users)
      | _ \<Rightarrow> users)"

definition user_list :: "jval \<Rightarrow> jval list" where
  "user_list result =
     (case (case result of JObj d \<Rightarrow> dget_or d ''users'' result | v \<Rightarrow> v) of JList us \<Rightarrow> us | _ \<Rightarrow> [])"

definition ha_user_id_by_name :: "jval \<Rightarrow> (string \<times> string) list" where
  "ha_user_id_by_name result = fold add_user (user_list result) []"

text \<open>
  The answer of \<open>config/auth/list\<close> is absent when the call fails. An empty user id is never in the map.
\<close>

definition resolved_admins :: "(string \<times> string) list \<Rightarrow> string list \<Rightarrow> string list" where
  "resolved_admins users names = concat (map (\<lambda>n. case map_of users (casefold n) of Some i \<Rightarrow> [i] | None \<Rightarrow> []) names)"

definition resolved_routes :: "(string \<times> string) list \<Rightarrow> (string \<times> string) list \<Rightarrow> (string \<times> string) list" where
  "resolved_routes users routes =
     fold (\<lambda>(n, agent) m. case map_of users (casefold n) of Some i \<Rightarrow> AList.update i agent m | None \<Rightarrow> m) routes []"

definition resolve_identity_usernames :: "jval option \<Rightarrow> identity_config \<Rightarrow> identity_config" where
  "resolve_identity_usernames ha_reply identity =
     (let names = sorted_set (super_admins identity); routes = sort_key fst (user_agent_map identity) in
      if names = [] \<and> routes = [] then identity
      else case ha_reply of
        None \<Rightarrow> identity\<lparr>super_admins := [], user_agent_map := []\<rparr>
      | Some result \<Rightarrow>
          (let users = ha_user_id_by_name result in
           identity\<lparr>super_admins := resolved_admins users names, user_agent_map := resolved_routes users routes\<rparr>))"

subsection \<open>The reset stays below the data directory\<close>

text \<open>Only links matter to the resolution of a path, so removing a file leaves it alone.\<close>

definition same_links :: "tree \<Rightarrow> tree \<Rightarrow> bool" where
  "same_links fs fs' \<longleftrightarrow> (\<forall>p t. map_of fs p = Some (Link t) \<longleftrightarrow> map_of fs' p = Some (Link t))"

lemma real_walk_same_links: "same_links fs fs' \<Longrightarrow> real_walk fs seen here todo = real_walk fs' seen here todo"
proof (induction fs seen here todo rule: real_walk.induct)
  case (3 fs seen here n todo)
  have link: "map_of fs (here @ [n]) = Some (Link t) \<longleftrightarrow> map_of fs' (here @ [n]) = Some (Link t)" for t
    using 3 by (simp add: same_links_def)
  show ?case
  proof (cases "\<exists>t. map_of fs (here @ [n]) = Some (Link t)")
    case True
    then obtain t where "map_of fs (here @ [n]) = Some (Link t)" "map_of fs' (here @ [n]) = Some (Link t)"
      using link by blast
    then show ?thesis using 3 by (auto split: option.splits)
  next
    case False
    have plain: "real_walk tr seen here (Name n # todo) = real_walk tr seen (here @ [n]) todo"
      if "n \<noteq> []" "n \<noteq> ''.''" "n \<noteq> ''..''" "\<And>t. map_of tr (here @ [n]) \<noteq> Some (Link t)" for tr
      using that by (auto split: option.splits node.splits)
    show ?thesis
    proof (cases "n = [] \<or> n = ''.'' \<or> n = ''..''")
      case True
      then show ?thesis using 3 by auto
    next
      case special: False
      have "real_walk fs seen (here @ [n]) todo = real_walk fs' seen (here @ [n]) todo"
      proof (cases "map_of fs (here @ [n])")
        case (Some a)
        then show ?thesis using 3 False special by (cases a) auto
      qed (use 3 special in auto)
      then show ?thesis using plain [of fs] plain [of fs'] False link special by auto
    qed
  qed
qed auto

lemma realpath_same_links: "same_links fs fs' \<Longrightarrow> realpath fs p = realpath fs' p"
  by (simp add: realpath_def real_walk_same_links)

text \<open>A wipe step removes at most the file at its own path.\<close>

definition removes_at_most :: "tree \<Rightarrow> place set \<Rightarrow> tree \<Rightarrow> bool" where
  "removes_at_most fs ps fs' \<longleftrightarrow>
     (\<forall>p. map_of fs' p = map_of fs p \<or> p \<in> ps \<and> map_of fs' p = None \<and> (\<exists>b. map_of fs p = Some (File b)))"

lemma removes_links: "removes_at_most fs ps fs' \<Longrightarrow> same_links fs fs'"
  unfolding removes_at_most_def same_links_def by (metis node.distinct(5) option.distinct(1) option.inject)

lemma removes_trans:
  "removes_at_most fs ps fs' \<Longrightarrow> removes_at_most fs' qs fs'' \<Longrightarrow> removes_at_most fs (ps \<union> qs) fs''"
  unfolding removes_at_most_def by (metis UnCI)

lemma wipe_one_removes:
  assumes "wipe_one sys dd name (ok, fs) = (ok', fs')"
  shows "removes_at_most fs {at_path fs dd name} fs'"
  using assms
  by (auto simp: wipe_one_def unlink_at_def safe_to_unlink_def link_at_def removes_at_most_def Let_def delete_conv'
      split: if_splits option.splits node.splits prod.splits)

lemma wipe_fold_removes:
  assumes "fold (wipe_one sys dd) names (ok, fs) = (ok', fs')"
  shows "removes_at_most fs (at_path fs dd ` set names) fs'"
  using assms
proof (induction names arbitrary: ok fs)
  case (Cons name names)
  obtain ok1 fs1 where one: "wipe_one sys dd name (ok, fs) = (ok1, fs1)" by (cases "wipe_one sys dd name (ok, fs)")
  note r1 = wipe_one_removes [OF one]
  have "removes_at_most fs1 (at_path fs1 dd ` set names) fs'" using Cons one by simp
  moreover have "at_path fs1 dd = at_path fs dd"
    using realpath_same_links [OF removes_links [OF r1]] by (simp add: at_path_def fun_eq_iff)
  ultimately show ?case using removes_trans [OF r1] by simp
qed (simp add: removes_at_most_def)

lemma wipe_removes: "wipe sys dd mode fs = (ok, fs') \<Longrightarrow> removes_at_most fs (at_path fs dd ` set (wipe_targets mode)) fs'"
  unfolding wipe_def by (rule wipe_fold_removes)

lemma write_text_changes: "map_of (snd (write_text sys dd name c fs)) p \<noteq> map_of fs p \<Longrightarrow> p = target_of fs dd name"
  by (auto simp: write_text_def Let_def update_conv' split: if_splits)

lemma wipe_and_mark_changes:
  assumes "map_of (wipe_and_mark sys dd mode fs) p \<noteq> map_of fs p"
  shows "p = target_of fs dd reset_consumed \<or>
    (\<exists>name \<in> set (wipe_targets mode). p = at_path fs dd name \<and> (\<exists>b. map_of fs p = Some (File b)))"
proof -
  obtain ok fs1 where w: "wipe sys dd mode fs = (ok, fs1)" by (cases "wipe sys dd mode fs")
  note r = wipe_removes [OF w]
  have same: "target_of fs1 dd reset_consumed = target_of fs dd reset_consumed"
    using realpath_same_links [OF removes_links [OF r]] by (simp add: target_of_def)
  consider "map_of fs1 p \<noteq> map_of fs p" | "map_of (wipe_and_mark sys dd mode fs) p \<noteq> map_of fs1 p" using assms by force
  then show ?thesis
  proof cases
    case 1
    then show ?thesis using r unfolding removes_at_most_def by blast
  next
    case 2
    then show ?thesis using write_text_changes same w by (auto simp: wipe_and_mark_def split: if_splits)
  qed
qed

theorem reset_confined:
  assumes "reset_pairing_state sys dd mode fs = Some fs'" "map_of fs' p \<noteq> map_of fs p"
  shows "(\<exists>name \<in> set (reset_consumed # wipe_targets mode). p = realpath fs dd @ [name] \<and> (\<exists>b. map_of fs p = Some (File b))) \<or>
    mode \<noteq> Keep \<and> p = realpath fs (dd @ [reset_consumed])"
proof (cases "mode = Keep")
  case True
  then show ?thesis
    using assms
    by (auto simp: reset_pairing_state_def unlink_at_def link_at_def at_path_def Let_def delete_conv'
        split: if_splits option.splits node.splits)
next
  case False
  then have "fs' = fs \<or> fs' = wipe_and_mark sys dd mode fs"
    using assms(1) by (auto simp: reset_pairing_state_def split: if_splits text_read.splits)
  then show ?thesis
    using assms(2) wipe_and_mark_changes [of sys dd mode fs p] False by (auto simp: at_path_def target_of_def)
qed

text \<open>A reset runs once per value of the option: with its marker in place the next start changes nothing.\<close>

lemma marked_mode:
  assumes "mode \<noteq> Keep" "map_of fs (target_of fs dd reset_consumed) = Some (File bytes)"
    and "may_read sys (target_of fs dd reset_consumed)" "decode_bytes sys bytes = Some (line (mode_name mode))"
  shows "reset_pairing_state sys dd mode fs = Some fs"
proof -
  have "strip (line (mode_name mode)) = mode_name mode"
  proof -
    have "list_all (\<lambda>m. strip (line (mode_name m)) = mode_name m) [Keep, Wipe_token, Wipe_identity]" by code_simp
    then show ?thesis by (cases mode) simp_all
  qed
  then show ?thesis
    using assms by (simp add: reset_pairing_state_def exists_at_def read_text_def Let_def)
qed

theorem reset_once:
  assumes "mode \<noteq> Keep" "wipe sys dd mode fs = (True, fs1)"
    and stamped: "write_text sys dd reset_consumed (line (mode_name mode)) fs1 = (True, fs2)"
    and later: "same_links fs2 fs3" "map_of fs3 (target_of fs dd reset_consumed) = map_of fs2 (target_of fs dd reset_consumed)"
    and readable: "may_read sys (target_of fs dd reset_consumed)"
      "decode_bytes sys (utf8_text (line (mode_name mode))) = Some (line (mode_name mode))"
  shows "reset_pairing_state sys dd mode fs3 = Some fs3"
proof -
  let ?m = "target_of fs dd reset_consumed"
  have m1: "target_of fs1 dd reset_consumed = ?m"
    using realpath_same_links [OF removes_links [OF wipe_removes [OF assms(2)]]] by (simp add: target_of_def)
  have marker: "map_of fs2 ?m = Some (File (utf8_text (line (mode_name mode))))"
    using stamped m1 by (auto simp: write_text_def Let_def update_conv' split: if_splits)
  have "same_links fs1 fs2"
    using stamped m1
    by (auto simp: write_text_def Let_def same_links_def update_conv' split: if_splits option.splits node.splits)
  then have "target_of fs3 dd reset_consumed = ?m"
    using m1 later(1) realpath_same_links by (metis target_of_def)
  with marker later(2) readable show ?thesis
    by (intro marked_mode [OF assms(1)]) auto
qed

text \<open>The marker itself is written through a symlink: what the link names is overwritten.\<close>

definition open_system :: system where
  "open_system = \<lparr>may_remove = \<lambda>_. True, may_write = \<lambda>_. True, may_read = \<lambda>_. True,
     decode_bytes = \<lambda>bs. Some (map char_of bs)\<rparr>"

definition planted_link :: tree where
  "planted_link = [([], Dir), ([''data''], Dir), ([''data'', ''openclaw''], Dir), ([''etc''], Dir),
     ([''etc'', ''passwd''], File [1, 2, 3]), ([''data'', ''openclaw'', ''reset-consumed''], Link ''/etc/passwd'')]"

theorem marker_follows_link:
  "map_option (\<lambda>fs. map_of fs [''etc'', ''passwd''])
     (reset_pairing_state open_system [''data'', ''openclaw''] Wipe_token planted_link) =
   Some (Some (File (utf8_text (line ''token''))))"
  by code_simp

subsection \<open>Who becomes a super administrator\<close>

lemma add_user_origin:
  assumes "map_of (add_user raw users) n = Some i"
  shows "map_of users n = Some i \<or>
    (\<exists>u. raw = JObj u \<and> named (dget u ''id'') = [i] \<and> n \<in> casefold ` set (ha_user_name_candidates u))"
proof -
  have step: "map_of (fold (\<lambda>name m. if has_key m (casefold name) then m else m @ [(casefold name, j)]) names users) n = Some i \<Longrightarrow>
      map_of users n = Some i \<or> i = j \<and> n \<in> casefold ` set names" for names j users
    by (induction names arbitrary: users) (fastforce simp: map_add_def split: option.splits if_splits)+
  show ?thesis
    using assms by (auto simp: add_user_def split: json.splits list.splits dest!: step)
qed

lemma users_origin:
  assumes "map_of (ha_user_id_by_name result) n = Some i"
  shows "\<exists>u. JObj u \<in> set (user_list result) \<and> named (dget u ''id'') = [i] \<and>
    n \<in> casefold ` set (ha_user_name_candidates u)"
proof -
  have "map_of (fold add_user raws users) n = Some i \<Longrightarrow> map_of users n = Some i \<or>
      (\<exists>u. JObj u \<in> set raws \<and> named (dget u ''id'') = [i] \<and> n \<in> casefold ` set (ha_user_name_candidates u))"
    for raws users
    by (induction raws arbitrary: users) (use add_user_origin in \<open>fastforce+\<close>)
  with assms show ?thesis unfolding ha_user_id_by_name_def by fastforce
qed

theorem super_admins_from_ha:
  assumes "resolve_role (resolve_identity_usernames ha_reply identity) act = Super_admin"
  shows "\<exists>a result u name. act = Some a \<and> is_admin a \<and> ha_reply = Some result \<and> JObj u \<in> set (user_list result) \<and>
    named (dget u ''id'') = [user_id a] \<and> name \<in> set (super_admins identity) \<and>
    casefold name \<in> casefold ` set (ha_user_name_candidates u)"
proof -
  let ?r = "resolve_identity_usernames ha_reply identity"
  obtain a where a: "act = Some a" "is_admin a" "user_id a \<in> set (super_admins ?r)"
    using assms by (auto simp: resolve_role_def split: option.splits if_splits)
  have empty: "sorted_set (super_admins identity) = [] \<Longrightarrow> super_admins identity = []" by simp
  obtain result where r: "ha_reply = Some result"
    "user_id a \<in> set (resolved_admins (ha_user_id_by_name result) (sorted_set (super_admins identity)))"
    using a(3) empty by (auto simp: resolve_identity_usernames_def Let_def split: if_splits option.splits)
  then obtain name where "name \<in> set (super_admins identity)"
    "map_of (ha_user_id_by_name result) (casefold name) = Some (user_id a)"
    by (auto simp: resolved_admins_def split: option.splits)
  with users_origin [of result "casefold name"] a r show ?thesis by blast
qed

text \<open>The start of the local API as the configuration asks for it.\<close>

definition launch_of :: "node_config \<Rightarrow> launch \<Rightarrow> launch" where
  "launch_of cfg l = l\<lparr>explicit := nc_local_api_token cfg, reset := nc_reset_bootstrap cfg, in_addon := nc_addon_mode cfg\<rparr>"

end
