(* ===== verification/Http_Api.thy ===== *)
theory Http_Api
  imports Startup Single_Flight Gateway_Session
begin

text \<open>
  The local HTTP API, \<open>http_api.py\<close>: the routes behind the bearer middleware, the two commands it dispatches,
  the snapshot of Home Assistant, the Assist turns and the image descriptions it passes to the relay, and the
  health and info pages. The relay, Home Assistant, the command handlers and the clock are arguments.
\<close>

subsection \<open>The application\<close>

text \<open>
  What the API asked the gateway's relay for. The answers are functions of these calls and all before; an
  answer may be a \<open>ChatRelayError\<close> with code, message and remedy, or any other exception.
\<close>

datatype relay_call =
    Turn_call string string string turn_authz
  | Stream_call string string string turn_authz "string list"
  | Describe_call string dict

datatype 'a relayed = Relayed 'a | Relay_failed string string "string option" | Broke

datatype chunk = Chunk "nat list" | Keepalive_chunk | Tool_chunk tool_frame

text \<open>An image description may also end because a newer request for its source replaced it.\<close>

datatype described = Described "dict relayed" | Replaced

datatype json_read = Read_json jval | Read_failed string | Read_broke

datatype fetched = Fetched nat json_read | Unreachable string

record ('e, 'w) http_env =
  hx_config :: node_config
  hx_version :: string
  hx_monotonic :: rat
  hx_time :: int
  hx_hmac :: "nat list \<Rightarrow> nat list \<Rightarrow> string"
  hx_handlers :: "('e, 'w) handlers"
  hx_loads :: "nat list \<Rightarrow> jval option"
  hx_millis :: "rat \<Rightarrow> int"
  hx_turn :: "relay_call list \<Rightarrow> string relayed"
  hx_stream :: "relay_call list \<Rightarrow> chunk list \<times> unit relayed"
  hx_describe :: "relay_call list \<Rightarrow> described"
  hx_fetch :: "string \<Rightarrow> string \<Rightarrow> fetched"
  hx_token_end :: write_end
  hx_marker_end :: write_end
  hx_fresh_token :: string
  hx_stamp :: string

record 'w app =
  ap_install :: installation
  ap_pairing :: pairing_state
  ap_node_connected :: bool
  ap_operator_connected :: bool
  ap_relay :: bool
  ap_node :: "'w node_state"
  ap_asked :: "relay_call list"

text \<open>\<open>runtime.config\<close>: the token of the configuration is the one last rotated to.\<close>

definition runtime_config :: "('e, 'w) http_env \<Rightarrow> 'w app \<Rightarrow> node_config" where
  "runtime_config env app = (hx_config env)\<lparr>nc_local_api_token := local_api_token (ap_install app)\<rparr>"

definition is_paired :: "'w app \<Rightarrow> bool" where
  "is_paired app \<longleftrightarrow> ap_pairing app = Paired"

definition gateway_connected :: "'w app \<Rightarrow> bool" where
  "gateway_connected app \<longleftrightarrow> ap_node_connected app \<or> ap_operator_connected app"

type_synonym 'w handling = "reply \<times> 'w app"

subsection \<open>Bodies\<close>

definition not_an_object :: reply where
  "not_an_object = Page 400 ''JSON body must be an object''"

definition server_error :: reply where
  "server_error = Page 500 ''500 Internal Server Error''"

definition json_body :: "request \<Rightarrow> reply + dict" where
  "json_body req =
     (case in_body req of
        No_body \<Rightarrow> Inr []
      | Oversized \<Rightarrow> Inl (Page 413 ''413 Request Entity Too Large'')
      | Malformed \<Rightarrow> Inl server_error
      | Json_body JNull \<Rightarrow> Inr []
      | Json_body (JObj d) \<Rightarrow> Inr d
      | Json_body _ \<Rightarrow> Inl not_an_object)"

definition with_body :: "request \<Rightarrow> 'w app \<Rightarrow> (dict \<Rightarrow> 'w handling) \<Rightarrow> 'w handling" where
  "with_body req app f = (case json_body req of Inl r \<Rightarrow> (r, app) | Inr d \<Rightarrow> f d)"

text \<open>The bounded read: \<open>None\<close> when the bytes pass the limit.\<close>

fun read_chunks :: "nat \<Rightarrow> nat \<Rightarrow> nat list list \<Rightarrow> nat list option" where
  "read_chunks limit sofar [] = Some []"
| "read_chunks limit sofar (c # cs) =
     (if limit < sofar + length c then None else map_option ((@) c) (read_chunks limit (sofar + length c) cs))"

definition json_body_limited :: "(nat list \<Rightarrow> jval option) \<Rightarrow> nat \<Rightarrow> request \<Rightarrow> string + dict" where
  "json_body_limited loads limit req =
     (if (case in_length req of Some n \<Rightarrow> limit < n | None \<Rightarrow> False) then Inl ''IMAGE_TOO_LARGE''
      else case read_chunks limit 0 (in_chunks req) of
        None \<Rightarrow> Inl ''IMAGE_TOO_LARGE''
      | Some bytes \<Rightarrow>
          (case loads (if bytes = [] then utf8_text ''null'' else bytes) of
             Some JNull \<Rightarrow> Inr []
           | Some (JObj d) \<Rightarrow> Inr d
           | _ \<Rightarrow> Inl ''INVALID_REQUEST''))"

subsection \<open>Health and info\<close>

definition mode_text :: "reset_mode \<Rightarrow> jval" where
  "mode_text mode = JStr (mode_name mode)"

definition identity_summary :: "node_config \<Rightarrow> jval" where
  "identity_summary cfg =
     (let i = nc_identity cfg in
      JObj [
        (''super_admin_count'', JInt (int (length (remdups (super_admins i))))),
        (''user_agent_map_count'', JInt (int (length (user_agent_map i)))),
        (''default_agent_id_configured'', JBool (default_agent_id i \<noteq> [])),
        (''actor_signing_configured'', JBool (nc_local_api_token cfg \<noteq> [])),
        (''forbidden_commands_roles'', JList (map JStr (sort (map (role_name \<circ> fst) (forbidden_commands i))))),
        (''addon_lifecycle_denylist_count'', JInt (int (length (remdups (addon_lifecycle_denylist i)))))])"

definition safe_config :: "(rat \<Rightarrow> jval) \<Rightarrow> node_config \<Rightarrow> jval" where
  "safe_config float_json cfg = JObj [
     (''addon_mode'', JBool (nc_addon_mode cfg)),
     (''gateway_url'', JStr (nc_gateway_url cfg)),
     (''pairing_token'', JBool (nc_pairing_token cfg \<noteq> [])),
     (''node_name'', JStr (nc_node_name cfg)),
     (''hass_url'', JStr (nc_hass_url cfg)),
     (''hass_token'', JBool (nc_hass_token cfg \<noteq> [])),
     (''supervisor_token'', JBool (nc_supervisor_token cfg \<noteq> [])),
     (''data_dir'', JStr (path_str (nc_data_dir cfg))),
     (''local_api_token'', JBool (nc_local_api_token cfg \<noteq> [])),
     (''identity'', identity_summary cfg),
     (''reset_pairing'', mode_text (nc_reset_pairing cfg)),
     (''reset_bootstrap'', JBool (nc_reset_bootstrap cfg)),
     (''vision_timeout_seconds'', float_json (nc_vision_timeout cfg)),
     (''vision_model'', JStr (nc_vision_model cfg))]"

fun pairing_name :: "pairing_state \<Rightarrow> string" where
  "pairing_name Unknown = ''UNKNOWN''"
| "pairing_name Pending = ''PENDING''"
| "pairing_name Paired = ''PAIRED''"
| "pairing_name pairing_state.Error = ''ERROR''"

definition health :: "(rat \<Rightarrow> jval) \<Rightarrow> ('e, 'w) http_env \<Rightarrow> 'w app \<Rightarrow> reply" where
  "health float_json env app = Json 200 [
     (''ok'', JBool True), (''version'', JStr (hx_version env)),
     (''addon_mode'', JBool (nc_addon_mode (hx_config env))),
     (''pairing_state'', JStr (lower (pairing_name (ap_pairing app)))),
     (''paired'', JBool (is_paired app)),
     (''config'', safe_config float_json (runtime_config env app))]"

definition conversation_info :: "('e, 'w) http_env \<Rightarrow> 'w app \<Rightarrow> reply" where
  "conversation_info env app = Json 200 [
     (''ok'', JBool True), (''version'', JStr (hx_version env)),
     (''paired'', JBool (is_paired app)),
     (''pairing_state'', JStr (pairing_name (ap_pairing app))),
     (''gateway_connected'', JBool (gateway_connected app)),
     (''supports_streaming'', JBool True),
     (''streaming_endpoint'', JStr ''/v1/conversation/stream''),
     (''supports_vision'', JBool True)]"

subsection \<open>Commands\<close>

definition http_caller :: caller where
  "http_caller = operator_caller ''http-api''"

definition http_command_allowlist :: "string list" where
  "http_command_allowlist = [''ping'', ''system.which'']"

definition unknown_command :: "jval \<Rightarrow> reply" where
  "unknown_command command = Json 404 (failed ''UNKNOWN_COMMAND'' @ [(''command'', command)])"

definition run_command ::
  "('e, 'w) http_env \<Rightarrow> string \<Rightarrow> dict \<Rightarrow> 'w app \<Rightarrow> 'e dispatch_result \<times> 'w app" where
  "run_command env command params app =
     (case dispatch_async (hx_handlers env) command params http_caller (ap_node app) of
        (result, st) \<Rightarrow> (result, app\<lparr>ap_node := st\<rparr>))"

definition command_ping :: "('e, 'w) http_env \<Rightarrow> request \<Rightarrow> 'w app \<Rightarrow> 'w handling" where
  "command_ping env req app =
     with_body req app (\<lambda>params. case run_command env ''ping'' params app of
        (Result v, app') \<Rightarrow> (Json_value 200 v, app')
      | (_, app') \<Rightarrow> (server_error, app'))"

definition command_dispatch :: "('e, 'w) http_env \<Rightarrow> string \<Rightarrow> request \<Rightarrow> 'w app \<Rightarrow> 'w handling" where
  "command_dispatch env command req app =
     (if command \<notin> set http_command_allowlist then (unknown_command (JStr command), app)
      else with_body req app (\<lambda>params. case run_command env command params app of
        (Result v, app') \<Rightarrow> (Json 200 [(''ok'', JBool True), (''result'', v)], app')
      | (Unknown_command shown, app') \<Rightarrow> (unknown_command shown, app')
      | (_, app') \<Rightarrow> (server_error, app')))"

subsection \<open>The snapshot of Home Assistant\<close>

definition base_url :: "string \<Rightarrow> string" where
  "base_url url = rev (dropWhile (\<lambda>c. c = CHR ''/'') (rev url))"

definition unreachable :: "string \<Rightarrow> reply" where
  "unreachable detail = Json 503 (failed ''HA_REST_UNREACHABLE'' @ [(''detail'', JStr detail)])"

text \<open>A response that is not ok is not read.\<close>

definition read_or :: "jval \<Rightarrow> nat \<Rightarrow> json_read \<Rightarrow> json_read" where
  "read_or other code r = (if code < 400 then r else Read_json other)"

definition snapshot_reply :: "nat \<Rightarrow> nat \<Rightarrow> jval \<Rightarrow> jval \<Rightarrow> reply" where
  "snapshot_reply config_status states_status ha_config states =
     (let ok = (config_status < 400 \<and> states_status < 400);
          entities = (case states of JList xs \<Rightarrow> xs | _ \<Rightarrow> []) in
      Json (if ok then 200 else 503) [
        (''ok'', JBool ok),
        (''ha_version'', (case ha_config of JObj d \<Rightarrow> dget d ''version'' | _ \<Rightarrow> JNull)),
        (''entity_count'', JInt (int (length entities))),
        (''sample_entity'', (case entities of x # _ \<Rightarrow> x | [] \<Rightarrow> JNull)),
        (''config_status'', JInt (int config_status)),
        (''states_status'', JInt (int states_status))])"

definition ha_snapshot :: "('e, 'w) http_env \<Rightarrow> reply" where
  "ha_snapshot env =
     (let cfg = hx_config env;
          token = (if nc_supervisor_token cfg \<noteq> [] then nc_supervisor_token cfg else nc_hass_token cfg);
          url = base_url (nc_hass_url cfg) in
      if nc_hass_url cfg = [] \<or> token = [] then
        Json 503 (failed ''HA_TOKEN_OR_URL_MISSING'' @ [(''addon_mode'', JBool (nc_addon_mode cfg))])
      else case hx_fetch env (url @ ''/api/config'') token of
        Unreachable detail \<Rightarrow> unreachable detail
      | Fetched config_status config_read \<Rightarrow>
          (case hx_fetch env (url @ ''/api/states'') token of
             Unreachable detail \<Rightarrow> unreachable detail
           | Fetched states_status states_read \<Rightarrow>
               (case read_or (JObj []) config_status config_read of
                  Read_failed detail \<Rightarrow> unreachable detail
                | Read_broke \<Rightarrow> server_error
                | Read_json ha_config \<Rightarrow>
                    (case read_or (JList []) states_status states_read of
                       Read_failed detail \<Rightarrow> unreachable detail
                     | Read_broke \<Rightarrow> server_error
                     | Read_json states \<Rightarrow> snapshot_reply config_status states_status ha_config states))))"

subsection \<open>Assist turns\<close>

text \<open>The dash in two messages, which lies above U+0100, is written as a hyphen.\<close>

definition assist_error :: "'w app \<Rightarrow> string \<Rightarrow> string \<Rightarrow> reply" where
  "assist_error app message echo = Json 200 [
     (''ok'', JBool False), (''paired'', JBool (is_paired app)),
     (''gateway_connected'', JBool (gateway_connected app)),
     (''response'', JStr message), (''echo'', JStr echo)]"

definition turn_failed :: "nat \<Rightarrow> string \<Rightarrow> string \<Rightarrow> string \<Rightarrow> reply" where
  "turn_failed code response echo error = Json code [
     (''ok'', JBool False), (''paired'', JBool True), (''gateway_connected'', JBool True),
     (''response'', JStr response), (''echo'', JStr echo), (''error'', JStr error)]"

definition turn_reply :: "string \<Rightarrow> string relayed \<Rightarrow> reply" where
  "turn_reply echo r =
     (case r of
        Relayed text \<Rightarrow> Json 200 [
          (''ok'', JBool True), (''paired'', JBool True), (''gateway_connected'', JBool True),
          (''response'', JStr text), (''echo'', JStr echo)]
      | Relay_failed code message remedy \<Rightarrow>
          turn_failed 502
            (case remedy of Some s \<Rightarrow> if s \<noteq> [] then s else ''Relay error: '' @ code | None \<Rightarrow> ''Relay error: '' @ code)
            echo code
      | Broke \<Rightarrow> turn_failed 500 ''Internal relay error.'' echo ''INTERNAL_ERROR'')"

text \<open>The actor the body is signed for; a signature that is not ASCII raises, which no handler catches.\<close>

definition body_authz :: "('e, 'w) http_env \<Rightarrow> 'w app \<Rightarrow> dict \<Rightarrow> turn_authz option" where
  "body_authz env app body =
     (case actor_from_signed_body (hx_hmac env) (hx_time env) body (local_api_token (ap_install app)) of
        Inl _ \<Rightarrow> None
      | Inr act \<Rightarrow> Some (resolve_turn_authz (nc_identity (hx_config env)) act))"

definition ask_relay :: "relay_call \<Rightarrow> 'w app \<Rightarrow> 'w app" where
  "ask_relay call app = app\<lparr>ap_asked := ap_asked app @ [call]\<rparr>"

definition assist_turn :: "('e, 'w) http_env \<Rightarrow> request \<Rightarrow> 'w app \<Rightarrow> 'w handling" where
  "assist_turn env req app =
     with_body req app (\<lambda>body.
       let text = strip (turn_text body); conversation = turn_conversation body in
       case body_authz env app body of
         None \<Rightarrow> (server_error, app)
       | Some authz \<Rightarrow>
           if \<not> is_paired app then
             (assist_error app
               (''OpenClaw Node is installed and reachable, but it is not paired '' @
                ''to the OpenClaw gateway yet. Pair the node, then retry Assist.'') text, app)
           else if \<not> ap_operator_connected app then
             (assist_error app
               (''OpenClaw Node is paired but the operator gateway connection '' @
                ''(required for ChatRelay) is not currently up.'') text, app)
           else if \<not> ap_relay app then
             (assist_error app ''OpenClaw Node is connected but the chat relay is not initialised.'' text, app)
           else if text = [] then (assist_error app ''Empty text - nothing to relay.'' text, app)
           else if conversation = [] then
             (assist_error app ''Missing conversation_id - the HA integration must send one.'' text, app)
           else
             (let app' = ask_relay (Turn_call conversation text (turn_language body) authz) app
              in (turn_reply text (hx_turn env (ap_asked app')), app')))"

definition client_caps :: "dict \<Rightarrow> string list" where
  "client_caps body =
     (case dget body ''client_caps'' of
        JList cs \<Rightarrow> concat (map (\<lambda>c. case c of JStr s \<Rightarrow> [s] | _ \<Rightarrow> []) cs)
      | _ \<Rightarrow> [])"

fun phase_text :: "tool_phase \<Rightarrow> string" where
  "phase_text Tool_start = ''start''"
| "phase_text Tool_end = ''end''"

fun chunk_frame :: "chunk \<Rightarrow> stream_frame" where
  "chunk_frame (Chunk s) = Delta_frame s"
| "chunk_frame Keepalive_chunk = Keepalive_frame"
| "chunk_frame (Tool_chunk f) =
     Progress_frame (phase_text (tf_phase f)) (tf_name f) (if tf_id f \<noteq> [] then Some (tf_id f) else None) (tf_seq f)"

fun last_frame :: "unit relayed \<Rightarrow> stream_frame" where
  "last_frame (Relayed _) = Done_frame"
| "last_frame (Relay_failed code message remedy) = Error_frame code (if remedy = Some [] then None else remedy)"
| "last_frame Broke = Error_frame ''INTERNAL_ERROR'' None"

definition stream_error :: "string \<Rightarrow> nat \<Rightarrow> reply" where
  "stream_error code n = Frames n [Error_frame code None]"

definition stream_reply :: "chunk list \<times> unit relayed \<Rightarrow> reply" where
  "stream_reply r = Frames 200 (map chunk_frame (fst r) @ [last_frame (snd r)])"

definition assist_turn_stream :: "('e, 'w) http_env \<Rightarrow> request \<Rightarrow> 'w app \<Rightarrow> 'w handling" where
  "assist_turn_stream env req app =
     with_body req app (\<lambda>body.
       let text = strip (turn_text body); conversation = turn_conversation body in
       case body_authz env app body of
         None \<Rightarrow> (server_error, app)
       | Some authz \<Rightarrow>
           if \<not> is_paired app then (stream_error ''NOT_PAIRED'' 502, app)
           else if \<not> ap_operator_connected app then (stream_error ''OPERATOR_NOT_CONNECTED'' 502, app)
           else if \<not> ap_relay app then (stream_error ''RELAY_NOT_INITIALISED'' 502, app)
           else if text = [] then (stream_error ''EMPTY_TEXT'' 400, app)
           else if conversation = [] then (stream_error ''MISSING_CONVERSATION_ID'' 400, app)
           else
             (let app' = ask_relay (Stream_call conversation text (turn_language body) authz (client_caps body)) app
              in (stream_reply (hx_stream env (ap_asked app')), app')))"

subsection \<open>Image descriptions\<close>

definition vision_max_body_bytes :: nat where
  "vision_max_body_bytes = max_image_bytes * 4 div 3 + 64 * 1024"

definition vision_status :: "(string \<times> nat) list" where
  "vision_status = [
    (''INVALID_REQUEST'', 400), (''INVALID_PARAMS'', 400), (''INVALID_MODEL'', 400), (''UNSUPPORTED_MIME'', 415),
    (''IMAGE_TOO_LARGE'', 413), (''SUPERSEDED'', 409), (''TIMEOUT'', 504), (''NOT_PAIRED'', 503),
    (''OPERATOR_NOT_CONNECTED'', 503), (''RELAY_NOT_INITIALISED'', 503), (''INTERNAL_ERROR'', 500)]"

definition vision_error :: "string \<Rightarrow> reply" where
  "vision_error code =
     Json (case map_of vision_status code of Some n \<Rightarrow> n | None \<Rightarrow> 502)
       [(''ok'', JBool False), (''error'', JStr code), (''message'', JStr (curated code))]"

text \<open>The parameters of the one gateway call, \<open>ChatRelay.describe_image\<close>.\<close>

definition describe_params :: "string \<Rightarrow> string \<Rightarrow> string \<Rightarrow> int \<Rightarrow> string \<Rightarrow> string \<Rightarrow> dict" where
  "describe_params encoded mime prompt timeout_ms agent model =
     [(''image_base64'', JStr encoded), (''mime'', JStr mime), (''prompt'', JStr prompt), (''timeout_ms'', JInt timeout_ms)] @
     (if agent \<noteq> [] then [(''agent_id'', JStr agent)] else []) @
     (if model \<noteq> [] then [(''model'', JStr model)] else [])"

definition vision_reply :: "described \<Rightarrow> reply" where
  "vision_reply r =
     (case r of
        Replaced \<Rightarrow> vision_error ''SUPERSEDED''
      | Described (Relay_failed code message remedy) \<Rightarrow> vision_error (classify_gateway_error code message)
      | Described Broke \<Rightarrow> vision_error ''INTERNAL_ERROR''
      | Described (Relayed result) \<Rightarrow>
          (case dget result ''text'' of
             JStr s \<Rightarrow>
               if strip s = [] then vision_error ''VISION_UNAVAILABLE''
               else Json 200 [(''ok'', JBool True), (''text'', JStr (strip s))]
           | _ \<Rightarrow> vision_error ''VISION_UNAVAILABLE''))"

text \<open>What the request asks for, or the code of the first check it fails.\<close>

definition image_request :: "('e, 'w) http_env \<Rightarrow> dict \<Rightarrow> string + string \<times> dict" where
  "image_request env body =
     (case dget body ''image_base64'' of
        JStr encoded \<Rightarrow>
          if encoded = [] then Inl ''INVALID_REQUEST''
          else (case dget body ''mime'' of
             JStr mime \<Rightarrow>
               if mime \<notin> set supported_mimes then Inl ''UNSUPPORTED_MIME''
               else if decoded_size encoded > int max_image_bytes then Inl ''IMAGE_TOO_LARGE''
               else sum_bind (build_prompt (dget body ''style'') (dget body ''instructions'')) (\<lambda>prompt.
                 sum_bind (validate_model_ref (nc_vision_model (hx_config env))) (\<lambda>model.
                   Inr (sanitize_text (dget body ''source'') max_source_chars,
                        describe_params encoded mime prompt
                          (plugin_timeout_ms (hx_millis env (nc_vision_timeout (hx_config env))))
                          (resolve_agent_id (nc_identity (hx_config env)) None) model)))
           | _ \<Rightarrow> Inl ''UNSUPPORTED_MIME'')
      | _ \<Rightarrow> Inl ''INVALID_REQUEST'')"

definition vision_describe :: "('e, 'w) http_env \<Rightarrow> request \<Rightarrow> 'w app \<Rightarrow> 'w handling" where
  "vision_describe env req app =
     (case sum_bind (json_body_limited (hx_loads env) vision_max_body_bytes req) (image_request env) of
        Inl code \<Rightarrow> (vision_error code, app)
      | Inr (source, params) \<Rightarrow>
          if \<not> is_paired app then (vision_error ''NOT_PAIRED'', app)
          else if \<not> ap_operator_connected app then (vision_error ''OPERATOR_NOT_CONNECTED'', app)
          else if \<not> ap_relay app then (vision_error ''RELAY_NOT_INITIALISED'', app)
          else (let app' = ask_relay (Describe_call source params) app
                in (vision_reply (hx_describe env (ap_asked app')), app')))"

subsection \<open>Routes and the bearer middleware\<close>

definition unauthed_paths :: "string list" where
  "unauthed_paths = [''/health'', ''/v1/health'', ''/v1/conversation/info'', ''/v1/bootstrap'', ''/v1/bootstrap/claim'']"

datatype endpoint = Health | Info | Fetch_token | Claim_token | Ping | Command string | Snapshot
  | Assist | Assist_stream | Describe | Wrong_method | Nowhere

definition get_routes :: "(string \<times> endpoint) list" where
  "get_routes = [
    (''/health'', Health), (''/v1/health'', Health), (''/ha/snapshot'', Snapshot), (''/v1/ha/snapshot'', Snapshot),
    (''/v1/conversation/info'', Info), (''/v1/bootstrap'', Fetch_token)]"

definition post_routes :: "(string \<times> endpoint) list" where
  "post_routes = [
    (''/commands/ping'', Ping), (''/v1/commands/ping'', Ping), (''/assist/turn'', Assist),
    (''/v1/conversation'', Assist), (''/v1/conversation/stream'', Assist_stream),
    (''/v1/bootstrap/claim'', Claim_token), (''/v1/vision/describe'', Describe)]"

definition commands_path :: string where
  "commands_path = ''/v1/commands/''"

definition post_route :: "string \<Rightarrow> endpoint option" where
  "post_route path =
     (case map_of post_routes path of
        Some e \<Rightarrow> Some e
      | None \<Rightarrow>
          if starts_with path commands_path \<and> path \<noteq> commands_path
          then Some (Command (drop (length commands_path) path)) else None)"

text \<open>A route for \<open>GET\<close> also takes \<open>HEAD\<close>, whose reply goes out without its body.\<close>

definition route :: "string \<Rightarrow> string \<Rightarrow> endpoint" where
  "route method path =
     (case (map_of get_routes path, post_route path) of
        (None, None) \<Rightarrow> Nowhere
      | (g, p) \<Rightarrow>
          if method \<in> set [''GET'', ''HEAD''] then (case g of Some e \<Rightarrow> e | None \<Rightarrow> Wrong_method)
          else if method = ''POST'' then (case p of Some e \<Rightarrow> e | None \<Rightarrow> Wrong_method)
          else Wrong_method)"

definition on_install :: "(installation \<Rightarrow> reply \<times> installation) \<Rightarrow> 'w app \<Rightarrow> 'w handling" where
  "on_install f app = (case f (ap_install app) of (r, st) \<Rightarrow> (r, app\<lparr>ap_install := st\<rparr>))"

definition serve :: "(rat \<Rightarrow> jval) \<Rightarrow> ('e, 'w) http_env \<Rightarrow> request \<Rightarrow> 'w app \<Rightarrow> 'w handling" where
  "serve float_json env req app =
     (case route (in_method req) (in_path req) of
        Health \<Rightarrow> (health float_json env app, app)
      | Info \<Rightarrow> (conversation_info env app, app)
      | Fetch_token \<Rightarrow>
          on_install (bootstrap (hx_monotonic env) (hx_marker_end env) (hx_stamp env) (in_remote req)) app
      | Claim_token \<Rightarrow>
          on_install (bootstrap_claim (hx_token_end env) (hx_marker_end env) (hx_fresh_token env) (hx_stamp env)
            (in_authorization req)) app
      | Ping \<Rightarrow> command_ping env req app
      | Command name \<Rightarrow> command_dispatch env name req app
      | Snapshot \<Rightarrow> (ha_snapshot env, app)
      | Assist \<Rightarrow> assist_turn env req app
      | Assist_stream \<Rightarrow> assist_turn_stream env req app
      | Describe \<Rightarrow> vision_describe env req app
      | Wrong_method \<Rightarrow> (Page 405 ''405: Method Not Allowed'', app)
      | Nowhere \<Rightarrow> (Page 404 ''404: Not Found'', app))"

definition handle_request :: "(rat \<Rightarrow> jval) \<Rightarrow> ('e, 'w) http_env \<Rightarrow> request \<Rightarrow> 'w app \<Rightarrow> 'w handling" where
  "handle_request float_json env req app =
     (if in_path req \<in> set unauthed_paths then serve float_json env req app
      else case bearer_refusal (local_api_token (ap_install app)) (in_authorization req) of
        Some r \<Rightarrow> (r, app)
      | None \<Rightarrow> serve float_json env req app)"

subsection \<open>What a request can cause\<close>

lemma public_routes:
  "path \<in> set unauthed_paths \<Longrightarrow> route m path \<in> {Health, Info, Fetch_token, Claim_token, Wrong_method}"
proof -
  have table: "list_all (\<lambda>p. post_route p \<in> {None, Some Claim_token} \<and>
      map_of get_routes p \<in> {None, Some Health, Some Info, Some Fetch_token} \<and>
      (post_route p \<noteq> None \<or> map_of get_routes p \<noteq> None)) unauthed_paths"
    by code_simp
  assume "path \<in> set unauthed_paths"
  with table show ?thesis by (auto simp: list_all_iff route_def split: option.splits)
qed

text \<open>A change of the application: none, of the token files, a command, a call of the relay.\<close>

definition commanded :: "('e, 'w) http_env \<Rightarrow> 'w app \<Rightarrow> 'w app \<Rightarrow> bool" where
  "commanded env app app' \<longleftrightarrow>
     (\<exists>command \<in> {''ping'', ''system.which''}. \<exists>params.
        app' = app\<lparr>ap_node := snd (dispatch_async (hx_handlers env) command params http_caller (ap_node app))\<rparr>)"

text \<open>The actor of a turn is nobody, or the one the body is signed for.\<close>

definition signed_for :: "('e, 'w) http_env \<Rightarrow> request \<Rightarrow> 'w app \<Rightarrow> turn_authz \<Rightarrow> bool" where
  "signed_for env req app authz \<longleftrightarrow>
     (\<exists>act. authz = resolve_turn_authz (nc_identity (hx_config env)) act \<and>
        (act = None \<or> (\<exists>body. in_body req = Json_body (JObj body) \<and>
           actor_from_signed_body (hx_hmac env) (hx_time env) body (local_api_token (ap_install app)) = Inr act)))"

fun allowed_call :: "('e, 'w) http_env \<Rightarrow> request \<Rightarrow> 'w app \<Rightarrow> relay_call \<Rightarrow> bool" where
  "allowed_call env req app (Turn_call conversation text lang authz) \<longleftrightarrow>
     conversation \<noteq> [] \<and> text \<noteq> [] \<and> signed_for env req app authz"
| "allowed_call env req app (Stream_call conversation text lang authz caps) \<longleftrightarrow>
     conversation \<noteq> [] \<and> text \<noteq> [] \<and> signed_for env req app authz"
| "allowed_call env req app (Describe_call source params) \<longleftrightarrow>
     (\<exists>encoded mime prompt style instructions.
        dget params ''image_base64'' = JStr encoded \<and> decoded_size encoded \<le> 8 * 1024 * 1024 \<and>
        dget params ''mime'' = JStr mime \<and> mime \<in> set supported_mimes \<and>
        dget params ''prompt'' = JStr prompt \<and> build_prompt style instructions = Inr prompt)"

definition related :: "('e, 'w) http_env \<Rightarrow> request \<Rightarrow> 'w app \<Rightarrow> 'w app \<Rightarrow> bool" where
  "related env req app app' \<longleftrightarrow>
     is_paired app \<and> ap_operator_connected app \<and> ap_relay app \<and>
     (\<exists>call. allowed_call env req app call \<and> app' = ask_relay call app)"

lemma relatedI:
  "is_paired app \<Longrightarrow> ap_operator_connected app \<Longrightarrow> ap_relay app \<Longrightarrow> allowed_call env req app call \<Longrightarrow>
     related env req app (ask_relay call app)"
  unfolding related_def by blast

lemma run_command_effect: "command \<in> {''ping'', ''system.which''} \<Longrightarrow> commanded env app (snd (run_command env command params app))"
proof -
  have "snd (run_command env command params app) =
      app\<lparr>ap_node := snd (dispatch_async (hx_handlers env) command params http_caller (ap_node app))\<rparr>"
    by (simp add: run_command_def split_def)
  then show "command \<in> {''ping'', ''system.which''} \<Longrightarrow> commanded env app (snd (run_command env command params app))"
    unfolding commanded_def by blast
qed

lemma ping_effect: "snd (command_ping env req app) = app \<or> commanded env app (snd (command_ping env req app))"
proof -
  have "snd (case run_command env ''ping'' params app of (Result v, app') \<Rightarrow> (Json_value 200 v, app') | (_, app') \<Rightarrow> (server_error, app')) =
      snd (run_command env ''ping'' params app)" for params
    by (auto split: prod.splits dispatch_result.splits)
  then show ?thesis
    using run_command_effect [of "''ping''" env app] unfolding command_ping_def with_body_def by (auto split: sum.splits)
qed

lemma dispatch_effect:
  "snd (command_dispatch env command req app) = app \<or> commanded env app (snd (command_dispatch env command req app))"
proof (cases "command \<in> {''ping'', ''system.which''}")
  case True
  have "snd (case run_command env command params app of
          (Result v, app') \<Rightarrow> (Json 200 [(''ok'', JBool True), (''result'', v)], app')
        | (Unknown_command shown, app') \<Rightarrow> (unknown_command shown, app')
        | (_, app') \<Rightarrow> (server_error, app')) = snd (run_command env command params app)" for params
    by (auto split: prod.splits dispatch_result.splits)
  then show ?thesis
    using run_command_effect [OF True] unfolding command_dispatch_def with_body_def by (auto split: sum.splits)
next
  case False
  then show ?thesis by (auto simp: command_dispatch_def http_command_allowlist_def)
qed

lemma json_body_ok: "json_body req = Inr d \<Longrightarrow> d = [] \<or> in_body req = Json_body (JObj d)"
  by (auto simp: json_body_def split: body.splits json.splits)

lemma body_authz_signed:
  assumes "json_body req = Inr body" "body_authz env app body = Some authz"
  shows "signed_for env req app authz"
proof -
  obtain act where act: "actor_from_signed_body (hx_hmac env) (hx_time env) body (local_api_token (ap_install app)) = Inr act"
    "authz = resolve_turn_authz (nc_identity (hx_config env)) act"
    using assms(2) by (auto simp: body_authz_def split: sum.splits)
  have "body = [] \<Longrightarrow> act = None"
    using act(1) by (auto simp: actor_from_signed_body_def actor_from_payload_def)
  then show ?thesis using act json_body_ok [OF assms(1)] unfolding signed_for_def by blast
qed

lemma assist_effect: "snd (assist_turn env req app) = app \<or> related env req app (snd (assist_turn env req app))"
  using body_authz_signed [of req _ env app]
  by (auto simp: assist_turn_def with_body_def Let_def intro!: relatedI split: sum.splits option.splits)

lemma stream_effect:
  "snd (assist_turn_stream env req app) = app \<or> related env req app (snd (assist_turn_stream env req app))"
  using body_authz_signed [of req _ env app]
  by (auto simp: assist_turn_stream_def with_body_def Let_def intro!: relatedI split: sum.splits option.splits)

lemma image_request_allowed:
  assumes "image_request env body = Inr (source, params)"
  shows "allowed_call env req app (Describe_call source params)"
  using assms
  by (auto simp: image_request_def sum_bind_Inr describe_params_def max_image_bytes_def
      split: json.splits if_splits) blast+

lemma describe_effect:
  "snd (vision_describe env req app) = app \<or> related env req app (snd (vision_describe env req app))"
proof (cases "sum_bind (json_body_limited (hx_loads env) vision_max_body_bytes req) (image_request env)")
  case (Inr b)
  then obtain source params body where "b = (source, params)" "image_request env body = Inr (source, params)"
    by (cases b) (auto simp: sum_bind_Inr)
  then show ?thesis
    using Inr image_request_allowed [of env body source params req app]
    by (auto simp: vision_describe_def Let_def intro!: relatedI simp del: allowed_call.simps)
qed (simp add: vision_describe_def)

lemma serve_effect:
  assumes "serve float_json env req app = (r, app')"
  shows "app' = app \<or> app' = app\<lparr>ap_install := ap_install app'\<rparr> \<or> commanded env app app' \<or> related env req app app'"
proof -
  have served: "app' = snd (serve float_json env req app)" using assms by simp
  show ?thesis
  proof (cases "route (in_method req) (in_path req)")
    case Ping
    then show ?thesis using ping_effect [of env req app] by (simp add: served serve_def) blast
  next
    case (Command name)
    then show ?thesis using dispatch_effect [of env name req app] by (simp add: served serve_def) blast
  next
    case Assist
    then show ?thesis using assist_effect [of env req app] by (simp add: served serve_def) blast
  next
    case Assist_stream
    then show ?thesis using stream_effect [of env req app] by (simp add: served serve_def) blast
  next
    case Describe
    then show ?thesis using describe_effect [of env req app] by (simp add: served serve_def) blast
  qed (simp_all add: served serve_def on_install_def split_def)
qed

lemma serve_public:
  assumes "serve float_json env req app = (r, app')" "in_path req \<in> set unauthed_paths"
  shows "app' = app\<lparr>ap_install := ap_install app'\<rparr>"
  using assms public_routes [OF assms(2), of "in_method req"]
  by (auto simp: serve_def on_install_def split: prod.splits)

text \<open>
  C3. The HTTP surface is confined. Outside the five public paths a request without the bearer of the local API
  token changes nothing and is refused; a public path changes at most the token files and tokens. Whatever the
  request, it changes nothing, or only those, or runs \<open>ping\<close> or \<open>system.which\<close> as the operator, or makes one
  call of the relay while the node is paired and the operator connection up: a turn with text and conversation
  whose actor is nobody or the one the body is signed for, or the description of a supported image within the
  size bound with a prompt built here.
\<close>

theorem http_surface_confined:
  assumes "handle_request float_json env req app = (r, app')"
  shows "(in_path req \<notin> set unauthed_paths \<and> bearer_token (in_authorization req) \<noteq> Some (local_api_token (ap_install app)) \<longrightarrow>
      app' = app \<and> status r \<in> {401, 403}) \<and>
    (in_path req \<in> set unauthed_paths \<longrightarrow> app' = app\<lparr>ap_install := ap_install app'\<rparr>) \<and>
    (app' = app \<or> app' = app\<lparr>ap_install := ap_install app'\<rparr> \<or> commanded env app app' \<or> related env req app app')"
proof (cases "in_path req \<in> set unauthed_paths")
  case True
  then show ?thesis using assms serve_public [of float_json env req app r app'] by (simp add: handle_request_def)
next
  case False
  show ?thesis
  proof (cases "bearer_refusal (local_api_token (ap_install app)) (in_authorization req)")
    case None
    then have "bearer_token (in_authorization req) = Some (local_api_token (ap_install app))"
      by (auto simp: bearer_refusal_def split: if_splits option.splits)
    then show ?thesis using assms False None serve_effect [of float_json env req app r app'] by (simp add: handle_request_def)
  next
    case (Some refusal)
    then have "status refusal \<in> {401, 403}" by (auto simp: bearer_refusal_def split: if_splits option.splits)
    then show ?thesis using assms False Some by (simp add: handle_request_def)
  qed
qed

subsection \<open>What a reply shows\<close>

text \<open>Two answers of the relay that differ in the message of an error only.\<close>

fun same_failure :: "'a relayed \<Rightarrow> 'a relayed \<Rightarrow> bool" where
  "same_failure (Relay_failed c m remedy) (Relay_failed c' m' remedy') \<longleftrightarrow> c = c' \<and> remedy = remedy'"
| "same_failure r r' \<longleftrightarrow> r = r'"

fun same_described :: "described \<Rightarrow> described \<Rightarrow> bool" where
  "same_described (Described (Relay_failed c m x)) (Described (Relay_failed c' m' x')) \<longleftrightarrow>
     classify_gateway_error c m = classify_gateway_error c' m'"
| "same_described r r' \<longleftrightarrow> r = r'"

lemma turn_reply_same: "same_failure r r' \<Longrightarrow> turn_reply echo r = turn_reply echo r'"
  by (cases "(r, r')" rule: same_failure.cases) (auto simp: turn_reply_def)

lemma stream_reply_same: "fst r = fst r' \<Longrightarrow> same_failure (snd r) (snd r') \<Longrightarrow> stream_reply r = stream_reply r'"
  by (cases "(snd r, snd r')" rule: same_failure.cases) (auto simp: stream_reply_def)

lemma vision_reply_same: "same_described r r' \<Longrightarrow> vision_reply r = vision_reply r'"
  by (cases "(r, r')" rule: same_described.cases) (auto simp: vision_reply_def)

theorem relay_messages_hidden:
  assumes "\<And>calls. same_failure (hx_turn env calls) (turn calls)"
    and "\<And>calls. fst (hx_stream env calls) = fst (stream calls) \<and> same_failure (snd (hx_stream env calls)) (snd (stream calls))"
    and "\<And>calls. same_described (hx_describe env calls) (describe calls)"
  shows "handle_request float_json (env\<lparr>hx_turn := turn, hx_stream := stream, hx_describe := describe\<rparr>) req app =
    handle_request float_json env req app"
proof -
  let ?env = "env\<lparr>hx_turn := turn, hx_stream := stream, hx_describe := describe\<rparr>"
  have same: "turn_reply echo (turn calls) = turn_reply echo (hx_turn env calls)"
    "stream_reply (stream calls) = stream_reply (hx_stream env calls)"
    "vision_reply (describe calls) = vision_reply (hx_describe env calls)" for echo calls
    using assms turn_reply_same stream_reply_same vision_reply_same by metis+
  have config: "hx_config ?env = hx_config env" "hx_time ?env = hx_time env" "hx_hmac ?env = hx_hmac env"
    "hx_handlers ?env = hx_handlers env" "hx_loads ?env = hx_loads env" "hx_millis ?env = hx_millis env"
    "hx_fetch ?env = hx_fetch env" "hx_version ?env = hx_version env" "hx_turn ?env = turn" "hx_stream ?env = stream"
    "hx_describe ?env = describe" "hx_monotonic ?env = hx_monotonic env" "hx_marker_end ?env = hx_marker_end env"
    "hx_token_end ?env = hx_token_end env" "hx_fresh_token ?env = hx_fresh_token env" "hx_stamp ?env = hx_stamp env"
    by simp_all
  have parts: "body_authz ?env = body_authz env" "image_request ?env = image_request env"
    "run_command ?env = run_command env" "runtime_config ?env = runtime_config env" "ha_snapshot ?env = ha_snapshot env"
    unfolding fun_eq_iff body_authz_def image_request_def run_command_def runtime_config_def ha_snapshot_def config
    by (rule allI refl)+
  have handlers: "assist_turn ?env = assist_turn env" "assist_turn_stream ?env = assist_turn_stream env"
    "vision_describe ?env = vision_describe env" "command_ping ?env = command_ping env"
    "command_dispatch ?env = command_dispatch env" "health float_json ?env = health float_json env"
    "conversation_info ?env = conversation_info env"
    unfolding fun_eq_iff assist_turn_def assist_turn_stream_def vision_describe_def command_ping_def
        command_dispatch_def health_def conversation_info_def config parts same by (rule allI refl)+
  show ?thesis unfolding handle_request_def serve_def config parts handlers by (rule refl)
qed

text \<open>The health page shows of the secrets and the identity options only whether and how many there are.\<close>

theorem health_hides_secrets:
  assumes "identity_summary (cfg\<lparr>nc_local_api_token := t\<rparr>) = identity_summary (cfg'\<lparr>nc_local_api_token := t'\<rparr>)"
    and "cfg' = cfg\<lparr>nc_pairing_token := p, nc_hass_token := h, nc_supervisor_token := s, nc_identity := i,
      nc_local_api_token := l\<rparr>"
    and "p = [] \<longleftrightarrow> nc_pairing_token cfg = []" "h = [] \<longleftrightarrow> nc_hass_token cfg = []" "s = [] \<longleftrightarrow> nc_supervisor_token cfg = []"
      "t = [] \<longleftrightarrow> t' = []"
    and "local_api_token (ap_install app) = t" "app' = app\<lparr>ap_install := inst\<rparr>" "local_api_token inst = t'"
  shows "health float_json (env\<lparr>hx_config := cfg\<rparr>) app = health float_json (env\<lparr>hx_config := cfg'\<rparr>) app'"
  using assms
  by (auto simp: health_def safe_config_def runtime_config_def is_paired_def)

subsection \<open>Examples\<close>

definition bare_env :: sys_env where
  "bare_env = \<lparr>variables = Map.empty, data_is_writable = True, home_data_dir = [], read_float = \<lambda>_. None,
     read_json = \<lambda>_. None, read_json_bytes = \<lambda>_. None\<rparr>"

definition sample_http :: "(unit, nat) http_env" where
  "sample_http = \<lparr>hx_config = load_config bare_env, hx_version = ''1'', hx_monotonic = 0, hx_time = 0,
     hx_hmac = sample_hmac, hx_handlers = (\<lambda>_ _ st. (Ended (Returned JNull), st)), hx_loads = \<lambda>_. None,
     hx_millis = \<lambda>_. 40000, hx_turn = \<lambda>calls. Relay_failed ''TIMEOUT'' ''secret path'' None,
     hx_stream = \<lambda>calls. ([], Broke), hx_describe = \<lambda>calls. Replaced, hx_fetch = \<lambda>_ _. Unreachable [],
     hx_token_end = Written, hx_marker_end = Written, hx_fresh_token = ''T1'', hx_stamp = ''now''\<rparr>"

definition sample_app :: "nat app" where
  "sample_app = \<lparr>ap_install = first_process, ap_pairing = Paired, ap_node_connected = True,
     ap_operator_connected = True, ap_relay = True, ap_node = \<lparr>current_caller = None, world = 0\<rparr>, ap_asked = []\<rparr>"

definition assist_request :: "string \<Rightarrow> request" where
  "assist_request token = \<lparr>in_method = ''POST'', in_path = ''/v1/conversation'', in_remote = None,
     in_authorization = bearer token,
     in_body = Json_body (JObj [(''text'', JStr ''hello''), (''conversation_id'', JStr ''c1'')]),
     in_length = None, in_chunks = []\<rparr>"

lemma sample_token: "local_api_token (ap_install sample_app) = ''T0''"
  by (simp add: sample_app_def sample_defs Let_def)

theorem http_surface_confined_witness:
  "snd (handle_request (\<lambda>_. JNull) sample_http (assist_request ''guess'') sample_app) = sample_app \<and>
   status (fst (handle_request (\<lambda>_. JNull) sample_http (assist_request ''guess'') sample_app)) \<in> {401, 403}"
proof -
  obtain r app' where h: "handle_request (\<lambda>_. JNull) sample_http (assist_request ''guess'') sample_app = (r, app')"
    by (cases "handle_request (\<lambda>_. JNull) sample_http (assist_request ''guess'') sample_app")
  have "in_path (assist_request ''guess'') \<notin> set unauthed_paths"
    "bearer_token (in_authorization (assist_request ''guess'')) \<noteq> Some (local_api_token (ap_install sample_app))"
    by (simp_all add: assist_request_def unauthed_paths_def sample_token)
  with http_surface_confined [OF h] h show ?thesis by simp
qed

theorem relay_messages_hidden_witness:
  "handle_request (\<lambda>_. JNull)
     (sample_http\<lparr>hx_turn := \<lambda>_. Relay_failed ''TIMEOUT'' ''another message'' None, hx_stream := \<lambda>_. ([], Broke),
        hx_describe := \<lambda>_. Replaced\<rparr>) (assist_request ''T0'') sample_app =
   handle_request (\<lambda>_. JNull) sample_http (assist_request ''T0'') sample_app"
  by (rule relay_messages_hidden) (simp_all add: sample_http_def)

end
