(* ===== verification/Spec2Isabelle.thy ===== *)
theory Spec2Isabelle
  imports Prelude Fnmatch Authz Effect_Policy Role_Policy Code_Masking Canonical_JSON
    Spending Approval_Gate Turn_Context Simple_Commands Dispatcher File_System Backup_Store
    Fs_Base Fs_Write Fs_Move_Delete Unified_Diff Fs_Patch
    Py_Case Exec_Approvals System_Run Fs_Read
    Relay_State Turn_Registry Relay_Events Relay_Tools Relay_Stream Gateway_Invoke Gateway_Session
    Ha_Requests Ha_Reads Ha_Services Ha_Addons Ha_Config Ha_Commands Ha_Client
    Http_Base Bootstrap Vision Single_Flight Node_Config Startup Http_Api
begin

text \<open>
  The OpenClaw node for Home Assistant, a Python program under
  \<open>src/app/node/src/openclaw_node\<close>. A gateway sends it commands over a socket; the node decides who is
  calling, whether the role may use the command, whether the call was approved, runs the handler and
  masks secrets in the answer. Handlers read and change files below configured roots, keep a backup of
  everything they overwrite, talk to Home Assistant, and run approved shell commands.

  This development models the node's decisions and its file and execution handlers, and proves that they
  are what they promise to be. Paths below are relative to the package directory.

  \<^bold>\<open>Data.\<close> Python values that cross the wire are \<open>jval\<close> (Prelude): null, booleans, unbounded
  integers, floats, strings, lists and dictionaries. A dictionary is an association list in insertion
  order, which is what Python keeps; \<open>dget\<close>, \<open>dget_or\<close>, \<open>has_key\<close>, \<open>AList.update\<close> and
  \<open>AList.delete\<close> are its operations. A float is the exact ratio with the text \<open>repr\<close> gives it. A
  string is a list of characters below U+0100; where characters above that matter (canonical JSON) the
  text is a list of code points. A handler answers \<open>Returned v\<close> or lets an exception leave,
  \<open>Raised e\<close>. Bytes are lists of naturals.

  \<^bold>\<open>Who may call what.\<close> Authz has the roles of \<open>config.py\<close> and the tables and decisions of \<open>authz.py\<close>: role
  resolution, forbidden sets and their inheritance, the household service table, agent routing.
  Fnmatch is \<open>fnmatch.fnmatchcase\<close>. Effect_Policy is \<open>effect_policy.py\<close> and \<open>caller.py\<close>: the check every
  command passes. Role_Policy proves what a household caller can reach and how prohibitions descend
  through the roles.

  \<^bold>\<open>Secrets.\<close> Code_Masking is the collection and masking of codes in \<open>authz.py\<close> (C6).

  \<^bold>\<open>Approval.\<close> Canonical_JSON is the serialiser of \<open>commands/config_mutation.py\<close>, shown to be injective
  up to key order and number spelling (C7). Approval_Gate is \<open>approval_policy.py\<close> and the marker check:
  exemptions, binding, single use, the one-shot checker of a handler (C8 to C11). Spending states the
  contract of a server whose grants spend a token as a locale; the gate interprets it.

  \<^bold>\<open>Turns.\<close> Turn_Context is the signed actor and the authorization block of a chat turn in \<open>authz.py\<close>
  (C13, C15).

  \<^bold>\<open>Dispatch.\<close> Simple_Commands has strict parameter checking, \<open>ping\<close> and \<open>system.which\<close>; Dispatcher is
  \<open>commands/dispatcher.py\<close> over arbitrary handlers: the registry, the effect check, the caller context,
  exceptions, and masking of what leaves, for synchronous and suspended handlers (C19).

  \<^bold>\<open>Files.\<close> File_System models the tree and the two path disciplines: \<open>safe_path.py\<close> (resolve, then compare
  with the roots) and \<open>safe_fd.py\<close> (walk down without symlinks). Backup_Store is \<open>backup_store.py\<close>; its
  journal contract is a locale that it interprets (C20). Fs_Base has the handler monad over tree, store
  and approval check and the gate all writers share; Fs_Write is \<open>commands/fs_write.py\<close> with
  \<open>fs.restore\<close>, \<open>fs.history\<close> and \<open>fs.diff\<close> (C21, C22); Fs_Move_Delete is \<open>commands/fs_move_delete.py\<close>
  (C25); Unified_Diff is the patch engine and Fs_Patch the handler of \<open>commands/fs_patch.py\<close> (C29,
  C30); Fs_Read is \<open>commands/fs.py\<close> (C28, C40).

  \<^bold>\<open>Execution.\<close> Exec_Approvals is \<open>commands/exec_approvals.py\<close>: the plan validators, the canonical command
  text, the document schema, redaction, policy resolution, the read and write handlers, and the writers
  of the document as an interleaving step relation (C32, C34, C36). System_Run is \<open>commands/system_run.py\<close>
  (C38, C39). Py_Case has the case mapping and the other string methods these parts use.

  \<^bold>\<open>Assist turns.\<close> A conversation turn is relayed to the gateway by \<open>chat_relay.py\<close>. Relay_State is the
  state of one connection's \<open>ChatRelay\<close> as one record, its maps by session key, queues and futures by
  address, and the pure helpers. Turn_Registry has the turns that run and those that ended, the locks, the
  routing of responses and the reset, and every interleaving of turns as an inductive relation.
  Relay_Events is \<open>handle_event\<close>: approval lines, tool progress and assistant messages, with the filters
  for events of earlier runs. Relay_Tools shows that tool frames are well-formed (C33). Relay_Stream has
  \<open>_ensure_session\<close>, the sending of a turn, the stream with its keepalives as steps interleaved with
  events and other turns, and the turn without a stream (C12, C27).

  \<^bold>\<open>The gateway.\<close> Gateway_Invoke is the way of an invoke through \<open>gateway_ws.py\<close>: bounds of the parameters
  (C17), the principal from the hint and the registry of turns (C4), dispatch, one answer frame.
  Gateway_Session is the connection: \<open>pairing.py\<close>, the connect response and the token files (C14, C23),
  responses among events, the drain of queued invokes (C26), the event loop, and the wait before a
  reconnect.

  \<^bold>\<open>Home Assistant.\<close> The commands of \<open>commands/ha.py\<close> over arbitrary answers of Home Assistant and the
  Supervisor, which may depend on all requests before. Ha_Requests has the requests, the handler monad, the
  encoding of caller text in paths, and policies on requests; Ha_Reads the reading commands and their
  filters; Ha_Services the service call, lights, reload and updates; Ha_Addons the add-ons; Ha_Config the
  configuration commands \<open>commands/ha_config_*.py\<close>. Ha_Commands puts
  them behind the dispatcher and states as a locale what a policy must grant for the handlers to keep it;
  its interpretations give what a household turn can reach (C1), what any effect rests on (C2), what a reply
  discloses (C5), and that a claim of complete states is true (C16). Ha_Client is \<open>ha_client.py\<close> over an arbitrary
  transport: where the tokens go (C35), how bodies are bounded, and the frame of a socket call, which the
  attributes of a configuration command can rewrite.

  \<^bold>\<open>The local API.\<close> \<open>http_api.py\<close> serves the companion integration of Home Assistant. Http_Base has requests and
  replies, the bearer check, and the origin check of the bootstrap endpoint with its address parser, shown to
  accept 172.30.32.0 to 172.30.33.255 and nothing else. Bootstrap has the token of this API, its file
  (\<open>token_store.py\<close>), the endpoints that serve and rotate it and what a start does to them, as a step function
  over runs with restarts (C18, C31). Vision is \<open>vision.py\<close>: the prompt around caller text (C37), size, model,
  budgets and failure codes; Single_Flight is its rule that a newer request for a source replaces an older one,
  as an inductive relation of callers, tasks and the event loop (C24). Http_Api has the routes behind the bearer
  check, the commands, Assist turns and image descriptions over an arbitrary relay (C3).

  \<^bold>\<open>Start-up.\<close> Node_Config is \<open>config.py\<close>: environment variables into the configuration record. Startup is
  what \<open>__main__.py\<close> does with it before the connections open: the one-shot reset of the pairing files, which
  touches nothing outside the data directory but the target of a planted marker, the migration of the old device
  token, the first tokens, and the user names of the identity options.

  \<^bold>\<open>Parameters.\<close> What the node gets from outside is an argument of the definitions: the clock, the
  environment, hash functions (theorems that need it assume no collision on the two texts at hand, or
  state the collision as the alternative), codecs, \<open>json.loads\<close>, fresh ids, the text of operating system errors, the attributes
  of files, the outcome of a process, which file operations of the approvals document fail,
  the answers of Home Assistant and the Supervisor, those of the gateway to what the local API asks its relay,
  \<open>float()\<close> on an option, which reads, writes and removals of the data directory are refused. The tree is
  the whole file system; each system call is atomic on it.

  \<^bold>\<open>Bounds and termination.\<close> No definition has fuel. The loops of the source that are not structural
  are functions with a measure: symlink resolution (links not yet seen), the marker scanner, the masking
  substitution, the patch reader, the \<open>pread\<close> loop, and the glob walk over an explicit stack, whose
  measure counts the entries below the directories on it. The masking loop has the source's own limit of
  eight passes.

  \<^bold>\<open>Not modelled.\<close> The challenge and the connect request of \<open>gateway_ws.py\<close> with the key files and signatures of
  \<open>identity.py\<close>, which are a cryptography library's; opening of sockets, the HTTP server and the headers of
  replies; the construction of the parts and their task group in \<open>__main__.py\<close>. The bootstrap endpoints see each
  file of the data directory as one entry, the rest of start-up sees the tree. Logging is left out. The lock file
  of the approvals document is modelled by what it gives, at most one holder; its identity check is not.
  File modes and \<open>fsync\<close> have no counterpart. Characters above U+00FF do not occur in paths and
  parameters. The integration under \<open>custom_components\<close>, the TypeScript plugin and the repository's
  scripts are separate programs.
\<close>

end
